(* ===== verification/Prelude.thy ===== *)
theory Prelude
  imports Complex_Main "HOL-Library.State_Monad" "HOL-Library.Char_ord"
    "HOL-Library.List_Lexorder"
begin

text \<open>
  What every component of the development shares:
  \<^item> JavaScript strings as lists of Latin-1 code units (header values are exactly that, and
    every body string the program looks into is restricted to ASCII by its schema), with
    the string operations the sources use;
  \<^item> decimal printing and reading of integers (template literals and \<open>BigInt(s)\<close>);
  \<^item> the insertion-ordered JavaScript \<open>Map\<close> as an association list with distinct keys;
  \<^item> effects as the state monad over an abstract world, with the rules that lift a fact
    about a step to a fact about a whole computation.
\<close>

named_theorems wf_rules \<open>well-formedness of the check entries a definition produces\<close>
named_theorems io_rules \<open>postconditions of effectful steps, for every world\<close>


section \<open>Strings\<close>

definition code_of :: "char \<Rightarrow> nat" where
  "code_of c = of_char c"

definition lower_char :: "char \<Rightarrow> char" where
  "lower_char c =
     (let n = code_of c in
      if (65 \<le> n \<and> n \<le> 90) \<or> (192 \<le> n \<and> n \<le> 222 \<and> n \<noteq> 215) then char_of (n + 32) else c)"

definition toLowerCase :: "string \<Rightarrow> string" where
  "toLowerCase s = map lower_char s"

definition is_js_space :: "char \<Rightarrow> bool" where
  "is_js_space c = (let n = code_of c in (9 \<le> n \<and> n \<le> 13) \<or> n = 32 \<or> n = 160)"

definition trim :: "string \<Rightarrow> string" where
  "trim s = rev (dropWhile is_js_space (rev (dropWhile is_js_space s)))"

definition startsWith :: "string \<Rightarrow> string \<Rightarrow> bool" where
  "startsWith s p = (take (length p) s = p)"

definition is_digit :: "char \<Rightarrow> bool" where
  "is_digit c = (48 \<le> code_of c \<and> code_of c \<le> 57)"

definition is_lower_hex :: "char \<Rightarrow> bool" where
  "is_lower_hex c = (is_digit c \<or> (97 \<le> code_of c \<and> code_of c \<le> 102))"

definition is_hex :: "char \<Rightarrow> bool" where
  "is_hex c = (is_lower_hex c \<or> (65 \<le> code_of c \<and> code_of c \<le> 70))"

text \<open>\<open>s.split(";", 1)[0]\<close>: what stands before the first occurrence of a separator.\<close>

definition before_char :: "char \<Rightarrow> string \<Rightarrow> string" where
  "before_char c s = takeWhile (\<lambda>x. x \<noteq> c) s"

lemma code_of_less [simp]: "code_of c < 256"
  by (simp add: code_of_def)

lemma code_of_inject [simp]: "code_of c = code_of d \<longleftrightarrow> c = d"
  by (simp add: code_of_def)

lemma code_of_char_of [simp]: "n < 256 \<Longrightarrow> code_of (char_of n) = n"
  by (simp add: code_of_def)

text \<open>Equations over the bits of a character, by which these functions evaluate.\<close>

lemma code_of_bits:
  "code_of (Char b0 b1 b2 b3 b4 b5 b6 b7) =
     of_bool b0 + 2 * of_bool b1 + 4 * of_bool b2 + 8 * of_bool b3 + 16 * of_bool b4 + 32 * of_bool b5 + 64 * of_bool b6 + 128 * of_bool b7"
  by (simp add: code_of_def of_char_def)

lemma lower_char_code [code]:
  "lower_char c = (case c of Char b0 b1 b2 b3 b4 b5 b6 b7 \<Rightarrow>
     if b6 \<and> \<not> b5 \<and>
        (if b7 then \<not> (b0 \<and> b1 \<and> b2 \<and> b3 \<and> b4) \<and> \<not> (b0 \<and> b1 \<and> b2 \<and> \<not> b3 \<and> b4)
         else (b0 \<or> b1 \<or> b2 \<or> b3 \<or> b4) \<and> \<not> (b4 \<and> b3 \<and> (b2 \<or> b1 \<and> b0)))
     then Char b0 b1 b2 b3 b4 True b6 b7 else c)"
proof (cases c)
  case (Char b0 b1 b2 b3 b4 b5 b6 b7)
  let ?n = "code_of (Char b0 b1 b2 b3 b4 b5 b6 b7)"
  have cond: "(65 \<le> ?n \<and> ?n \<le> 90) \<or> (192 \<le> ?n \<and> ?n \<le> 222 \<and> ?n \<noteq> 215) \<longleftrightarrow> b6 \<and> \<not> b5 \<and>
        (if b7 then \<not> (b0 \<and> b1 \<and> b2 \<and> b3 \<and> b4) \<and> \<not> (b0 \<and> b1 \<and> b2 \<and> \<not> b3 \<and> b4)
         else (b0 \<or> b1 \<or> b2 \<or> b3 \<or> b4) \<and> \<not> (b4 \<and> b3 \<and> (b2 \<or> b1 \<and> b0)))"
    by (cases b5; cases b6; cases b7; cases b4; cases b3; cases b2; cases b1; cases b0) (simp_all add: code_of_bits)
  have up: "char_of (?n + 32) = Char b0 b1 b2 b3 b4 True b6 b7" if "\<not> b5"
  proof -
    from that have "?n + 32 = code_of (Char b0 b1 b2 b3 b4 True b6 b7)"
      by (simp add: code_of_bits)
    moreover have "char_of (code_of d) = d" for d by (simp only: code_of_def char_of_char)
    ultimately show ?thesis by metis
  qed
  show ?thesis
  proof (cases "b6 \<and> \<not> b5 \<and>
        (if b7 then \<not> (b0 \<and> b1 \<and> b2 \<and> b3 \<and> b4) \<and> \<not> (b0 \<and> b1 \<and> b2 \<and> \<not> b3 \<and> b4)
         else (b0 \<or> b1 \<or> b2 \<or> b3 \<or> b4) \<and> \<not> (b4 \<and> b3 \<and> (b2 \<or> b1 \<and> b0)))")
    case True
    then have "\<not> b5" by blast
    note up [OF this]
    with True show ?thesis unfolding Char lower_char_def Let_def cond char.case by (simp only: if_True)
  next
    case False
    then show ?thesis unfolding Char lower_char_def Let_def cond char.case by (simp only: if_False)
  qed
qed

lemma digit_codes [code]:
  "is_digit c = (case c of Char b0 b1 b2 b3 b4 b5 b6 b7 \<Rightarrow> b4 \<and> b5 \<and> \<not> b6 \<and> \<not> b7 \<and> (b3 \<longrightarrow> \<not> b2 \<and> \<not> b1))"
  "is_lower_hex c = (case c of Char b0 b1 b2 b3 b4 b5 b6 b7 \<Rightarrow> is_digit c \<or>
     b5 \<and> b6 \<and> \<not> b7 \<and> \<not> b3 \<and> \<not> b4 \<and> (b0 \<or> b1 \<or> b2) \<and> \<not> (b0 \<and> b1 \<and> b2))"
  "is_hex c = (case c of Char b0 b1 b2 b3 b4 b5 b6 b7 \<Rightarrow> is_digit c \<or>
     b6 \<and> \<not> b7 \<and> \<not> b3 \<and> \<not> b4 \<and> (b0 \<or> b1 \<or> b2) \<and> \<not> (b0 \<and> b1 \<and> b2))"
proof -
  obtain b0 b1 b2 b3 b4 b5 b6 b7 where c: "c = Char b0 b1 b2 b3 b4 b5 b6 b7" by (cases c)
  show "is_digit c = (case c of Char b0 b1 b2 b3 b4 b5 b6 b7 \<Rightarrow> b4 \<and> b5 \<and> \<not> b6 \<and> \<not> b7 \<and> (b3 \<longrightarrow> \<not> b2 \<and> \<not> b1))"
    unfolding c char.case is_digit_def
    by (cases b5; cases b6; cases b7; cases b4; cases b3; cases b2; cases b1; cases b0) (simp_all add: code_of_bits)
  show "is_lower_hex c = (case c of Char b0 b1 b2 b3 b4 b5 b6 b7 \<Rightarrow> is_digit c \<or>
     b5 \<and> b6 \<and> \<not> b7 \<and> \<not> b3 \<and> \<not> b4 \<and> (b0 \<or> b1 \<or> b2) \<and> \<not> (b0 \<and> b1 \<and> b2))"
    unfolding c char.case is_lower_hex_def
    by (cases b5; cases b6; cases b7; cases b4; cases b3; cases b2; cases b1; cases b0) (simp_all add: code_of_bits)
  show "is_hex c = (case c of Char b0 b1 b2 b3 b4 b5 b6 b7 \<Rightarrow> is_digit c \<or>
     b6 \<and> \<not> b7 \<and> \<not> b3 \<and> \<not> b4 \<and> (b0 \<or> b1 \<or> b2) \<and> \<not> (b0 \<and> b1 \<and> b2))"
    unfolding c char.case is_hex_def is_lower_hex_def
    by (cases b5; cases b6; cases b7; cases b4; cases b3; cases b2; cases b1; cases b0) (simp_all add: code_of_bits)
qed

lemma lower_char_idem [simp]: "lower_char (lower_char c) = lower_char c"
  by (auto simp: lower_char_def Let_def)

lemma toLowerCase_idem [simp]: "toLowerCase (toLowerCase s) = toLowerCase s"
  by (simp add: toLowerCase_def)

lemma length_toLowerCase [simp]: "length (toLowerCase s) = length s"
  by (simp add: toLowerCase_def)

lemma toLowerCase_Nil [simp]: "toLowerCase [] = []"
  by (simp add: toLowerCase_def)

lemma toLowerCase_append [simp]: "toLowerCase (s @ t) = toLowerCase s @ toLowerCase t"
  by (simp add: toLowerCase_def)

lemma lower_char_digit [simp]: "is_digit c \<Longrightarrow> lower_char c = c"
  by (auto simp: is_digit_def lower_char_def Let_def)

lemma lower_char_lower_hex [simp]: "is_lower_hex c \<Longrightarrow> lower_char c = c"
  by (auto simp: is_lower_hex_def is_digit_def lower_char_def Let_def)

lemma is_lower_hex_lower_char [simp]: "is_hex c \<Longrightarrow> is_lower_hex (lower_char c)"
  by (auto simp: is_hex_def is_lower_hex_def is_digit_def lower_char_def Let_def)

lemma toLowerCase_lower_hex [simp]: "list_all is_lower_hex s \<Longrightarrow> toLowerCase s = s"
  by (induction s) (auto simp: toLowerCase_def)


section \<open>Decimal numerals\<close>

definition digit_char :: "nat \<Rightarrow> char" where
  "digit_char d = char_of (48 + d)"

definition digit_val :: "char \<Rightarrow> nat" where
  "digit_val c = code_of c - 48"

fun show_nat :: "nat \<Rightarrow> string" where
  "show_nat n = (if n < 10 then [digit_char n] else show_nat (n div 10) @ [digit_char (n mod 10)])"

declare show_nat.simps [simp del]

definition show_int :: "int \<Rightarrow> string" where
  "show_int i = (if i < 0 then CHR ''-'' # show_nat (nat (- i)) else show_nat (nat i))"

definition parse_dec :: "string \<Rightarrow> nat" where
  "parse_dec s = foldl (\<lambda>n c. 10 * n + digit_val c) 0 s"

lemma digit_val_char [simp]: "d < 10 \<Longrightarrow> digit_val (digit_char d) = d"
  by (simp add: digit_val_def digit_char_def)

lemma digit_char_0 [simp]: "digit_char 0 = CHR ''0''"
  by (simp add: digit_char_def char_of_eq_iff)

lemma digit_char_eq_0 [simp]: "d < 10 \<Longrightarrow> digit_char d = CHR ''0'' \<longleftrightarrow> d = 0"
  by (metis digit_char_0 digit_val_char zero_less_numeral)

lemma is_digit_digit_char [simp]: "d < 10 \<Longrightarrow> is_digit (digit_char d)"
  by (simp add: is_digit_def digit_char_def)

lemma show_nat_digits: "list_all is_digit (show_nat n)"
proof (induction n rule: show_nat.induct)
  case (1 n)
  then show ?case by (subst show_nat.simps) auto
qed

lemma show_nat_not_Nil [simp]: "show_nat n \<noteq> []"
  by (subst show_nat.simps) simp

lemma parse_dec_show_nat [simp]: "parse_dec (show_nat n) = n"
proof (induction n rule: show_nat.induct)
  case (1 n)
  show ?case
  proof (cases "n < 10")
    case True
    then show ?thesis by (subst show_nat.simps) (simp add: parse_dec_def)
  next
    case False
    with 1 have "parse_dec (show_nat (n div 10)) = n div 10" by simp
    with False show ?thesis
      by (subst show_nat.simps) (simp add: parse_dec_def)
  qed
qed

lemma show_nat_inject [simp]: "show_nat m = show_nat n \<longleftrightarrow> m = n"
  by (metis parse_dec_show_nat)

lemma show_int_not_Nil [simp]: "show_int i \<noteq> []"
  by (simp add: show_int_def)

lemma show_int_nonneg_inject:
  "0 \<le> i \<Longrightarrow> 0 \<le> j \<Longrightarrow> show_int i = show_int j \<longleftrightarrow> i = j"
  by (simp add: show_int_def eq_nat_nat_iff)


section \<open>The insertion-ordered Map\<close>

text \<open>
  \<open>Map.set\<close> keeps the place of a key that is present and appends a new one; iteration
  (and \<open>keys()\<close>) runs in that order.
\<close>

type_synonym ('k, 'v) omap = "('k \<times> 'v) list"

fun omap_set :: "'k \<Rightarrow> 'v \<Rightarrow> ('k, 'v) omap \<Rightarrow> ('k, 'v) omap" where
  "omap_set k v [] = [(k, v)]"
| "omap_set k v (p # m) = (if fst p = k then (k, v) # m else p # omap_set k v m)"

definition omap_delete :: "'k \<Rightarrow> ('k, 'v) omap \<Rightarrow> ('k, 'v) omap" where
  "omap_delete k m = filter (\<lambda>p. fst p \<noteq> k) m"

definition omap_wf :: "('k, 'v) omap \<Rightarrow> bool" where
  "omap_wf m = distinct (map fst m)"

lemma map_of_omap_set [simp]: "map_of (omap_set k v m) = (map_of m)(k \<mapsto> v)"
  by (induction m) auto

lemma map_of_omap_delete [simp]: "map_of (omap_delete k m) = (map_of m)(k := None)"
  by (induction m) (auto simp: omap_delete_def)

lemma keys_omap_set: "fst ` set (omap_set k v m) = insert k (fst ` set m)"
  by (induction m) auto

lemma keys_omap_delete: "fst ` set (omap_delete k m) = fst ` set m - {k}"
  by (auto simp: omap_delete_def)

lemma omap_wf_Nil [simp]: "omap_wf []"
  by (simp add: omap_wf_def)

lemma omap_set_new: "k \<notin> fst ` set m \<Longrightarrow> omap_set k v m = m @ [(k, v)]"
  by (induction m) auto

lemma omap_wf_set [simp]: "omap_wf m \<Longrightarrow> omap_wf (omap_set k v m)"
proof (induction m)
  case (Cons p m)
  then show ?case
    using keys_omap_set [of k v m] by (auto simp: omap_wf_def)
qed (simp add: omap_wf_def)

lemma omap_wf_filter [simp]: "omap_wf m \<Longrightarrow> omap_wf (filter P m)"
  by (simp add: omap_wf_def distinct_map_filter)

lemma omap_wf_delete [simp]: "omap_wf m \<Longrightarrow> omap_wf (omap_delete k m)"
  by (simp add: omap_delete_def)

lemma map_of_filter_wf:
  "omap_wf m \<Longrightarrow> map_of (filter (\<lambda>p. P (fst p) (snd p)) m) k =
     (case map_of m k of None \<Rightarrow> None | Some v \<Rightarrow> if P k v then Some v else None)"
proof (induction m)
  case (Cons p m)
  then have IH: "map_of (filter (\<lambda>p. P (fst p) (snd p)) m) k =
     (case map_of m k of None \<Rightarrow> None | Some v \<Rightarrow> if P k v then Some v else None)"
    by (simp add: omap_wf_def)
  show ?case
  proof (cases "k = fst p")
    case True
    with Cons.prems have "map_of m k = None"
      by (auto simp: omap_wf_def map_of_eq_None_iff)
    with IH True show ?thesis by auto
  next
    case False
    with IH show ?thesis by auto
  qed
qed simp

lemma omap_wf_set_iff: "omap_wf m \<Longrightarrow> (k, v) \<in> set m \<longleftrightarrow> map_of m k = Some v"
  by (auto simp: omap_wf_def)

lemma map_of_drop_None: "omap_wf m \<Longrightarrow> map_of (drop n m) k = Some v \<Longrightarrow> map_of m k = Some v"
  by (metis distinct_drop drop_map in_set_dropD map_of_SomeD omap_wf_def map_of_eq_Some_iff)


section \<open>Effects\<close>

text \<open>
  A call the program awaits (the chain client, the cache, the clock, the signer) is a
  computation over an abstract world \<open>'w\<close>: what it answers may depend on everything that
  happened before, and it may change what is answered later. A call that can throw or
  return an \<open>Err\<close> yields a sum.
\<close>

abbreviation ret :: "'a \<Rightarrow> ('w, 'a) state" where
  "ret \<equiv> State_Monad.return"

definition bindE :: "('w, 'e + 'a) state \<Rightarrow> ('a \<Rightarrow> ('w, 'e + 'b) state) \<Rightarrow> ('w, 'e + 'b) state" where
  "bindE m f = State_Monad.bind m (\<lambda>r. case r of Inl e \<Rightarrow> ret (Inl e) | Inr a \<Rightarrow> f a)"

fun isr :: "'a + 'b \<Rightarrow> bool" where
  "isr (Inl a) = False"
| "isr (Inr b) = True"

lemma isr_case: "isr r \<longleftrightarrow> (case r of Inl e \<Rightarrow> False | Inr a \<Rightarrow> True)"
  by (cases r) simp_all

definition result_of :: "('w, 'a) state \<Rightarrow> 'w \<Rightarrow> 'a" where
  "result_of m w = fst (run_state m w)"

lemma pred_state_ret [simp]: "pred_state P (ret a) \<longleftrightarrow> P a"
  by (auto simp: State_Monad.return_def state.pred_set set_state_iff)

lemma pred_stateD': "pred_state P m \<Longrightarrow> P (fst (run_state m w))"
  by (rule pred_state_run_state)

lemma pred_state_iff: "pred_state P m \<longleftrightarrow> (\<forall>w. P (fst (run_state m w)))"
  by (metis fst_conv pred_stateD' pred_stateI)

lemma pred_state_result: "pred_state P m \<longleftrightarrow> (\<forall>w. P (result_of m w))"
  by (simp add: pred_state_iff result_of_def)

lemma pred_state_True [simp, io_rules]: "pred_state (\<lambda>_. True) m"
  by (simp add: pred_state_iff)

lemma pred_state_bindI:
  "pred_state Q m \<Longrightarrow> (\<And>a. Q a \<Longrightarrow> pred_state P (f a)) \<Longrightarrow> pred_state P (State_Monad.bind m f)"
  by (auto simp: pred_state_iff split: prod.splits) (metis fst_conv)

lemma pred_state_bindE:
  assumes "pred_state (\<lambda>r. case r of Inl e \<Rightarrow> P (Inl e) | Inr a \<Rightarrow> Q a) m"
    and "\<And>a. Q a \<Longrightarrow> pred_state P (f a)"
  shows "pred_state P (bindE m f)"
  unfolding bindE_def
  by (rule pred_state_bindI [OF assms(1)]) (auto split: sum.splits intro: assms(2))

lemma pred_state_bindE_sum:
  assumes "pred_state (case_sum E Q) m" and "\<And>a. Q a \<Longrightarrow> pred_state (case_sum E R) (f a)"
  shows "pred_state (case_sum E R) (bindE m f)"
  unfolding bindE_def
  by (rule pred_state_bindI [OF assms(1)]) (auto split: sum.splits intro: assms(2))

lemma step_any: "pred_state (case_sum (\<lambda>_. True) (\<lambda>_. True)) m"
  by (auto simp: pred_state_iff split: sum.split)

lemma isr_bindE:
  "pred_state isr m \<Longrightarrow> (\<And>a. pred_state isr (f a)) \<Longrightarrow> pred_state isr (bindE m f)"
  unfolding bindE_def by (erule pred_state_bindI) (auto split: sum.splits)

lemma pred_state_mono: "pred_state P m \<Longrightarrow> (\<And>a. P a \<Longrightarrow> Q a) \<Longrightarrow> pred_state Q m"
  by (auto simp: pred_state_iff)

lemma pred_state_conjI: "pred_state P m \<Longrightarrow> pred_state Q m \<Longrightarrow> pred_state (\<lambda>a. P a \<and> Q a) m"
  by (auto simp: pred_state_iff)

lemma pred_state_bind_any:
  "(\<And>a. pred_state P (f a)) \<Longrightarrow> pred_state P (State_Monad.bind m f)"
  by (rule pred_state_bindI [where Q = "\<lambda>_. True"]) simp_all

text \<open>A Hoare triple, for facts that depend on the world a computation starts in.\<close>

definition hoare :: "('w \<Rightarrow> bool) \<Rightarrow> ('w, 'a) state \<Rightarrow> ('a \<Rightarrow> 'w \<Rightarrow> bool) \<Rightarrow> bool" where
  "hoare P m Q \<longleftrightarrow> (\<forall>w. P w \<longrightarrow> (case run_state m w of (a, w') \<Rightarrow> Q a w'))"

lemma hoareI: "(\<And>w a w'. P w \<Longrightarrow> run_state m w = (a, w') \<Longrightarrow> Q a w') \<Longrightarrow> hoare P m Q"
  by (auto simp: hoare_def split: prod.splits)

lemma hoareD: "hoare P m Q \<Longrightarrow> P w \<Longrightarrow> run_state m w = (a, w') \<Longrightarrow> Q a w'"
  by (auto simp: hoare_def)

lemma hoare_ret: "(\<And>w. P w \<Longrightarrow> Q a w) \<Longrightarrow> hoare P (ret a) Q"
  by (auto simp: hoare_def)

lemma hoare_bind:
  "hoare P m R \<Longrightarrow> (\<And>a. hoare (R a) (f a) Q) \<Longrightarrow> hoare P (State_Monad.bind m f) Q"
  by (fastforce simp: hoare_def split: prod.splits)

lemma hoare_bindE:
  assumes "hoare P m (\<lambda>r w. case r of Inl e \<Rightarrow> Q (Inl e) w | Inr a \<Rightarrow> R a w)"
    and "\<And>a. hoare (R a) (f a) Q"
  shows "hoare P (bindE m f) Q"
  unfolding bindE_def
proof (rule hoare_bind [OF assms(1)])
  fix r
  show "hoare (\<lambda>w. case r of Inl e \<Rightarrow> Q (Inl e) w | Inr a \<Rightarrow> R a w)
          (case r of Inl e \<Rightarrow> ret (Inl e) | Inr a \<Rightarrow> f a) Q"
    by (cases r) (auto intro: hoare_ret assms(2))
qed

lemma hoare_weaken:
  "hoare P m Q \<Longrightarrow> (\<And>w. P' w \<Longrightarrow> P w) \<Longrightarrow> (\<And>a w. Q a w \<Longrightarrow> Q' a w) \<Longrightarrow> hoare P' m Q'"
  by (fastforce simp: hoare_def split: prod.splits)

lemma hoare_pred_state: "pred_state Q m \<Longrightarrow> hoare P m (\<lambda>a _. Q a)"
  by (auto simp: hoare_def pred_state_iff split: prod.splits) (metis fst_conv)

lemma run_bindE [simp]:
  "run_state (bindE m f) w =
     (case run_state m w of (Inl e, w') \<Rightarrow> (Inl e, w') | (Inr a, w') \<Rightarrow> run_state (f a) w')"
  by (auto simp: bindE_def split: prod.splits sum.splits)

text \<open>The non-empty suffixes of a list, as viem's \<open>error.walk\<close> visits a cause chain.\<close>

fun exists_suffix :: "('a list \<Rightarrow> bool) \<Rightarrow> 'a list \<Rightarrow> bool" where
  "exists_suffix P [] = False"
| "exists_suffix P (x # xs) = (P (x # xs) \<or> exists_suffix P xs)"

lemma exists_suffix_iff: "exists_suffix P xs \<longleftrightarrow> (\<exists>ys zs. xs = ys @ zs \<and> zs \<noteq> [] \<and> P zs)"
proof (induction xs)
  case (Cons x xs)
  show ?case
    unfolding exists_suffix.simps Cons.IH
    by (auto simp: Cons_eq_append_conv)
qed simp

end
