(* ===== verification/Json.thy ===== *)
theory Json
  imports Prelude
begin

text \<open>
  JavaScript values as the program meets them: numbers with the non-finite values the
  source guards against (a finite double is the rational it denotes), JSON documents, and
  the string-to-\<open>bigint\<close> conversion \<open>BigInt(s)\<close>.
\<close>

section \<open>Numbers\<close>

datatype jsnum = JFin rat | JPosInf | JNegInf | JNaN

fun num_isFinite :: "jsnum \<Rightarrow> bool" where
  "num_isFinite (JFin r) = True"
| "num_isFinite _ = False"

fun num_isInteger :: "jsnum \<Rightarrow> bool" where
  "num_isInteger (JFin r) = (of_int \<lfloor>r\<rfloor> = r)"
| "num_isInteger _ = False"

text \<open>\<open>x <= 0\<close>, \<open>x < n\<close> and \<open>x > n\<close> on a number and an integer; with NaN all are false.\<close>

fun num_le_int :: "jsnum \<Rightarrow> int \<Rightarrow> bool" where
  "num_le_int (JFin r) n = (r \<le> of_int n)"
| "num_le_int JNegInf n = True"
| "num_le_int _ n = False"

fun num_lt_int :: "jsnum \<Rightarrow> int \<Rightarrow> bool" where
  "num_lt_int (JFin r) n = (r < of_int n)"
| "num_lt_int JNegInf n = True"
| "num_lt_int _ n = False"

fun num_gt_int :: "jsnum \<Rightarrow> int \<Rightarrow> bool" where
  "num_gt_int (JFin r) n = (r > of_int n)"
| "num_gt_int JPosInf n = True"
| "num_gt_int _ n = False"

definition MAX_SAFE_INTEGER :: int where
  "MAX_SAFE_INTEGER = 9007199254740991"

definition num_isSafeInteger :: "jsnum \<Rightarrow> bool" where
  "num_isSafeInteger x =
     (num_isInteger x \<and> \<not> num_gt_int x MAX_SAFE_INTEGER \<and> \<not> num_lt_int x (- MAX_SAFE_INTEGER))"

fun num_to_int :: "jsnum \<Rightarrow> int" where
  "num_to_int (JFin r) = \<lfloor>r\<rfloor>"
| "num_to_int _ = 0"

definition num_of_int :: "int \<Rightarrow> jsnum" where
  "num_of_int i = JFin (of_int i)"

lemma num_of_int_simps [simp]:
  "num_isFinite (num_of_int i)" "num_isInteger (num_of_int i)"
  "num_le_int (num_of_int i) n \<longleftrightarrow> i \<le> n" "num_lt_int (num_of_int i) n \<longleftrightarrow> i < n"
  "num_gt_int (num_of_int i) n \<longleftrightarrow> i > n" "num_to_int (num_of_int i) = i"
  by (simp_all add: num_of_int_def)

lemma num_isInteger_iff: "num_isInteger x \<longleftrightarrow> (\<exists>i. x = num_of_int i)"
proof (cases x)
  case (JFin r)
  have "num_isInteger x \<Longrightarrow> x = num_of_int \<lfloor>r\<rfloor>" by (auto simp: JFin num_of_int_def)
  then show ?thesis by auto
qed (auto simp: num_of_int_def)

lemma num_isInteger_eq: "num_isInteger x \<Longrightarrow> num_of_int (num_to_int x) = x"
  by (auto simp: num_isInteger_iff)


section \<open>Documents\<close>

datatype json =
    JNull
  | JBool bool
  | JNum jsnum
  | JStr string
  | JArr "json list"
  | JObj "(string \<times> json) list"

fun json_field :: "json \<Rightarrow> string \<Rightarrow> json option" where
  "json_field (JObj kvs) k = map_of kvs k"
| "json_field _ k = None"

text \<open>
  A strict zod object takes a JSON object whose keys are all among the named ones; that
  each is present is checked where its value is parsed.
\<close>

fun strict_object :: "string list \<Rightarrow> json \<Rightarrow> bool" where
  "strict_object ks (JObj kvs) = list_all (\<lambda>kv. fst kv \<in> set ks) kvs"
| "strict_object ks _ = False"

definition json_parse_field :: "(json \<Rightarrow> 'a option) \<Rightarrow> json \<Rightarrow> string \<Rightarrow> 'a option" where
  "json_parse_field p j k = Option.bind (json_field j k) p"

fun json_string :: "json \<Rightarrow> string option" where
  "json_string (JStr s) = Some s"
| "json_string _ = None"

fun json_list :: "(json \<Rightarrow> 'a option) \<Rightarrow> json \<Rightarrow> 'a list option" where
  "json_list p (JArr js) = those (map p js)"
| "json_list p _ = None"

lemma json_parse_field_Some:
  "json_parse_field p j k = Some v \<longleftrightarrow> (\<exists>jv. json_field j k = Some jv \<and> p jv = Some v)"
  by (auto simp: json_parse_field_def Option.bind_eq_Some_conv)

lemma those_eq_Some_iff: "those xs = Some ys \<longleftrightarrow> xs = map Some ys"
proof (induction xs arbitrary: ys)
  case (Cons x xs)
  show ?case
    using Cons.IH by (cases ys; cases x) (auto split: option.splits)
qed auto

lemma those_map_Some [simp]: "those (map (\<lambda>x. Some (f x)) xs) = Some (map f xs)"
  by (simp add: those_eq_Some_iff)


section \<open>BigInt of a string\<close>

definition radix_val :: "nat \<Rightarrow> char \<Rightarrow> nat option" where
  "radix_val b c =
     (let n = code_of c;
          d = (if 48 \<le> n \<and> n \<le> 57 then n - 48
               else if 97 \<le> n \<and> n \<le> 122 then n - 87
               else if 65 \<le> n \<and> n \<le> 90 then n - 55 else 36)
      in if d < b then Some d else None)"

fun parse_radix :: "nat \<Rightarrow> nat \<Rightarrow> string \<Rightarrow> nat option" where
  "parse_radix b acc [] = Some acc"
| "parse_radix b acc (c # cs) =
     (case radix_val b c of None \<Rightarrow> None | Some d \<Rightarrow> parse_radix b (b * acc + d) cs)"

definition parse_digits :: "nat \<Rightarrow> string \<Rightarrow> nat option" where
  "parse_digits b s = (if s = [] then None else parse_radix b 0 s)"

text \<open>\<open>None\<close> is the \<open>SyntaxError\<close> that \<open>BigInt\<close> throws.\<close>

definition BigInt :: "string \<Rightarrow> int option" where
  "BigInt s =
     (let t = trim s in
      if t = [] then Some 0
      else if take 2 t = ''0x'' \<or> take 2 t = ''0X'' then map_option int (parse_digits 16 (drop 2 t))
      else if take 2 t = ''0o'' \<or> take 2 t = ''0O'' then map_option int (parse_digits 8 (drop 2 t))
      else if take 2 t = ''0b'' \<or> take 2 t = ''0B'' then map_option int (parse_digits 2 (drop 2 t))
      else if hd t = CHR ''-'' then map_option (\<lambda>n. - int n) (parse_digits 10 (tl t))
      else if hd t = CHR ''+'' then map_option int (parse_digits 10 (tl t))
      else map_option int (parse_digits 10 t))"

lemma radix_val_digit: "is_digit c \<Longrightarrow> radix_val 10 c = Some (digit_val c)"
  by (auto simp: is_digit_def radix_val_def digit_val_def Let_def)

lemma parse_radix_digits:
  "list_all is_digit s \<Longrightarrow> parse_radix 10 acc s = Some (foldl (\<lambda>n c. 10 * n + digit_val c) acc s)"
  by (induction s arbitrary: acc) (auto simp: radix_val_digit)

lemma parse_digits_dec:
  "list_all is_digit s \<Longrightarrow> s \<noteq> [] \<Longrightarrow> parse_digits 10 s = Some (parse_dec s)"
  by (simp add: parse_digits_def parse_radix_digits parse_dec_def)

lemma digit_not_space: "is_digit c \<Longrightarrow> \<not> is_js_space c"
  by (auto simp: is_digit_def is_js_space_def Let_def)

lemma trim_id: "list_all (\<lambda>c. \<not> is_js_space c) s \<Longrightarrow> trim s = s"
proof -
  assume a: "list_all (\<lambda>c. \<not> is_js_space c) s"
  then have "dropWhile is_js_space s = s" by (cases s) auto
  moreover from a have "dropWhile is_js_space (rev s) = rev s"
    by (cases "rev s") (auto simp: list_all_iff dest: arg_cong [where f = set])
  ultimately show ?thesis by (simp add: trim_def)
qed

lemma trim_digits: "list_all is_digit s \<Longrightarrow> trim s = s"
  by (rule trim_id) (auto simp: list_all_iff digit_not_space)

lemma BigInt_digits: "list_all is_digit s \<Longrightarrow> s \<noteq> [] \<Longrightarrow> BigInt s = Some (int (parse_dec s))"
proof -
  assume d: "list_all is_digit s" and ne: "s \<noteq> []"
  have np: "take 2 s \<noteq> [a, b]" if "\<not> is_digit b" for a b
  proof
    assume "take 2 s = [a, b]"
    then have "b \<in> set s" by (metis in_set_takeD list.set_intros(1) list.set_intros(2))
    with d that show False by (auto simp: list_all_iff)
  qed
  have hd: "hd s \<noteq> c" if "\<not> is_digit c" for c
    using d ne that by (cases s) auto
  show ?thesis
    using d ne np hd
    by (simp add: BigInt_def trim_digits parse_digits_dec is_digit_def code_of_def)
qed

lemma BigInt_show_nat [simp]: "BigInt (show_nat n) = Some (int n)"
  by (simp add: BigInt_digits show_nat_digits)

end
