(* ===== verification/Errors.thy ===== *)
theory Errors
  imports Json
begin

text \<open>
  Check entries (\<open>lib/checks.ts\<close>, \<open>schemas/checks.ts\<close>), the tagged error union
  (\<open>errors/tagged.ts\<close>) and its mapping to the wire envelope (\<open>errors/envelope.ts\<close>).
  An error class is a constructor; the fields a class declares are its arguments.
\<close>

section \<open>Check entries\<close>

record check_entry =
  ce_description :: string
  ce_passed :: bool
  ce_skipped :: bool
  ce_reason :: "string option"

definition passed :: "string \<Rightarrow> check_entry" where
  "passed d = \<lparr>ce_description = d, ce_passed = True, ce_skipped = False, ce_reason = None\<rparr>"

definition skipped :: "string \<Rightarrow> check_entry" where
  "skipped d = \<lparr>ce_description = d, ce_passed = True, ce_skipped = True, ce_reason = None\<rparr>"

definition failed :: "string \<Rightarrow> string \<Rightarrow> check_entry" where
  "failed d r = \<lparr>ce_description = d, ce_passed = False, ce_skipped = False, ce_reason = Some r\<rparr>"

text \<open>
  What the response schema \<open>zCheckEntry\<close> asks of an entry: a non-empty description and,
  where a reason is given, a non-empty reason; and what its field documentation adds: a
  skipped entry passes, a failing one has a reason.
\<close>

definition zCheckEntry :: "check_entry \<Rightarrow> bool" where
  "zCheckEntry e \<longleftrightarrow> ce_description e \<noteq> [] \<and> ce_reason e \<noteq> Some []"

definition wf_entry :: "check_entry \<Rightarrow> bool" where
  "wf_entry e \<longleftrightarrow> zCheckEntry e \<and> (ce_skipped e \<longrightarrow> ce_passed e) \<and> (\<not> ce_passed e \<longrightarrow> ce_reason e \<noteq> None)"

lemma ce_simps [simp]:
  "ce_description (passed d) = d" "ce_passed (passed d)" "\<not> ce_skipped (passed d)" "ce_reason (passed d) = None"
  "ce_description (skipped d) = d" "ce_passed (skipped d)" "ce_skipped (skipped d)" "ce_reason (skipped d) = None"
  "ce_description (failed d r) = d" "\<not> ce_passed (failed d r)" "\<not> ce_skipped (failed d r)" "ce_reason (failed d r) = Some r"
  by (simp_all add: passed_def skipped_def failed_def)

lemma wf_passed [wf_rules, simp]: "wf_entry (passed d) \<longleftrightarrow> d \<noteq> []"
  by (auto simp: wf_entry_def zCheckEntry_def)

lemma wf_skipped [wf_rules, simp]: "wf_entry (skipped d) \<longleftrightarrow> d \<noteq> []"
  by (auto simp: wf_entry_def zCheckEntry_def)

lemma wf_failed [wf_rules, simp]: "wf_entry (failed d r) \<longleftrightarrow> d \<noteq> [] \<and> r \<noteq> []"
  by (auto simp: wf_entry_def zCheckEntry_def)

lemma wf_if [wf_rules]: "(c \<Longrightarrow> wf_entry a) \<Longrightarrow> (\<not> c \<Longrightarrow> wf_entry b) \<Longrightarrow> wf_entry (if c then a else b)"
  by simp


section \<open>Tagged errors\<close>

type_synonym details = "(string \<times> json) list"

datatype upstream_status = HTTP502 | HTTP503

datatype guardian_error =
    UnauthenticatedError string
  | ForbiddenError string
  | BadRequestError string "details option"
  | UnsupportedMediaTypeError string
  | PayloadTooLargeError string
  | UnsupportedChainError string int
  | NotFoundError string "details option"
  | StateConflictError string "check_entry list"
  | ValidationFailedError string "check_entry list"
  | RateLimitedError string int
  | InternalError string
  | UpstreamUnavailableError string upstream_status "int option"

text \<open>The part of the union a validate-and-sign function may return.\<close>

fun is_SigningError :: "guardian_error \<Rightarrow> bool" where
  "is_SigningError (ValidationFailedError m cs) = True"
| "is_SigningError (StateConflictError m cs) = True"
| "is_SigningError (NotFoundError m d) = True"
| "is_SigningError (UnsupportedChainError m c) = True"
| "is_SigningError (UpstreamUnavailableError m s r) = True"
| "is_SigningError (InternalError m) = True"
| "is_SigningError _ = False"

definition upstream503 :: "string \<Rightarrow> guardian_error" where
  "upstream503 m = UpstreamUnavailableError m HTTP503 None"


section \<open>The error envelope\<close>

datatype error_code =
    EC_unauthenticated | EC_forbidden | EC_bad_request | EC_not_found | EC_unsupported_chain
  | EC_state_conflict | EC_validation_failed | EC_rate_limited | EC_internal_error
  | EC_upstream_unavailable

record error_envelope =
  env_error :: error_code
  env_message :: string
  env_requestId :: string
  env_details :: "details option"
  env_checks :: "check_entry list option"

record resolved_error =
  re_status :: int
  re_envelope :: error_envelope
  re_retryAfterSeconds :: "int option"

definition envelope :: "error_code \<Rightarrow> string \<Rightarrow> string \<Rightarrow> details option \<Rightarrow> error_envelope" where
  "envelope code m rid d =
     \<lparr>env_error = code, env_message = m, env_requestId = rid, env_details = d, env_checks = None\<rparr>"

definition envelopeWithChecks ::
    "error_code \<Rightarrow> string \<Rightarrow> string \<Rightarrow> check_entry list \<Rightarrow> error_envelope" where
  "envelopeWithChecks code m rid cs =
     \<lparr>env_error = code, env_message = m, env_requestId = rid, env_details = None, env_checks = Some cs\<rparr>"

definition resolved :: "int \<Rightarrow> error_envelope \<Rightarrow> int option \<Rightarrow> resolved_error" where
  "resolved st env ra = \<lparr>re_status = st, re_envelope = env, re_retryAfterSeconds = ra\<rparr>"

fun upstream_status_code :: "upstream_status \<Rightarrow> int" where
  "upstream_status_code HTTP502 = 502"
| "upstream_status_code HTTP503 = 503"

fun resolveError :: "guardian_error \<Rightarrow> string \<Rightarrow> resolved_error" where
  "resolveError (UnauthenticatedError m) rid =
     resolved 401 (envelope EC_unauthenticated m rid None) None"
| "resolveError (ForbiddenError m) rid = resolved 403 (envelope EC_forbidden m rid None) None"
| "resolveError (BadRequestError m d) rid = resolved 400 (envelope EC_bad_request m rid d) None"
| "resolveError (UnsupportedMediaTypeError m) rid =
     resolved 415 (envelope EC_bad_request m rid None) None"
| "resolveError (PayloadTooLargeError m) rid =
     resolved 413 (envelope EC_bad_request m rid None) None"
| "resolveError (UnsupportedChainError m c) rid =
     resolved 400 (envelope EC_unsupported_chain m rid
       (Some [(''chainId'', JNum (num_of_int c))])) None"
| "resolveError (NotFoundError m d) rid = resolved 404 (envelope EC_not_found m rid d) None"
| "resolveError (StateConflictError m cs) rid =
     resolved 409 (envelopeWithChecks EC_state_conflict m rid cs) None"
| "resolveError (ValidationFailedError m cs) rid =
     resolved 422 (envelopeWithChecks EC_validation_failed m rid cs) None"
| "resolveError (RateLimitedError m ra) rid =
     resolved 429 (envelope EC_rate_limited m rid None) (Some ra)"
| "resolveError (InternalError m) rid =
     resolved 500 (envelope EC_internal_error m rid None) None"
| "resolveError (UpstreamUnavailableError m st ra) rid =
     resolved (upstream_status_code st) (envelope EC_upstream_unavailable m rid None) ra"

text \<open>The statuses the schemas document (\<open>errorResponses\<close> in \<open>schemas/responses.ts\<close>).\<close>

definition errorResponses :: "int list" where
  "errorResponses = [400, 401, 403, 404, 409, 413, 415, 422, 429, 500, 502, 503]"

text \<open>The code the documentation of each status announces.\<close>

fun documented_codes :: "int \<Rightarrow> error_code list" where
  "documented_codes st =
     (if st = 400 then [EC_bad_request, EC_unsupported_chain]
      else if st = 401 then [EC_unauthenticated]
      else if st = 403 then [EC_forbidden]
      else if st = 404 then [EC_not_found]
      else if st = 409 then [EC_state_conflict]
      else if st = 413 \<or> st = 415 then [EC_bad_request]
      else if st = 422 then [EC_validation_failed]
      else if st = 429 then [EC_rate_limited]
      else if st = 500 then [EC_internal_error]
      else if st = 502 \<or> st = 503 then [EC_upstream_unavailable]
      else [])"

lemmas envelope_defs = resolved_def envelope_def envelopeWithChecks_def

text \<open>
  Every tagged error becomes an envelope with one of the documented statuses and, for that status,
  the documented code; the envelope echoes the request id; \<open>checks\<close> is present exactly for
  409 and 422, and \<open>Retry-After\<close> only ever comes with 429, 502 or 503.
\<close>

theorem resolveError_documented:
  "re_status (resolveError e rid) \<in> set errorResponses \<and>
   env_error (re_envelope (resolveError e rid)) \<in> set (documented_codes (re_status (resolveError e rid))) \<and>
   env_requestId (re_envelope (resolveError e rid)) = rid \<and>
   (env_checks (re_envelope (resolveError e rid)) = None \<longleftrightarrow> re_status (resolveError e rid) \<notin> {409, 422}) \<and>
   (re_retryAfterSeconds (resolveError e rid) = None \<or> re_status (resolveError e rid) \<in> {429, 502, 503})"
proof (cases e)
  case (UpstreamUnavailableError m st ra)
  then show ?thesis by (cases st) (auto simp: envelope_defs errorResponses_def)
qed (auto simp: envelope_defs errorResponses_def)

end
