(* ===== verification/Schemas.thy ===== *)
theory Schemas
  imports Errors
begin

text \<open>
  The zod schemas of \<open>packages/guardian/src/schemas\<close>: the primitives with their regular
  expressions, and the four request bodies. A schema is a function from the JSON document
  to the value the route handler receives (with the schema's transforms applied), \<open>None\<close>
  where zod rejects. Request headers are \<open>zClientName\<close> and \<open>zSemver\<close> in this file too.
\<close>

section \<open>Regular expressions\<close>

definition hex0x :: "nat \<Rightarrow> string \<Rightarrow> bool" where
  "hex0x n s \<longleftrightarrow> take 2 s = ''0x'' \<and> length s = n + 2 \<and> list_all is_hex (drop 2 s)"

definition hex0x_lower :: "nat \<Rightarrow> string \<Rightarrow> bool" where
  "hex0x_lower n s \<longleftrightarrow> take 2 s = ''0x'' \<and> length s = n + 2 \<and> list_all is_lower_hex (drop 2 s)"

definition ADDRESS_RE :: "string \<Rightarrow> bool" where
  "ADDRESS_RE = hex0x 40"

definition HASH32_RE :: "string \<Rightarrow> bool" where
  "HASH32_RE = hex0x 64"

definition SIGNATURE_RE :: "string \<Rightarrow> bool" where
  "SIGNATURE_RE = hex0x 130"

definition UINT_DECIMAL_RE :: "string \<Rightarrow> bool" where
  "UINT_DECIMAL_RE s \<longleftrightarrow> s = ''0'' \<or> (s \<noteq> [] \<and> list_all is_digit s \<and> hd s \<noteq> CHR ''0'')"

definition is_alnum :: "char \<Rightarrow> bool" where
  "is_alnum c =
     (let n = code_of c in is_digit c \<or> (65 \<le> n \<and> n \<le> 90) \<or> (97 \<le> n \<and> n \<le> 122))"

definition CLIENT_NAME_RE :: "string \<Rightarrow> bool" where
  "CLIENT_NAME_RE s \<longleftrightarrow> 1 \<le> length s \<and> length s \<le> 64 \<and>
     list_all (\<lambda>c. is_alnum c \<or> c = CHR ''.'' \<or> c = CHR ''_'' \<or> c = CHR ''-'') s"

text \<open>\<open>[0-9a-f]{8}-[0-9a-f]{4}-\<dots>\<close>: groups of hex digits joined by hyphens.\<close>

fun hex_groups :: "nat list \<Rightarrow> string \<Rightarrow> bool" where
  "hex_groups [] s = (s = [])"
| "hex_groups [n] s = (length s = n \<and> list_all is_lower_hex s)"
| "hex_groups (n # ns) s =
     (list_all is_lower_hex (take n s) \<and> n < length s \<and> s ! n = CHR ''-'' \<and>
      hex_groups ns (drop (Suc n) s))"

definition UUID_RE :: "string \<Rightarrow> bool" where
  "UUID_RE s = hex_groups [8, 4, 4, 4, 12] s"

lemma hex0x_toLowerCase: "hex0x n s \<Longrightarrow> hex0x_lower n (toLowerCase s)"
proof -
  assume h: "hex0x n s"
  then have "take 2 (toLowerCase s) = ''0x''"
    by (auto simp: hex0x_def toLowerCase_def take_map lower_char_def code_of_def)
  moreover from h have "list_all is_lower_hex (drop 2 (toLowerCase s))"
    by (auto simp: hex0x_def toLowerCase_def drop_map list_all_iff)
  ultimately show ?thesis using h by (simp add: hex0x_lower_def hex0x_def)
qed

lemma hex0x_lower_hex0x: "hex0x_lower n s \<Longrightarrow> hex0x n s"
  by (auto simp: hex0x_lower_def hex0x_def is_hex_def list_all_iff)

lemma hex0x_lower_toLowerCase: "hex0x_lower n s \<Longrightarrow> toLowerCase s = s"
proof -
  assume h: "hex0x_lower n s"
  then have s: "s = ''0x'' @ drop 2 s"
    by (metis append_take_drop_id hex0x_lower_def)
  from h have "toLowerCase (drop 2 s) = drop 2 s" by (simp add: hex0x_lower_def)
  moreover have "toLowerCase ''0x'' = ''0x''"
    by (simp add: toLowerCase_def lower_char_def code_of_def)
  ultimately show ?thesis by (metis s toLowerCase_append)
qed


section \<open>Canonical decimals\<close>

lemma show_nat_canonical: "UINT_DECIMAL_RE (show_nat n)"
proof (induction n rule: show_nat.induct)
  case (1 n)
  show ?case
  proof (cases "n < 10")
    case True
    then show ?thesis
      by (subst show_nat.simps) (auto simp: UINT_DECIMAL_RE_def)
  next
    case False
    have ne: "show_nat (n div 10) \<noteq> ''0''"
    proof
      assume "show_nat (n div 10) = ''0''"
      then have "parse_dec (show_nat (n div 10)) = parse_dec ''0''" by simp
      moreover have "parse_dec ''0'' = 0"
        by (simp add: parse_dec_def digit_val_def code_of_def)
      ultimately show False using False by simp
    qed
    with 1 False have "hd (show_nat (n div 10)) \<noteq> CHR ''0''"
      by (simp add: UINT_DECIMAL_RE_def)
    with False show ?thesis
      using show_nat_digits [of n]
      by (subst (asm) show_nat.simps, subst show_nat.simps) (simp add: UINT_DECIMAL_RE_def)
  qed
qed

lemma parse_dec_snoc: "parse_dec (s @ [c]) = 10 * parse_dec s + digit_val c"
  by (simp add: parse_dec_def)

lemma digit_val_less: "is_digit c \<Longrightarrow> digit_val c < 10"
  by (auto simp: is_digit_def digit_val_def)

lemma digit_char_val: "is_digit c \<Longrightarrow> digit_char (digit_val c) = c"
  by (auto simp: is_digit_def digit_val_def digit_char_def code_of_def)

lemma canonical_show_nat: "UINT_DECIMAL_RE s \<Longrightarrow> show_nat (parse_dec s) = s"
proof (induction s rule: rev_induct)
  case Nil
  then show ?case by (simp add: UINT_DECIMAL_RE_def)
next
  case (snoc c s)
  show ?case
  proof (cases "s = []")
    case True
    with snoc.prems have "is_digit c"
      by (auto simp: UINT_DECIMAL_RE_def is_digit_def code_of_def)
    with True show ?thesis
      by (subst show_nat.simps) (simp add: parse_dec_def digit_val_less digit_char_val)
  next
    case False
    with snoc.prems have d: "list_all is_digit s" "is_digit c" "hd s \<noteq> CHR ''0''"
      by (auto simp: UINT_DECIMAL_RE_def)
    with False have re: "UINT_DECIMAL_RE s" by (simp add: UINT_DECIMAL_RE_def)
    have nz: "parse_dec s \<noteq> 0"
    proof
      assume "parse_dec s = 0"
      with snoc.IH [OF re] have "s = show_nat 0" by simp
      then have "s = ''0''" by (subst (asm) show_nat.simps) simp
      with d(3) show False by simp
    qed
    have "digit_val c < 10" using d(2) by (rule digit_val_less)
    with nz snoc.IH [OF re] d(2) show ?thesis
      by (subst show_nat.simps) (simp add: parse_dec_snoc digit_char_val)
  qed
qed

lemma canonical_iff: "UINT_DECIMAL_RE s \<longleftrightarrow> (\<exists>n. s = show_nat n)"
  using canonical_show_nat show_nat_canonical by metis

lemma UINT_DECIMAL_digits: "UINT_DECIMAL_RE s \<Longrightarrow> list_all is_digit s \<and> s \<noteq> []"
  by (auto simp: UINT_DECIMAL_RE_def is_digit_def code_of_def)

lemma length_show_nat_bound: "n < 10 ^ k \<Longrightarrow> 0 < k \<Longrightarrow> length (show_nat n) \<le> k"
proof (induction n arbitrary: k rule: show_nat.induct)
  case (1 n)
  show ?case
  proof (cases "n < 10")
    case True
    with "1.prems" show ?thesis by (subst show_nat.simps) simp
  next
    case False
    have "1 < k"
    proof (rule ccontr)
      assume "\<not> 1 < k"
      with "1.prems" have "k = 1" by simp
      with "1.prems"(1) False show False by simp
    qed
    then obtain j where k: "k = Suc j" "0 < j"
      by (cases k) auto
    with "1.prems"(1) have "n div 10 < 10 ^ j" by (simp add: div_less_iff_less_mult)
    with "1.IH" False k have "length (show_nat (n div 10)) \<le> j" by blast
    with False k show ?thesis by (subst show_nat.simps) simp
  qed
qed


section \<open>Unsigned integers as strings\<close>

definition MAX_UINT256 :: int where
  "MAX_UINT256 = 2 ^ 256 - 1"

definition MAX_UINT256_DECIMAL_DIGITS :: nat where
  "MAX_UINT256_DECIMAL_DIGITS = 78"

definition uint256Of :: "string \<Rightarrow> int option" where
  "uint256Of v = (if length v > MAX_UINT256_DECIMAL_DIGITS then None else BigInt v)"

definition zUintString :: "json \<Rightarrow> string option" where
  "zUintString j =
     (case json_string j of None \<Rightarrow> None | Some v \<Rightarrow>
        if UINT_DECIMAL_RE v \<and> (case uint256Of v of None \<Rightarrow> False | Some n \<Rightarrow> n \<le> MAX_UINT256)
        then Some v else None)"

definition zUintStringBelowMax :: "json \<Rightarrow> string option" where
  "zUintStringBelowMax j =
     (case json_string j of None \<Rightarrow> None | Some v \<Rightarrow>
        if UINT_DECIMAL_RE v \<and> (case uint256Of v of None \<Rightarrow> False | Some n \<Rightarrow> n < MAX_UINT256)
        then Some v else None)"

lemma uint256Of_show_nat:
  "int n \<le> MAX_UINT256 \<Longrightarrow> uint256Of (show_nat n) = Some (int n)"
proof -
  assume "int n \<le> MAX_UINT256"
  then have "n < 10 ^ 78" by (simp add: MAX_UINT256_def)
  then have "length (show_nat n) \<le> 78" by (rule length_show_nat_bound) simp
  then show ?thesis by (simp add: uint256Of_def MAX_UINT256_DECIMAL_DIGITS_def)
qed

lemma uint256Of_canonical:
  "UINT_DECIMAL_RE v \<Longrightarrow> uint256Of v = Some n \<Longrightarrow> \<exists>m. v = show_nat m \<and> n = int m"
  by (auto simp: canonical_iff uint256Of_def split: if_splits)

text \<open>
  A uint string is accepted exactly when it is the canonical decimal of a number below
  \<open>2 ^ 256\<close>: the digit-count guard that runs before the conversion rejects no such number,
  and no other spelling of a number (leading zeros, signs, hexadecimal, spaces) gets in.
\<close>

theorem zUintString_iff:
  "zUintString j = Some v \<longleftrightarrow> j = JStr v \<and> (\<exists>n. v = show_nat n \<and> int n < 2 ^ 256)"
proof (cases j)
  case (JStr s)
  show ?thesis
  proof
    assume "zUintString j = Some v"
    with JStr show "j = JStr v \<and> (\<exists>n. v = show_nat n \<and> int n < 2 ^ 256)"
      by (auto simp: zUintString_def MAX_UINT256_def dest!: uint256Of_canonical
          split: if_splits option.splits)
  next
    assume "j = JStr v \<and> (\<exists>n. v = show_nat n \<and> int n < 2 ^ 256)"
    then show "zUintString j = Some v"
      by (auto simp: zUintString_def show_nat_canonical uint256Of_show_nat MAX_UINT256_def)
  qed
qed (auto simp: zUintString_def)

text \<open>The nonce schema differs in the sentinel only.\<close>

lemma zUintStringBelowMax_iff:
  "zUintStringBelowMax j = Some v \<longleftrightarrow> j = JStr v \<and> (\<exists>n. v = show_nat n \<and> int n < 2 ^ 256 - 1)"
proof (cases j)
  case (JStr s)
  show ?thesis
  proof
    assume "zUintStringBelowMax j = Some v"
    with JStr show "j = JStr v \<and> (\<exists>n. v = show_nat n \<and> int n < 2 ^ 256 - 1)"
      by (auto simp: zUintStringBelowMax_def MAX_UINT256_def dest!: uint256Of_canonical
          split: if_splits option.splits)
  next
    assume "j = JStr v \<and> (\<exists>n. v = show_nat n \<and> int n < 2 ^ 256 - 1)"
    then show "zUintStringBelowMax j = Some v"
      by (auto simp: zUintStringBelowMax_def show_nat_canonical uint256Of_show_nat MAX_UINT256_def)
  qed
qed (auto simp: zUintStringBelowMax_def)


section \<open>Addresses, chain ids, deadlines\<close>

definition zAddress :: "json \<Rightarrow> string option" where
  "zAddress j =
     (case json_string j of None \<Rightarrow> None | Some v \<Rightarrow> if ADDRESS_RE v then Some (toLowerCase v) else None)"

definition zChainId :: "json \<Rightarrow> int option" where
  "zChainId j =
     (case j of JNum x \<Rightarrow>
        if num_isSafeInteger x \<and> num_gt_int x 0 then Some (num_to_int x) else None
      | _ \<Rightarrow> None)"

definition zDeadlineSeconds :: "json \<Rightarrow> int option" where
  "zDeadlineSeconds j =
     (case j of JNum x \<Rightarrow>
        if num_isSafeInteger x \<and> \<not> num_lt_int x 0 then Some (num_to_int x) else None
      | _ \<Rightarrow> None)"

definition is_address :: "string \<Rightarrow> bool" where
  "is_address a = hex0x_lower 40 a"

lemma is_address_toLowerCase [simp]: "is_address a \<Longrightarrow> toLowerCase a = a"
  by (simp add: is_address_def hex0x_lower_toLowerCase)

lemma zAddress_address: "zAddress j = Some a \<Longrightarrow> is_address a"
  by (cases j) (auto simp: zAddress_def ADDRESS_RE_def is_address_def hex0x_toLowerCase split: if_splits)

lemma zAddress_idem: "is_address a \<Longrightarrow> zAddress (JStr a) = Some a"
  by (simp add: zAddress_def ADDRESS_RE_def is_address_def hex0x_lower_hex0x hex0x_lower_toLowerCase)

lemma zChainId_iff:
  "zChainId j = Some n \<longleftrightarrow> j = JNum (num_of_int n) \<and> 1 \<le> n \<and> n \<le> MAX_SAFE_INTEGER"
  by (cases j) (auto simp: zChainId_def num_isSafeInteger_def num_isInteger_iff MAX_SAFE_INTEGER_def
      split: if_splits)

lemma zDeadlineSeconds_iff:
  "zDeadlineSeconds j = Some n \<longleftrightarrow> j = JNum (num_of_int n) \<and> 0 \<le> n \<and> n \<le> MAX_SAFE_INTEGER"
  by (cases j) (auto simp: zDeadlineSeconds_def num_isSafeInteger_def num_isInteger_iff MAX_SAFE_INTEGER_def
      split: if_splits)

lemma zChainId_num [simp]:
  "1 \<le> n \<Longrightarrow> n \<le> MAX_SAFE_INTEGER \<Longrightarrow> zChainId (JNum (num_of_int n)) = Some n"
  by (simp add: zChainId_iff)

lemma zDeadlineSeconds_num [simp]:
  "0 \<le> n \<Longrightarrow> n \<le> MAX_SAFE_INTEGER \<Longrightarrow> zDeadlineSeconds (JNum (num_of_int n)) = Some n"
  by (simp add: zDeadlineSeconds_iff)


section \<open>Request bodies\<close>

record intent_ref =
  ir_id :: string

definition zIntentRef :: "json \<Rightarrow> intent_ref option" where
  "zIntentRef j =
     (if strict_object [''id''] j
      then map_option (\<lambda>i. \<lparr>ir_id = i\<rparr>) (json_parse_field zUintString j ''id'')
      else None)"

record intent_request_binding_body =
  rb_chainId :: int
  rb_facility :: string
  rb_intent :: intent_ref
  rb_requestContract :: string
  rb_deadline :: int

definition zIntentRequestBindingBody :: "json \<Rightarrow> intent_request_binding_body option" where
  "zIntentRequestBindingBody j =
     (if strict_object [''chainId'', ''facility'', ''intent'', ''requestContract'', ''deadline''] j
      then do {
        c \<leftarrow> json_parse_field zChainId j ''chainId'';
        f \<leftarrow> json_parse_field zAddress j ''facility'';
        i \<leftarrow> json_parse_field zIntentRef j ''intent'';
        r \<leftarrow> json_parse_field zAddress j ''requestContract'';
        d \<leftarrow> json_parse_field zDeadlineSeconds j ''deadline'';
        Some \<lparr>rb_chainId = c, rb_facility = f, rb_intent = i, rb_requestContract = r, rb_deadline = d\<rparr>
      } else None)"

record intent_fund_binding_body =
  fb_chainId :: int
  fb_facility :: string
  fb_intent :: intent_ref
  fb_fundContract :: string
  fb_positionManager :: string
  fb_deadline :: int

definition zIntentFundBindingBody :: "json \<Rightarrow> intent_fund_binding_body option" where
  "zIntentFundBindingBody j =
     (if strict_object [''chainId'', ''facility'', ''intent'', ''fundContract'', ''positionManager'', ''deadline''] j
      then do {
        c \<leftarrow> json_parse_field zChainId j ''chainId'';
        f \<leftarrow> json_parse_field zAddress j ''facility'';
        i \<leftarrow> json_parse_field zIntentRef j ''intent'';
        r \<leftarrow> json_parse_field zAddress j ''fundContract'';
        p \<leftarrow> json_parse_field zAddress j ''positionManager'';
        d \<leftarrow> json_parse_field zDeadlineSeconds j ''deadline'';
        Some \<lparr>fb_chainId = c, fb_facility = f, fb_intent = i, fb_fundContract = r,
              fb_positionManager = p, fb_deadline = d\<rparr>
      } else None)"

record swap_leg =
  leg_intent :: intent_ref
  leg_asset :: string
  leg_amount :: string

definition zSwapLeg :: "json \<Rightarrow> swap_leg option" where
  "zSwapLeg j =
     (if strict_object [''intent'', ''asset'', ''amount''] j
      then do {
        i \<leftarrow> json_parse_field zIntentRef j ''intent'';
        a \<leftarrow> json_parse_field zAddress j ''asset'';
        m \<leftarrow> json_parse_field zUintString j ''amount'';
        Some \<lparr>leg_intent = i, leg_asset = a, leg_amount = m\<rparr>
      } else None)"

record intent_swap_body =
  sw_chainId :: int
  sw_facility :: string
  sw_legs :: "swap_leg list"
  sw_deadline :: int

definition zSwapLegs :: "json \<Rightarrow> swap_leg list option" where
  "zSwapLegs j =
     (case json_list zSwapLeg j of None \<Rightarrow> None | Some ls \<Rightarrow> if length ls = 2 then Some ls else None)"

definition zIntentSwapBody :: "json \<Rightarrow> intent_swap_body option" where
  "zIntentSwapBody j =
     (if strict_object [''chainId'', ''facility'', ''legs'', ''deadline''] j
      then do {
        c \<leftarrow> json_parse_field zChainId j ''chainId'';
        f \<leftarrow> json_parse_field zAddress j ''facility'';
        l \<leftarrow> json_parse_field zSwapLegs j ''legs'';
        d \<leftarrow> json_parse_field zDeadlineSeconds j ''deadline'';
        Some \<lparr>sw_chainId = c, sw_facility = f, sw_legs = l, sw_deadline = d\<rparr>
      } else None)"

datatype whitelist_operation = Whitelist | Unwhitelist

definition zWhitelistOperation :: "json \<Rightarrow> whitelist_operation option" where
  "zWhitelistOperation j =
     (if j = JStr ''whitelist'' then Some Whitelist
      else if j = JStr ''unwhitelist'' then Some Unwhitelist else None)"

record request_whitelisting_body =
  wl_chainId :: int
  wl_whitelistBook :: string
  wl_operation :: whitelist_operation
  wl_requestContracts :: "string list"
  wl_nonce :: string
  wl_deadline :: int

definition zRequestContracts :: "json \<Rightarrow> string list option" where
  "zRequestContracts j =
     (case json_list zAddress j of None \<Rightarrow> None | Some xs \<Rightarrow>
        if xs \<noteq> [] \<and> card (set (map toLowerCase xs)) = length xs then Some xs else None)"

definition zRequestWhitelistingBody :: "json \<Rightarrow> request_whitelisting_body option" where
  "zRequestWhitelistingBody j =
     (if strict_object [''chainId'', ''whitelistBook'', ''operation'', ''requestContracts'', ''nonce'', ''deadline''] j
      then do {
        c \<leftarrow> json_parse_field zChainId j ''chainId'';
        b \<leftarrow> json_parse_field zAddress j ''whitelistBook'';
        p \<leftarrow> json_parse_field zWhitelistOperation j ''operation'';
        r \<leftarrow> json_parse_field zRequestContracts j ''requestContracts'';
        n \<leftarrow> json_parse_field zUintStringBelowMax j ''nonce'';
        d \<leftarrow> json_parse_field zDeadlineSeconds j ''deadline'';
        Some \<lparr>wl_chainId = c, wl_whitelistBook = b, wl_operation = p, wl_requestContracts = r,
              wl_nonce = n, wl_deadline = d\<rparr>
      } else None)"


section \<open>What a parsed body guarantees\<close>

definition wf_intent :: "intent_ref \<Rightarrow> bool" where
  "wf_intent i \<longleftrightarrow> (\<exists>n. ir_id i = show_nat n \<and> int n < 2 ^ 256)"

definition wf_chain_deadline :: "int \<Rightarrow> int \<Rightarrow> bool" where
  "wf_chain_deadline c d \<longleftrightarrow> 1 \<le> c \<and> c \<le> MAX_SAFE_INTEGER \<and> 0 \<le> d \<and> d \<le> MAX_SAFE_INTEGER"

definition wf_request_binding :: "intent_request_binding_body \<Rightarrow> bool" where
  "wf_request_binding b \<longleftrightarrow> wf_chain_deadline (rb_chainId b) (rb_deadline b) \<and>
     is_address (rb_facility b) \<and> wf_intent (rb_intent b) \<and> is_address (rb_requestContract b)"

definition wf_fund_binding :: "intent_fund_binding_body \<Rightarrow> bool" where
  "wf_fund_binding b \<longleftrightarrow> wf_chain_deadline (fb_chainId b) (fb_deadline b) \<and>
     is_address (fb_facility b) \<and> wf_intent (fb_intent b) \<and> is_address (fb_fundContract b) \<and>
     is_address (fb_positionManager b)"

definition wf_leg :: "swap_leg \<Rightarrow> bool" where
  "wf_leg l \<longleftrightarrow> wf_intent (leg_intent l) \<and> is_address (leg_asset l) \<and>
     (\<exists>n. leg_amount l = show_nat n \<and> int n < 2 ^ 256)"

definition wf_swap :: "intent_swap_body \<Rightarrow> bool" where
  "wf_swap b \<longleftrightarrow> wf_chain_deadline (sw_chainId b) (sw_deadline b) \<and> is_address (sw_facility b) \<and>
     length (sw_legs b) = 2 \<and> list_all wf_leg (sw_legs b)"

definition wf_whitelisting :: "request_whitelisting_body \<Rightarrow> bool" where
  "wf_whitelisting b \<longleftrightarrow> wf_chain_deadline (wl_chainId b) (wl_deadline b) \<and>
     is_address (wl_whitelistBook b) \<and> wl_requestContracts b \<noteq> [] \<and> distinct (wl_requestContracts b) \<and>
     list_all is_address (wl_requestContracts b) \<and>
     (\<exists>n. wl_nonce b = show_nat n \<and> int n < 2 ^ 256 - 1)"

text \<open>A body back to the JSON document a client would send for it.\<close>

definition json_of_intent :: "intent_ref \<Rightarrow> json" where
  "json_of_intent i = JObj [(''id'', JStr (ir_id i))]"

definition json_of_leg :: "swap_leg \<Rightarrow> json" where
  "json_of_leg l = JObj [(''intent'', json_of_intent (leg_intent l)), (''asset'', JStr (leg_asset l)),
     (''amount'', JStr (leg_amount l))]"

definition json_of_request_binding :: "intent_request_binding_body \<Rightarrow> json" where
  "json_of_request_binding b = JObj
     [(''chainId'', JNum (num_of_int (rb_chainId b))), (''facility'', JStr (rb_facility b)),
      (''intent'', json_of_intent (rb_intent b)), (''requestContract'', JStr (rb_requestContract b)),
      (''deadline'', JNum (num_of_int (rb_deadline b)))]"

definition json_of_fund_binding :: "intent_fund_binding_body \<Rightarrow> json" where
  "json_of_fund_binding b = JObj
     [(''chainId'', JNum (num_of_int (fb_chainId b))), (''facility'', JStr (fb_facility b)),
      (''intent'', json_of_intent (fb_intent b)), (''fundContract'', JStr (fb_fundContract b)),
      (''positionManager'', JStr (fb_positionManager b)), (''deadline'', JNum (num_of_int (fb_deadline b)))]"

definition json_of_swap :: "intent_swap_body \<Rightarrow> json" where
  "json_of_swap b = JObj
     [(''chainId'', JNum (num_of_int (sw_chainId b))), (''facility'', JStr (sw_facility b)),
      (''legs'', JArr (map json_of_leg (sw_legs b))), (''deadline'', JNum (num_of_int (sw_deadline b)))]"

definition json_of_operation :: "whitelist_operation \<Rightarrow> json" where
  "json_of_operation p = (case p of Whitelist \<Rightarrow> JStr ''whitelist'' | Unwhitelist \<Rightarrow> JStr ''unwhitelist'')"

definition json_of_whitelisting :: "request_whitelisting_body \<Rightarrow> json" where
  "json_of_whitelisting b = JObj
     [(''chainId'', JNum (num_of_int (wl_chainId b))), (''whitelistBook'', JStr (wl_whitelistBook b)),
      (''operation'', json_of_operation (wl_operation b)),
      (''requestContracts'', JArr (map JStr (wl_requestContracts b))),
      (''nonce'', JStr (wl_nonce b)), (''deadline'', JNum (num_of_int (wl_deadline b)))]"

lemmas schema_defs = json_parse_field_Some Option.bind_eq_Some_conv zChainId_iff zDeadlineSeconds_iff
lemmas wf_body_defs = wf_chain_deadline_def wf_intent_def

lemma zIntentRef_wf: "zIntentRef j = Some i \<Longrightarrow> wf_intent i"
  by (auto simp: zIntentRef_def wf_intent_def json_parse_field_Some zUintString_iff split: if_splits)

lemma zUintString_show: "int n < 2 ^ 256 \<Longrightarrow> zUintString (JStr (show_nat n)) = Some (show_nat n)"
  unfolding zUintString_iff by blast

lemma zNonce_show:
  "int n < 2 ^ 256 - 1 \<Longrightarrow> zUintStringBelowMax (JStr (show_nat n)) = Some (show_nat n)"
  unfolding zUintStringBelowMax_iff by blast

lemma zIntentRef_json: "wf_intent i \<Longrightarrow> zIntentRef (json_of_intent i) = Some i"
proof -
  assume "wf_intent i"
  then obtain n where n: "ir_id i = show_nat n" "int n < 2 ^ 256"
    unfolding wf_intent_def by blast
  from zUintString_show [OF n(2)] n(1) show ?thesis
    by (simp add: zIntentRef_def json_of_intent_def json_parse_field_def)
qed

lemma zSwapLeg_wf: "zSwapLeg j = Some l \<Longrightarrow> wf_leg l"
  by (auto simp: zSwapLeg_def wf_leg_def schema_defs zUintString_iff dest: zIntentRef_wf zAddress_address
      split: if_splits)


lemma those_mem: "those xs = Some ys \<Longrightarrow> y \<in> set ys \<Longrightarrow> Some y \<in> set xs"
  by (auto simp: those_eq_Some_iff)

lemma json_list_Some: "json_list p j = Some ys \<Longrightarrow> y \<in> set ys \<Longrightarrow> \<exists>jv. p jv = Some y"
proof (cases j)
  case (JArr js)
  assume "json_list p j = Some ys" "y \<in> set ys"
  with JArr have "Some y \<in> p ` set js" by (auto dest!: those_mem)
  then show ?thesis by force
qed simp_all

lemma json_list_JArr:
  "list_all (\<lambda>x. p (f x) = Some x) xs \<Longrightarrow> json_list p (JArr (map f xs)) = Some xs"
  by (simp add: those_eq_Some_iff list_all_iff)

lemma zIntentRequestBindingBody_wf: "zIntentRequestBindingBody j = Some b \<Longrightarrow> wf_request_binding b"
  by (auto simp: zIntentRequestBindingBody_def wf_request_binding_def wf_chain_deadline_def schema_defs
      dest: zIntentRef_wf zAddress_address split: if_splits)

lemma zIntentFundBindingBody_wf: "zIntentFundBindingBody j = Some b \<Longrightarrow> wf_fund_binding b"
  by (auto simp: zIntentFundBindingBody_def wf_fund_binding_def wf_chain_deadline_def schema_defs
      dest: zIntentRef_wf zAddress_address split: if_splits)

lemma zSwapLegs_wf: "zSwapLegs j = Some ls \<Longrightarrow> length ls = 2 \<and> list_all wf_leg ls"
proof -
  assume h: "zSwapLegs j = Some ls"
  then have l: "json_list zSwapLeg j = Some ls" and n: "length ls = 2"
    by (auto simp: zSwapLegs_def split: option.splits if_splits)
  from l have "list_all wf_leg ls"
    unfolding list_all_iff by (metis json_list_Some zSwapLeg_wf)
  with n show ?thesis by simp
qed

lemma zIntentSwapBody_wf: "zIntentSwapBody j = Some b \<Longrightarrow> wf_swap b"
  by (auto simp: zIntentSwapBody_def wf_swap_def wf_chain_deadline_def schema_defs
      dest: zAddress_address zSwapLegs_wf split: if_splits)

lemma zRequestContracts_wf:
  "zRequestContracts j = Some xs \<Longrightarrow> xs \<noteq> [] \<and> distinct xs \<and> list_all is_address xs"
proof -
  assume h: "zRequestContracts j = Some xs"
  then have l: "json_list zAddress j = Some xs" and ne: "xs \<noteq> []"
    and c: "card (set (map toLowerCase xs)) = length xs"
    by (auto simp: zRequestContracts_def split: option.splits if_splits)
  from l have "list_all is_address xs"
    unfolding list_all_iff by (metis json_list_Some zAddress_address)
  moreover from this have "map toLowerCase xs = xs"
    by (simp add: list_all_iff map_idI)
  moreover from c have "distinct (map toLowerCase xs)"
    by (simp only: card_distinct length_map)
  ultimately show ?thesis using ne by simp
qed

lemma zRequestWhitelistingBody_wf: "zRequestWhitelistingBody j = Some b \<Longrightarrow> wf_whitelisting b"
  by (auto simp: zRequestWhitelistingBody_def wf_whitelisting_def wf_chain_deadline_def schema_defs
      zUintStringBelowMax_iff dest: zRequestContracts_wf zAddress_address split: if_splits)

section \<open>The documents of a body\<close>

text \<open>
  Which documents a client may send for a body, without the parsers: an object with exactly the
  fields of the body, in any order, each with the value of that field; addresses in any case.
\<close>

definition fields :: "(string \<times> (json \<Rightarrow> bool)) list \<Rightarrow> json \<Rightarrow> bool" where
  "fields spec j \<longleftrightarrow> (\<exists>kvs. j = JObj kvs \<and> fst ` set kvs = set (map fst spec) \<and>
     list_all (\<lambda>(k, P). \<exists>v. map_of kvs k = Some v \<and> P v) spec)"

definition number_doc :: "int \<Rightarrow> json \<Rightarrow> bool" where
  "number_doc n j \<longleftrightarrow> j = JNum (num_of_int n)"

definition address_doc :: "string \<Rightarrow> json \<Rightarrow> bool" where
  "address_doc a j \<longleftrightarrow> (\<exists>s. j = JStr s \<and> ADDRESS_RE s \<and> toLowerCase s = a)"

definition array_doc :: "('a \<Rightarrow> json \<Rightarrow> bool) \<Rightarrow> 'a list \<Rightarrow> json \<Rightarrow> bool" where
  "array_doc P xs j \<longleftrightarrow> (\<exists>vs. j = JArr vs \<and> list_all2 P xs vs)"

definition intent_doc :: "intent_ref \<Rightarrow> json \<Rightarrow> bool" where
  "intent_doc i = fields [(''id'', \<lambda>v. v = JStr (ir_id i))]"

definition leg_doc :: "swap_leg \<Rightarrow> json \<Rightarrow> bool" where
  "leg_doc l = fields [(''intent'', intent_doc (leg_intent l)), (''asset'', address_doc (leg_asset l)), (''amount'', \<lambda>v. v = JStr (leg_amount l))]"

definition request_binding_doc :: "intent_request_binding_body \<Rightarrow> json \<Rightarrow> bool" where
  "request_binding_doc b = fields [(''chainId'', number_doc (rb_chainId b)), (''facility'', address_doc (rb_facility b)),
     (''intent'', intent_doc (rb_intent b)), (''requestContract'', address_doc (rb_requestContract b)), (''deadline'', number_doc (rb_deadline b))]"

definition fund_binding_doc :: "intent_fund_binding_body \<Rightarrow> json \<Rightarrow> bool" where
  "fund_binding_doc b = fields [(''chainId'', number_doc (fb_chainId b)), (''facility'', address_doc (fb_facility b)),
     (''intent'', intent_doc (fb_intent b)), (''fundContract'', address_doc (fb_fundContract b)),
     (''positionManager'', address_doc (fb_positionManager b)), (''deadline'', number_doc (fb_deadline b))]"

definition swap_doc :: "intent_swap_body \<Rightarrow> json \<Rightarrow> bool" where
  "swap_doc b = fields [(''chainId'', number_doc (sw_chainId b)), (''facility'', address_doc (sw_facility b)),
     (''legs'', array_doc leg_doc (sw_legs b)), (''deadline'', number_doc (sw_deadline b))]"

definition whitelisting_doc :: "request_whitelisting_body \<Rightarrow> json \<Rightarrow> bool" where
  "whitelisting_doc b = fields [(''chainId'', number_doc (wl_chainId b)), (''whitelistBook'', address_doc (wl_whitelistBook b)),
     (''operation'', \<lambda>v. v = json_of_operation (wl_operation b)), (''requestContracts'', array_doc address_doc (wl_requestContracts b)),
     (''nonce'', \<lambda>v. v = JStr (wl_nonce b)), (''deadline'', number_doc (wl_deadline b))]"

lemma fields_iff:
  "fields spec j \<longleftrightarrow> strict_object (map fst spec) j \<and> list_all (\<lambda>(k, P). \<exists>v. json_field j k = Some v \<and> P v) spec"
proof (cases j)
  case (JObj kvs)
  have "set (map fst spec) \<subseteq> fst ` set kvs" if "list_all (\<lambda>(k, P). \<exists>v. map_of kvs k = Some v \<and> P v) spec"
    using that by (force simp: list_all_iff dest: map_of_SomeD)
  then show ?thesis by (auto simp: JObj fields_def list_all_iff)
qed (auto simp: fields_def)

lemma address_doc_iff: "zAddress j = Some a \<longleftrightarrow> address_doc a j"
  by (cases j) (auto simp: zAddress_def address_doc_def)

lemma address_doc_address: "address_doc a j \<Longrightarrow> is_address a"
  using zAddress_address by (simp add: address_doc_iff)

lemma intent_doc_iff: "zIntentRef j = Some i \<longleftrightarrow> wf_intent i \<and> intent_doc i j"
  by (cases i) (auto simp: zIntentRef_def intent_doc_def fields_iff wf_intent_def json_parse_field_Some zUintString_iff)

lemma number_docs:
  "zChainId j = Some n \<longleftrightarrow> number_doc n j \<and> 1 \<le> n \<and> n \<le> MAX_SAFE_INTEGER"
  "zDeadlineSeconds j = Some n \<longleftrightarrow> number_doc n j \<and> 0 \<le> n \<and> n \<le> MAX_SAFE_INTEGER"
  by (simp_all add: number_doc_def zChainId_iff zDeadlineSeconds_iff)

lemma array_doc_iff: "json_list p j = Some xs \<longleftrightarrow> array_doc (\<lambda>x v. p v = Some x) xs j"
proof (cases j)
  case (JArr vs)
  have "map p vs = map Some xs \<longleftrightarrow> list_all2 (\<lambda>x v. p v = Some x) xs vs"
    by (auto simp: list_all2_conv_all_nth list_eq_iff_nth_eq)
  then show ?thesis by (simp add: JArr array_doc_def those_eq_Some_iff)
qed (simp_all add: array_doc_def)

lemma leg_doc_iff: "zSwapLeg j = Some l \<longleftrightarrow> wf_leg l \<and> leg_doc l j"
  by (cases l) (auto simp: zSwapLeg_def leg_doc_def fields_iff wf_leg_def json_parse_field_Some Option.bind_eq_Some_conv
      intent_doc_iff address_doc_iff zUintString_iff dest: address_doc_address)

lemma legs_doc_iff: "zSwapLegs j = Some ls \<longleftrightarrow> length ls = 2 \<and> list_all wf_leg ls \<and> array_doc leg_doc ls j"
proof -
  have "array_doc (\<lambda>l v. zSwapLeg v = Some l) ls j \<longleftrightarrow> list_all wf_leg ls \<and> array_doc leg_doc ls j"
    by (auto simp: array_doc_def leg_doc_iff list_all2_conv_all_nth list_all_length)
  moreover have "zSwapLegs j = Some ls \<longleftrightarrow> json_list zSwapLeg j = Some ls \<and> length ls = 2"
    by (auto simp: zSwapLegs_def split: option.splits)
  ultimately show ?thesis by (auto simp: array_doc_iff)
qed

lemma contracts_doc_iff:
  "zRequestContracts j = Some xs \<longleftrightarrow> xs \<noteq> [] \<and> distinct xs \<and> list_all is_address xs \<and> array_doc address_doc xs j"
proof -
  have a: "list_all is_address xs" if "array_doc address_doc xs j"
    using that by (auto simp: array_doc_def list_all2_conv_all_nth list_all_length dest: address_doc_address)
  have "card (set (map toLowerCase xs)) = length xs \<longleftrightarrow> distinct xs" if "list_all is_address xs"
    using that card_distinct [of xs] distinct_card [of xs] by (auto simp: list_all_iff map_idI)
  moreover have "zRequestContracts j = Some xs \<longleftrightarrow> json_list zAddress j = Some xs \<and> xs \<noteq> [] \<and> card (set (map toLowerCase xs)) = length xs"
    by (auto simp: zRequestContracts_def split: option.splits if_splits)
  then have "zRequestContracts j = Some xs \<longleftrightarrow> array_doc address_doc xs j \<and> xs \<noteq> [] \<and> card (set (map toLowerCase xs)) = length xs"
    by (simp add: array_doc_iff address_doc_iff)
  ultimately show ?thesis using a by blast
qed

lemma operation_doc_iff: "zWhitelistOperation j = Some p \<longleftrightarrow> j = json_of_operation p"
  by (cases p) (auto simp: zWhitelistOperation_def json_of_operation_def)

lemmas doc_iffs = intent_doc_iff address_doc_iff number_docs legs_doc_iff contracts_doc_iff operation_doc_iff zUintStringBelowMax_iff
lemmas body_docs = request_binding_doc_def fund_binding_doc_def swap_doc_def whitelisting_doc_def
lemmas doc_rules = doc_iffs body_docs fields_iff wf_chain_deadline_def json_parse_field_Some Option.bind_eq_Some_conv

lemma bodies_accepted:
  "zIntentRequestBindingBody j = Some rb \<longleftrightarrow> wf_request_binding rb \<and> request_binding_doc rb j"
  "zIntentFundBindingBody j = Some fb \<longleftrightarrow> wf_fund_binding fb \<and> fund_binding_doc fb j"
  "zIntentSwapBody j = Some sw \<longleftrightarrow> wf_swap sw \<and> swap_doc sw j"
  "zRequestWhitelistingBody j = Some wl \<longleftrightarrow> wf_whitelisting wl \<and> whitelisting_doc wl j"
proof -
  show "zIntentRequestBindingBody j = Some rb \<longleftrightarrow> wf_request_binding rb \<and> request_binding_doc rb j"
    by (cases rb) (auto simp: zIntentRequestBindingBody_def wf_request_binding_def doc_rules dest: address_doc_address)
  show "zIntentFundBindingBody j = Some fb \<longleftrightarrow> wf_fund_binding fb \<and> fund_binding_doc fb j"
    by (cases fb) (auto simp: zIntentFundBindingBody_def wf_fund_binding_def doc_rules dest: address_doc_address)
  show "zIntentSwapBody j = Some sw \<longleftrightarrow> wf_swap sw \<and> swap_doc sw j"
    by (cases sw) (auto simp: zIntentSwapBody_def wf_swap_def doc_rules dest: address_doc_address)
  show "zRequestWhitelistingBody j = Some wl \<longleftrightarrow> wf_whitelisting wl \<and> whitelisting_doc wl j"
    by (cases wl) (auto simp: zRequestWhitelistingBody_def wf_whitelisting_def doc_rules dest: address_doc_address)
qed

lemma address_doc_own: "is_address a \<Longrightarrow> address_doc a (JStr a)"
  using zAddress_idem by (simp add: address_doc_iff)

lemma array_doc_own: "list_all Q xs \<Longrightarrow> (\<And>x. Q x \<Longrightarrow> P x (g x)) \<Longrightarrow> array_doc P xs (JArr (map g xs))"
  by (simp add: array_doc_def list_all2_map2 list_all2_same list_all_iff)

lemma json_docs:
  "intent_doc i (json_of_intent i)"
  "wf_leg l \<Longrightarrow> leg_doc l (json_of_leg l)"
  "wf_request_binding rb \<Longrightarrow> request_binding_doc rb (json_of_request_binding rb)"
  "wf_fund_binding fb \<Longrightarrow> fund_binding_doc fb (json_of_fund_binding fb)"
  "wf_swap sw \<Longrightarrow> swap_doc sw (json_of_swap sw)"
  "wf_whitelisting wl \<Longrightarrow> whitelisting_doc wl (json_of_whitelisting wl)"
proof -
  show i: "intent_doc i (json_of_intent i)" for i by (simp add: intent_doc_def fields_iff json_of_intent_def)
  show l: "wf_leg l \<Longrightarrow> leg_doc l (json_of_leg l)" for l
    by (simp add: leg_doc_def fields_iff json_of_leg_def wf_leg_def address_doc_own i)
  show "wf_request_binding rb \<Longrightarrow> request_binding_doc rb (json_of_request_binding rb)"
    by (simp add: body_docs fields_iff json_of_request_binding_def wf_request_binding_def address_doc_own i number_doc_def)
  show "wf_fund_binding fb \<Longrightarrow> fund_binding_doc fb (json_of_fund_binding fb)"
    by (simp add: body_docs fields_iff json_of_fund_binding_def wf_fund_binding_def address_doc_own i number_doc_def)
  show "wf_swap sw \<Longrightarrow> swap_doc sw (json_of_swap sw)"
    by (simp add: body_docs fields_iff json_of_swap_def wf_swap_def address_doc_own number_doc_def array_doc_own [of wf_leg] l)
  show "wf_whitelisting wl \<Longrightarrow> whitelisting_doc wl (json_of_whitelisting wl)"
    by (simp add: body_docs fields_iff json_of_whitelisting_def wf_whitelisting_def address_doc_own number_doc_def array_doc_own [of is_address])
qed

text \<open>
  C25. What the four schemas accept, exactly. A document parses to a body if and only if it is an
  object with exactly the fields of that body, nothing else in it, each spelling the value of its
  field, and the body is well formed: positive safe chain id, lower-cased addresses, canonical
  uint256 strings, two legs, a non-empty duplicate-free batch, a nonce below the sentinel. And the
  canonical document of a body is read back as that body exactly if the body is well formed.
\<close>

theorem bodies_roundtrip_wf:
  "(zIntentRequestBindingBody j = Some rb \<longleftrightarrow> wf_request_binding rb \<and> request_binding_doc rb j) \<and>
   (zIntentFundBindingBody j = Some fb \<longleftrightarrow> wf_fund_binding fb \<and> fund_binding_doc fb j) \<and>
   (zIntentSwapBody j = Some sw \<longleftrightarrow> wf_swap sw \<and> swap_doc sw j) \<and>
   (zRequestWhitelistingBody j = Some wl \<longleftrightarrow> wf_whitelisting wl \<and> whitelisting_doc wl j) \<and>
   (zIntentRequestBindingBody (json_of_request_binding rb) = Some rb \<longleftrightarrow> wf_request_binding rb) \<and>
   (zIntentFundBindingBody (json_of_fund_binding fb) = Some fb \<longleftrightarrow> wf_fund_binding fb) \<and>
   (zIntentSwapBody (json_of_swap sw) = Some sw \<longleftrightarrow> wf_swap sw) \<and>
   (zRequestWhitelistingBody (json_of_whitelisting wl) = Some wl \<longleftrightarrow> wf_whitelisting wl)"
  by (auto simp: bodies_accepted json_docs)

end
