(* ===== verification/Helpers.thy ===== *)
theory Helpers
  imports Errors "HOL-Library.Signed_Division"
begin

text \<open>
  The helpers every Appendix-A check runner uses
  (\<open>guardian-defaults/src/checks/helpers.ts\<close>): the roll-up of check entries, the
  classification of errors thrown by viem, and the membership, deadline, price and nonce
  checks. Reason texts are the source's template literals; only the digits of a
  fractional number in a reason are not modelled (\<open>show_num\<close> prints the fraction).
\<close>

section \<open>Rolling checks up\<close>

datatype roll = RollOk "check_entry list" | RollErr guardian_error

definition rollUp :: "check_entry list \<Rightarrow> string \<Rightarrow> roll" where
  "rollUp checks message =
     (let anyFailed = list_ex (\<lambda>c. \<not> ce_passed c) checks in
      if \<not> anyFailed then RollOk checks
      else RollErr (ValidationFailedError message checks))"

text \<open>\<open>r.ok ? Result.ok(r.checks) : Result.err(r.error)\<close>, as every runner ends.\<close>

definition roll_result :: "roll \<Rightarrow> guardian_error + check_entry list" where
  "roll_result r = (case r of RollOk cs \<Rightarrow> Inr cs | RollErr e \<Rightarrow> Inl e)"

definition all_passed :: "check_entry list \<Rightarrow> bool" where
  "all_passed cs \<longleftrightarrow> list_all ce_passed cs"

lemma roll_result_rollUp:
  "roll_result (rollUp cs m) = (if all_passed cs then Inr cs else Inl (ValidationFailedError m cs))"
  by (induction cs) (auto simp: roll_result_def rollUp_def all_passed_def Let_def list_ex_iff list_all_iff)

lemma all_passed_simps [simp]:
  "all_passed []" "all_passed (c # cs) \<longleftrightarrow> ce_passed c \<and> all_passed cs"
  "all_passed (cs @ ds) \<longleftrightarrow> all_passed cs \<and> all_passed ds"
  by (auto simp: all_passed_def)

text \<open>
  What a check runner may answer (\<open>CheckRunnerError\<close> of \<open>checks/types.ts\<close>): a list of
  passing, well-formed entries, a 422 that carries at least one failing entry, or a 503;
  the 409 arm belongs to the fund runner alone.
\<close>

fun runner_result :: "bool \<Rightarrow> guardian_error + check_entry list \<Rightarrow> bool" where
  "runner_result conflict (Inr cs) \<longleftrightarrow> all_passed cs \<and> list_all wf_entry cs"
| "runner_result conflict (Inl (ValidationFailedError m cs)) \<longleftrightarrow> \<not> all_passed cs \<and> list_all wf_entry cs"
| "runner_result conflict (Inl (StateConflictError m cs)) \<longleftrightarrow> conflict \<and> \<not> all_passed cs \<and> list_all wf_entry cs"
| "runner_result conflict (Inl (UpstreamUnavailableError m st ra)) \<longleftrightarrow> st = HTTP503"
| "runner_result conflict (Inl _) \<longleftrightarrow> False"

lemma runner_result_rollUp [io_rules]:
  "list_all wf_entry cs \<Longrightarrow> runner_result conflict (roll_result (rollUp cs m))"
  by (simp add: roll_result_rollUp)

lemma runner_result_503 [io_rules, simp]: "runner_result conflict (Inl (upstream503 m))"
  by (simp add: upstream503_def)


section \<open>Errors thrown by viem\<close>

text \<open>
  What the sources look at in a thrown value: whether it is a viem \<open>BaseError\<close>, and the
  cause chain from the error itself inwards, each node with the class the sources test
  for (\<open>instanceof\<close>), the function name of an execution error, whether a revert carries
  raw or decoded data, and a JSON-RPC \<open>code\<close>.
\<close>

datatype err_class =
    ContractFunctionExecutionError string
  | AbiDecodingZeroDataError
  | ContractFunctionZeroDataError
  | ContractFunctionRevertedError bool
  | OtherError

record err_node =
  en_class :: err_class
  en_code :: "int option"

record thrown =
  th_isBaseError :: bool
  th_chain :: "err_node list"

fun execution_function :: "thrown \<Rightarrow> string option" where
  "execution_function e =
     (case th_chain e of
        n # ns \<Rightarrow> (case en_class n of ContractFunctionExecutionError f \<Rightarrow> Some f | _ \<Rightarrow> None)
      | [] \<Rightarrow> None)"

fun is_call_failure_marker :: "err_class \<Rightarrow> bool" where
  "is_call_failure_marker AbiDecodingZeroDataError = True"
| "is_call_failure_marker ContractFunctionZeroDataError = True"
| "is_call_failure_marker (ContractFunctionRevertedError d) = True"
| "is_call_failure_marker _ = False"

definition isDeterministicContractCallFailure :: "thrown \<Rightarrow> string list \<Rightarrow> bool" where
  "isDeterministicContractCallFailure e functionNames =
     (case execution_function e of
        None \<Rightarrow> False
      | Some f \<Rightarrow> f \<in> set functionNames \<and> list_ex (\<lambda>n. is_call_failure_marker (en_class n)) (th_chain e))"

definition isMulticallChunkFailure :: "thrown \<Rightarrow> bool" where
  "isMulticallChunkFailure e = (execution_function e = Some ''aggregate3'')"

lemma chunk_failure_not_deterministic:
  "isMulticallChunkFailure e \<Longrightarrow> ''aggregate3'' \<notin> set fs \<Longrightarrow> \<not> isDeterministicContractCallFailure e fs"
  by (simp add: isMulticallChunkFailure_def isDeterministicContractCallFailure_def)


section \<open>Policy sets\<close>

text \<open>
  A \<open>ReadonlySet\<close> is the list of its elements in insertion order; a per-chain policy is a
  map from chain ids, and \<open>m.get(chainId) ?? new Set()\<close> its lookup.
\<close>

type_synonym chain_sets = "(int \<times> string list) list"

definition chain_set :: "chain_sets \<Rightarrow> int \<Rightarrow> string list" where
  "chain_set m c = (case map_of m c of None \<Rightarrow> [] | Some s \<Rightarrow> s)"

definition opt_chain_set :: "chain_sets option \<Rightarrow> int \<Rightarrow> string list" where
  "opt_chain_set m c = (case m of None \<Rightarrow> [] | Some m' \<Rightarrow> chain_set m' c)"

definition in_ci :: "string \<Rightarrow> string list \<Rightarrow> bool" where
  "in_ci a s \<longleftrightarrow> toLowerCase a \<in> set (map toLowerCase s)"

definition checkMembership ::
    "string \<Rightarrow> string \<Rightarrow> string list \<Rightarrow> bool \<Rightarrow> (string \<Rightarrow> string) option \<Rightarrow> check_entry" where
  "checkMembership description value accepted addressLike reasonOnFail =
     (let norm = (\<lambda>s. if addressLike then toLowerCase s else s);
          normalised = set (map norm accepted)
      in if norm value \<in> normalised then passed description
         else failed description
           (case reasonOnFail of Some r \<Rightarrow> r value
            | None \<Rightarrow> ''value not on accepted list: '' @ value))"

lemma checkMembership_address [simp]:
  "ce_passed (checkMembership d v s True r) \<longleftrightarrow> in_ci v s"
  by (simp add: checkMembership_def in_ci_def Let_def)

lemma wf_checkMembership [wf_rules, simp]: "d \<noteq> [] \<Longrightarrow> wf_entry (checkMembership d v s b None)"
  by (simp add: checkMembership_def Let_def)

lemma ce_description_checkMembership [simp]:
  "ce_description (checkMembership d v s b r) = d"
  by (simp add: checkMembership_def Let_def)


section \<open>The deadline check\<close>

definition DEADLINE_CHECK_DESCRIPTION :: string where
  "DEADLINE_CHECK_DESCRIPTION = ''deadline within MAX_DEADLINE_SECONDS_AHEAD of now''"

definition checkDeadline :: "int \<Rightarrow> int \<Rightarrow> int \<Rightarrow> check_entry" where
  "checkDeadline nowUnixSeconds deadline maxSecondsAhead =
     (let ceiling = nowUnixSeconds + maxSecondsAhead in
      if deadline \<le> ceiling then passed DEADLINE_CHECK_DESCRIPTION
      else failed DEADLINE_CHECK_DESCRIPTION
        (''deadline '' @ show_int deadline @ '' exceeds ceiling '' @ show_int ceiling @ '' (now='' @
         show_int nowUnixSeconds @ '', max-ahead='' @ show_int maxSecondsAhead @ '')''))"

lemma checkDeadline_simps [simp]:
  "ce_passed (checkDeadline n d m) \<longleftrightarrow> d \<le> n + m"
  "ce_description (checkDeadline n d m) = DEADLINE_CHECK_DESCRIPTION"
  "\<not> ce_skipped (checkDeadline n d m)"
  "wf_entry (checkDeadline n d m)"
  by (simp_all add: checkDeadline_def Let_def DEADLINE_CHECK_DESCRIPTION_def)


section \<open>Price tolerance\<close>

text \<open>\<open>bigint\<close> division truncates towards zero: \<open>sdiv\<close>.\<close>

definition bpsToleranceWithWeiFloor :: "int \<Rightarrow> int \<Rightarrow> int" where
  "bpsToleranceWithWeiFloor expected toleranceBps =
     (let proportional = (expected * toleranceBps) sdiv 10000 in
      if proportional > 0 then proportional else if toleranceBps > 0 then 1 else 0)"

definition show_num :: "jsnum \<Rightarrow> string" where
  "show_num x =
     (case x of JNaN \<Rightarrow> ''NaN'' | JPosInf \<Rightarrow> ''Infinity'' | JNegInf \<Rightarrow> ''-Infinity''
      | JFin r \<Rightarrow> if num_isInteger x then show_int (num_to_int x)
                 else show_int (fst (quotient_of r)) @ ''/'' @ show_int (snd (quotient_of r)))"

definition WAD :: int where
  "WAD = 10 ^ 18"

definition PRICE_CHECK_DESCRIPTION :: string where
  "PRICE_CHECK_DESCRIPTION = ''swap leg ratio within SWAP_PRICE_TOLERANCE_BPS of reference''"

definition checkSwapPriceTolerance :: "int \<Rightarrow> int \<Rightarrow> int \<Rightarrow> jsnum \<Rightarrow> check_entry" where
  "checkSwapPriceTolerance amountA amountB referencePriceWad toleranceBps =
     (if \<not> num_isInteger toleranceBps \<or> num_lt_int toleranceBps 0 then
        failed PRICE_CHECK_DESCRIPTION
          (''toleranceBps must be a non-negative integer, got '' @ show_num toleranceBps)
      else if amountB = 0 then
        failed PRICE_CHECK_DESCRIPTION ''leg-B amount is zero; price ratio undefined''
      else if referencePriceWad \<le> 0 then
        failed PRICE_CHECK_DESCRIPTION ''reference price must be positive''
      else
        let observed = (amountA * WAD) sdiv amountB;
            delta = (if observed > referencePriceWad then observed - referencePriceWad
                     else referencePriceWad - observed);
            tolerance = bpsToleranceWithWeiFloor referencePriceWad (num_to_int toleranceBps)
        in if delta \<le> tolerance then passed PRICE_CHECK_DESCRIPTION
           else failed PRICE_CHECK_DESCRIPTION
             (''observed ratio '' @ show_int observed @ '' deviates from reference '' @
              show_int referencePriceWad @ '' by '' @ show_int delta @ '' (tolerance='' @
              show_int tolerance @ '', bps='' @ show_num toleranceBps @ '')''))"

lemma sdiv_nonneg: "0 \<le> (a::int) \<Longrightarrow> 0 < b \<Longrightarrow> a sdiv b = a div b"
  by (cases "a = 0") (simp_all add: signed_divide_int_def)

lemma bps_tolerance_eq:
  "0 \<le> e \<Longrightarrow> 0 \<le> b \<Longrightarrow>
     bpsToleranceWithWeiFloor e b = (if e * b div 10000 > 0 then e * b div 10000 else if b > 0 then 1 else 0)"
  by (simp add: bpsToleranceWithWeiFloor_def sdiv_nonneg Let_def)

lemma bps_tolerance_bound:
  assumes "0 \<le> expected" and "0 \<le> bps" and "0 \<le> delta"
  shows "delta \<le> bpsToleranceWithWeiFloor expected bps \<longleftrightarrow>
    delta * 10000 \<le> expected * bps \<or> (delta = 1 \<and> 0 < bps \<and> expected * bps < 10000)"
proof -
  have "delta \<le> x div 10000 \<longleftrightarrow> delta * 10000 \<le> x" for x :: int
    by linarith
  then have le: "delta \<le> expected * bps div 10000 \<longleftrightarrow> delta * 10000 \<le> expected * bps" .
  have pos: "0 < expected * bps div 10000 \<longleftrightarrow> 10000 \<le> expected * bps"
    by (simp add: pos_imp_zdiv_pos_iff)
  show ?thesis
  proof (cases "10000 \<le> expected * bps")
    case True
    with pos le show ?thesis using assms by (auto simp: bps_tolerance_eq)
  next
    case False
    with pos have "expected * bps div 10000 \<le> 0" by simp
    with False assms have "bpsToleranceWithWeiFloor expected bps = (if bps > 0 then 1 else 0)"
      by (simp add: bps_tolerance_eq)
    moreover have "delta * 10000 \<le> expected * bps \<longleftrightarrow> delta = 0"
      using False assms by (auto simp: zero_le_mult_iff)
    ultimately show ?thesis using assms False by auto
  qed
qed

text \<open>
  The tolerance both price checks share is the proportional bound in exact integer form:
  a deviation is within it iff \<open>delta * 10000 \<le> expected * bps\<close>, or it is one unit, the
  configured tolerance is not zero, and the proportional bound rounds down to zero. In
  particular a tolerance of zero admits no deviation at all, and the floor never admits more
  than one unit.
\<close>

theorem bps_tolerance_iff:
  assumes "0 \<le> expected" and "0 \<le> bps" and "0 \<le> delta"
  shows "delta \<le> bpsToleranceWithWeiFloor expected bps \<longleftrightarrow>
    delta * 10000 \<le> expected * bps \<or> (delta = 1 \<and> 0 < bps \<and> expected * bps < 10000)"
  by (rule bps_tolerance_bound [OF assms])

theorem bps_tolerance_iff_witness:
  "(1::int) \<le> bpsToleranceWithWeiFloor 300 1 \<and> \<not> 2 \<le> bpsToleranceWithWeiFloor 300 1 \<and>
   (7::int) \<le> bpsToleranceWithWeiFloor 70000 1"
  using bps_tolerance_iff [of 300 1 1] bps_tolerance_iff [of 300 1 2] bps_tolerance_iff [of 70000 1 7]
  by simp

lemma checkSwapPriceTolerance_wf: "wf_entry (checkSwapPriceTolerance a b r t)"
  by (simp add: checkSwapPriceTolerance_def PRICE_CHECK_DESCRIPTION_def Let_def)


section \<open>The nonce window\<close>

definition NONCE_CONSUMED_DESCRIPTION :: string where
  "NONCE_CONSUMED_DESCRIPTION = ''nonce has not been consumed by the on-chain whitelist book''"

definition NONCE_FLOOR_DESCRIPTION :: string where
  "NONCE_FLOOR_DESCRIPTION = ''nonce is at or above the on-chain nonce floor''"

definition NONCE_CEILING_DESCRIPTION :: string where
  "NONCE_CEILING_DESCRIPTION = ''nonce does not exceed floor + MAX_NONCE_ABOVE_FLOOR''"

definition checkNonceWindow :: "int \<Rightarrow> bool \<Rightarrow> int \<Rightarrow> int \<Rightarrow> check_entry list" where
  "checkNonceWindow nonce consumed nonceFloor maxAboveFloor =
     [if consumed
      then failed NONCE_CONSUMED_DESCRIPTION
        (''nonce '' @ show_int nonce @ '' already consumed; submit a different nonce'')
      else passed NONCE_CONSUMED_DESCRIPTION,
      if nonce \<ge> nonceFloor then passed NONCE_FLOOR_DESCRIPTION
      else failed NONCE_FLOOR_DESCRIPTION
        (''nonce '' @ show_int nonce @ '' is below floor '' @ show_int nonceFloor),
      if nonce \<le> nonceFloor + maxAboveFloor then passed NONCE_CEILING_DESCRIPTION
      else failed NONCE_CEILING_DESCRIPTION
        (''nonce '' @ show_int nonce @ '' exceeds ceiling '' @ show_int (nonceFloor + maxAboveFloor) @
         '' (floor='' @ show_int nonceFloor @ '', max-above='' @ show_int maxAboveFloor @ '')'')]"

lemmas nonce_descriptions =
  NONCE_CONSUMED_DESCRIPTION_def NONCE_FLOOR_DESCRIPTION_def NONCE_CEILING_DESCRIPTION_def

lemma checkNonceWindow_passed:
  "all_passed (checkNonceWindow n c f m) \<longleftrightarrow> \<not> c \<and> f \<le> n \<and> n \<le> f + m"
  by (auto simp: checkNonceWindow_def)

lemma wf_checkNonceWindow [wf_rules]: "list_all wf_entry (checkNonceWindow n c f m)"
  by (simp add: checkNonceWindow_def nonce_descriptions)

end
