(* ===== verification/Role_Events.thy ===== *)
theory Role_Events
  imports Helpers "HOL-Library.Word" "HOL-Library.Product_Lexorder" "HOL-Library.Multiset"
begin

text \<open>
  The role-events scan of \<open>guardian-defaults/src/checks/role-events.ts\<close>: the backward walk
  over the log history in bounded chunks (\<open>scanRoleHolders\<close>), the attribution of each log to
  its emitter, the replay of the role bitfields (\<open>replayRoleState\<close>) and \<open>holdersOf\<close>. The
  chain client's \<open>getLogs\<close>, the clock and the abort signal are computations over the world.
\<close>

unbundle bit_operations_syntax

section \<open>Logs and the replay\<close>

datatype role_event =
    RolesUpdated "string option" "256 word option"
  | RequestCreated "string option"
  | FlashLoanRequestCreated "string option"

record chain_log =
  log_address :: string
  log_event :: role_event
  log_blockNumber :: int
  log_logIndex :: int

definition log_key :: "chain_log \<Rightarrow> int \<times> int" where
  "log_key l = (log_blockNumber l, log_logIndex l)"

type_synonym role_holders = "(string, 256 word) omap"

definition replay_step :: "chain_log \<Rightarrow> role_holders \<Rightarrow> role_holders" where
  "replay_step lg state =
     (case log_event lg of
        RolesUpdated (Some user) (Some roles) \<Rightarrow> omap_set (toLowerCase user) roles state
      | _ \<Rightarrow> state)"

definition replayRoleState :: "chain_log list \<Rightarrow> role_holders" where
  "replayRoleState logs =
     filter (\<lambda>p. snd p \<noteq> 0) (fold replay_step (sort_key log_key logs) [])"

definition holdersOf :: "role_holders \<Rightarrow> 256 word \<Rightarrow> string list" where
  "holdersOf holders roleMask = map fst (filter (\<lambda>p. snd p AND roleMask \<noteq> 0) holders)"


section \<open>The scan\<close>

record 'w scan_io =
  si_getLogs :: "string list \<Rightarrow> int \<Rightarrow> int \<Rightarrow> ('w, thrown + chain_log list) state"
  si_now :: "('w, int) state"
  si_aborted :: "('w, bool) state"

record scan_args =
  sa_factories :: "string list"
  sa_requestContract :: string
  sa_latestBlock :: int
  sa_blockRange :: int
  sa_maxLookbackBlocks :: int
  sa_deadlineMs :: "jsnum option"

datatype scan_failure =
    FactoriesEmpty
  | BlockRangeNotPositive
  | LookbackNotPositive
  | DeadlineInvalid jsnum
  | ScanAborted int int
  | BudgetExceeded jsnum int int
  | GetLogsThrew thrown

datatype role_scan_outcome =
    Resolved role_holders int "string option"
  | TooOld role_holders

type_synonym deployment = "(int \<times> string) option"

definition earliestAllowed :: "scan_args \<Rightarrow> int" where
  "earliestAllowed a =
     (if sa_latestBlock a > sa_maxLookbackBlocks a
      then sa_latestBlock a - sa_maxLookbackBlocks a else 0)"

text \<open>\<open>new Map(factories.map((f) => [f.toLowerCase(), f]))\<close>: a later factory wins.\<close>

definition factoryByLower :: "string list \<Rightarrow> string \<Rightarrow> string option" where
  "factoryByLower fs = map_of (rev (map (\<lambda>f. (toLowerCase f, f)) fs))"

definition created_matches :: "string \<Rightarrow> string option \<Rightarrow> bool" where
  "created_matches req created = (case created of None \<Rightarrow> False | Some c \<Rightarrow> c \<noteq> [] \<and> toLowerCase c = req)"

text \<open>The body of \<open>for (const log of logs)\<close>.\<close>

definition absorb_deployment ::
    "scan_args \<Rightarrow> string option \<Rightarrow> chain_log \<Rightarrow> chain_log list \<times> deployment \<Rightarrow> chain_log list \<times> deployment" where
  "absorb_deployment a created lg acc =
     (case factoryByLower (sa_factories a) (toLowerCase (log_address lg)) of
        None \<Rightarrow> acc
      | Some f \<Rightarrow>
          if created_matches (toLowerCase (sa_requestContract a)) created
          then (fst acc, Some (log_blockNumber lg, f)) else acc)"

definition absorb ::
    "scan_args \<Rightarrow> chain_log \<Rightarrow> chain_log list \<times> deployment \<Rightarrow> chain_log list \<times> deployment" where
  "absorb a lg acc =
     (case log_event lg of
        RequestCreated req \<Rightarrow> absorb_deployment a req lg acc
      | FlashLoanRequestCreated req \<Rightarrow> absorb_deployment a req lg acc
      | RolesUpdated _ _ \<Rightarrow>
          if toLowerCase (log_address lg) \<noteq> toLowerCase (sa_requestContract a) then acc
          else (fst acc @ [lg], snd acc))"

definition chunk_from :: "scan_args \<Rightarrow> int \<Rightarrow> int" where
  "chunk_from a toBlock =
     (let chunkStart = toBlock - sa_blockRange a + 1 in
      if chunkStart > earliestAllowed a then chunkStart else earliestAllowed a)"

definition over_budget :: "'w scan_io \<Rightarrow> scan_args \<Rightarrow> int \<Rightarrow> bool \<Rightarrow> ('w, jsnum option) state" where
  "over_budget io a startedAt firstChunk =
     (case sa_deadlineMs a of
        None \<Rightarrow> ret None
      | Some d \<Rightarrow>
          if firstChunk then ret None
          else do {
            t \<leftarrow> si_now io;
            ret (if num_lt_int d (t - startedAt) then Some d else None)
          })"

definition get_chunk :: "'w scan_io \<Rightarrow> scan_args \<Rightarrow> int \<Rightarrow> int \<Rightarrow> ('w, scan_failure + chain_log list) state" where
  "get_chunk io a fromBlock toBlock = do {
     r \<leftarrow> si_getLogs io (sa_factories a @ [sa_requestContract a]) fromBlock toBlock;
     ret (case r of Inl e \<Rightarrow> Inl (GetLogsThrew e) | Inr logs \<Rightarrow> Inr logs)
   }"

text \<open>
  The \<open>while\<close> loop. The entry check on \<open>blockRange\<close> is repeated as a guard, which makes the
  recursion well-founded for every argument; \<open>scanRoleHolders\<close> never reaches it.
\<close>

function scan_loop ::
    "'w scan_io \<Rightarrow> scan_args \<Rightarrow> int \<Rightarrow> int \<Rightarrow> bool \<Rightarrow> chain_log list \<times> deployment \<Rightarrow>
     ('w, scan_failure + chain_log list \<times> deployment) state" where
  "scan_loop io a startedAt toBlock firstChunk acc =
     (if sa_blockRange a \<le> 0 then ret (Inl BlockRangeNotPositive)
      else if toBlock \<ge> earliestAllowed a \<and> snd acc = None then do {
        ab \<leftarrow> si_aborted io;
        if ab then ret (Inl (ScanAborted (earliestAllowed a) toBlock))
        else do {
          ov \<leftarrow> over_budget io a startedAt firstChunk;
          case ov of
            Some d \<Rightarrow> ret (Inl (BudgetExceeded d (earliestAllowed a) toBlock))
          | None \<Rightarrow>
              bindE (get_chunk io a (chunk_from a toBlock) toBlock) (\<lambda>logs.
                (let acc' = fold (absorb a) logs acc;
                     fromBlock = chunk_from a toBlock in
                 if fromBlock = 0 \<or> fromBlock = earliestAllowed a then ret (Inr acc')
                 else scan_loop io a startedAt (fromBlock - 1) False acc'))
        }
      }
      else ret (Inr acc))"
  by pat_completeness auto
termination
  by (relation "measure (\<lambda>(io, a, st, toBlock, fc, acc). nat (toBlock + 1 - earliestAllowed a))")
    (auto simp: chunk_from_def Let_def)

declare scan_loop.simps [simp del]

definition scan_outcome :: "scan_args \<Rightarrow> chain_log list \<times> deployment \<Rightarrow> role_scan_outcome" where
  "scan_outcome a acc =
     (if snd acc = None \<and> earliestAllowed a > 0 then TooOld (replayRoleState (fst acc))
      else Resolved (replayRoleState (fst acc))
             (case snd acc of None \<Rightarrow> 0 | Some (b, f) \<Rightarrow> b) (map_option snd (snd acc)))"

definition scanRoleHolders :: "'w scan_io \<Rightarrow> scan_args \<Rightarrow> ('w, scan_failure + role_scan_outcome) state" where
  "scanRoleHolders io a =
     (if sa_factories a = [] then ret (Inl FactoriesEmpty)
      else if sa_blockRange a \<le> 0 then ret (Inl BlockRangeNotPositive)
      else if sa_maxLookbackBlocks a \<le> 0 then ret (Inl LookbackNotPositive)
      else case sa_deadlineMs a of
        Some d \<Rightarrow>
          if \<not> num_isFinite d \<or> num_lt_int d 0 then ret (Inl (DeadlineInvalid d))
          else do {
            startedAt \<leftarrow> si_now io;
            bindE (scan_loop io a startedAt (sa_latestBlock a) True ([], None))
              (\<lambda>acc. ret (Inr (scan_outcome a acc)))
          }
      | None \<Rightarrow> do {
          startedAt \<leftarrow> si_now io;
          bindE (scan_loop io a startedAt (sa_latestBlock a) True ([], None))
            (\<lambda>acc. ret (Inr (scan_outcome a acc)))
        })"


section \<open>What the scan promises\<close>

text \<open>
  The chain's log history: in strictly increasing (block, index) order, between genesis and
  the latest block. An honest node answers a query with the part of the history the
  query covers, in the order of the history; it may fail at any call, and the world may
  change between calls.
\<close>

definition history :: "scan_args \<Rightarrow> chain_log list \<Rightarrow> bool" where
  "history a chain \<longleftrightarrow> sorted (map log_key chain) \<and> distinct (map log_key chain) \<and>
     (\<forall>l\<in>set chain. 0 \<le> log_blockNumber l \<and> log_blockNumber l \<le> sa_latestBlock a)"

definition visible :: "chain_log list \<Rightarrow> string list \<Rightarrow> int \<Rightarrow> int \<Rightarrow> chain_log list" where
  "visible chain addrs fromBlock toBlock =
     filter (\<lambda>l. fromBlock \<le> log_blockNumber l \<and> log_blockNumber l \<le> toBlock \<and>
       in_ci (log_address l) addrs) chain"

definition honest_node :: "'w scan_io \<Rightarrow> chain_log list \<Rightarrow> bool" where
  "honest_node io chain \<longleftrightarrow>
     (\<forall>addrs f t. pred_state (\<lambda>r. case r of Inl e \<Rightarrow> True | Inr ls \<Rightarrow> ls = visible chain addrs f t)
        (si_getLogs io addrs f t))"

text \<open>The contract emits no role event before a block in which a factory deploys it.\<close>

definition is_role_log :: "scan_args \<Rightarrow> chain_log \<Rightarrow> bool" where
  "is_role_log a l \<longleftrightarrow> (case log_event l of RolesUpdated u r \<Rightarrow>
     toLowerCase (log_address l) = toLowerCase (sa_requestContract a) | _ \<Rightarrow> False)"

definition is_deployment_log :: "scan_args \<Rightarrow> chain_log \<Rightarrow> bool" where
  "is_deployment_log a l \<longleftrightarrow> in_ci (log_address l) (sa_factories a) \<and>
     (case log_event l of
        RequestCreated c \<Rightarrow> created_matches (toLowerCase (sa_requestContract a)) c
      | FlashLoanRequestCreated c \<Rightarrow> created_matches (toLowerCase (sa_requestContract a)) c
      | RolesUpdated u r \<Rightarrow> False)"

definition deployed_before_roles :: "scan_args \<Rightarrow> chain_log list \<Rightarrow> bool" where
  "deployed_before_roles a chain \<longleftrightarrow>
     (\<forall>d\<in>set chain. \<forall>l\<in>set chain. is_deployment_log a d \<longrightarrow> is_role_log a l \<longrightarrow>
        log_blockNumber d \<le> log_blockNumber l)"

text \<open>
  The contract's role bitfield of a user at the latest block: the one in the last role event
  the contract emitted for the user.
\<close>

definition role_grant :: "scan_args \<Rightarrow> string \<Rightarrow> chain_log \<Rightarrow> 256 word option" where
  "role_grant a u l =
     (case log_event l of
        RolesUpdated (Some v) (Some r) \<Rightarrow> if is_role_log a l \<and> toLowerCase v = u then Some r else None
      | _ \<Rightarrow> None)"

definition current_roles :: "scan_args \<Rightarrow> chain_log list \<Rightarrow> string \<Rightarrow> 256 word option" where
  "current_roles a chain u =
     (let rs = List.map_filter (role_grant a u) chain in
      if rs = [] \<or> last rs = 0 then None else Some (last rs))"


subsection \<open>The replay computes the current roles\<close>

lemma map_filter_append: "List.map_filter f (xs @ ys) = List.map_filter f xs @ List.map_filter f ys"
  by (simp add: List.map_filter_def)

lemma map_filter_single: "List.map_filter f [x] = (case f x of None \<Rightarrow> [] | Some y \<Rightarrow> [y])"
  by (simp add: List.map_filter_def split: option.splits)

lemma omap_wf_fold_replay: "omap_wf m \<Longrightarrow> omap_wf (fold replay_step ls m)"
  by (induction ls arbitrary: m)
    (auto simp: replay_step_def split: role_event.splits option.splits)

lemma map_of_replay_step:
  "is_role_log a l \<Longrightarrow>
   map_of (replay_step l m) u = (case role_grant a u l of None \<Rightarrow> map_of m u | Some r \<Rightarrow> Some r)"
  by (auto simp: replay_step_def role_grant_def split: role_event.splits option.splits)

lemma map_of_fold_replay:
  "list_all (is_role_log a) ls \<Longrightarrow>
   map_of (fold replay_step ls []) u =
     (let rs = List.map_filter (role_grant a u) ls in if rs = [] then None else Some (last rs))"
proof (induction ls rule: rev_induct)
  case (snoc l ls)
  then have l: "is_role_log a l" and IH: "map_of (fold replay_step ls []) u =
     (let rs = List.map_filter (role_grant a u) ls in if rs = [] then None else Some (last rs))"
    by auto
  from l IH show ?case
    by (auto simp: map_filter_append map_filter_single map_of_replay_step Let_def split: option.splits)
qed (simp add: List.map_filter_def)

lemma map_of_replayRoleState:
  assumes "list_all (is_role_log a) ls"
  shows "map_of (replayRoleState ls) u = current_roles a (sort_key log_key ls) u"
proof -
  have "list_all (is_role_log a) (sort_key log_key ls)"
    using assms by (simp add: list_all_iff)
  note m = map_of_fold_replay [OF this, of u]
  have wf: "omap_wf (fold replay_step (sort_key log_key ls) [])"
    by (rule omap_wf_fold_replay) simp
  show ?thesis
    unfolding replayRoleState_def
    using map_of_filter_wf [OF wf, where P = "\<lambda>k v. v \<noteq> 0" and k = u] m
    by (simp add: current_roles_def Let_def)
qed

lemma sort_logs:
  assumes "history a chain" and "mset ls = mset (filter P chain)"
  shows "sort_key log_key ls = filter P chain"
proof (rule sort_key_inj_key_eq [OF assms(2)])
  have "distinct (map log_key (filter P chain))"
    using assms(1) by (simp add: history_def distinct_map_filter)
  then have "inj_on log_key (set (filter P chain))" by (simp add: distinct_map)
  then show "inj_on log_key (set ls)"
    using assms(2) by (metis mset_eq_setD)
  show "sorted (map log_key (filter P chain))"
    using assms(1) by (simp add: history_def sorted_filter)
qed

lemma current_roles_irrelevant:
  "(\<forall>l\<in>set chain. role_grant a u l \<noteq> None \<longrightarrow> P l) \<Longrightarrow>
   current_roles a (filter P chain) u = current_roles a chain u"
proof -
  assume h: "\<forall>l\<in>set chain. role_grant a u l \<noteq> None \<longrightarrow> P l"
  have "List.map_filter (role_grant a u) (filter P chain) = List.map_filter (role_grant a u) chain"
    using h by (induction chain) (auto simp: List.map_filter_simps split: option.splits)
  then show ?thesis by (simp add: current_roles_def)
qed

lemma role_grant_role_log: "role_grant a u l \<noteq> None \<Longrightarrow> is_role_log a l"
  by (auto simp: role_grant_def split: role_event.splits option.splits if_splits)

lemma replay_window:
  assumes "history a chain" and "mset ls = mset (filter (\<lambda>l. is_role_log a l \<and> from \<le> log_blockNumber l) chain)"
  shows "map_of (replayRoleState ls) u =
    current_roles a (filter (\<lambda>l. from \<le> log_blockNumber l) chain) u"
proof -
  have "set ls = set (filter (\<lambda>l. is_role_log a l \<and> from \<le> log_blockNumber l) chain)"
    using assms(2) by (metis mset_eq_setD)
  then have "list_all (is_role_log a) ls" by (simp add: list_all_iff)
  then have "map_of (replayRoleState ls) u =
      current_roles a (filter (\<lambda>l. is_role_log a l \<and> from \<le> log_blockNumber l) chain) u"
    by (simp add: map_of_replayRoleState sort_logs [OF assms])
  also have "\<dots> = current_roles a (filter (\<lambda>l. from \<le> log_blockNumber l) chain) u"
    using current_roles_irrelevant [where chain = "filter (\<lambda>l. from \<le> log_blockNumber l) chain" and
        P = "is_role_log a" and a = a and u = u] role_grant_role_log
    by (auto simp: conj_commute)
  finally show ?thesis .
qed

text \<open>A window that ends at the latest block is a suffix of the history.\<close>

lemma window_suffix:
  "sorted (map log_key chain) \<Longrightarrow>
   chain = filter (\<lambda>l. \<not> from \<le> log_blockNumber l) chain @ filter (\<lambda>l. from \<le> log_blockNumber l) chain"
proof (induction chain)
  case (Cons l chain)
  show ?case
  proof (cases "from \<le> log_blockNumber l")
    case True
    with Cons.prems have "\<forall>x\<in>set chain. from \<le> log_blockNumber x"
      by (auto simp: log_key_def less_eq_prod_def)
    with True show ?thesis by (simp add: filter_id_conv)
  next
    case False
    with Cons show ?thesis by simp
  qed
qed simp

lemma current_roles_window:
  assumes "history a chain"
    and "current_roles a (filter (\<lambda>l. from \<le> log_blockNumber l) chain) u = Some r"
  shows "current_roles a chain u = Some r"
proof -
  define w where "w = filter (\<lambda>l. from \<le> log_blockNumber l) chain"
  have "sorted (map log_key chain)" using assms(1) by (simp add: history_def)
  from window_suffix [OF this, of "from"] obtain v where v: "chain = v @ w"
    unfolding w_def by blast
  from assms(2) have "List.map_filter (role_grant a u) w \<noteq> []" "last (List.map_filter (role_grant a u) w) = r" "r \<noteq> 0"
    by (auto simp: current_roles_def w_def Let_def split: if_splits)
  then show ?thesis unfolding v by (simp add: current_roles_def map_filter_append Let_def)
qed


subsection \<open>The loop\<close>

lemma factoryByLower_Some: "factoryByLower fs e = Some f \<Longrightarrow> f \<in> set fs \<and> toLowerCase f = e"
  by (auto simp: factoryByLower_def dest: map_of_SomeD)

lemma factoryByLower_None: "factoryByLower fs (toLowerCase e) = None \<longleftrightarrow> \<not> in_ci e fs"
  by (auto simp: factoryByLower_def in_ci_def map_of_eq_None_iff image_image)

lemma absorb_eq:
  "absorb a l acc =
     (if is_role_log a l then (fst acc @ [l], snd acc)
      else if is_deployment_log a l
      then (fst acc, Some (log_blockNumber l, the (factoryByLower (sa_factories a) (toLowerCase (log_address l)))))
      else acc)"
  using factoryByLower_None [of "sa_factories a" "log_address l"]
  by (auto simp: absorb_def absorb_deployment_def is_role_log_def is_deployment_log_def
      split: role_event.splits option.splits)

lemma fst_fold_absorb: "fst (fold (absorb a) ls acc) = fst acc @ filter (is_role_log a) ls"
  by (induction ls arbitrary: acc) (auto simp: absorb_eq)

lemma snd_fold_absorb:
  "(case snd (fold (absorb a) ls acc) of
      None \<Rightarrow> snd acc = None \<and> (\<forall>l\<in>set ls. \<not> (is_deployment_log a l \<and> \<not> is_role_log a l))
    | Some (b, f) \<Rightarrow> snd acc = Some (b, f) \<or>
        (\<exists>d\<in>set ls. is_deployment_log a d \<and> log_blockNumber d = b \<and>
           factoryByLower (sa_factories a) (toLowerCase (log_address d)) = Some f))"
proof (induction ls rule: rev_induct)
  case (snoc l ls)
  show ?case
  proof (cases "is_deployment_log a l \<and> \<not> is_role_log a l")
    case True
    then have "in_ci (log_address l) (sa_factories a)" by (simp add: is_deployment_log_def)
    then obtain f where "factoryByLower (sa_factories a) (toLowerCase (log_address l)) = Some f"
      using factoryByLower_None by blast
    with True show ?thesis by (auto simp: absorb_eq)
  next
    case False
    then have "snd (absorb a l (fold (absorb a) ls acc)) = snd (fold (absorb a) ls acc)"
      by (auto simp: absorb_eq)
    with snoc False show ?thesis by (auto split: option.splits prod.splits)
  qed
qed (auto split: option.splits)

lemma deployment_not_role: "is_deployment_log a l \<Longrightarrow> \<not> is_role_log a l"
  by (auto simp: is_deployment_log_def is_role_log_def split: role_event.splits)

definition scanned :: "scan_args \<Rightarrow> chain_log list \<Rightarrow> int \<Rightarrow> chain_log list \<Rightarrow> bool" where
  "scanned a chain from ls \<longleftrightarrow>
     mset ls = mset (filter (\<lambda>l. is_role_log a l \<and> from \<le> log_blockNumber l) chain)"

definition scan_post :: "scan_args \<Rightarrow> chain_log list \<Rightarrow> chain_log list \<times> deployment \<Rightarrow> bool" where
  "scan_post a chain acc \<longleftrightarrow> (\<exists>from. scanned a chain from (fst acc) \<and>
     (case snd acc of None \<Rightarrow> from \<le> earliestAllowed a
      | Some (b, f) \<Rightarrow> from \<le> b \<and> (\<exists>d\<in>set chain. is_deployment_log a d \<and> log_blockNumber d = b)))"

lemma mset_filter_split:
  "mset (filter P xs) = mset (filter (\<lambda>x. P x \<and> Q x) xs) + mset (filter (\<lambda>x. P x \<and> \<not> Q x) xs)"
  by (induction xs) auto

lemma is_role_log_addr: "is_role_log a l \<Longrightarrow> in_ci (log_address l) (sa_factories a @ [sa_requestContract a])"
  by (auto simp: is_role_log_def in_ci_def split: role_event.splits)

lemma scanned_chunk:
  assumes "scanned a chain (toBlock + 1) ls"
    and "from \<le> toBlock"
  shows "scanned a chain from
    (ls @ filter (is_role_log a) (visible chain (sa_factories a @ [sa_requestContract a]) from toBlock))"
proof -
  let ?P = "\<lambda>l. is_role_log a l \<and> from \<le> log_blockNumber l"
  let ?Q = "\<lambda>l. toBlock + 1 \<le> log_blockNumber l"
  have "filter (\<lambda>l. ?P l \<and> ?Q l) chain = filter (\<lambda>l. is_role_log a l \<and> toBlock + 1 \<le> log_blockNumber l) chain"
    using assms(2) by (intro filter_cong) auto
  moreover have "filter (\<lambda>l. ?P l \<and> \<not> ?Q l) chain =
    filter (is_role_log a) (visible chain (sa_factories a @ [sa_requestContract a]) from toBlock)"
    using is_role_log_addr [of a] by (auto simp: visible_def intro!: filter_cong)
  ultimately show ?thesis
    using assms(1) mset_filter_split [of ?P chain ?Q] by (simp add: scanned_def)
qed

lemma chunk_from_bounds:
  "0 < sa_blockRange a \<Longrightarrow> earliestAllowed a \<le> t \<Longrightarrow>
     earliestAllowed a \<le> chunk_from a t \<and> chunk_from a t \<le> t \<and> t - chunk_from a t + 1 \<le> sa_blockRange a"
  by (auto simp: chunk_from_def Let_def)

lemma earliestAllowed_nonneg: "0 < sa_maxLookbackBlocks a \<Longrightarrow> 0 \<le> earliestAllowed a"
  by (simp add: earliestAllowed_def)

lemma get_chunk_honest:
  "honest_node io chain \<Longrightarrow>
   pred_state (\<lambda>r. case r of Inl e \<Rightarrow> True | Inr ls \<Rightarrow>
       ls = visible chain (sa_factories a @ [sa_requestContract a]) f t) (get_chunk io a f t)"
  unfolding get_chunk_def honest_node_def
  by (rule pred_state_bindI, drule spec, drule spec, drule spec, assumption) (auto split: sum.splits)

lemma scan_loop_post:
  assumes "honest_node io chain" and "0 < sa_maxLookbackBlocks a"
  shows "scanned a chain (toBlock + 1) (fst acc) \<Longrightarrow> snd acc = None \<Longrightarrow>
    pred_state (\<lambda>r. case r of Inl e \<Rightarrow> True | Inr acc' \<Rightarrow> scan_post a chain acc')
      (scan_loop io a st toBlock fc acc)"
proof (induction "nat (toBlock + 1 - earliestAllowed a)" arbitrary: toBlock fc acc rule: less_induct)
  case less
  let ?from = "chunk_from a toBlock"
  let ?V = "visible chain (sa_factories a @ [sa_requestContract a]) ?from toBlock"
  let ?R = "\<lambda>r. case r of Inl (e :: scan_failure) \<Rightarrow> True | Inr acc' \<Rightarrow> scan_post a chain acc'"
  show ?case
  proof (cases "0 < sa_blockRange a \<and> earliestAllowed a \<le> toBlock")
    case False
    then show ?thesis using less.prems
      by (subst scan_loop.simps) (auto simp: scan_post_def)
  next
    case True
    note b = chunk_from_bounds [OF conjunct1 [OF True] conjunct2 [OF True]]
    have step: "pred_state ?R
        (let acc' = fold (absorb a) ls acc in
          if ?from = 0 \<or> ?from = earliestAllowed a then ret (Inr acc')
          else scan_loop io a st (?from - 1) False acc')" if ls: "ls = ?V" for ls
    proof -
      define acc' where "acc' = fold (absorb a) ls acc"
      have sc: "scanned a chain ?from (fst acc')"
        using scanned_chunk [OF less.prems(1)] b ls by (simp add: acc'_def fst_fold_absorb)
      have dep: "case snd acc' of None \<Rightarrow> True | Some (bl, f) \<Rightarrow>
          ?from \<le> bl \<and> (\<exists>d\<in>set chain. is_deployment_log a d \<and> log_blockNumber d = bl)"
        using snd_fold_absorb [where a = a and ls = ls and acc = acc] less.prems(2) ls
        by (auto simp: acc'_def visible_def split: option.splits)
      have fin: "scan_post a chain acc'" if "?from = earliestAllowed a \<or> snd acc' \<noteq> None"
        using sc dep that unfolding scan_post_def
        by (intro exI [of _ ?from]) (auto split: option.splits)
      have zero: "?from = earliestAllowed a" if "?from = 0"
        using that b earliestAllowed_nonneg [OF assms(2)] by linarith
      have rec: "pred_state ?R (scan_loop io a st (?from - 1) False acc')"
        if n: "?from \<noteq> earliestAllowed a"
      proof (cases "snd acc'")
        case None
        show ?thesis
          by (rule less.hyps) (use b n sc None in auto)
      next
        case (Some d)
        then show ?thesis
          using fin by (subst scan_loop.simps) auto
      qed
      show ?thesis
        unfolding acc'_def [symmetric] Let_def using zero fin rec by auto
    qed
    have chunk: "pred_state ?R (bindE (get_chunk io a ?from toBlock) (\<lambda>ls.
        let acc' = fold (absorb a) ls acc in
          if ?from = 0 \<or> ?from = earliestAllowed a then ret (Inr acc')
          else scan_loop io a st (?from - 1) False acc'))"
      by (rule pred_state_bindE_sum [where Q = "\<lambda>ls. ls = ?V"])
        (use get_chunk_honest [OF assms(1)] step in simp_all)
    show ?thesis
      using True less.prems chunk
      by (subst scan_loop.simps)
        (auto simp: Let_def intro!: pred_state_bind_any split: option.splits)
  qed
qed


lemma scanRoleHolders_io:
  "pred_state P (scanRoleHolders io a)"
  if "\<And>f. f \<in> {FactoriesEmpty, BlockRangeNotPositive, LookbackNotPositive} \<union> range DeadlineInvalid \<Longrightarrow> P (Inl f)"
    and "\<And>st. 0 < sa_blockRange a \<Longrightarrow> 0 < sa_maxLookbackBlocks a \<Longrightarrow> pred_state
      (\<lambda>r. case r of Inl e \<Rightarrow> P (Inl e) | Inr acc \<Rightarrow> P (Inr (scan_outcome a acc)))
      (scan_loop io a st (sa_latestBlock a) True ([], None))"
proof -
  have "pred_state P (bindE (scan_loop io a st (sa_latestBlock a) True ([], None))
              (\<lambda>acc. ret (Inr (scan_outcome a acc))))"
    if "0 < sa_blockRange a" "0 < sa_maxLookbackBlocks a" for st
    by (rule pred_state_bindE [where Q = "\<lambda>acc. P (Inr (scan_outcome a acc))"])
      (use that(1,2) \<open>\<And>st. 0 < sa_blockRange a \<Longrightarrow> _ \<Longrightarrow> _\<close> in simp_all)
  with that(1) show ?thesis
    by (auto simp: scanRoleHolders_def intro!: pred_state_bind_any split: option.splits)
qed

lemma scan_outcome_roles:
  assumes "honest_node io chain" and "history a chain" and "deployed_before_roles a chain"
  shows "pred_state (\<lambda>r. case r of
       Inl e \<Rightarrow> True
     | Inr (Resolved holders b f) \<Rightarrow> map_of holders = current_roles a chain
     | Inr (TooOld holders) \<Rightarrow> map_of holders \<subseteq>\<^sub>m current_roles a chain) (scanRoleHolders io a)"
    (is "pred_state ?P _")
proof (rule scanRoleHolders_io)
  fix st assume pos: "0 < sa_blockRange a" "0 < sa_maxLookbackBlocks a"
  have "scanned a chain (sa_latestBlock a + 1) []"
    using assms(2) by (auto simp: scanned_def history_def)
  then have post: "pred_state (\<lambda>r. case r of Inl e \<Rightarrow> True | Inr acc' \<Rightarrow> scan_post a chain acc')
      (scan_loop io a st (sa_latestBlock a) True ([], None))"
    using scan_loop_post [OF assms(1) pos(2)] by simp
  have out: "?P (Inr (scan_outcome a acc))" if p: "scan_post a chain acc" for acc
  proof -
    from p obtain "from" where sc: "scanned a chain from (fst acc)"
      and d: "case snd acc of None \<Rightarrow> from \<le> earliestAllowed a
        | Some (b, f) \<Rightarrow> from \<le> b \<and> (\<exists>d\<in>set chain. is_deployment_log a d \<and> log_blockNumber d = b)"
      unfolding scan_post_def by blast
    have w: "map_of (replayRoleState (fst acc)) u = current_roles a (filter (\<lambda>l. from \<le> log_blockNumber l) chain) u" for u
      using replay_window [OF assms(2)] sc by (simp add: scanned_def)
    have sub: "map_of (replayRoleState (fst acc)) \<subseteq>\<^sub>m current_roles a chain"
      unfolding map_le_def using w current_roles_window [OF assms(2)] by (auto simp: dom_def)
    have eq: "map_of (replayRoleState (fst acc)) = current_roles a chain"
      if c: "snd acc \<noteq> None \<or> earliestAllowed a \<le> 0"
    proof -
      have "\<forall>l\<in>set chain. is_role_log a l \<longrightarrow> from \<le> log_blockNumber l"
      proof (cases "snd acc")
        case None
        with c d assms(2) show ?thesis by (auto simp: history_def)
      next
        case (Some x)
        with d assms(3) show ?thesis
          by (cases x) (force simp: deployed_before_roles_def)
      qed
      then show ?thesis
        using w current_roles_irrelevant [where P = "\<lambda>l. from \<le> log_blockNumber l" and a = a and chain = chain]
          role_grant_role_log by (intro ext) (metis (no_types, lifting))
    qed
    show ?thesis using sub eq by (auto simp: scan_outcome_def)
  qed
  show "pred_state (\<lambda>r. case r of Inl e \<Rightarrow> ?P (Inl e) | Inr acc \<Rightarrow> ?P (Inr (scan_outcome a acc)))
      (scan_loop io a st (sa_latestBlock a) True ([], None))"
    by (rule pred_state_mono [OF post]) (use out in \<open>auto split: sum.splits\<close>)
qed auto

text \<open>The shape of an outcome, for any node: distinct holders, and a factory that was asked about.\<close>

lemma absorb_factory:
  "(\<forall>b f. snd acc = Some (b, f) \<longrightarrow> f \<in> set (sa_factories a)) \<Longrightarrow>
   snd (fold (absorb a) ls acc) = Some (b, f) \<Longrightarrow> f \<in> set (sa_factories a)"
  using snd_fold_absorb [where a = a and ls = ls and acc = acc] factoryByLower_Some by force

lemma scan_loop_factory:
  "(\<forall>b f. snd acc = Some (b, f) \<longrightarrow> f \<in> set (sa_factories a)) \<Longrightarrow>
   pred_state (case_sum (\<lambda>_. True) (\<lambda>acc. \<forall>b f. snd acc = Some (b, f) \<longrightarrow> f \<in> set (sa_factories a)))
     (scan_loop io a st t fc acc)"
proof (induction "nat (t + 1 - earliestAllowed a)" arbitrary: t fc acc rule: less_induct)
  case less
  let ?R = "case_sum (\<lambda>_. True) (\<lambda>acc. \<forall>b f. snd acc = Some (b, f) \<longrightarrow> f \<in> set (sa_factories a))
    :: scan_failure + chain_log list \<times> deployment \<Rightarrow> bool"
  have rec: "pred_state ?R (scan_loop io a st (chunk_from a t - 1) False acc')"
    if "0 < sa_blockRange a" "earliestAllowed a \<le> t"
      "\<forall>b f. snd acc' = Some (b, f) \<longrightarrow> f \<in> set (sa_factories a)" for acc'
    by (rule less.hyps) (use chunk_from_bounds [OF that(1,2)] that in auto)
  have "pred_state ?R (bindE (get_chunk io a (chunk_from a t) t) (\<lambda>logs.
                (let acc' = fold (absorb a) logs acc;
                     fromBlock = chunk_from a t in
                 if fromBlock = 0 \<or> fromBlock = earliestAllowed a then ret (Inr acc')
                 else scan_loop io a st (fromBlock - 1) False acc')))"
    if "0 < sa_blockRange a" "earliestAllowed a \<le> t"
    by (rule pred_state_bindE_sum [where Q = "\<lambda>_. True"])
      (use rec [OF that] absorb_factory [OF less.prems] in
        \<open>auto simp: Let_def elim!: pred_state_mono [OF pred_state_True] split: sum.splits\<close>)
  then show ?case
    using less.prems
    by (subst scan_loop.simps) (auto intro!: pred_state_bind_any split: option.splits)
qed

lemma omap_wf_replayRoleState: "omap_wf (replayRoleState ls)"
  by (simp add: replayRoleState_def omap_wf_fold_replay)

lemma scan_outcome_shape:
  "pred_state (\<lambda>r. case r of
       Inl e \<Rightarrow> True
     | Inr (Resolved holders b f) \<Rightarrow> omap_wf holders \<and> (\<forall>x. f = Some x \<longrightarrow> x \<in> set (sa_factories a))
     | Inr (TooOld holders) \<Rightarrow> omap_wf holders) (scanRoleHolders io a)"
proof (rule scanRoleHolders_io)
  fix st
  have "pred_state (case_sum (\<lambda>_. True) (\<lambda>acc. \<forall>b f. snd acc = Some (b, f) \<longrightarrow> f \<in> set (sa_factories a)))
     (scan_loop io a st (sa_latestBlock a) True ([], None))"
    by (rule scan_loop_factory) simp
  then show "pred_state (\<lambda>r. case r of Inl e \<Rightarrow> case Inl e of Inl e \<Rightarrow> True
     | Inr (Resolved holders b f) \<Rightarrow> omap_wf holders \<and> (\<forall>x. f = Some x \<longrightarrow> x \<in> set (sa_factories a))
     | Inr (TooOld holders) \<Rightarrow> omap_wf holders
     | Inr acc \<Rightarrow> case Inr (scan_outcome a acc) of Inl e \<Rightarrow> True
     | Inr (Resolved holders b f) \<Rightarrow> omap_wf holders \<and> (\<forall>x. f = Some x \<longrightarrow> x \<in> set (sa_factories a))
     | Inr (TooOld holders) \<Rightarrow> omap_wf holders)
      (scan_loop io a st (sa_latestBlock a) True ([], None))"
    by (rule pred_state_mono) (auto simp: scan_outcome_def omap_wf_replayRoleState split: sum.splits)
qed auto

text \<open>
  C18. The outcome of the role-events scan, when the node answers with the history, at whatever
  point of the walk the scan stops and whatever else changes in the world meanwhile: a
  \<open>resolved\<close> holder map is the contract's complete role state at the latest block, user by
  user; a \<open>tooOld\<close> partial map may miss holders, but each entry it has is that user's current
  bitfield. The role events of the factories themselves, which arrive in the same batches,
  leave no trace in either.
\<close>

theorem scan_role_state:
  assumes "honest_node io chain" and "history a chain" and "deployed_before_roles a chain"
  shows "pred_state (\<lambda>r. case r of
       Inl e \<Rightarrow> True
     | Inr (Resolved holders b f) \<Rightarrow> map_of holders = current_roles a chain
     | Inr (TooOld holders) \<Rightarrow> map_of holders \<subseteq>\<^sub>m current_roles a chain) (scanRoleHolders io a)"
  by (rule scan_outcome_roles [OF assms])

text \<open>
  What the scan asks of the node: each query spans at most \<open>blockRange\<close> blocks, starts at or
  above the look-back limit and ends at or below the latest block. Stated without a trace: two
  clients that agree on such queries give the same scan, whatever they answer to others.
\<close>

theorem scan_queries_bounded:
  assumes "\<And>addrs f t. earliestAllowed a \<le> f \<Longrightarrow> f \<le> t \<Longrightarrow> t \<le> sa_latestBlock a \<Longrightarrow>
      t - f + 1 \<le> sa_blockRange a \<Longrightarrow> si_getLogs io addrs f t = si_getLogs io' addrs f t"
    and "si_now io = si_now io'" and "si_aborted io = si_aborted io'"
  shows "scanRoleHolders io a = scanRoleHolders io' a"
proof -
  have loop: "t \<le> sa_latestBlock a \<Longrightarrow> scan_loop io a st t fc acc = scan_loop io' a st t fc acc" for st t fc acc
  proof (induction "nat (t + 1 - earliestAllowed a)" arbitrary: t fc acc rule: less_induct)
    case less
    show ?case
    proof (cases "0 < sa_blockRange a \<and> earliestAllowed a \<le> t")
      case False
      then show ?thesis by (subst (1 2) scan_loop.simps) auto
    next
      case True
      note b = chunk_from_bounds [OF conjunct1 [OF True] conjunct2 [OF True]]
      have "get_chunk io a (chunk_from a t) t = get_chunk io' a (chunk_from a t) t"
        using assms(1) b less.prems by (simp add: get_chunk_def)
      moreover have "over_budget io a st fc = over_budget io' a st fc"
        using assms(2) by (auto simp: over_budget_def split: option.split)
      moreover have "scan_loop io a st (chunk_from a t - 1) False acc' =
          scan_loop io' a st (chunk_from a t - 1) False acc'" for acc'
        by (rule less.hyps) (use b True less.prems in auto)
      ultimately show ?thesis
        using assms(3)
        by (subst (1 2) scan_loop.simps) (simp only: Let_def cong: if_cong option.case_cong)
    qed
  qed
  show ?thesis
    using loop assms(2) by (simp add: scanRoleHolders_def cong: if_cong option.case_cong)
qed

text \<open>
  C24. With a client that answers, no abort and no time budget, a scan with valid arguments
  returns an outcome: the backward walk ends.
\<close>

theorem scan_returns:
  assumes "sa_factories a \<noteq> []" and "0 < sa_blockRange a" and "0 < sa_maxLookbackBlocks a"
    and "sa_deadlineMs a = None"
    and "\<And>addrs f t. pred_state isr (si_getLogs io addrs f t)"
    and "pred_state Not (si_aborted io)"
  shows "pred_state isr (scanRoleHolders io a)"
proof -
  have chunk: "pred_state isr (get_chunk io a f t)" for f t
    unfolding get_chunk_def by (rule pred_state_bindI [OF assms(5)]) (auto split: sum.splits)
  have loop: "pred_state isr (scan_loop io a st t fc acc)" for st t fc acc
  proof (induction "nat (t + 1 - earliestAllowed a)" arbitrary: t fc acc rule: less_induct)
    case less
    have rec: "pred_state isr (scan_loop io a st (chunk_from a t - 1) False acc')"
      if "earliestAllowed a \<le> t" for acc'
      by (rule less.hyps) (use chunk_from_bounds [OF assms(2) that] that in auto)
    have "pred_state isr (bindE (get_chunk io a (chunk_from a t) t) (\<lambda>logs.
                (let acc' = fold (absorb a) logs acc;
                     fromBlock = chunk_from a t in
                 if fromBlock = 0 \<or> fromBlock = earliestAllowed a then ret (Inr acc')
                 else scan_loop io a st (fromBlock - 1) False acc')))"
      if "earliestAllowed a \<le> t"
      using rec [OF that] by (intro isr_bindE [OF chunk]) (simp add: Let_def)
    then show ?case
      using assms(2,4)
      by (subst scan_loop.simps)
        (auto simp: over_budget_def intro!: pred_state_bindI [OF assms(6)])
  qed
  have "pred_state isr (bindE (scan_loop io a st t fc acc) (\<lambda>acc. ret (Inr (scan_outcome a acc))))" for st t fc acc
    by (rule isr_bindE [OF loop]) simp
  then show ?thesis
    using assms by (auto simp: scanRoleHolders_def intro!: pred_state_bind_any)
qed


section \<open>A concrete node\<close>

text \<open>The node that serves a given history and nothing else, and a small history for it.\<close>

definition node_of :: "chain_log list \<Rightarrow> unit scan_io" where
  "node_of chain =
     \<lparr>si_getLogs = \<lambda>addrs f t. ret (Inr (visible chain addrs f t)),
      si_now = ret 0, si_aborted = ret False\<rparr>"

definition ex_chain :: "chain_log list" where
  "ex_chain =
     [\<lparr>log_address = ''0xF'', log_event = RequestCreated (Some ''0xA''), log_blockNumber = 5, log_logIndex = 0\<rparr>,
      \<lparr>log_address = ''0xa'', log_event = RolesUpdated (Some ''0xB'') (Some 2), log_blockNumber = 5, log_logIndex = 1\<rparr>,
      \<lparr>log_address = ''0xf'', log_event = RolesUpdated (Some ''0xc'') (Some 2), log_blockNumber = 7, log_logIndex = 0\<rparr>,
      \<lparr>log_address = ''0xa'', log_event = RolesUpdated (Some ''0xd'') (Some 2), log_blockNumber = 8, log_logIndex = 0\<rparr>,
      \<lparr>log_address = ''0xa'', log_event = RolesUpdated (Some ''0xb'') (Some 0), log_blockNumber = 9, log_logIndex = 3\<rparr>]"

definition ex_scan :: "int \<Rightarrow> scan_args" where
  "ex_scan lookback =
     \<lparr>sa_factories = [''0xf''], sa_requestContract = ''0xA'', sa_latestBlock = 10,
      sa_blockRange = 3, sa_maxLookbackBlocks = lookback, sa_deadlineMs = None\<rparr>"

lemma honest_node_of: "honest_node (node_of chain) chain"
  by (simp add: honest_node_def node_of_def)

theorem scan_role_state_witness:
  "pred_state (\<lambda>r. case r of
       Inl e \<Rightarrow> True
     | Inr (Resolved holders b f) \<Rightarrow> map_of holders = current_roles (ex_scan 100) ex_chain
     | Inr (TooOld holders) \<Rightarrow> map_of holders \<subseteq>\<^sub>m current_roles (ex_scan 100) ex_chain)
     (scanRoleHolders (node_of ex_chain) (ex_scan 100)) \<and>
   current_roles (ex_scan 100) ex_chain ''0xd'' = Some 2 \<and>
   current_roles (ex_scan 100) ex_chain ''0xb'' = None \<and>
   current_roles (ex_scan 100) ex_chain ''0xc'' = None"
proof (intro conjI)
  have "history (ex_scan 100) ex_chain" "deployed_before_roles (ex_scan 100) ex_chain"
    by code_simp+
  from scan_role_state [OF honest_node_of this]
  show "pred_state (\<lambda>r. case r of
       Inl e \<Rightarrow> True
     | Inr (Resolved holders b f) \<Rightarrow> map_of holders = current_roles (ex_scan 100) ex_chain
     | Inr (TooOld holders) \<Rightarrow> map_of holders \<subseteq>\<^sub>m current_roles (ex_scan 100) ex_chain)
     (scanRoleHolders (node_of ex_chain) (ex_scan 100))" .
qed code_simp+

theorem scan_queries_bounded_witness:
  "scanRoleHolders (node_of ex_chain) (ex_scan 4) =
   scanRoleHolders ((node_of ex_chain)\<lparr>si_getLogs := \<lambda>addrs f t.
      ret (if t - f + 1 \<le> 3 \<and> 6 \<le> f \<and> t \<le> 10 then Inr (visible ex_chain addrs f t)
           else Inl \<lparr>th_isBaseError = False, th_chain = []\<rparr>)\<rparr>) (ex_scan 4)"
  by (rule scan_queries_bounded) (simp_all add: node_of_def ex_scan_def earliestAllowed_def)

theorem scan_returns_witness:
  "pred_state isr (scanRoleHolders (node_of ex_chain) (ex_scan 4))"
  by (rule scan_returns) (simp_all add: node_of_def ex_scan_def)

end
