(* ===== verification/Rate_Limit.thy ===== *)
theory Rate_Limit
  imports Helpers
begin

text \<open>
  The per-token rate limiter of \<open>guardian-defaults/src/rate-limit\<close>: the in-memory store with
  its atomic \<open>consume\<close> and its periodic sweep (\<open>store.ts\<close>), and the limiter built on a
  store (\<open>in-memory.ts\<close>): the \<open>consume\<close> path, the read/write fallback, the limit and
  \<open>Retry-After\<close> it reports, and the per-key queue that serialises the fallback. The locale
  is the contract of a fixed-window counter; both ways of counting are interpretations.
\<close>

section \<open>Windows and decisions\<close>

record rl_state =
  rl_count :: int
  rl_resetUnixSeconds :: int

record rl_decision =
  rd_allowed :: bool
  rd_count :: int
  rd_resetUnixSeconds :: int

text \<open>\<open>Math.ceil(nowSec + windowSeconds)\<close> for the finite windows the constructor admits.\<close>

fun window_end :: "int \<Rightarrow> jsnum \<Rightarrow> int" where
  "window_end nowSec (JFin r) = \<lceil>of_int nowSec + r\<rceil>"
| "window_end nowSec _ = nowSec"

definition decision_of :: "bool \<Rightarrow> rl_state \<Rightarrow> rl_decision" where
  "decision_of a s = \<lparr>rd_allowed = a, rd_count = rl_count s, rd_resetUnixSeconds = rl_resetUnixSeconds s\<rparr>"

text \<open>
  The read-modify-write: what is decided on the previous entry, and the entry to write
  (\<open>None\<close> when the request is denied and nothing is written).
\<close>

definition rmw_decide :: "int \<Rightarrow> jsnum \<Rightarrow> int \<Rightarrow> rl_state option \<Rightarrow> rl_decision \<times> rl_state option" where
  "rmw_decide limit windowSeconds nowSec previous =
     (case (case previous of None \<Rightarrow> None | Some p \<Rightarrow> if rl_resetUnixSeconds p \<le> nowSec then None else Some p) of
        None \<Rightarrow>
          (let s = \<lparr>rl_count = 1, rl_resetUnixSeconds = window_end nowSec windowSeconds\<rparr> in
           (decision_of True s, Some s))
      | Some p \<Rightarrow>
          if rl_count p \<ge> limit then (decision_of False p, None)
          else
            (let s = \<lparr>rl_count = rl_count p + 1, rl_resetUnixSeconds = rl_resetUnixSeconds p\<rparr> in
             (decision_of True s, Some s)))"

lemma window_end_after: "num_isFinite w \<Longrightarrow> \<not> num_le_int w 0 \<Longrightarrow> nowSec < window_end nowSec w"
  by (cases w) (auto simp: less_ceiling_iff)


section \<open>The in-memory store\<close>

record rl_store =
  rs_map :: "(string, rl_state) omap"
  rs_writes :: nat

definition SWEEP_PERIOD :: nat where
  "SWEEP_PERIOD = 256"

definition inMemoryRateLimitStore :: rl_store where
  "inMemoryRateLimitStore = \<lparr>rs_map = [], rs_writes = 0\<rparr>"

definition store_sweep :: "int \<Rightarrow> rl_store \<Rightarrow> rl_store" where
  "store_sweep nowSec s = s\<lparr>rs_map := filter (\<lambda>p. \<not> rl_resetUnixSeconds (snd p) \<le> nowSec) (rs_map s)\<rparr>"

definition countWrite :: "int \<Rightarrow> rl_store \<Rightarrow> rl_store" where
  "countWrite nowSec s =
     (let s' = s\<lparr>rs_writes := rs_writes s + 1\<rparr> in
      if rs_writes s' mod SWEEP_PERIOD = 0 then store_sweep nowSec s' else s')"

definition store_read :: "int \<Rightarrow> string \<Rightarrow> rl_store \<Rightarrow> rl_state option \<times> rl_store" where
  "store_read nowSec key s =
     (case map_of (rs_map s) key of
        None \<Rightarrow> (None, s)
      | Some e \<Rightarrow>
          if rl_resetUnixSeconds e \<le> nowSec
          then (None, s\<lparr>rs_map := omap_delete key (rs_map s)\<rparr>)
          else (Some e, s))"

definition store_write :: "int \<Rightarrow> string \<Rightarrow> rl_state \<Rightarrow> rl_store \<Rightarrow> rl_store" where
  "store_write nowSec key st s = countWrite nowSec (s\<lparr>rs_map := omap_set key st (rs_map s)\<rparr>)"

definition store_consume ::
    "string \<Rightarrow> int \<Rightarrow> jsnum \<Rightarrow> int \<Rightarrow> rl_store \<Rightarrow> rl_decision \<times> rl_store" where
  "store_consume key limit windowSeconds nowSec s =
     (case map_of (rs_map s) key of
        None \<Rightarrow>
          (let st = \<lparr>rl_count = 1, rl_resetUnixSeconds = window_end nowSec windowSeconds\<rparr> in
           (decision_of True st, countWrite nowSec (s\<lparr>rs_map := omap_set key st (rs_map s)\<rparr>)))
      | Some previous \<Rightarrow>
          if rl_resetUnixSeconds previous \<le> nowSec then
            (let st = \<lparr>rl_count = 1, rl_resetUnixSeconds = window_end nowSec windowSeconds\<rparr> in
             (decision_of True st, countWrite nowSec (s\<lparr>rs_map := omap_set key st (rs_map s)\<rparr>)))
          else if rl_count previous \<ge> limit then (decision_of False previous, s)
          else
            (let st = \<lparr>rl_count = rl_count previous + 1, rl_resetUnixSeconds = rl_resetUnixSeconds previous\<rparr> in
             (decision_of True st, countWrite nowSec (s\<lparr>rs_map := omap_set key st (rs_map s)\<rparr>))))"

text \<open>
  The fallback over the same store: read, decide, write. Each step reads the clock for itself:
  \<open>nowSec\<close> is the limiter's reading, \<open>readSec\<close> and \<open>writeSec\<close> are those of \<open>store.read\<close> and
  \<open>store.write\<close>, which come later.
\<close>

definition store_rmw ::
    "string \<Rightarrow> int \<Rightarrow> jsnum \<Rightarrow> int \<Rightarrow> int \<Rightarrow> int \<Rightarrow> rl_store \<Rightarrow> rl_decision \<times> rl_store" where
  "store_rmw key limit windowSeconds nowSec readSec writeSec s =
     (case store_read readSec key s of (previous, s1) \<Rightarrow>
      (case rmw_decide limit windowSeconds nowSec previous of
         (d, None) \<Rightarrow> (d, s1)
       | (d, Some st) \<Rightarrow> (d, store_write writeSec key st s1)))"


section \<open>The contract of a fixed-window counter\<close>

text \<open>The entry of a key whose window is still open at a time.\<close>

definition open_at :: "int \<Rightarrow> rl_state option \<Rightarrow> rl_state option" where
  "open_at t e = (case e of None \<Rightarrow> None | Some s \<Rightarrow> if rl_resetUnixSeconds s \<le> t then None else Some s)"

definition admitted :: "string \<Rightarrow> int \<Rightarrow> (string \<times> rl_decision) list \<Rightarrow> nat" where
  "admitted k r tr = length (filter (\<lambda>(k', d). k' = k \<and> rd_allowed d \<and> rd_resetUnixSeconds d = r) tr)"

fun run_consume ::
    "('s \<Rightarrow> string \<Rightarrow> int \<Rightarrow> rl_decision \<times> 's) \<Rightarrow> (string \<times> int) list \<Rightarrow> 's \<Rightarrow> (string \<times> rl_decision) list \<times> 's" where
  "run_consume c [] s = ([], s)"
| "run_consume c ((k, now) # qs) s =
     (case c s k now of (d, s') \<Rightarrow>
      (case run_consume c qs s' of (tr, s'') \<Rightarrow> ((k, d) # tr, s'')))"

locale fixed_window =
  fixes limit :: int and windowSeconds :: jsnum
    and consume :: "'s \<Rightarrow> string \<Rightarrow> int \<Rightarrow> rl_decision \<times> 's"
    and live :: "'s \<Rightarrow> int \<Rightarrow> string \<Rightarrow> rl_state option"
    and ok :: "'s \<Rightarrow> bool"
  assumes consume_ok: "ok s \<Longrightarrow> ok (snd (consume s k now))"
    and consume_decides: "ok s \<Longrightarrow> fst (consume s k now) = fst (rmw_decide limit windowSeconds now (live s now k))"
    and consume_same: "ok s \<Longrightarrow> live (snd (consume s k now)) now k =
        open_at now (case snd (rmw_decide limit windowSeconds now (live s now k)) of None \<Rightarrow> live s now k | Some e \<Rightarrow> Some e)"
    and consume_other: "ok s \<Longrightarrow> k' \<noteq> k \<Longrightarrow> live (snd (consume s k now)) now k' = live s now k'"
    and live_later: "ok s \<Longrightarrow> t \<le> t' \<Longrightarrow> live s t' k = open_at t' (live s t k)"
begin

text \<open>
  At any moment at most one window of a key is still open, and it has admitted exactly as many
  requests as its counter says.
\<close>

definition valid_window :: bool where
  "valid_window \<longleftrightarrow> 0 < limit \<and> num_isFinite windowSeconds \<and> \<not> num_le_int windowSeconds 0"

definition inv :: "int \<Rightarrow> (string \<times> rl_decision) list \<Rightarrow> 's \<Rightarrow> bool" where
  "inv T tr s \<longleftrightarrow> ok s \<and> (\<forall>k r. int (admitted k r tr) \<le> limit) \<and>
     (\<forall>k r. T < r \<longrightarrow> int (admitted k r tr) =
        (case live s T k of Some e \<Rightarrow> if r = rl_resetUnixSeconds e then rl_count e else 0 | None \<Rightarrow> 0))"

lemma inv_later: "inv T tr s \<Longrightarrow> T \<le> T' \<Longrightarrow> inv T' tr s"
  unfolding inv_def using live_later [of s T T'] by (auto simp: open_at_def split: option.splits)

lemma admitted_snoc:
  "admitted k r (tr @ [(k', d)]) =
     admitted k r tr + (if k' = k \<and> rd_allowed d \<and> rd_resetUnixSeconds d = r then 1 else 0)"
  by (simp add: admitted_def)

lemma inv_consume:
  assumes "valid_window" and "inv T tr s"
  shows "inv T (tr @ [(k, fst (consume s k T))]) (snd (consume s k T))"
proof -
  have ok: "ok s" and le: "\<And>k r. int (admitted k r tr) \<le> limit"
    and cnt: "\<And>k r. T < r \<Longrightarrow> int (admitted k r tr) =
        (case live s T k of Some e \<Rightarrow> if r = rl_resetUnixSeconds e then rl_count e else 0 | None \<Rightarrow> 0)"
    using assms(2) by (auto simp: inv_def)
  have limit_pos: "0 < limit" and window_pos: "num_isFinite windowSeconds" "\<not> num_le_int windowSeconds 0"
    using assms(1) by (auto simp: valid_window_def)
  have opn: "T < rl_resetUnixSeconds e" if "live s T k = Some e" for e
    using live_later [OF ok order_refl, of T k] that by (auto simp: open_at_def split: if_splits)
  note new = window_end_after [OF window_pos, of T]
  note eqs = consume_decides [OF ok, of k T] consume_same [OF ok, of k T]
  have main: "int (admitted k r (tr @ [(k, fst (consume s k T))])) \<le> limit \<and>
      (T < r \<longrightarrow> int (admitted k r (tr @ [(k, fst (consume s k T))])) =
        (case live (snd (consume s k T)) T k of Some e \<Rightarrow> if r = rl_resetUnixSeconds e then rl_count e else 0 | None \<Rightarrow> 0))" for r
    using cnt [of r k] cnt [of "window_end T windowSeconds" k] le [of k r] limit_pos new opn
    unfolding eqs admitted_snoc
    by (cases "live s T k")
      (auto simp: rmw_decide_def decision_of_def Let_def open_at_def split: if_splits)
  have other: "k' \<noteq> k \<Longrightarrow> admitted k' r (tr @ [(k, d)]) = admitted k' r tr" for k' r d
    by (simp add: admitted_snoc)
  show ?thesis
    unfolding inv_def
  proof (intro conjI allI impI)
    fix k' r
    show "int (admitted k' r (tr @ [(k, fst (consume s k T))])) \<le> limit"
      using main other le by (cases "k' = k") auto
    show "int (admitted k' r (tr @ [(k, fst (consume s k T))])) =
        (case live (snd (consume s k T)) T k' of Some e \<Rightarrow> if r = rl_resetUnixSeconds e then rl_count e else 0 | None \<Rightarrow> 0)"
      if "T < r"
      using main other cnt that consume_other [OF ok, of k' k T] by (cases "k' = k") auto
  qed (rule consume_ok [OF ok])
qed

lemma run_inv:
  assumes "valid_window"
  shows "inv T tr s \<Longrightarrow> sorted (T # map snd qs) \<Longrightarrow>
   \<exists>T'. inv T' (tr @ fst (run_consume consume qs s)) (snd (run_consume consume qs s))"
proof (induction qs arbitrary: T tr s)
  case (Cons q qs)
  obtain k now where q: "q = (k, now)" by (cases q)
  from Cons.prems q have "inv now tr s" by (auto intro: inv_later)
  from inv_consume [OF assms this, of k] Cons.prems(2) q
  show ?case
    using Cons.IH [of now "tr @ [(k, fst (consume s k now))]" "snd (consume s k now)"]
    by (auto simp: case_prod_beta)
qed auto

lemma no_over_admission:
  assumes "valid_window" and "ok s" and "\<And>t k. live s t k = None" and "sorted (map snd qs)"
  shows "int (admitted k r (fst (run_consume consume qs s))) \<le> limit"
proof (cases qs)
  case Nil
  with assms(1) show ?thesis by (simp add: admitted_def valid_window_def)
next
  case (Cons q qs')
  have "inv (snd q) [] s"
    using assms(1,2,3) by (simp add: inv_def admitted_def valid_window_def)
  from run_inv [OF assms(1) this, of qs] assms(4) Cons show ?thesis
    by (auto simp: inv_def)
qed

text \<open>A request that comes once the denied one's window has ended is admitted.\<close>

lemma admitted_after_reset:
  assumes "ok s" and "\<not> rd_allowed (fst (consume s k now))"
    and "rd_resetUnixSeconds (fst (consume s k now)) \<le> now'" and "now \<le> now'"
  shows "rd_allowed (fst (consume (snd (consume s k now)) k now'))"
proof -
  let ?s = "snd (consume s k now)"
  from assms(2) obtain e where e: "live s now k = Some e" and d: "fst (consume s k now) = decision_of False e"
    and n: "snd (rmw_decide limit windowSeconds now (live s now k)) = None"
    unfolding consume_decides [OF assms(1)]
    by (auto simp: rmw_decide_def decision_of_def Let_def split: option.splits if_splits)
  from d assms(3) have "rl_resetUnixSeconds e \<le> now'" by (simp add: decision_of_def)
  with e n have "live ?s now' k = None"
    using live_later [OF consume_ok [OF assms(1), of k now] assms(4), of k]
      consume_same [OF assms(1), of k now] by (simp add: open_at_def)
  then show ?thesis
    unfolding consume_decides [OF consume_ok [OF assms(1)]]
    by (simp add: rmw_decide_def decision_of_def Let_def)
qed

end


section \<open>Both stores meet the contract\<close>

definition store_live :: "rl_store \<Rightarrow> int \<Rightarrow> string \<Rightarrow> rl_state option" where
  "store_live s t k = open_at t (map_of (rs_map s) k)"

definition store_ok :: "rl_store \<Rightarrow> bool" where
  "store_ok s \<longleftrightarrow> omap_wf (rs_map s)"

lemma open_at_open_at: "t \<le> t' \<Longrightarrow> open_at t' (open_at t e) = open_at t' e"
  by (auto simp: open_at_def split: option.splits)

lemma live_sweep: "store_ok s \<Longrightarrow> store_live (store_sweep t s) t k = store_live s t k"
  using map_of_filter_wf [of "rs_map s" "\<lambda>_ e. \<not> rl_resetUnixSeconds e \<le> t" k]
  by (auto simp: store_ok_def store_live_def store_sweep_def open_at_def split: option.splits)

lemma live_countWrite: "store_ok s \<Longrightarrow> store_live (countWrite t s) t k = store_live s t k"
  using live_sweep [of "s\<lparr>rs_writes := rs_writes s + 1\<rparr>" t k]
  by (auto simp: countWrite_def Let_def store_ok_def store_live_def)

lemma ok_countWrite: "store_ok s \<Longrightarrow> store_ok (countWrite t s)"
  by (simp add: countWrite_def store_sweep_def store_ok_def Let_def)

lemma ok_set: "store_ok s \<Longrightarrow> store_ok (s\<lparr>rs_map := omap_set k e (rs_map s)\<rparr>)"
  by (simp add: store_ok_def)

lemma ok_del: "store_ok s \<Longrightarrow> store_ok (s\<lparr>rs_map := omap_delete k (rs_map s)\<rparr>)"
  by (simp add: store_ok_def)

lemma live_set: "store_live (s\<lparr>rs_map := omap_set k e (rs_map s)\<rparr>) t k' =
    (if k' = k then open_at t (Some e) else store_live s t k')"
  by (simp add: store_live_def)

lemma live_delete: "store_live (s\<lparr>rs_map := omap_delete k (rs_map s)\<rparr>) t k' =
    (if k' = k then None else store_live s t k')"
  by (simp add: store_live_def open_at_def)

lemma rmw_decide_open: "rmw_decide l w t (open_at t e) = rmw_decide l w t e"
  by (auto simp: rmw_decide_def open_at_def split: option.splits)


lemma rmw_decide_same:
  "store_ok s \<Longrightarrow> fst (store_consume k l w t s) = fst (rmw_decide l w t (map_of (rs_map s) k)) \<and>
   store_live (snd (store_consume k l w t s)) t k' =
     (if k' = k then open_at t (case snd (rmw_decide l w t (map_of (rs_map s) k)) of None \<Rightarrow> map_of (rs_map s) k | Some e \<Rightarrow> Some e)
      else store_live s t k') \<and>
   store_ok (snd (store_consume k l w t s))"
  by (auto simp: store_consume_def rmw_decide_def live_countWrite ok_countWrite ok_set live_set Let_def
      store_live_def [of s] split: option.splits)

lemma store_rmw_same:
  "store_ok s \<Longrightarrow> fst (store_rmw k l w t t t s) = fst (rmw_decide l w t (map_of (rs_map s) k)) \<and>
   store_live (snd (store_rmw k l w t t t s)) t k' =
     (if k' = k then open_at t (case snd (rmw_decide l w t (map_of (rs_map s) k)) of None \<Rightarrow> map_of (rs_map s) k | Some e \<Rightarrow> Some e)
      else store_live s t k') \<and>
   store_ok (snd (store_rmw k l w t t t s))"
proof -
  assume ok: "store_ok s"
  obtain prev s1 where r: "store_read t k s = (prev, s1)" by (cases "store_read t k s")
  then have prev: "prev = open_at t (map_of (rs_map s) k)" and ok1: "store_ok s1"
    and l1: "\<And>k'. store_live s1 t k' = store_live s t k'"
    using ok ok_del [OF ok] by (auto simp: store_read_def open_at_def store_live_def split: option.splits if_splits)
  have d: "rmw_decide l w t prev = rmw_decide l w t (map_of (rs_map s) k)"
    unfolding prev by (rule rmw_decide_open)
  show ?thesis
    by (cases "rmw_decide l w t (map_of (rs_map s) k)", cases "snd (rmw_decide l w t (map_of (rs_map s) k))")
      (use ok1 l1 in \<open>auto simp: store_rmw_def r d store_write_def live_countWrite ok_countWrite ok_set
        live_set store_live_def [of s]\<close>)
qed

lemma live_open: "open_at t (store_live s t k) = store_live s t k"
  by (simp add: store_live_def open_at_open_at)

lemma rmw_decide_live: "rmw_decide l w t (store_live s t k) = rmw_decide l w t (map_of (rs_map s) k)"
  by (simp add: store_live_def rmw_decide_open)

lemma open_case_live:
  "open_at t (case x of None \<Rightarrow> map_of (rs_map s) k | Some e \<Rightarrow> Some e) =
   open_at t (case x of None \<Rightarrow> store_live s t k | Some e \<Rightarrow> Some e)"
  by (cases x) (simp_all add: store_live_def open_at_open_at)

interpretation atomic: fixed_window limit windowSeconds
  "\<lambda>s k t. store_consume k limit windowSeconds t s" store_live store_ok for limit windowSeconds
  by unfold_locales
    (simp_all add: rmw_decide_same rmw_decide_live open_case_live, simp add: store_live_def open_at_open_at)

interpretation serial: fixed_window limit windowSeconds
  "\<lambda>s k t. store_rmw k limit windowSeconds t t t s" store_live store_ok for limit windowSeconds
  by unfold_locales
    (simp_all add: store_rmw_same rmw_decide_live open_case_live, simp add: store_live_def open_at_open_at)

lemma store_ok_init: "store_ok inMemoryRateLimitStore"
  by (simp add: store_ok_def inMemoryRateLimitStore_def)

lemma store_live_init: "store_live inMemoryRateLimitStore t k = None"
  by (simp add: store_live_def inMemoryRateLimitStore_def open_at_def)

text \<open>
  C19. No over-admission: from the empty store, whatever the interleaving of requests for
  different keys and however many sweeps fall in between, no window of a key admits more
  than \<open>limit\<close> requests, on the atomic path and, where the three readings of a request fall in
  one second, on the read/write path; the readings of the requests need only be in order.
\<close>

theorem store_no_over_admission:
  assumes "0 < limit" and "num_isFinite windowSeconds" and "\<not> num_le_int windowSeconds 0"
    and "sorted (map snd qs)"
  shows "int (admitted k r (fst (run_consume (\<lambda>s k t. store_consume k limit windowSeconds t s) qs
            inMemoryRateLimitStore))) \<le> limit \<and>
    int (admitted k r (fst (run_consume (\<lambda>s k t. store_rmw k limit windowSeconds t t t s) qs
            inMemoryRateLimitStore))) \<le> limit"
  using atomic.no_over_admission [OF _ store_ok_init store_live_init assms(4)]
    serial.no_over_admission [OF _ store_ok_init store_live_init assms(4)] assms(1-3)
  by (simp add: atomic.valid_window_def serial.valid_window_def)

theorem store_no_over_admission_witness:
  "admitted ''a'' 60 (fst (run_consume (\<lambda>s k t. store_consume k 2 (JFin 60) t s)
      [(''a'', 0), (''b'', 1), (''a'', 2), (''a'', 3), (''a'', 60)] inMemoryRateLimitStore)) \<le> 2 \<and>
   admitted ''a'' 60 (fst (run_consume (\<lambda>s k t. store_consume k 2 (JFin 60) t s)
      [(''a'', 0), (''b'', 1), (''a'', 2), (''a'', 3), (''a'', 60)] inMemoryRateLimitStore)) = 2"
proof
  show "admitted ''a'' 60 (fst (run_consume (\<lambda>s k t. store_consume k 2 (JFin 60) t s)
      [(''a'', 0), (''b'', 1), (''a'', 2), (''a'', 3), (''a'', 60)] inMemoryRateLimitStore)) \<le> 2"
    using store_no_over_admission [of 2 "JFin 60" "[(''a'', 0), (''b'', 1), (''a'', 2), (''a'', 3), (''a'', 60)]" "''a''" 60]
    by simp
qed code_simp


text \<open>
  The condition on the three readings is needed: a request of second 0 whose \<open>store.read\<close> falls
  in second 1 finds the full window of second 0 gone and is admitted to it once more. The
  bundled store has a \<open>consume\<close>, so the limiter takes this path only over another store.
\<close>

lemma store_rmw_second_boundary:
  "rd_allowed (fst (store_rmw ''a'' 1 (JFin 1) 0 1 1 (snd (store_rmw ''a'' 1 (JFin 1) 0 0 0 inMemoryRateLimitStore)))) \<and>
   \<not> rd_allowed (fst (store_rmw ''a'' 1 (JFin 1) 0 0 0 (snd (store_rmw ''a'' 1 (JFin 1) 0 0 0 inMemoryRateLimitStore))))"
  by code_simp

text \<open>Two stores that show the same open windows decide alike, on either path.\<close>

lemma paths_agree:
  "store_ok s \<Longrightarrow> store_ok s' \<Longrightarrow> sorted (t # map snd qs) \<Longrightarrow> (\<And>u k. t \<le> u \<Longrightarrow> store_live s u k = store_live s' u k) \<Longrightarrow>
   fst (run_consume (\<lambda>s k t. store_consume k l w t s) qs s) = fst (run_consume (\<lambda>s k t. store_rmw k l w t t t s) qs s')"
proof (induction qs arbitrary: t s s')
  case (Cons q qs)
  obtain k u where q: "q = (k, u)" by (cases q)
  from Cons.prems(3) q have tu: "t \<le> u" by simp
  with Cons.prems(4) have live: "store_live s u k' = store_live s' u k'" for k' by blast
  have d: "rmw_decide l w u (map_of (rs_map s) k) = rmw_decide l w u (map_of (rs_map s') k)"
    using live [of k] rmw_decide_live [of l w u s k] rmw_decide_live [of l w u s' k] by simp
  let ?s = "snd (store_consume k l w u s)" and ?s' = "snd (store_rmw k l w u u u s')"
  note c = rmw_decide_same [OF Cons.prems(1), of k l w u] and r = store_rmw_same [OF Cons.prems(2), of k l w u]
  have at: "store_live ?s u k' = store_live ?s' u k'" for k'
    using c r d live [of k] live [of k'] by (simp add: open_case_live cong: option.case_cong)
  have "store_live ?s v k' = store_live ?s' v k'" if "u \<le> v" for v k'
    using at [of k'] that by (metis open_at_open_at store_live_def)
  then show ?case
    using Cons.IH [of ?s ?s' u] c r d Cons.prems(3) q by (simp add: case_prod_beta)
qed simp

text \<open>
  Counting through the atomic \<open>consume\<close> and counting by read, decide and write give the
  same decision to every request of any sequence, with the sweeps and lazy deletions at
  whatever point each path has them.
\<close>

theorem consume_fallback_agree:
  assumes "sorted (map snd qs)"
  shows "fst (run_consume (\<lambda>s k t. store_consume k limit windowSeconds t s) qs inMemoryRateLimitStore) =
    fst (run_consume (\<lambda>s k t. store_rmw k limit windowSeconds t t t s) qs inMemoryRateLimitStore)"
proof (cases qs)
  case (Cons q qs')
  with assms show ?thesis
    using paths_agree [OF store_ok_init store_ok_init, of "snd q" qs] by simp
qed simp

theorem consume_fallback_agree_witness:
  "fst (run_consume (\<lambda>s k t. store_consume k 1 (JFin (1/2)) t s) [(''a'', 5), (''a'', 5), (''a'', 6)] inMemoryRateLimitStore) =
   fst (run_consume (\<lambda>s k t. store_rmw k 1 (JFin (1/2)) t t t s) [(''a'', 5), (''a'', 5), (''a'', 6)] inMemoryRateLimitStore)"
  by (rule consume_fallback_agree) simp


section \<open>The limiter\<close>

record rate_limit_window =
  rw_limit :: int
  rw_remaining :: int
  rw_resetUnixSeconds :: int

text \<open>The options check of \<open>inMemoryRateLimiter\<close>: \<open>None\<close> where it throws.\<close>

definition inMemoryRateLimiter :: "jsnum \<Rightarrow> jsnum \<Rightarrow> (int \<times> jsnum) option" where
  "inMemoryRateLimiter limit windowSeconds =
     (if \<not> num_isFinite limit \<or> num_le_int limit 0 \<or> \<not> num_isInteger limit then None
      else if \<not> num_isFinite windowSeconds \<or> num_le_int windowSeconds 0 then None
      else Some (num_to_int limit, windowSeconds))"

text \<open>What the caller gets for a decision; the clock is read after the decision.\<close>

definition limiter_result :: "int \<Rightarrow> int \<Rightarrow> rl_decision \<Rightarrow> guardian_error + rate_limit_window" where
  "limiter_result limit nowSec decision =
     (if \<not> rd_allowed decision then
        Inl (RateLimitedError ''Per-token rate limit exceeded''
          (max 1 (rd_resetUnixSeconds decision - nowSec)))
      else Inr \<lparr>rw_limit = limit, rw_remaining = max 0 (limit - rd_count decision),
             rw_resetUnixSeconds = rd_resetUnixSeconds decision\<rparr>)"

text \<open>
  What a thrown rejection carries: an error of the program, or whatever the store threw.
\<close>

datatype limiter_throw = ThrowGuardian guardian_error | ThrowStore thrown

record 'w rate_limit_ops =
  ro_now :: "('w, int) state"
  ro_aborted :: "('w, bool) state"
  ro_read :: "string \<Rightarrow> ('w, thrown + rl_state option) state"
  ro_write :: "string \<Rightarrow> rl_state \<Rightarrow> ('w, thrown + unit) state"
  ro_consume :: "(string \<Rightarrow> int \<Rightarrow> jsnum \<Rightarrow> int \<Rightarrow> ('w, thrown + rl_decision) state) option"

definition lift_store :: "('w, thrown + 'a) state \<Rightarrow> ('w, limiter_throw + 'a) state" where
  "lift_store m = do { r \<leftarrow> m; ret (case r of Inl e \<Rightarrow> Inl (ThrowStore e) | Inr a \<Rightarrow> Inr a) }"

definition floor_seconds :: "int \<Rightarrow> int" where
  "floor_seconds ms = ms div 1000"

text \<open>The task \<open>readModifyWrite\<close> runs under the key lock.\<close>

definition rmw_task :: "'w rate_limit_ops \<Rightarrow> int \<Rightarrow> jsnum \<Rightarrow> string \<Rightarrow> ('w, limiter_throw + rl_decision) state" where
  "rmw_task ops limit windowSeconds key = do {
     aborted \<leftarrow> ro_aborted ops;
     if aborted then
       ret (Inl (ThrowGuardian (upstream503 ''Rate-limit check abandoned before the per-key lock was acquired'')))
     else do {
       ms \<leftarrow> ro_now ops;
       bindE (lift_store (ro_read ops key)) (\<lambda>previous.
         case rmw_decide limit windowSeconds (floor_seconds ms) previous of
           (d, None) \<Rightarrow> ret (Inr d)
         | (d, Some st) \<Rightarrow> bindE (lift_store (ro_write ops key st)) (\<lambda>_. ret (Inr d)))
     }
   }"

text \<open>\<open>withKeyLock\<close> with the number of tasks pending for the key.\<close>

definition MAX_PENDING_PER_KEY :: nat where
  "MAX_PENDING_PER_KEY = 64"

definition backlog_error :: guardian_error where
  "backlog_error = upstream503 (''Rate-limit store backlog exceeded '' @ show_nat MAX_PENDING_PER_KEY @
     '' pending tasks for one key'')"

definition withKeyLock ::
    "nat \<Rightarrow> ('w, limiter_throw + 'a) state \<Rightarrow> ('w, limiter_throw + 'a) state" where
  "withKeyLock pending task =
     (if pending \<ge> MAX_PENDING_PER_KEY then ret (Inl (ThrowGuardian backlog_error)) else task)"

definition accountRateLimit ::
    "'w rate_limit_ops \<Rightarrow> int \<Rightarrow> jsnum \<Rightarrow> nat \<Rightarrow> string \<Rightarrow>
     ('w, limiter_throw + (guardian_error + rate_limit_window)) state" where
  "accountRateLimit ops limit windowSeconds pending key =
     bindE
       (case ro_consume ops of
          Some consume \<Rightarrow> do {
            ms \<leftarrow> ro_now ops;
            lift_store (consume key limit windowSeconds (floor_seconds ms))
          }
        | None \<Rightarrow> withKeyLock pending (rmw_task ops limit windowSeconds key))
       (\<lambda>decision.
         if rd_allowed decision then ret (Inr (limiter_result limit 0 decision))
         else do {
           ms \<leftarrow> ro_now ops;
           ret (Inr (limiter_result limit (floor_seconds ms) decision))
         })"

text \<open>
  C27. \<open>Retry-After\<close> is honest: it is at least one second, and a caller that stays away that
  long, counted from when the limiter reported it, is admitted by its next request, if no other request of the same key
  comes first. Otherwise the reported budget is exact: limit minus the requests counted.
\<close>

theorem retry_after_honest:
  assumes "store_ok s" and "store_consume key limit windowSeconds now s = (d, s')" and "now \<le> now1"
  shows "(case limiter_result limit now1 d of
      Inl (RateLimitedError m retry) \<Rightarrow> 1 \<le> retry \<and>
        (\<forall>now2 \<ge> now1 + retry. rd_allowed (fst (store_consume key limit windowSeconds now2 s')))
    | Inl _ \<Rightarrow> False
    | Inr w \<Rightarrow> rd_allowed d \<and> rw_remaining w = max 0 (limit - rd_count d) \<and> rw_limit w = limit)"
proof (cases "rd_allowed d")
  case False
  have "rd_allowed (fst (store_consume key limit windowSeconds now2 s'))"
    if "now1 + max 1 (rd_resetUnixSeconds d - now1) \<le> now2" for now2
    using atomic.admitted_after_reset [OF assms(1), of key limit windowSeconds now now2] False assms(2,3) that
    by simp
  with False show ?thesis by (simp add: limiter_result_def)
qed (simp add: limiter_result_def)

theorem retry_after_honest_witness:
  "rd_allowed (fst (store_consume ''a'' 1 (JFin 60) 60
     (snd (store_consume ''a'' 1 (JFin 60) 10 (snd (store_consume ''a'' 1 (JFin 60) 0 inMemoryRateLimitStore))))))"
proof -
  let ?s = "snd (store_consume ''a'' 1 (JFin 60) 0 inMemoryRateLimitStore)"
  have ok: "store_ok ?s" using rmw_decide_same [OF store_ok_init] by blast
  obtain d s' where c: "store_consume ''a'' 1 (JFin 60) 10 ?s = (d, s')" by fastforce
  have d: "\<not> rd_allowed d" "rd_resetUnixSeconds d = 60"
    using c by (auto simp: store_consume_def inMemoryRateLimitStore_def countWrite_def SWEEP_PERIOD_def
        decision_of_def Let_def)
  with retry_after_honest [OF ok c, of 12] show ?thesis
    by (simp add: c limiter_result_def)
qed


section \<open>The per-key queue\<close>

text \<open>
  The promise chain of \<open>withKeyLock\<close> for one key, as a state machine whose steps are what
  happens between two awaits: a task runs when the tail before it has settled, whether by
  success or by failure. The store answers a read with what was last written; a failing write
  may or may not have reached it.
\<close>

datatype run_phase = Entered int | ReadDone int "rl_state option"

datatype task_outcome = Decided rl_decision | Backlog | Abandoned | StoreThrew

record key_chain =
  kc_entry :: "rl_state option"
  kc_queue :: "nat list"
  kc_running :: "(nat \<times> run_phase) option"
  kc_pending :: nat
  kc_done :: "(nat \<times> task_outcome) list"

definition kc_init :: key_chain where
  "kc_init = \<lparr>kc_entry = None, kc_queue = [], kc_running = None, kc_pending = 0, kc_done = []\<rparr>"

definition settle :: "nat \<Rightarrow> task_outcome \<Rightarrow> key_chain \<Rightarrow> key_chain" where
  "settle i out s =
     s\<lparr>kc_running := None, kc_pending := kc_pending s - 1, kc_done := (i, out) # kc_done s\<rparr>"

inductive kc_step :: "int \<Rightarrow> jsnum \<Rightarrow> key_chain \<Rightarrow> key_chain \<Rightarrow> bool" for limit windowSeconds where
  submit: "kc_pending s < MAX_PENDING_PER_KEY \<Longrightarrow>
    kc_step limit windowSeconds s (s\<lparr>kc_pending := kc_pending s + 1, kc_queue := kc_queue s @ [i]\<rparr>)"
| refuse: "\<not> kc_pending s < MAX_PENDING_PER_KEY \<Longrightarrow>
    kc_step limit windowSeconds s (s\<lparr>kc_done := (i, Backlog) # kc_done s\<rparr>)"
| abandon: "kc_running s = None \<Longrightarrow> kc_queue s = i # q \<Longrightarrow>
    kc_step limit windowSeconds s (settle i Abandoned (s\<lparr>kc_queue := q\<rparr>))"
| enter: "kc_running s = None \<Longrightarrow> kc_queue s = i # q \<Longrightarrow>
    kc_step limit windowSeconds s (s\<lparr>kc_queue := q, kc_running := Some (i, Entered now)\<rparr>)"
| read_ok: "kc_running s = Some (i, Entered now) \<Longrightarrow>
    kc_step limit windowSeconds s (s\<lparr>kc_running := Some (i, ReadDone now (kc_entry s))\<rparr>)"
| read_fail: "kc_running s = Some (i, Entered now) \<Longrightarrow>
    kc_step limit windowSeconds s (settle i StoreThrew s)"
| deny: "kc_running s = Some (i, ReadDone now previous) \<Longrightarrow>
    rmw_decide limit windowSeconds now previous = (d, None) \<Longrightarrow>
    kc_step limit windowSeconds s (settle i (Decided d) s)"
| write_ok: "kc_running s = Some (i, ReadDone now previous) \<Longrightarrow>
    rmw_decide limit windowSeconds now previous = (d, Some st) \<Longrightarrow>
    kc_step limit windowSeconds s (settle i (Decided d) (s\<lparr>kc_entry := Some st\<rparr>))"
| write_fail: "kc_running s = Some (i, ReadDone now previous) \<Longrightarrow>
    rmw_decide limit windowSeconds now previous = (d, Some st) \<Longrightarrow>
    kc_step limit windowSeconds s (settle i StoreThrew (s\<lparr>kc_entry := e\<rparr>))" if "e \<in> {kc_entry s, Some st}"

inductive_cases kc_stepE: "kc_step limit windowSeconds s s'"

definition kc_admitted :: "int \<Rightarrow> key_chain \<Rightarrow> nat" where
  "kc_admitted r s =
     length (filter (\<lambda>(i, out). case out of
        Decided d \<Rightarrow> rd_allowed d \<and> rd_resetUnixSeconds d = r | _ \<Rightarrow> False) (kc_done s))"

definition kc_inv :: "int \<Rightarrow> key_chain \<Rightarrow> bool" where
  "kc_inv limit s \<longleftrightarrow>
     kc_pending s = length (kc_queue s) + (if kc_running s = None then 0 else 1) \<and>
     kc_pending s \<le> MAX_PENDING_PER_KEY \<and>
     (\<forall>i now p. kc_running s = Some (i, ReadDone now p) \<longrightarrow> p = kc_entry s) \<and>
     (\<forall>r. int (kc_admitted r s) \<le> limit) \<and>
     (\<forall>r. case kc_entry s of
        None \<Rightarrow> kc_admitted r s = 0
      | Some e \<Rightarrow> (r = rl_resetUnixSeconds e \<longrightarrow> int (kc_admitted r s) \<le> rl_count e) \<and>
          (r > rl_resetUnixSeconds e \<longrightarrow> kc_admitted r s = 0) \<and> rl_count e \<le> limit)"

lemma kc_admitted_simps [simp]:
  "kc_admitted r (s\<lparr>kc_queue := q\<rparr>) = kc_admitted r s"
  "kc_admitted r (s\<lparr>kc_pending := n\<rparr>) = kc_admitted r s"
  "kc_admitted r (s\<lparr>kc_running := x\<rparr>) = kc_admitted r s"
  "kc_admitted r (s\<lparr>kc_entry := e\<rparr>) = kc_admitted r s"
  "kc_admitted r (s\<lparr>kc_done := (i, out) # ds\<rparr>) =
     kc_admitted r (s\<lparr>kc_done := ds\<rparr>) + (case out of Decided d \<Rightarrow>
       (if rd_allowed d \<and> rd_resetUnixSeconds d = r then 1 else 0) | _ \<Rightarrow> 0)"
  "kc_admitted r (s\<lparr>kc_done := kc_done s\<rparr>) = kc_admitted r s"
  by (auto simp: kc_admitted_def split: task_outcome.splits)


lemma rmw_write_cases:
  assumes "rmw_decide limit w now previous = (d, Some st)" and "0 < limit"
    and "num_isFinite w" and "\<not> num_le_int w 0"
  shows "d = decision_of True st \<and> rl_count st \<le> limit \<and>
    (case previous of
       None \<Rightarrow> rl_count st = 1
     | Some p \<Rightarrow> (rl_resetUnixSeconds st = rl_resetUnixSeconds p \<and> rl_count st = rl_count p + 1) \<or>
         (rl_resetUnixSeconds p < rl_resetUnixSeconds st \<and> rl_count st = 1))"
  using assms window_end_after [OF assms(3,4), of now]
  by (auto simp: rmw_decide_def Let_def split: option.splits if_splits)

lemma rmw_deny: "rmw_decide limit w now previous = (d, None) \<Longrightarrow> \<not> rd_allowed d"
  by (auto simp: rmw_decide_def decision_of_def Let_def split: option.splits if_splits)

lemma kc_step_inv:
  assumes "kc_step limit w s s'" and "kc_inv limit s"
    and pos: "0 < limit" "num_isFinite w" "\<not> num_le_int w 0"
  shows "kc_inv limit s'"
  using assms(1)
proof cases
  case (deny i now previous d)
  with rmw_deny [OF deny(3)] assms(2) show ?thesis
    by (auto simp: kc_inv_def settle_def split: option.splits)
next
  case (write_ok i now previous d st)
  note c = rmw_write_cases [OF write_ok(3) pos]
  from write_ok assms(2) have p: "previous = kc_entry s" by (auto simp: kc_inv_def)
  show ?thesis
    using c write_ok(1,2) assms(2) unfolding p
    by (cases "kc_entry s") (force simp: kc_inv_def settle_def decision_of_def)+
next
  case (write_fail e st i now previous d)
  note c = rmw_write_cases [OF write_fail(4) pos]
  from write_fail assms(2) have p: "previous = kc_entry s" by (auto simp: kc_inv_def)
  show ?thesis
    using c write_fail(1,2,3) assms(2) unfolding p
    by (cases "kc_entry s") (force simp: kc_inv_def settle_def decision_of_def)+
qed (use assms(2) in \<open>force simp: kc_inv_def settle_def split: option.splits\<close>)+

lemma kc_init_inv: "0 < limit \<Longrightarrow> kc_inv limit kc_init"
  by (simp add: kc_inv_def kc_init_def kc_admitted_def)

lemma kc_reach_inv:
  assumes "(kc_step limit w)\<^sup>*\<^sup>* kc_init s" and pos: "0 < limit" "num_isFinite w" "\<not> num_le_int w 0"
  shows "kc_inv limit s"
  using assms(1) by (induction rule: rtranclp_induct) (use kc_init_inv [OF pos(1)] kc_step_inv [OF _ _ pos] in blast)+

definition kc_work :: "key_chain \<Rightarrow> nat" where
  "kc_work s = 3 * length (kc_queue s) +
     (case kc_running s of None \<Rightarrow> 0 | Some (i, Entered n) \<Rightarrow> 2 | Some (i, ReadDone n p) \<Rightarrow> 1)"

lemma kc_progress:
  "kc_work s \<noteq> 0 \<Longrightarrow> \<exists>s'. kc_step limit w s s' \<and> kc_work s' < kc_work s"
proof -
  assume w: "kc_work s \<noteq> 0"
  show ?thesis
  proof (cases "kc_running s")
    case None
    with w obtain i q where q: "kc_queue s = i # q"
      by (cases "kc_queue s") (auto simp: kc_work_def)
    show ?thesis
      by (rule exI, rule conjI, rule kc_step.enter [OF None q, where now = 0])
        (simp add: kc_work_def None q)
  next
    case (Some x)
    obtain i ph where x: "x = (i, ph)" by (cases x)
    show ?thesis
    proof (cases ph)
      case (Entered now)
      show ?thesis
        by (rule exI, rule conjI, rule kc_step.read_fail [of s i now])
          (simp_all add: kc_work_def Some x Entered settle_def)
    next
      case (ReadDone now p)
      obtain d o' where d: "rmw_decide limit w now p = (d, o')" by (cases "rmw_decide limit w now p")
      show ?thesis
      proof (cases o')
        case None
        show ?thesis
          by (rule exI, rule conjI, rule kc_step.deny [of s i now p])
            (simp_all add: kc_work_def Some x ReadDone settle_def d None)
      next
        case (Some st)
        show ?thesis
          by (rule exI, rule conjI, rule kc_step.write_ok [of s i now p])
            (simp_all add: kc_work_def \<open>kc_running s = _\<close> x ReadDone settle_def d Some)
      qed
    qed
  qed
qed

lemma kc_drains: "\<exists>s'. (kc_step limit w)\<^sup>*\<^sup>* s s' \<and> kc_queue s' = [] \<and> kc_running s' = None"
proof (induction "kc_work s" arbitrary: s rule: less_induct)
  case less
  show ?case
  proof (cases "kc_work s = 0")
    case True
    then have "kc_queue s = [] \<and> kc_running s = None"
      by (auto simp: kc_work_def split: option.splits prod.splits run_phase.splits)
    then show ?thesis by blast
  next
    case False
    from kc_progress [OF this] obtain s1 where s1: "kc_step limit w s s1" "kc_work s1 < kc_work s" by blast
    from less.hyps [OF s1(2)] obtain s' where
      "(kc_step limit w)\<^sup>*\<^sup>* s1 s'" "kc_queue s' = []" "kc_running s' = None" by blast
    with s1(1) show ?thesis by (meson converse_rtranclp_into_rtranclp)
  qed
qed

text \<open>
  C20. The per-key queue of the fallback: in every reachable state the pending count is the
  number of queued and running tasks and never exceeds 64; whatever the interleaving of
  submissions, aborts and store failures, no window admits more than \<open>limit\<close> requests; and
  no state is stuck: from each, the queue can drain, failed tasks included.
\<close>

theorem key_chain_safe:
  assumes "(kc_step limit windowSeconds)\<^sup>*\<^sup>* kc_init s"
    and "0 < limit" and "num_isFinite windowSeconds" and "\<not> num_le_int windowSeconds 0"
  shows "kc_pending s = length (kc_queue s) + (if kc_running s = None then 0 else 1) \<and>
    kc_pending s \<le> MAX_PENDING_PER_KEY \<and> int (kc_admitted r s) \<le> limit \<and>
    (\<exists>s'. (kc_step limit windowSeconds)\<^sup>*\<^sup>* s s' \<and> kc_queue s' = [] \<and> kc_running s' = None)"
  using kc_reach_inv [OF assms] kc_drains [of limit windowSeconds s] by (simp add: kc_inv_def)

theorem key_chain_safe_witness:
  "\<exists>s. (kc_step 1 (JFin 60))\<^sup>*\<^sup>* kc_init s \<and> kc_admitted 60 s = 1 \<and> int (kc_admitted 60 s) \<le> 1"
proof -
  let ?w = "JFin 60"
  let ?s1 = "kc_init\<lparr>kc_pending := kc_pending kc_init + 1, kc_queue := kc_queue kc_init @ [7]\<rparr>"
  let ?s2 = "?s1\<lparr>kc_queue := [], kc_running := Some (7, Entered 0)\<rparr>"
  let ?s3 = "?s2\<lparr>kc_running := Some (7, ReadDone 0 (kc_entry ?s2))\<rparr>"
  let ?st = "\<lparr>rl_count = 1, rl_resetUnixSeconds = 60\<rparr>"
  let ?s4 = "settle 7 (Decided (decision_of True ?st)) (?s3\<lparr>kc_entry := Some ?st\<rparr>)"
  have "kc_step 1 ?w kc_init ?s1" by (rule kc_step.submit) (simp add: kc_init_def MAX_PENDING_PER_KEY_def)
  moreover have "kc_step 1 ?w ?s1 ?s2" by (rule kc_step.enter) (simp_all add: kc_init_def)
  moreover have "kc_step 1 ?w ?s2 ?s3" by (rule kc_step.read_ok) simp
  moreover have "kc_step 1 ?w ?s3 ?s4"
    by (rule kc_step.write_ok [where previous = None and now = 0])
      (simp_all add: kc_init_def rmw_decide_def Let_def)
  ultimately have r: "(kc_step 1 ?w)\<^sup>*\<^sup>* kc_init ?s4" by (meson converse_rtranclp_into_rtranclp rtranclp.rtrancl_refl)
  moreover have "kc_admitted 60 ?s4 = 1"
    by (simp add: kc_admitted_def settle_def kc_init_def decision_of_def)
  moreover have "int (kc_admitted 60 ?s4) \<le> 1" using key_chain_safe [OF r, of 60] by simp
  ultimately show ?thesis by blast
qed

end
