(* ===== verification/Cache.thy ===== *)
theory Cache
  imports Helpers
begin

text \<open>
  The schema-validated cache of \<open>guardian-defaults/src/cache\<close>: the read path every
  implementation inherits (\<open>AsyncCache.get\<close> in \<open>types.ts\<close>) and the bundled in-memory
  implementation (\<open>in-memory.ts\<close>) with its lazy expiry, sweep and insertion-order trim. The
  locale states what a consumer relies on; its interpretation is the in-memory cache.
\<close>

section \<open>The read path of AsyncCache\<close>

record ('w, 'raw, 'v) cache_impl =
  ci_validate :: "'raw \<Rightarrow> 'v option"
  ci_onValidationFailure :: "string \<Rightarrow> ('w, thrown + unit) state"
  ci_rawGet :: "string \<Rightarrow> ('w, thrown + 'raw option) state"
  ci_set :: "string \<Rightarrow> 'v \<Rightarrow> jsnum option \<Rightarrow> ('w, thrown + unit) state"
  ci_delete :: "string \<Rightarrow> ('w, thrown + unit) state"

definition async_get :: "('w, 'raw, 'v) cache_impl \<Rightarrow> string \<Rightarrow> ('w, thrown + 'v option) state" where
  "async_get impl key =
     bindE (ci_rawGet impl key) (\<lambda>raw.
       case raw of
         None \<Rightarrow> ret (Inr None)
       | Some r \<Rightarrow>
           (case ci_validate impl r of
              Some v \<Rightarrow> ret (Inr (Some v))
            | None \<Rightarrow>
                bindE (ci_onValidationFailure impl key) (\<lambda>_. do {
                  _ \<leftarrow> ci_delete impl key;
                  ret (Inr None)
                })))"

text \<open>What a consumer holds.\<close>

record ('w, 'v) async_cache =
  ac_get :: "string \<Rightarrow> ('w, thrown + 'v option) state"
  ac_set :: "string \<Rightarrow> 'v \<Rightarrow> jsnum option \<Rightarrow> ('w, thrown + unit) state"

definition cache_of :: "('w, 'raw, 'v) cache_impl \<Rightarrow> ('w, 'v) async_cache" where
  "cache_of impl = \<lparr>ac_get = async_get impl, ac_set = ci_set impl\<rparr>"

text \<open>A hit is a value the schema produced, whatever the store held.\<close>

lemma async_get_validated:
  "pred_state (\<lambda>r. \<forall>v. r = Inr (Some v) \<longrightarrow> (\<exists>raw. ci_validate impl raw = Some v)) (async_get impl key)"
  unfolding async_get_def
  by (rule pred_state_bindE [where Q = "\<lambda>_. True"])
    (auto simp: bindE_def intro!: pred_state_bind_any split: sum.splits option.splits
      intro: pred_state_mono [OF pred_state_True])


section \<open>The in-memory cache\<close>

record 'v cache_entry =
  cx_value :: 'v
  cx_expiresAt :: jsnum

record 'v mem_cache =
  mc_defaultTtlMs :: "jsnum option"
  mc_maxEntries :: nat
  mc_map :: "(string, 'v cache_entry) omap"

definition DEFAULT_MAX_ENTRIES :: int where
  "DEFAULT_MAX_ENTRIES = 4096"

fun num_plus :: "int \<Rightarrow> jsnum \<Rightarrow> jsnum" where
  "num_plus n (JFin r) = JFin (of_int n + r)"
| "num_plus n x = x"

definition valid_ttl :: "jsnum \<Rightarrow> bool" where
  "valid_ttl ttl \<longleftrightarrow> num_isFinite ttl \<and> \<not> num_le_int ttl 0"

text \<open>The constructor; \<open>None\<close> where it throws.\<close>

definition inMemoryCache :: "jsnum option \<Rightarrow> jsnum option \<Rightarrow> 'v mem_cache option" where
  "inMemoryCache defaultTtlMs maxEntriesOpt =
     (let maxEntries = (case maxEntriesOpt of Some m \<Rightarrow> m | None \<Rightarrow> num_of_int DEFAULT_MAX_ENTRIES) in
      if (case defaultTtlMs of Some t \<Rightarrow> \<not> num_isFinite t \<or> num_le_int t 0 | None \<Rightarrow> False) then None
      else if \<not> num_isFinite maxEntries \<or> num_lt_int maxEntries 0 \<or> \<not> num_isInteger maxEntries then None
      else Some \<lparr>mc_defaultTtlMs = defaultTtlMs, mc_maxEntries = nat (num_to_int maxEntries), mc_map = []\<rparr>)"

definition expired :: "int \<Rightarrow> 'v cache_entry \<Rightarrow> bool" where
  "expired t e \<longleftrightarrow> num_le_int (cx_expiresAt e) t"

definition mem_rawGet :: "int \<Rightarrow> string \<Rightarrow> 'v mem_cache \<Rightarrow> 'v option \<times> 'v mem_cache" where
  "mem_rawGet t key c =
     (case map_of (mc_map c) key of
        None \<Rightarrow> (None, c)
      | Some e \<Rightarrow>
          if expired t e then (None, c\<lparr>mc_map := omap_delete key (mc_map c)\<rparr>)
          else (Some (cx_value e), c))"

definition sweepExpired :: "int \<Rightarrow> 'v mem_cache \<Rightarrow> 'v mem_cache" where
  "sweepExpired t c = c\<lparr>mc_map := filter (\<lambda>p. \<not> expired t (snd p)) (mc_map c)\<rparr>"

definition trimToBound :: "'v mem_cache \<Rightarrow> 'v mem_cache" where
  "trimToBound c =
     (if mc_maxEntries c = 0 \<or> length (mc_map c) \<le> mc_maxEntries c then c
      else c\<lparr>mc_map := drop (length (mc_map c) - mc_maxEntries c) (mc_map c)\<rparr>)"

text \<open>
  \<open>set\<close>; \<open>None\<close> where it throws. The clock is read once for the expiry and once more before
  a sweep.
\<close>

definition mem_set :: "int \<Rightarrow> int \<Rightarrow> string \<Rightarrow> 'v \<Rightarrow> jsnum option \<Rightarrow> 'v mem_cache \<Rightarrow> 'v mem_cache option" where
  "mem_set t t' key v ttlMs c =
     (let ttl = (case ttlMs of Some x \<Rightarrow> Some x | None \<Rightarrow> mc_defaultTtlMs c) in
      if (case ttl of Some x \<Rightarrow> \<not> num_isFinite x \<or> num_le_int x 0 | None \<Rightarrow> False) then None
      else
        let expiresAt = (case ttl of None \<Rightarrow> JPosInf | Some x \<Rightarrow> num_plus t x);
            c' = c\<lparr>mc_map := omap_set key \<lparr>cx_value = v, cx_expiresAt = expiresAt\<rparr> (omap_delete key (mc_map c))\<rparr>
        in if mc_maxEntries c > 0 \<and> length (mc_map c') > mc_maxEntries c
           then Some (trimToBound (sweepExpired t' c'))
           else Some c')"

definition mem_delete :: "string \<Rightarrow> 'v mem_cache \<Rightarrow> 'v mem_cache" where
  "mem_delete key c = c\<lparr>mc_map := omap_delete key (mc_map c)\<rparr>"

text \<open>What a read at a time yields.\<close>

definition mem_lookup :: "int \<Rightarrow> string \<Rightarrow> 'v mem_cache \<Rightarrow> 'v option" where
  "mem_lookup t key c = fst (mem_rawGet t key c)"

definition mem_wf :: "'v mem_cache \<Rightarrow> bool" where
  "mem_wf c \<longleftrightarrow> omap_wf (mc_map c) \<and> (mc_maxEntries c > 0 \<longrightarrow> length (mc_map c) \<le> mc_maxEntries c)"


subsection \<open>Lemmas\<close>

lemma mem_lookup_eq:
  "mem_lookup t key c =
     (case map_of (mc_map c) key of None \<Rightarrow> None | Some e \<Rightarrow> if expired t e then None else Some (cx_value e))"
  by (auto simp: mem_lookup_def mem_rawGet_def split: option.splits)

lemma omap_set_delete: "omap_set k v (omap_delete k m) = omap_delete k m @ [(k, v)]"
proof -
  have "k \<notin> fst ` set m \<Longrightarrow> omap_set k v m = m @ [(k, v)]" for m
    by (induction m) auto
  then show ?thesis by (simp add: keys_omap_delete)
qed

lemma length_filter_omap_delete: "length (omap_delete k m) \<le> length m"
  by (simp add: omap_delete_def)

lemma length_filter_mc: "omap_wf m \<Longrightarrow> length (filter P m) \<le> length m"
  by simp

lemma mem_wf_rawGet: "mem_wf c \<Longrightarrow> mem_wf (snd (mem_rawGet t key c))"
  using length_filter_omap_delete [of key "mc_map c"]
  by (auto simp: mem_wf_def mem_rawGet_def split: option.splits)

lemma mem_wf_delete: "mem_wf c \<Longrightarrow> mem_wf (mem_delete key c)"
  using length_filter_omap_delete [of key "mc_map c"] by (auto simp: mem_wf_def mem_delete_def)

lemma trim_wf: "omap_wf (mc_map c) \<Longrightarrow> 0 < mc_maxEntries c \<Longrightarrow> mem_wf (trimToBound c)"
  by (auto simp: mem_wf_def trimToBound_def omap_wf_def drop_map [symmetric])

lemma mc_sweep [simp]:
  "mc_map (sweepExpired t c) = filter (\<lambda>p. \<not> expired t (snd p)) (mc_map c)"
  "mc_maxEntries (sweepExpired t c) = mc_maxEntries c"
  by (simp_all add: sweepExpired_def)

lemma sweep_wf: "omap_wf (mc_map c) \<Longrightarrow> omap_wf (mc_map (sweepExpired t c))"
  by simp

lemma mem_set_cases:
  assumes "mem_set t t' key v ttlMs c = Some d"
  obtains exp where
    "(case (case ttlMs of Some x \<Rightarrow> Some x | None \<Rightarrow> mc_defaultTtlMs c) of
        None \<Rightarrow> exp = JPosInf | Some x \<Rightarrow> valid_ttl x \<and> exp = num_plus t x)"
    and "let m = omap_delete key (mc_map c) @ [(key, \<lparr>cx_value = v, cx_expiresAt = exp\<rparr>)] in
       d = c\<lparr>mc_map := m\<rparr> \<and> (0 < mc_maxEntries c \<longrightarrow> length m \<le> mc_maxEntries c) \<or>
       d = trimToBound (sweepExpired t' (c\<lparr>mc_map := m\<rparr>)) \<and> 0 < mc_maxEntries c"
  using assms
  by (auto simp: mem_set_def Let_def omap_set_delete valid_ttl_def split: option.splits if_splits)

lemma set_trim: "set (mc_map (trimToBound c)) \<subseteq> set (mc_map c)"
  by (auto simp: trimToBound_def dest: in_set_dropD)

lemma set_sweep: "set (mc_map (sweepExpired t c)) \<subseteq> set (mc_map c)"
  by auto

lemma mem_wf_set: "mem_wf c \<Longrightarrow> mem_set t t' key v ttlMs c = Some d \<Longrightarrow> mem_wf d"
proof (erule mem_set_cases)
  fix exp
  let ?m = "omap_delete key (mc_map c) @ [(key, \<lparr>cx_value = v, cx_expiresAt = exp\<rparr>)]"
  assume wf: "mem_wf c" and d: "let m = ?m in
       d = c\<lparr>mc_map := m\<rparr> \<and> (0 < mc_maxEntries c \<longrightarrow> length m \<le> mc_maxEntries c) \<or>
       d = trimToBound (sweepExpired t' (c\<lparr>mc_map := m\<rparr>)) \<and> 0 < mc_maxEntries c"
  have m: "omap_wf ?m"
    using wf omap_wf_set [of "omap_delete key (mc_map c)" key] by (simp add: mem_wf_def omap_set_delete)
  then have "mem_wf (trimToBound (sweepExpired t' (c\<lparr>mc_map := ?m\<rparr>)))" if "0 < mc_maxEntries c"
    by (intro trim_wf sweep_wf) (use m that in simp_all)
  with d m show ?thesis by (auto simp: mem_wf_def Let_def)
qed

text \<open>A trim keeps what it does not drop, and never drops the entry just written.\<close>

lemma map_of_trim:
  "omap_wf (mc_map c) \<Longrightarrow> map_of (mc_map (trimToBound c)) k \<in> {None, map_of (mc_map c) k}"
  using map_of_drop_None [of "mc_map c"]
  by (cases "map_of (mc_map (trimToBound c)) k") (auto simp: trimToBound_def split: if_splits)

lemma map_of_trim_last:
  assumes "omap_wf (mc_map c)" and "mc_map c = xs @ [(k, e)]" and "0 < mc_maxEntries c"
  shows "map_of (mc_map (trimToBound c)) k = Some e"
proof -
  have "(k, e) \<in> set (mc_map (trimToBound c))"
    using assms by (auto simp: trimToBound_def)
  moreover have "omap_wf (mc_map (trimToBound c))"
    using trim_wf [OF assms(1,3)] by (simp add: mem_wf_def)
  ultimately show ?thesis by (simp add: omap_wf_set_iff)
qed

lemma mem_set_other:
  assumes "mem_wf c" and "mem_set t t' key v ttlMs c = Some d" and "k \<noteq> key"
  shows "map_of (mc_map d) k \<in> {None, map_of (mc_map c) k}"
  using assms(2)
proof (rule mem_set_cases)
  fix exp
  let ?m = "omap_delete key (mc_map c) @ [(key, \<lparr>cx_value = v, cx_expiresAt = exp\<rparr>)]"
  let ?c = "c\<lparr>mc_map := ?m\<rparr>"
  assume d: "let m = ?m in
       d = c\<lparr>mc_map := m\<rparr> \<and> (0 < mc_maxEntries c \<longrightarrow> length m \<le> mc_maxEntries c) \<or>
       d = trimToBound (sweepExpired t' (c\<lparr>mc_map := m\<rparr>)) \<and> 0 < mc_maxEntries c"
  have m: "omap_wf ?m"
    using assms(1) omap_wf_set [of "omap_delete key (mc_map c)" key] by (simp add: mem_wf_def omap_set_delete)
  have k: "map_of ?m k = map_of (mc_map c) k"
    using assms(3) by (simp add: map_add_def split: option.splits)
  have "map_of (filter (\<lambda>p. \<not> expired t' (snd p)) ?m) k \<in> {None, map_of (mc_map c) k}"
    using map_of_filter_wf [OF m, where P = "\<lambda>_ e. \<not> expired t' e" and k = k] k by (auto split: option.splits)
  moreover have "map_of (mc_map (trimToBound (sweepExpired t' ?c))) k \<in> {None, map_of (mc_map (sweepExpired t' ?c)) k}"
    by (intro map_of_trim sweep_wf) (use m in simp)
  ultimately show ?thesis using d k by (auto simp: Let_def)
qed


lemma mem_set_same:
  assumes "mem_wf c" and "mem_set t t' key v ttlMs c = Some d" and "t' \<le> s"
  shows "mem_lookup s key d =
    (case (case ttlMs of Some x \<Rightarrow> Some x | None \<Rightarrow> mc_defaultTtlMs c) of
       None \<Rightarrow> Some v | Some x \<Rightarrow> if num_le_int (num_plus t x) s then None else Some v)"
  using assms(2)
proof (rule mem_set_cases)
  fix exp
  let ?e = "\<lparr>cx_value = v, cx_expiresAt = exp\<rparr>"
  let ?m = "omap_delete key (mc_map c) @ [(key, ?e)]"
  let ?c = "c\<lparr>mc_map := ?m\<rparr>"
  assume d: "let m = ?m in
       d = c\<lparr>mc_map := m\<rparr> \<and> (0 < mc_maxEntries c \<longrightarrow> length m \<le> mc_maxEntries c) \<or>
       d = trimToBound (sweepExpired t' (c\<lparr>mc_map := m\<rparr>)) \<and> 0 < mc_maxEntries c"
    and e: "case (case ttlMs of Some x \<Rightarrow> Some x | None \<Rightarrow> mc_defaultTtlMs c) of
        None \<Rightarrow> exp = JPosInf | Some x \<Rightarrow> valid_ttl x \<and> exp = num_plus t x"
  have m: "omap_wf ?m"
    using assms(1) omap_wf_set [of "omap_delete key (mc_map c)" key] by (simp add: mem_wf_def omap_set_delete)
  have k: "map_of ?m key = Some ?e"
    by (simp add: map_add_def)
  have mono: "num_le_int x t' \<Longrightarrow> num_le_int x s" for x
    using assms(3) by (cases x) auto
  have "mem_lookup s key d = (if num_le_int exp s then None else Some v)"
  proof (cases "d = ?c")
    case True
    with k show ?thesis by (simp add: mem_lookup_eq expired_def)
  next
    case False
    with d have d': "d = trimToBound (sweepExpired t' ?c)" and pos: "0 < mc_maxEntries c"
      by (auto simp: Let_def)
    have wf: "omap_wf (mc_map (sweepExpired t' ?c))"
      by (rule sweep_wf) (use m in simp)
    show ?thesis
    proof (cases "expired t' ?e")
      case True
      then have n: "map_of (mc_map (sweepExpired t' ?c)) key = None"
        using map_of_filter_wf [OF m, where P = "\<lambda>_ e. \<not> expired t' e" and k = key] k by simp
      have "map_of (mc_map d) key = None"
        using map_of_trim [OF wf, of key] unfolding d' n by simp
      with True mono show ?thesis by (simp add: mem_lookup_eq expired_def)
    next
      case False
      then have "map_of (mc_map d) key = Some ?e"
        unfolding d' by (intro map_of_trim_last [OF wf]) (use pos in auto)
      then show ?thesis by (simp add: mem_lookup_eq expired_def)
    qed
  qed
  with e show ?thesis by (auto split: option.splits)
qed

text \<open>
  A write to the in-memory cache is read back until its TTL (the per-call one, else the
  default) has elapsed and never from then on, however full the cache is: the trim evicts
  others, never the entry just written. A write to one key changes no other key's value: it
  can only evict it. The size bound holds after the write.
\<close>

theorem mem_set_get:
  assumes "mem_wf c" and "mem_set t t' key v ttlMs c = Some d" and "t' \<le> s"
  shows "mem_lookup s key d =
      (case (case ttlMs of Some x \<Rightarrow> Some x | None \<Rightarrow> mc_defaultTtlMs c) of
         None \<Rightarrow> Some v | Some x \<Rightarrow> if num_gt_int x (s - t) then Some v else None) \<and>
    (\<forall>k. k \<noteq> key \<longrightarrow> mem_lookup s k d \<in> {None, mem_lookup s k c}) \<and> mem_wf d"
proof (intro conjI)
  have "num_le_int (num_plus t x) s \<longleftrightarrow> \<not> num_gt_int x (s - t)" if "num_isFinite x" for x
    using that by (cases x) (auto simp: algebra_simps)
  moreover have "num_isFinite x"
    if "(case ttlMs of Some x \<Rightarrow> Some x | None \<Rightarrow> mc_defaultTtlMs c) = Some x" for x
    using assms(2) that by (auto simp: mem_set_def split: option.splits if_splits)
  ultimately show "mem_lookup s key d =
      (case (case ttlMs of Some x \<Rightarrow> Some x | None \<Rightarrow> mc_defaultTtlMs c) of
         None \<Rightarrow> Some v | Some x \<Rightarrow> if num_gt_int x (s - t) then Some v else None)"
    unfolding mem_set_same [OF assms] by (simp split: option.split)
  show "\<forall>k. k \<noteq> key \<longrightarrow> mem_lookup s k d \<in> {None, mem_lookup s k c}"
  proof (intro allI impI)
    fix k assume "k \<noteq> key"
    with mem_set_other [OF assms(1,2)] have "map_of (mc_map d) k \<in> {None, map_of (mc_map c) k}" .
    then show "mem_lookup s k d \<in> {None, mem_lookup s k c}"
      by (auto simp: mem_lookup_eq split: option.splits)
  qed
  show "mem_wf d" by (rule mem_wf_set [OF assms(1,2)])
qed

definition ex_cache :: "nat mem_cache" where
  "ex_cache = \<lparr>mc_defaultTtlMs = Some (JFin 100), mc_maxEntries = 1,
     mc_map = [(''a'', \<lparr>cx_value = 7, cx_expiresAt = JPosInf\<rparr>)]\<rparr>"

definition ex_cache_b :: "nat mem_cache" where
  "ex_cache_b = \<lparr>mc_defaultTtlMs = Some (JFin 100), mc_maxEntries = 1,
     mc_map = [(''b'', \<lparr>cx_value = 8, cx_expiresAt = JFin 110\<rparr>)]\<rparr>"

theorem mem_set_get_witness:
  "mem_lookup 109 ''b'' ex_cache_b = Some 8 \<and> mem_lookup 110 ''b'' ex_cache_b = None"
proof -
  have s: "mem_set 10 10 ''b'' 8 None ex_cache = Some ex_cache_b"
    by (simp add: mem_set_def ex_cache_def ex_cache_b_def omap_delete_def trimToBound_def
        sweepExpired_def expired_def Let_def)
  have wf: "mem_wf ex_cache" by (simp add: mem_wf_def ex_cache_def omap_wf_def)
  from mem_set_get [OF wf s, of 109] mem_set_get [OF wf s, of 110] show ?thesis
    by (simp add: ex_cache_def)
qed


section \<open>The contract a consumer relies on\<close>

text \<open>
  Whatever property a consumer's writes give every stored value, keyed by where it is
  stored, its reads return only values with that property. \<open>holds P w\<close> says all stored
  values satisfy \<open>P\<close> in world \<open>w\<close>.
\<close>

locale cache_contract =
  fixes get :: "string \<Rightarrow> ('w, thrown + 'v option) state"
    and set :: "string \<Rightarrow> 'v \<Rightarrow> jsnum option \<Rightarrow> ('w, thrown + unit) state"
    and holds :: "(string \<Rightarrow> 'v \<Rightarrow> bool) \<Rightarrow> 'w \<Rightarrow> bool"
  assumes get_sound:
      "hoare (holds P) (get k) (\<lambda>r w. holds P w \<and> (\<forall>v. r = Inr (Some v) \<longrightarrow> P k v))"
    and set_sound: "P k v \<Longrightarrow> hoare (holds P) (set k v ttl) (\<lambda>_. holds P)"
begin

text \<open>\<open>try { hit = await cache.get(key) } catch {}\<close> and the best-effort write.\<close>

lemma get_or_miss:
  "hoare (holds P)
     (do { r \<leftarrow> get k; ret (case r of Inl e \<Rightarrow> None | Inr v \<Rightarrow> v) })
     (\<lambda>r w. holds P w \<and> (\<forall>v. r = Some v \<longrightarrow> P k v))"
  by (rule hoare_bind [OF get_sound]) (auto intro!: hoare_ret split: sum.splits)

lemma read_through:
  assumes "hoare (holds P) fetch (\<lambda>r w. holds P w \<and> (\<forall>v. r = Inr v \<longrightarrow> P k v))"
  shows "hoare (holds P)
     (do {
        hit \<leftarrow> do { r \<leftarrow> get k; ret (case r of Inl e \<Rightarrow> None | Inr v \<Rightarrow> v) };
        case hit of
          Some v \<Rightarrow> ret (Inr v)
        | None \<Rightarrow> bindE fetch (\<lambda>v. do { _ \<leftarrow> set k v ttl; ret (Inr v) })
      })
     (\<lambda>r w. holds P w \<and> (\<forall>v. r = Inr v \<longrightarrow> P k v))"
proof (rule hoare_bind [OF get_or_miss])
  fix hit
  have w: "hoare (\<lambda>w. holds P w \<and> P k v) (do { _ \<leftarrow> set k v ttl; ret (Inr v) })
      (\<lambda>r w. holds P w \<and> (\<forall>v. r = Inr v \<longrightarrow> P k v))" for v
  proof (cases "P k v")
    case True
    show ?thesis
      by (rule hoare_bind [where R = "\<lambda>_. holds P"])
        (use hoare_weaken [OF set_sound [where P = P and k = k and v = v, OF True]] True in \<open>auto intro: hoare_ret\<close>)
  qed (simp add: hoare_def)
  have "hoare (holds P) (bindE fetch (\<lambda>v. do { _ \<leftarrow> set k v ttl; ret (Inr v) }))
      (\<lambda>r w. holds P w \<and> (\<forall>v. r = Inr v \<longrightarrow> P k v))"
    by (rule hoare_bindE [where R = "\<lambda>v w. holds P w \<and> P k v"])
      (use w hoare_weaken [OF assms] in \<open>auto split: sum.splits\<close>)
  then show "hoare (\<lambda>w. holds P w \<and> (\<forall>v. hit = Some v \<longrightarrow> P k v))
      (case hit of Some v \<Rightarrow> ret (Inr v)
        | None \<Rightarrow> bindE fetch (\<lambda>v. do { _ \<leftarrow> set k v ttl; ret (Inr v) }))
      (\<lambda>r w. holds P w \<and> (\<forall>v. r = Inr v \<longrightarrow> P k v))"
    by (cases hit) (auto intro: hoare_ret hoare_weaken)
qed

end


section \<open>The in-memory cache meets the contract\<close>

text \<open>The world of one process: its cache, and a clock that every read may advance.\<close>

record 'v mem_world =
  mw_cache :: "'v mem_cache"
  mw_clock :: "nat \<Rightarrow> int"
  mw_ticks :: nat

definition mw_now :: "('v mem_world, int) state" where
  "mw_now = State (\<lambda>w. (mw_clock w (mw_ticks w), w\<lparr>mw_ticks := Suc (mw_ticks w)\<rparr>))"

definition mw_update :: "('v mem_cache \<Rightarrow> 'a \<times> 'v mem_cache) \<Rightarrow> ('v mem_world, 'a) state" where
  "mw_update f = State (\<lambda>w. case f (mw_cache w) of (a, c) \<Rightarrow> (a, w\<lparr>mw_cache := c\<rparr>))"

definition mw_set :: "string \<Rightarrow> 'v \<Rightarrow> jsnum option \<Rightarrow> ('v mem_world, thrown + unit) state" where
  "mw_set key v ttlMs = do {
     t \<leftarrow> mw_now;
     t' \<leftarrow> mw_now;
     mw_update (\<lambda>c. case mem_set t t' key v ttlMs c of
         None \<Rightarrow> (Inl \<lparr>th_isBaseError = False, th_chain = []\<rparr>, c) | Some d \<Rightarrow> (Inr (), d))
   }"

text \<open>With a pure validation schema, such as \<open>zA1OnChainData\<close>.\<close>

definition mem_impl :: "('v \<Rightarrow> bool) \<Rightarrow> ('v mem_world, 'v, 'v) cache_impl" where
  "mem_impl valid =
     \<lparr>ci_validate = \<lambda>v. if valid v then Some v else None,
      ci_onValidationFailure = \<lambda>k. ret (Inr ()),
      ci_rawGet = \<lambda>k. do { t \<leftarrow> mw_now; v \<leftarrow> mw_update (mem_rawGet t k); ret (Inr v) },
      ci_set = mw_set,
      ci_delete = \<lambda>k. mw_update (\<lambda>c. (Inr (), mem_delete k c))\<rparr>"

definition mem_holds :: "(string \<Rightarrow> 'v \<Rightarrow> bool) \<Rightarrow> 'v mem_world \<Rightarrow> bool" where
  "mem_holds P w \<longleftrightarrow> mem_wf (mw_cache w) \<and>
     (\<forall>k e. map_of (mc_map (mw_cache w)) k = Some e \<longrightarrow> P k (cx_value e))"

lemma hoare_mw_now: "hoare (mem_holds P) mw_now (\<lambda>_. mem_holds P)"
  by (auto simp: hoare_def mw_now_def mem_holds_def)

lemma hoare_mw_update:
  "(\<And>c. mem_wf c \<Longrightarrow> (\<forall>k e. map_of (mc_map c) k = Some e \<longrightarrow> P k (cx_value e)) \<Longrightarrow>
      (case f c of (a, d) \<Rightarrow> mem_wf d \<and> (\<forall>k e. map_of (mc_map d) k = Some e \<longrightarrow> P k (cx_value e)) \<and> Q a)) \<Longrightarrow>
   hoare (mem_holds P) (mw_update f) (\<lambda>a w. mem_holds P w \<and> Q a)"
  by (fastforce simp: hoare_def mw_update_def mem_holds_def split: prod.splits)


lemma hoare_mem_rawGet:
  "hoare (mem_holds P) (mw_update (mem_rawGet t k)) (\<lambda>r w. mem_holds P w \<and> (\<forall>v. r = Some v \<longrightarrow> P k v))"
proof (rule hoare_mw_update)
  fix c :: "'a mem_cache"
  assume wf: "mem_wf c" and P: "\<forall>k e. map_of (mc_map c) k = Some e \<longrightarrow> P k (cx_value e)"
  with mem_wf_rawGet [OF wf, of t k] show
    "case mem_rawGet t k c of (a, d) \<Rightarrow> mem_wf d \<and> (\<forall>k e. map_of (mc_map d) k = Some e \<longrightarrow> P k (cx_value e)) \<and>
       (\<forall>v. a = Some v \<longrightarrow> P k v)"
    by (auto simp: mem_rawGet_def split: option.splits if_splits)
qed

lemma hoare_mem_delete:
  "hoare (mem_holds P) (mw_update (\<lambda>c. (a, mem_delete k c))) (\<lambda>_. mem_holds P)"
  by (rule hoare_weaken [OF hoare_mw_update [where Q = "\<lambda>_. True"]])
    (auto simp: mem_wf_delete, auto simp: mem_delete_def split: if_splits)

lemma mem_set_values:
  assumes "mem_wf c" and "mem_set t t' key v ttl c = Some d" and "map_of (mc_map d) k = Some e"
  shows "map_of (mc_map c) k = Some e \<or> (k = key \<and> cx_value e = v)"
proof (cases "k = key")
  case True
  from assms(2) show ?thesis
  proof (rule mem_set_cases)
    fix exp
    let ?m = "omap_delete key (mc_map c) @ [(key, \<lparr>cx_value = v, cx_expiresAt = exp\<rparr>)]"
    assume d: "let m = ?m in
       d = c\<lparr>mc_map := m\<rparr> \<and> (0 < mc_maxEntries c \<longrightarrow> length m \<le> mc_maxEntries c) \<or>
       d = trimToBound (sweepExpired t' (c\<lparr>mc_map := m\<rparr>)) \<and> 0 < mc_maxEntries c"
    have "set (mc_map (trimToBound (sweepExpired t' (c\<lparr>mc_map := ?m\<rparr>)))) \<subseteq> set (mc_map (c\<lparr>mc_map := ?m\<rparr>))"
      by (rule order_trans [OF set_trim set_sweep])
    with d have "set (mc_map d) \<subseteq> set ?m"
      unfolding Let_def mem_cache.simps by fastforce
    with assms(3) have "(key, e) \<in> set ?m" by (auto dest: map_of_SomeD simp: True)
    then show ?thesis by (auto simp: True omap_delete_def)
  qed
next
  case False
  with mem_set_other [OF assms(1,2)] assms(3) have "map_of (mc_map c) k = Some e" by fastforce
  then show ?thesis ..
qed

lemma hoare_mw_set: "P k v \<Longrightarrow> hoare (mem_holds P) (mw_set k v ttl) (\<lambda>_. mem_holds P)"
  unfolding mw_set_def
proof (intro hoare_bind [OF hoare_mw_now])
  fix t t' assume P: "P k v"
  show "hoare (mem_holds P) (mw_update (\<lambda>c. case mem_set t t' k v ttl c of
         None \<Rightarrow> (Inl \<lparr>th_isBaseError = False, th_chain = []\<rparr>, c) | Some d \<Rightarrow> (Inr (), d))) (\<lambda>_. mem_holds P)"
    by (rule hoare_weaken [OF hoare_mw_update [where Q = "\<lambda>_. True"]])
      (use P in \<open>auto split: option.splits dest: mem_wf_set mem_set_values\<close>)
qed

interpretation mem: cache_contract
  "ac_get (cache_of (mem_impl valid))" "ac_set (cache_of (mem_impl valid))" mem_holds for valid
proof
  fix P :: "string \<Rightarrow> 'a \<Rightarrow> bool" and k v ttl
  show "P k v \<Longrightarrow> hoare (mem_holds P) (ac_set (cache_of (mem_impl valid)) k v ttl) (\<lambda>_. mem_holds P)"
    by (simp add: cache_of_def mem_impl_def hoare_mw_set)
  have raw: "hoare (mem_holds P) (ci_rawGet (mem_impl valid) k)
      (\<lambda>r w. case r of Inl e \<Rightarrow> mem_holds P w \<and> (\<forall>v. (Inl e :: thrown + 'a option) = Inr (Some v) \<longrightarrow> P k v)
        | Inr v \<Rightarrow> mem_holds P w \<and> (\<forall>u. v = Some u \<longrightarrow> P k u))"
    unfolding mem_impl_def cache_impl.simps
    by (intro hoare_bind [OF hoare_mw_now] hoare_bind [OF hoare_mem_rawGet] hoare_ret) simp
  show "hoare (mem_holds P) (ac_get (cache_of (mem_impl valid)) k)
      (\<lambda>r w. mem_holds P w \<and> (\<forall>v. r = Inr (Some v) \<longrightarrow> P k v))"
    unfolding cache_of_def async_cache.simps async_get_def
  proof (rule hoare_bindE [OF raw])
    fix r :: "'a option"
    have del: "hoare (mem_holds P) (do { _ \<leftarrow> ci_delete (mem_impl valid) k; ret (Inr None) })
        (\<lambda>r w. mem_holds P w \<and> (\<forall>v. r = Inr (Some v) \<longrightarrow> P k v))"
      unfolding mem_impl_def cache_impl.simps
      by (rule hoare_bind [OF hoare_mem_delete]) (auto intro: hoare_ret)
    have inv: "bindE (ci_onValidationFailure (mem_impl valid) k) g = g ()" for g
      by (simp add: mem_impl_def bindE_def)
    show "hoare (\<lambda>w. mem_holds P w \<and> (\<forall>u. r = Some u \<longrightarrow> P k u))
        (case r of None \<Rightarrow> ret (Inr None)
         | Some r \<Rightarrow> (case ci_validate (mem_impl valid) r of
              Some v \<Rightarrow> ret (Inr (Some v))
            | None \<Rightarrow> bindE (ci_onValidationFailure (mem_impl valid) k)
                (\<lambda>_. do { _ \<leftarrow> ci_delete (mem_impl valid) k; ret (Inr None) })))
        (\<lambda>r w. mem_holds P w \<and> (\<forall>v. r = Inr (Some v) \<longrightarrow> P k v))"
      by (cases r)
        (auto intro: hoare_ret hoare_weaken [OF del] simp: inv mem_impl_def [of valid, THEN arg_cong [where f = ci_validate]] split: option.splits)
  qed
qed

end
