(* ===== verification/Request_Binding.thy ===== *)
theory Request_Binding
  imports Role_Events Cache Schemas
begin

text \<open>
  The A.1 check runner of \<open>guardian-defaults/src/checks/intent-request-binding.ts\<close>: the
  trusted short-circuit, the stage-1 multicall and its per-slot classification, the
  retargetter path, the code probe and role-events scan, the evaluation of fetched or cached
  data against the live policy, and the cache flow of \<open>runA1\<close>. The chain client's calls are
  computations, one per call site, answering with the decoded values.
\<close>

section \<open>Policy and on-chain data\<close>

datatype disposition = Skip | Fail

record a1_policy =
  ap_maxDeadlineSecondsAhead :: int
  ap_trustedRequestContracts :: "chain_sets option"
  ap_acceptedRetargetters :: "chain_sets option"
  ap_minRetargetterRepaymentBufferSeconds :: "jsnum option"
  ap_acceptedRequestFactories :: chain_sets
  ap_acceptedFlashLoanRequestFactories :: "chain_sets option"
  ap_acceptedFlashLoanRequestExecutors :: "chain_sets option"
  ap_acceptedOwners :: chain_sets
  ap_acceptedPullers :: chain_sets
  ap_acceptedConsumers :: chain_sets
  ap_eventScanBlockRange :: int
  ap_eventScanMaxLookbackBlocks :: int
  ap_eventScanDeadlineMs :: "jsnum option"
  ap_onLookbackExhausted :: "disposition option"

definition ROLE_PULLER :: "256 word" where
  "ROLE_PULLER = push_bit 0 1"

definition ROLE_CONSUMER :: "256 word" where
  "ROLE_CONSUMER = push_bit 1 1"

definition DEFAULT_MIN_RETARGETTER_REPAYMENT_BUFFER_SECONDS :: int where
  "DEFAULT_MIN_RETARGETTER_REPAYMENT_BUFFER_SECONDS = 80 * 24 * 60 * 60"

datatype a1_data =
    NoFactory
  | TooOldData string string "role_holders option"
  | ResolvedData string string role_holders

record retargetter_data =
  rt_retargetter :: string
  rt_attachedRequest :: string
  rt_repaymentDeadline :: int

datatype a1_fetched = FetchedData a1_data | FetchedRetargetter retargetter_data

text \<open>\<open>isAddress(v, { strict: false })\<close> and the cache schema.\<close>

definition zCachedAddress :: "string \<Rightarrow> bool" where
  "zCachedAddress a = hex0x 40 a"

definition zCachedHolders :: "role_holders \<Rightarrow> bool" where
  "zCachedHolders h = list_all (\<lambda>p. zCachedAddress (fst p)) h"

fun zA1OnChainData :: "a1_data \<Rightarrow> bool" where
  "zA1OnChainData NoFactory = True"
| "zA1OnChainData (TooOldData f ow h) =
     (zCachedAddress f \<and> zCachedAddress ow \<and> (case h of None \<Rightarrow> True | Some m \<Rightarrow> zCachedHolders m))"
| "zA1OnChainData (ResolvedData f ow h) = (zCachedAddress f \<and> zCachedAddress ow \<and> zCachedHolders h)"


section \<open>The chain client and the dependencies\<close>

datatype provenance = IsRequest | IsFlashLoanRequest

datatype 'a slot = SlotSuccess 'a | SlotFailure thrown

text \<open>
  \<open>a1_stage1\<close> is the multicall with \<open>allowFailure: true\<close>: the owner slot, and the slot of the
  i-th factory call. \<open>a1_getCode\<close> tells whether the node returned code.
\<close>

record 'w a1_ctx = "'w scan_io" +
  a1_stage1 :: "string \<Rightarrow> (string \<times> provenance) list \<Rightarrow> ('w, thrown + string slot \<times> (nat \<Rightarrow> bool slot)) state"
  a1_operation :: "string \<Rightarrow> ('w, thrown + string \<times> int) state"
  a1_getBlockNumber :: "('w, thrown + int) state"
  a1_getCode :: "string \<Rightarrow> int \<Rightarrow> ('w, thrown + bool) state"
  a1_now :: int

record 'w a1_deps =
  ad_policy :: a1_policy
  ad_cache :: "('w, a1_data) async_cache option"
  ad_cacheTtlMs :: "jsnum option"

definition isOnChainSet :: "chain_sets option \<Rightarrow> int \<Rightarrow> string \<Rightarrow> bool" where
  "isOnChainSet sets chainId address =
     (case Option.bind sets (\<lambda>m. map_of m chainId) of
        None \<Rightarrow> False
      | Some s \<Rightarrow> list_ex (\<lambda>candidate. toLowerCase candidate = toLowerCase address) s)"

definition isTrustedRequestContract :: "string \<Rightarrow> int \<Rightarrow> a1_policy \<Rightarrow> bool" where
  "isTrustedRequestContract requestContract chainId policy =
     isOnChainSet (ap_trustedRequestContracts policy) chainId requestContract"

definition isAcceptedRetargetter :: "string \<Rightarrow> int \<Rightarrow> a1_policy \<Rightarrow> bool" where
  "isAcceptedRetargetter ow chainId policy = isOnChainSet (ap_acceptedRetargetters policy) chainId ow"

text \<open>Whether \<open>assertRetargetterPolicy\<close> lets the builder return.\<close>

definition assertRetargetterPolicy :: "a1_policy \<Rightarrow> bool" where
  "assertRetargetterPolicy policy =
     (case ap_minRetargetterRepaymentBufferSeconds policy of
        None \<Rightarrow> True | Some b \<Rightarrow> num_isInteger b \<and> \<not> num_lt_int b 0)"


section \<open>Entries\<close>

definition FACTORY_D :: string where
  "FACTORY_D = ''request contract was deployed by an accepted factory''"
definition OWNER_D :: string where
  "OWNER_D = ''owner of request contract is on the accepted-owners list''"
definition PULLER_D :: string where
  "PULLER_D = ''puller role on request contract is held only by accepted parties''"
definition CONSUMER_D :: string where
  "CONSUMER_D = ''consumer role on request contract is held only by accepted parties''"
definition EXECUTOR_D :: string where
  "EXECUTOR_D = ''executor role on flash-loan request is held only by accepted parties''"
definition TRUSTED_D :: string where
  "TRUSTED_D = ''request contract is on the trusted-request-contracts list''"
definition RETARGETTER_D :: string where
  "RETARGETTER_D = ''owner of request contract is on the accepted-retargetters list''"
definition ATTACHED_D :: string where
  "ATTACHED_D = ''request contract is the retargetter's attached operation request''"
definition BUFFER_D :: string where
  "BUFFER_D = ''retargetter repayment deadline is at least MIN_RETARGETTER_REPAYMENT_BUFFER ahead of now''"

lemmas a1_descriptions = FACTORY_D_def OWNER_D_def PULLER_D_def CONSUMER_D_def EXECUTOR_D_def
  TRUSTED_D_def RETARGETTER_D_def ATTACHED_D_def BUFFER_D_def DEADLINE_CHECK_DESCRIPTION_def

fun join_comma :: "string list \<Rightarrow> string" where
  "join_comma [] = []"
| "join_comma [x] = x"
| "join_comma (x # xs) = x @ '', '' @ join_comma xs"

definition rogues :: "string list \<Rightarrow> string list \<Rightarrow> string list" where
  "rogues holders accepted =
     (let acceptedLower = set (map toLowerCase accepted) in
      filter (\<lambda>h. toLowerCase h \<notin> acceptedLower) holders)"

definition checkSubset :: "string \<Rightarrow> string list \<Rightarrow> string list \<Rightarrow> check_entry" where
  "checkSubset description holders accepted =
     (if holders = [] then failed description ''no live role-holder found in role-events scan''
      else if rogues holders accepted \<noteq> [] then
        failed description (''rogue role-holder(s): '' @ join_comma (rogues holders accepted))
      else passed description)"

definition checkPartialHolders :: "string \<Rightarrow> string list \<Rightarrow> string list \<Rightarrow> disposition \<Rightarrow> check_entry" where
  "checkPartialHolders description holders accepted disp =
     (if rogues holders accepted \<noteq> [] then
        failed description (''rogue role-holder(s) observed within the lookback window: '' @
          join_comma (rogues holders accepted))
      else if disp = Fail then
        failed description
          (''role-events scan exhausted eventScanMaxLookbackBlocks without observing deployment; '' @
           ''policy onLookbackExhausted=fail rejects unverifiable role-holder sets'')
      else skipped description)"

definition rollupA1 :: "check_entry list \<Rightarrow> guardian_error + check_entry list" where
  "rollupA1 checks = roll_result (rollUp checks ''Appendix A.1 checks failed'')"

definition trustedRequestContractChecks :: "check_entry \<Rightarrow> check_entry list" where
  "trustedRequestContractChecks deadlineCheck =
     [passed TRUSTED_D, skipped FACTORY_D, skipped OWNER_D, skipped PULLER_D, skipped CONSUMER_D,
      deadlineCheck]"

definition ZERO_ADDRESS :: string where
  "ZERO_ADDRESS = ''0x0000000000000000000000000000000000000000''"

definition retargetter_floor :: "int \<Rightarrow> a1_policy \<Rightarrow> int" where
  "retargetter_floor nowUnixSeconds policy =
     nowUnixSeconds +
       (case ap_minRetargetterRepaymentBufferSeconds policy of
          None \<Rightarrow> DEFAULT_MIN_RETARGETTER_REPAYMENT_BUFFER_SECONDS | Some b \<Rightarrow> num_to_int b)"

definition evaluateRetargetter ::
    "retargetter_data \<Rightarrow> string \<Rightarrow> int \<Rightarrow> a1_policy \<Rightarrow> check_entry \<Rightarrow> check_entry list" where
  "evaluateRetargetter data requestContract nowUnixSeconds policy deadlineCheck =
     (let attachedCheck =
            (if toLowerCase (rt_attachedRequest data) = toLowerCase requestContract then passed ATTACHED_D
             else failed ATTACHED_D
               (if rt_attachedRequest data = ZERO_ADDRESS
                then ''retargetter '' @ rt_retargetter data @ '' has no active operation''
                else ''retargetter '' @ rt_retargetter data @ '' is attached to '' @ rt_attachedRequest data @
                     '', not this contract''));
          floorSec = retargetter_floor nowUnixSeconds policy;
          bufferCheck =
            (if rt_repaymentDeadline data \<ge> floorSec then passed BUFFER_D
             else failed BUFFER_D
               (''repayment deadline '' @ show_int (rt_repaymentDeadline data) @ '' is below floor '' @
                show_int floorSec @ '' (now='' @ show_int nowUnixSeconds @ '', min-buffer='' @
                show_int (floorSec - nowUnixSeconds) @ '')''))
      in [passed RETARGETTER_D, skipped FACTORY_D, skipped OWNER_D, skipped PULLER_D, skipped CONSUMER_D,
          attachedCheck, bufferCheck, deadlineCheck])"

definition factory_failure :: "string \<Rightarrow> check_entry \<Rightarrow> check_entry list" where
  "factory_failure reason deadlineCheck =
     [failed FACTORY_D reason, skipped OWNER_D, skipped PULLER_D, skipped CONSUMER_D, deadlineCheck]"

fun data_factory :: "a1_data \<Rightarrow> string" where
  "data_factory NoFactory = []"
| "data_factory (TooOldData f ow h) = f"
| "data_factory (ResolvedData f ow h) = f"

fun data_owner :: "a1_data \<Rightarrow> string" where
  "data_owner NoFactory = []"
| "data_owner (TooOldData f ow h) = ow"
| "data_owner (ResolvedData f ow h) = ow"

text \<open>The role entry for one role mask, from complete or partial holders.\<close>

definition role_check :: "a1_data \<Rightarrow> string \<Rightarrow> 256 word \<Rightarrow> string list \<Rightarrow> disposition \<Rightarrow> check_entry" where
  "role_check data description roleMask accepted disp =
     (case data of
        ResolvedData f ow holders \<Rightarrow> checkSubset description (holdersOf holders roleMask) accepted
      | TooOldData f ow partialH \<Rightarrow>
          checkPartialHolders description
            (holdersOf (case partialH of None \<Rightarrow> [] | Some h \<Rightarrow> h) roleMask) accepted disp
      | NoFactory \<Rightarrow> skipped description)"

definition policy_disposition :: "a1_policy \<Rightarrow> disposition" where
  "policy_disposition policy = (case ap_onLookbackExhausted policy of None \<Rightarrow> Skip | Some d \<Rightarrow> d)"

definition evaluateA1 :: "a1_data \<Rightarrow> int \<Rightarrow> a1_policy \<Rightarrow> check_entry \<Rightarrow> check_entry list" where
  "evaluateA1 data chainId policy deadlineCheck =
     (if data = NoFactory then
        factory_failure ''no accepted factory recognises this contract as one of its deployments'' deadlineCheck
      else
        let flash = opt_chain_set (ap_acceptedFlashLoanRequestFactories policy) chainId;
            allFactories = chain_set (ap_acceptedRequestFactories policy) chainId @ flash
        in if \<not> in_ci (data_factory data) allFactories then
             factory_failure (''previously-matched factory '' @ data_factory data @
               '' is no longer in the accepted-factories list'') deadlineCheck
           else
             let factoryCheck = passed FACTORY_D;
                 ownerCheck = checkMembership OWNER_D (data_owner data)
                   (chain_set (ap_acceptedOwners policy) chainId) True None;
                 disp = policy_disposition policy
             in if in_ci (data_factory data) flash then
                  [factoryCheck, ownerCheck,
                   role_check data EXECUTOR_D ROLE_PULLER
                     (opt_chain_set (ap_acceptedFlashLoanRequestExecutors policy) chainId) disp,
                   deadlineCheck]
                else
                  [factoryCheck, ownerCheck,
                   role_check data PULLER_D ROLE_PULLER (chain_set (ap_acceptedPullers policy) chainId) disp,
                   role_check data CONSUMER_D ROLE_CONSUMER (chain_set (ap_acceptedConsumers policy) chainId) disp,
                   deadlineCheck])"


section \<open>The on-chain reads\<close>

definition factory_checks :: "a1_policy \<Rightarrow> int \<Rightarrow> (string \<times> provenance) list" where
  "factory_checks policy chainId =
     map (\<lambda>f. (f, IsRequest)) (chain_set (ap_acceptedRequestFactories policy) chainId) @
     map (\<lambda>f. (f, IsFlashLoanRequest)) (opt_chain_set (ap_acceptedFlashLoanRequestFactories policy) chainId)"

text \<open>
  The loop over the factory slots: the factories that answered \<open>true\<close>, keyed by lower-cased
  address, and those that failed.
\<close>

fun classify_slots ::
    "(nat \<Rightarrow> bool slot) \<Rightarrow> nat \<Rightarrow> (string \<times> provenance) list \<Rightarrow>
     (string, string) omap \<times> string list \<Rightarrow> (string, string) omap \<times> string list" where
  "classify_slots slots i [] acc = acc"
| "classify_slots slots i ((factory, p) # fs) (hits, failures) =
     (case slots i of
        SlotFailure e \<Rightarrow> classify_slots slots (Suc i) fs (hits, failures @ [factory])
      | SlotSuccess b \<Rightarrow>
          classify_slots slots (Suc i) fs
            (if b then omap_set (toLowerCase factory) factory hits else hits, failures))"

definition fetchRetargetterOperation ::
    "'w a1_ctx \<Rightarrow> string \<Rightarrow> string \<Rightarrow> ('w, guardian_error + a1_fetched) state" where
  "fetchRetargetterOperation ctx retargetter requestContract = do {
     r \<leftarrow> a1_operation ctx retargetter;
     ret (case r of
        Inl e \<Rightarrow> Inl (upstream503 ''retargetter operation read failed upstream'')
      | Inr (attachedRequest, repaymentDeadline) \<Rightarrow>
          Inr (FetchedRetargetter \<lparr>rt_retargetter = retargetter, rt_attachedRequest = attachedRequest,
            rt_repaymentDeadline = repaymentDeadline\<rparr>))
   }"

text \<open>The fail-closed probe: whether there was code at the block before the window.\<close>

definition code_before_window ::
    "'w a1_ctx \<Rightarrow> a1_policy \<Rightarrow> string \<Rightarrow> int \<Rightarrow> ('w, bool) state" where
  "code_before_window ctx policy requestContract latestBlock =
     (if ap_onLookbackExhausted policy = Some Fail \<and> latestBlock > ap_eventScanMaxLookbackBlocks policy
      then do {
        r \<leftarrow> a1_getCode ctx requestContract (latestBlock - ap_eventScanMaxLookbackBlocks policy - 1);
        ret (case r of Inl e \<Rightarrow> False | Inr code \<Rightarrow> code)
      }
      else ret False)"

definition a1_scan_args :: "a1_policy \<Rightarrow> string list \<Rightarrow> string \<Rightarrow> int \<Rightarrow> scan_args" where
  "a1_scan_args policy factories requestContract latestBlock =
     \<lparr>sa_factories = factories, sa_requestContract = requestContract, sa_latestBlock = latestBlock,
      sa_blockRange = ap_eventScanBlockRange policy,
      sa_maxLookbackBlocks = ap_eventScanMaxLookbackBlocks policy,
      sa_deadlineMs = ap_eventScanDeadlineMs policy\<rparr>"

text \<open>Stage 2, for the factories that claim the contract.\<close>

definition fetch_roles ::
    "'w a1_ctx \<Rightarrow> a1_policy \<Rightarrow> string list \<Rightarrow> string \<Rightarrow> string \<Rightarrow> ('w, guardian_error + a1_fetched) state" where
  "fetch_roles ctx policy matchedFactories ow requestContract = do {
     lb \<leftarrow> a1_getBlockNumber ctx;
     case lb of
       Inl e \<Rightarrow> ret (Inl (upstream503 ''getBlockNumber failed upstream''))
     | Inr latestBlock \<Rightarrow> do {
         old \<leftarrow> code_before_window ctx policy requestContract latestBlock;
         if old then ret (Inr (FetchedData (TooOldData (hd matchedFactories) ow None)))
         else do {
           outcome \<leftarrow> scanRoleHolders (scan_io.truncate ctx)
             (a1_scan_args policy matchedFactories requestContract latestBlock);
           ret (case outcome of
              Inl e \<Rightarrow> Inl (upstream503 ''role-events scan failed upstream'')
            | Inr (TooOld partialH) \<Rightarrow>
                Inr (FetchedData (TooOldData (hd matchedFactories) ow (Some partialH)))
            | Inr (Resolved holders block deploymentFactory) \<Rightarrow>
                Inr (FetchedData (ResolvedData
                  (case deploymentFactory of Some f \<Rightarrow> f | None \<Rightarrow> hd matchedFactories) ow holders)))
         }
       }
   }"

definition fetchA1OnChain ::
    "'w a1_ctx \<Rightarrow> int \<Rightarrow> string \<Rightarrow> a1_policy \<Rightarrow> ('w, guardian_error + a1_fetched) state" where
  "fetchA1OnChain ctx chainId requestContract policy = do {
     stage1 \<leftarrow> a1_stage1 ctx requestContract (factory_checks policy chainId);
     case stage1 of
       Inl e \<Rightarrow> ret (Inl (upstream503 ''request-contract read failed upstream''))
     | Inr (SlotFailure e, slots) \<Rightarrow>
         if isDeterministicContractCallFailure e [''owner''] then ret (Inr (FetchedData NoFactory))
         else ret (Inl (upstream503 ''request-contract read failed upstream''))
     | Inr (SlotSuccess ow, slots) \<Rightarrow>
         if isAcceptedRetargetter ow chainId policy
         then fetchRetargetterOperation ctx ow requestContract
         else
           (case classify_slots slots 0 (factory_checks policy chainId) ([], []) of
              (factoryHits, failedFactories) \<Rightarrow>
                if factoryHits = [] then
                  (if failedFactories \<noteq> [] then ret (Inl (upstream503 ''accepted-factory read failed upstream''))
                   else ret (Inr (FetchedData NoFactory)))
                else fetch_roles ctx policy (map snd factoryHits) ow requestContract)
   }"


section \<open>The runner\<close>

definition a1_cache_key :: "int \<Rightarrow> string \<Rightarrow> string" where
  "a1_cache_key chainId requestContract = show_int chainId @ '':'' @ toLowerCase requestContract"

text \<open>
  The cached data, if there is a cache, its read does not throw, and the entry is not a
  classic-path entry of a contract whose owner is an accepted retargetter by now.
\<close>

definition a1_cache_lookup ::
    "'w a1_deps \<Rightarrow> int \<Rightarrow> string \<Rightarrow> ('w, a1_data option) state" where
  "a1_cache_lookup deps chainId key =
     (case ad_cache deps of
        None \<Rightarrow> ret None
      | Some cache \<Rightarrow> do {
          hit \<leftarrow> do { r \<leftarrow> ac_get cache key; ret (case r of Inl e \<Rightarrow> None | Inr v \<Rightarrow> v) };
          ret (case hit of
             None \<Rightarrow> None
           | Some d \<Rightarrow>
               if d \<noteq> NoFactory \<and> isAcceptedRetargetter (data_owner d) chainId (ad_policy deps)
               then None else Some d)
        })"

fun probe_only :: "a1_data \<Rightarrow> bool" where
  "probe_only (TooOldData f ow None) = True"
| "probe_only _ = False"

definition a1_cache_store :: "'w a1_deps \<Rightarrow> string \<Rightarrow> a1_data \<Rightarrow> ('w, unit) state" where
  "a1_cache_store deps key data =
     (case ad_cache deps of
        None \<Rightarrow> ret ()
      | Some cache \<Rightarrow>
          if probe_only data then ret ()
          else do { _ \<leftarrow> ac_set cache key data (ad_cacheTtlMs deps); ret () })"

definition now_seconds :: "int \<Rightarrow> int" where
  "now_seconds ms = ms div 1000"

definition runA1 ::
    "'w a1_ctx \<Rightarrow> 'w a1_deps \<Rightarrow> int \<Rightarrow> string \<Rightarrow> int \<Rightarrow> ('w, guardian_error + check_entry list) state" where
  "runA1 ctx deps chainId requestContract deadline =
     (let policy = ad_policy deps;
          nowUnix = now_seconds (a1_now ctx);
          deadlineCheck = checkDeadline nowUnix deadline (ap_maxDeadlineSecondsAhead policy);
          key = a1_cache_key chainId requestContract
      in if isTrustedRequestContract requestContract chainId policy
         then ret (rollupA1 (trustedRequestContractChecks deadlineCheck))
         else do {
           hit \<leftarrow> a1_cache_lookup deps chainId key;
           case hit of
             Some data \<Rightarrow> ret (rollupA1 (evaluateA1 data chainId policy deadlineCheck))
           | None \<Rightarrow>
               bindE (fetchA1OnChain ctx chainId requestContract policy) (\<lambda>fetched.
                 case fetched of
                   FetchedRetargetter r \<Rightarrow>
                     ret (rollupA1 (evaluateRetargetter r requestContract nowUnix policy deadlineCheck))
                 | FetchedData data \<Rightarrow> do {
                     _ \<leftarrow> a1_cache_store deps key data;
                     ret (rollupA1 (evaluateA1 data chainId policy deadlineCheck))
                   })
         })"

definition buildIntentRequestBindingChecks ::
    "'w a1_deps \<Rightarrow> ('w a1_ctx \<Rightarrow> intent_request_binding_body \<Rightarrow> ('w, guardian_error + check_entry list) state) option" where
  "buildIntentRequestBindingChecks deps =
     (if assertRetargetterPolicy (ad_policy deps)
      then Some (\<lambda>ctx body. runA1 ctx deps (rb_chainId body) (rb_requestContract body) (rb_deadline body))
      else None)"


section \<open>Shape of the results\<close>

lemma wf_checkSubset [wf_rules, simp]: "d \<noteq> [] \<Longrightarrow> wf_entry (checkSubset d h a)"
  by (simp add: checkSubset_def)

lemma wf_checkPartialHolders [wf_rules, simp]: "d \<noteq> [] \<Longrightarrow> wf_entry (checkPartialHolders d h a p)"
  by (simp add: checkPartialHolders_def)

lemma wf_role_check [wf_rules, simp]: "d \<noteq> [] \<Longrightarrow> wf_entry (role_check x d m a p)"
  by (simp add: role_check_def split: a1_data.split)

lemma wf_evaluateA1 [wf_rules]: "wf_entry dc \<Longrightarrow> list_all wf_entry (evaluateA1 d c p dc)"
  by (simp add: evaluateA1_def factory_failure_def a1_descriptions Let_def)

lemma wf_evaluateRetargetter [wf_rules]: "wf_entry dc \<Longrightarrow> list_all wf_entry (evaluateRetargetter r q n p dc)"
  by (simp add: evaluateRetargetter_def a1_descriptions Let_def)

lemma wf_trusted [wf_rules]: "wf_entry dc \<Longrightarrow> list_all wf_entry (trustedRequestContractChecks dc)"
  by (simp add: trustedRequestContractChecks_def a1_descriptions)

lemma runner_result_rollupA1 [io_rules]: "list_all wf_entry cs \<Longrightarrow> runner_result b (rollupA1 cs)"
  by (simp add: rollupA1_def runner_result_rollUp)

lemma rollupA1_Inr: "rollupA1 cs = Inr ds \<longleftrightarrow> all_passed cs \<and> ds = cs"
  by (auto simp: rollupA1_def roll_result_rollUp)

text \<open>An error of a fetch is always the 503.\<close>

definition is_503 :: "guardian_error \<Rightarrow> bool" where
  "is_503 e \<longleftrightarrow> (\<exists>m. e = upstream503 m)"

lemma is_503_upstream [simp]: "is_503 (upstream503 m)"
  by (auto simp: is_503_def)

lemma runner_result_is_503: "is_503 e \<Longrightarrow> runner_result b (Inl e)"
  by (auto simp: is_503_def)

lemma fetch_roles_error: "pred_state (case_sum is_503 (\<lambda>_. True)) (fetch_roles ctx p fs ow q)"
  unfolding fetch_roles_def
  by (auto intro!: pred_state_bind_any split: sum.splits role_scan_outcome.splits)

lemma fetchA1OnChain_error: "pred_state (case_sum is_503 (\<lambda>_. True)) (fetchA1OnChain ctx c q p)"
  unfolding fetchA1OnChain_def fetchRetargetterOperation_def
  by (auto intro!: pred_state_bind_any fetch_roles_error split: sum.splits slot.splits prod.splits)

lemma runA1_contract:
  "pred_state (runner_result conflict) (runA1 ctx deps chainId requestContract deadline)"
proof -
  have e: "pred_state (runner_result conflict) (bindE (fetchA1OnChain ctx c q p) f)"
    if "\<And>a. pred_state (runner_result conflict) (f a)" for c q p f
    by (rule pred_state_bindE [where Q = "\<lambda>_. True"])
      (use fetchA1OnChain_error [of ctx c q p] that in
        \<open>auto elim!: pred_state_mono intro: runner_result_is_503 split: sum.splits\<close>)
  show ?thesis
    unfolding runA1_def Let_def
    by (auto intro!: pred_state_bind_any e wf_rules io_rules split: option.splits a1_fetched.splits)
qed


section \<open>What an approval means\<close>

text \<open>
  The state of the chain a request is checked against: the contract's owner, which factory
  calls answer \<open>true\<close>, the retargetter's operation, and the log history up to the latest block.
\<close>

record a1_facts =
  af_owner :: string
  af_provenance :: "string \<times> provenance \<Rightarrow> bool"
  af_operation :: "string \<times> int"
  af_latest :: int
  af_history :: "chain_log list"

text \<open>
  A client that serves this state: any call may fail, but what it answers is true. The
  history is one in which the contract has no role event before a factory deploys it.
\<close>

definition serves :: "'w a1_ctx \<Rightarrow> a1_policy \<Rightarrow> string \<Rightarrow> a1_facts \<Rightarrow> bool" where
  "serves ctx policy q facts \<longleftrightarrow>
     (\<forall>checks. pred_state (\<lambda>r. \<forall>ow slots. r = Inr (ow, slots) \<longrightarrow>
        (\<forall>a. ow = SlotSuccess a \<longrightarrow> a = af_owner facts) \<and>
        (\<forall>i b. i < length checks \<longrightarrow> slots i = SlotSuccess b \<longrightarrow> b = af_provenance facts (checks ! i)))
        (a1_stage1 ctx q checks)) \<and>
     pred_state (\<lambda>r. \<forall>x. r = Inr x \<longrightarrow> x = af_operation facts) (a1_operation ctx (af_owner facts)) \<and>
     pred_state (\<lambda>r. \<forall>n. r = Inr n \<longrightarrow> n = af_latest facts) (a1_getBlockNumber ctx) \<and>
     honest_node (scan_io.truncate ctx) (af_history facts) \<and>
     history (a1_scan_args policy [] q (af_latest facts)) (af_history facts)"

definition deployed_first :: "a1_policy \<Rightarrow> int \<Rightarrow> string \<Rightarrow> a1_facts \<Rightarrow> bool" where
  "deployed_first policy chainId q facts \<longleftrightarrow>
     (\<forall>fs. set fs \<subseteq> fst ` set (factory_checks policy chainId) \<longrightarrow>
        deployed_before_roles (a1_scan_args policy fs q (af_latest facts)) (af_history facts))"

text \<open>The contract's role state, and a role verified against an accepted set.\<close>

definition contract_roles :: "string \<Rightarrow> a1_facts \<Rightarrow> string \<Rightarrow> 256 word option" where
  "contract_roles q facts =
     current_roles \<lparr>sa_factories = [], sa_requestContract = q, sa_latestBlock = 0, sa_blockRange = 0,
       sa_maxLookbackBlocks = 0, sa_deadlineMs = None\<rparr> (af_history facts)"

definition role_verified :: "(string \<Rightarrow> 256 word option) \<Rightarrow> 256 word \<Rightarrow> string list \<Rightarrow> bool" where
  "role_verified roles roleMask accepted \<longleftrightarrow>
     (\<forall>u r. roles u = Some r \<and> r AND roleMask \<noteq> 0 \<longrightarrow> in_ci u accepted) \<and>
     (\<exists>u r. roles u = Some r \<and> r AND roleMask \<noteq> 0)"

definition all_factories :: "a1_policy \<Rightarrow> int \<Rightarrow> string list" where
  "all_factories policy chainId =
     chain_set (ap_acceptedRequestFactories policy) chainId @
     opt_chain_set (ap_acceptedFlashLoanRequestFactories policy) chainId"

text \<open>The classic path: an accepted factory made the contract, and its owner is accepted.\<close>

definition classic_ok :: "a1_policy \<Rightarrow> int \<Rightarrow> a1_facts \<Rightarrow> string \<Rightarrow> bool" where
  "classic_ok policy chainId facts f \<longleftrightarrow>
     in_ci f (all_factories policy chainId) \<and> (\<exists>p. af_provenance facts (f, p)) \<and>
     in_ci (af_owner facts) (chain_set (ap_acceptedOwners policy) chainId)"

definition roles_ok :: "a1_policy \<Rightarrow> int \<Rightarrow> string \<Rightarrow> a1_facts \<Rightarrow> string \<Rightarrow> bool" where
  "roles_ok policy chainId q facts f \<longleftrightarrow>
     (if in_ci f (opt_chain_set (ap_acceptedFlashLoanRequestFactories policy) chainId)
      then role_verified (contract_roles q facts) ROLE_PULLER
             (opt_chain_set (ap_acceptedFlashLoanRequestExecutors policy) chainId)
      else role_verified (contract_roles q facts) ROLE_PULLER (chain_set (ap_acceptedPullers policy) chainId) \<and>
           role_verified (contract_roles q facts) ROLE_CONSUMER (chain_set (ap_acceptedConsumers policy) chainId))"

definition a1_approved ::
    "a1_policy \<Rightarrow> int \<Rightarrow> string \<Rightarrow> a1_facts \<Rightarrow> int \<Rightarrow> int \<Rightarrow> check_entry list \<Rightarrow> bool" where
  "a1_approved policy chainId q facts nowMs deadline cs \<longleftrightarrow>
     deadline \<le> now_seconds nowMs + ap_maxDeadlineSecondsAhead policy \<and>
     (isTrustedRequestContract q chainId policy \<or>
      (isAcceptedRetargetter (af_owner facts) chainId policy \<and>
       toLowerCase (fst (af_operation facts)) = toLowerCase q \<and>
       retargetter_floor (now_seconds nowMs) policy \<le> snd (af_operation facts)) \<or>
      (\<exists>f. classic_ok policy chainId facts f \<and>
         (policy_disposition policy = Fail \<or> list_all (\<lambda>c. \<not> ce_skipped c) cs \<longrightarrow>
            roles_ok policy chainId q facts f)))"

text \<open>Data that is true of the state, as fetched now or as stored before.\<close>

fun data_sound :: "string \<Rightarrow> a1_facts \<Rightarrow> a1_data \<Rightarrow> bool" where
  "data_sound q facts NoFactory = True"
| "data_sound q facts (TooOldData f ow h) \<longleftrightarrow>
     (\<exists>p. af_provenance facts (f, p)) \<and> ow = af_owner facts"
| "data_sound q facts (ResolvedData f ow h) \<longleftrightarrow>
     (\<exists>p. af_provenance facts (f, p)) \<and> ow = af_owner facts \<and>
     omap_wf h \<and> map_of h = contract_roles q facts"

lemma in_ci_append: "in_ci x (a @ b) \<longleftrightarrow> in_ci x a \<or> in_ci x b"
  by (auto simp: in_ci_def)

lemma rogues_empty: "rogues hs acc = [] \<longleftrightarrow> (\<forall>h\<in>set hs. in_ci h acc)"
  by (auto simp: rogues_def in_ci_def filter_empty_conv Let_def)

lemma holdersOf_mem:
  "omap_wf h \<Longrightarrow> u \<in> set (holdersOf h m) \<longleftrightarrow> (\<exists>r. map_of h u = Some r \<and> r AND m \<noteq> 0)"
  by (force simp: holdersOf_def omap_wf_set_iff [symmetric])

lemma checkSubset_verified:
  assumes "omap_wf h"
  shows "ce_passed (checkSubset d (holdersOf h m) acc) \<longleftrightarrow> role_verified (map_of h) m acc"
proof -
  have S: "set (holdersOf h m) = {u. \<exists>r. map_of h u = Some r \<and> r AND m \<noteq> 0}"
    using holdersOf_mem [OF assms] by blast
  have "ce_passed (checkSubset d (holdersOf h m) acc) \<longleftrightarrow>
      set (holdersOf h m) \<noteq> {} \<and> (\<forall>x\<in>set (holdersOf h m). in_ci x acc)"
    by (simp add: checkSubset_def rogues_empty)
  then show ?thesis unfolding S role_verified_def by blast
qed

lemma checkPartial_passed:
  "ce_passed (checkPartialHolders d hs acc p) \<Longrightarrow> p = Skip \<and> ce_skipped (checkPartialHolders d hs acc p)"
  by (cases p) (auto simp: checkPartialHolders_def split: if_splits)

lemma evaluateA1_sound:
  assumes s: "data_sound q facts d" and a: "all_passed (evaluateA1 d chainId policy dc)"
  shows "ce_passed dc \<and> classic_ok policy chainId facts (data_factory d) \<and>
    (policy_disposition policy = Fail \<or> list_all (\<lambda>c. \<not> ce_skipped c) (evaluateA1 d chainId policy dc) \<longrightarrow>
       roles_ok policy chainId q facts (data_factory d))"
proof -
  have dn: "d \<noteq> NoFactory" and f: "in_ci (data_factory d) (all_factories policy chainId)"
    using a by (auto simp: evaluateA1_def factory_failure_def all_factories_def Let_def split: if_splits)
  have ow: "in_ci (data_owner d) (chain_set (ap_acceptedOwners policy) chainId)" and dc: "ce_passed dc"
    using a dn f by (auto simp: evaluateA1_def all_factories_def Let_def split: if_splits)
  have cl: "classic_ok policy chainId facts (data_factory d)"
    using s dn f ow by (cases d) (auto simp: classic_ok_def)
  have roles: "roles_ok policy chainId q facts (data_factory d)"
    if sk: "policy_disposition policy = Fail \<or> list_all (\<lambda>c. \<not> ce_skipped c) (evaluateA1 d chainId policy dc)"
  proof (cases d)
    case (TooOldData g w h)
    with a f sk show ?thesis
      by (auto simp: evaluateA1_def all_factories_def role_check_def Let_def split: if_splits
          dest!: checkPartial_passed)
  next
    case (ResolvedData g w h)
    with a f s show ?thesis
      by (auto simp: evaluateA1_def all_factories_def role_check_def roles_ok_def checkSubset_verified Let_def
          split: if_splits)
  qed (use dn in simp)
  show ?thesis using dc cl roles by blast
qed

lemma evaluateRetargetter_sound:
  assumes "all_passed (evaluateRetargetter r q n policy dc)"
  shows "ce_passed dc \<and> toLowerCase (rt_attachedRequest r) = toLowerCase q \<and>
    retargetter_floor n policy \<le> rt_repaymentDeadline r"
  using assms by (auto simp: evaluateRetargetter_def Let_def split: if_splits)


subsection \<open>What the reads yield\<close>

lemma classify_slots_sound:
  assumes "(\<forall>g \<in> snd ` set (fst acc). \<exists>p. prov (g, p) \<and> (g, p) \<in> A)"
    and "\<forall>j b. j < length fs \<longrightarrow> slots (i + j) = SlotSuccess b \<longrightarrow> b = prov (fs ! j)"
    and "set fs \<subseteq> A"
  shows "\<forall>g \<in> snd ` set (fst (classify_slots slots i fs acc)). \<exists>p. prov (g, p) \<and> (g, p) \<in> A"
  using assms
proof (induction slots i fs acc rule: classify_slots.induct)
  case (2 slots i factory p fs hits failures)
  have tl: "\<forall>j b. j < length fs \<longrightarrow> slots (Suc i + j) = SlotSuccess b \<longrightarrow> b = prov (fs ! j)"
    using "2.prems"(2) by (metis add_Suc_shift length_Cons not_less_eq nth_Cons_Suc)
  have hd: "slots i = SlotSuccess b \<Longrightarrow> b = prov (factory, p)" for b
    using "2.prems"(2) by (metis Suc_neq_Zero add.right_neutral length_Cons not_gr_zero nth_Cons_0)
  have vals: "snd ` set (omap_set k v m) \<subseteq> insert v (snd ` set m)" for k v and m :: "(string, string) omap"
    by (induction m) auto
  show ?case
  proof (cases "slots i")
    case (SlotFailure e)
    with "2.IH"(2) [OF SlotFailure] "2.prems" tl show ?thesis by simp
  next
    case (SlotSuccess b)
    let ?hits = "if b then omap_set (toLowerCase factory) factory hits else hits"
    have new: "\<exists>p. prov (factory, p) \<and> (factory, p) \<in> A" if b
    proof (intro exI conjI)
      from that hd [OF SlotSuccess] show "prov (factory, p)" by simp
      from "2.prems"(3) show "(factory, p) \<in> A" by simp
    qed
    have sub: "snd ` set ?hits \<subseteq> (if b then insert factory (snd ` set hits) else snd ` set hits)"
      using vals [of "toLowerCase factory" factory hits] by simp
    have "\<forall>g\<in>snd ` set ?hits. \<exists>p. prov (g, p) \<and> (g, p) \<in> A"
    proof
      fix g assume "g \<in> snd ` set ?hits"
      with sub have "(b \<and> g = factory) \<or> g \<in> snd ` set hits" by (auto split: if_splits)
      then show "\<exists>p. prov (g, p) \<and> (g, p) \<in> A" using new "2.prems"(1) by fastforce
    qed
    with "2.IH"(1) [OF SlotSuccess] tl "2.prems"(3) SlotSuccess show ?thesis by simp
  qed
qed simp


lemma role_grant_cong: "sa_requestContract a = sa_requestContract b \<Longrightarrow> role_grant a u l = role_grant b u l"
  by (auto simp: role_grant_def is_role_log_def split: role_event.split option.split)

lemma current_roles_cong:
  assumes "sa_requestContract a = sa_requestContract b"
  shows "current_roles a chain = current_roles b chain"
proof
  fix u
  have "role_grant a u = role_grant b u" by (rule ext) (rule role_grant_cong [OF assms])
  then show "current_roles a chain u = current_roles b chain u" by (simp add: current_roles_def)
qed

lemma contract_roles_args:
  "current_roles (a1_scan_args policy fs q n) (af_history facts) = contract_roles q facts"
  unfolding contract_roles_def by (rule current_roles_cong) (simp add: a1_scan_args_def)

lemma history_args: "history (a1_scan_args policy fs q n) chain = history (a1_scan_args policy [] q n) chain"
  by (simp add: history_def a1_scan_args_def)

definition fetched_sound :: "string \<Rightarrow> int \<Rightarrow> a1_policy \<Rightarrow> a1_facts \<Rightarrow> a1_fetched \<Rightarrow> bool" where
  "fetched_sound q chainId policy facts fr \<longleftrightarrow>
     (case fr of
        FetchedData d \<Rightarrow> data_sound q facts d
      | FetchedRetargetter r \<Rightarrow> isAcceptedRetargetter (af_owner facts) chainId policy \<and>
          (rt_attachedRequest r, rt_repaymentDeadline r) = af_operation facts)"

lemma fetch_roles_sound:
  assumes s: "serves ctx policy q facts" and d: "deployed_first policy chainId q facts"
    and fs: "fs \<noteq> []" "\<forall>g\<in>set fs. \<exists>p. af_provenance facts (g, p) \<and> (g, p) \<in> set (factory_checks policy chainId)"
  shows "pred_state (case_sum (\<lambda>_. True) (fetched_sound q chainId policy facts))
    (fetch_roles ctx policy fs (af_owner facts) q)"
    (is "pred_state ?R _")
proof -
  let ?a = "a1_scan_args policy fs q (af_latest facts)"
  have hd: "\<exists>p. af_provenance facts (hd fs, p)" using fs by (meson hd_in_set)
  have "set fs \<subseteq> fst ` set (factory_checks policy chainId)" using fs(2) by force
  with d have dep: "deployed_before_roles ?a (af_history facts)" by (simp add: deployed_first_def)
  have "history ?a (af_history facts)"
    using s history_args [of policy fs q "af_latest facts"] by (simp add: serves_def)
  from scan_outcome_roles [OF _ this dep] s
  have scan: "pred_state (\<lambda>r. (case r of Inl e \<Rightarrow> True
     | Inr (Resolved holders b f) \<Rightarrow> map_of holders = contract_roles q facts
     | Inr (TooOld holders) \<Rightarrow> map_of holders \<subseteq>\<^sub>m contract_roles q facts) \<and>
     (case r of Inl e \<Rightarrow> True
     | Inr (Resolved holders b f) \<Rightarrow> omap_wf holders \<and> (\<forall>x. f = Some x \<longrightarrow> x \<in> set (sa_factories ?a))
     | Inr (TooOld holders) \<Rightarrow> omap_wf holders)) (scanRoleHolders (scan_io.truncate ctx) ?a)"
    unfolding contract_roles_args by (intro pred_state_conjI scan_outcome_shape) (auto simp: serves_def)
  have sf: "set (sa_factories ?a) = set fs" by (simp add: a1_scan_args_def)
  have stage2: "pred_state ?R (do {
           outcome \<leftarrow> scanRoleHolders (scan_io.truncate ctx) ?a;
           ret (case outcome of
              Inl e \<Rightarrow> Inl (upstream503 ''role-events scan failed upstream'')
            | Inr (TooOld partialH) \<Rightarrow>
                Inr (FetchedData (TooOldData (hd fs) (af_owner facts) (Some partialH)))
            | Inr (Resolved holders block deploymentFactory) \<Rightarrow>
                Inr (FetchedData (ResolvedData
                  (case deploymentFactory of Some f \<Rightarrow> f | None \<Rightarrow> hd fs) (af_owner facts) holders)))
         })"
    by (rule pred_state_bindI [OF scan])
      (use hd fs(2) sf in \<open>auto simp: fetched_sound_def split: sum.splits role_scan_outcome.splits option.splits\<close>)
  show ?thesis
    unfolding fetch_roles_def
  proof (rule pred_state_bindI [where Q = "\<lambda>r. \<forall>n. r = Inr n \<longrightarrow> n = af_latest facts"])
    show "pred_state (\<lambda>r. \<forall>n. r = Inr n \<longrightarrow> n = af_latest facts) (a1_getBlockNumber ctx)"
      using s by (simp add: serves_def)
  next
    fix lb :: "thrown + int"
    assume lb: "\<forall>n. lb = Inr n \<longrightarrow> n = af_latest facts"
    show "pred_state ?R (case lb of
       Inl e \<Rightarrow> ret (Inl (upstream503 ''getBlockNumber failed upstream''))
     | Inr latestBlock \<Rightarrow> do {
         old \<leftarrow> code_before_window ctx policy q latestBlock;
         if old then ret (Inr (FetchedData (TooOldData (hd fs) (af_owner facts) None)))
         else do {
           outcome \<leftarrow> scanRoleHolders (scan_io.truncate ctx) (a1_scan_args policy fs q latestBlock);
           ret (case outcome of
              Inl e \<Rightarrow> Inl (upstream503 ''role-events scan failed upstream'')
            | Inr (TooOld partialH) \<Rightarrow>
                Inr (FetchedData (TooOldData (hd fs) (af_owner facts) (Some partialH)))
            | Inr (Resolved holders block deploymentFactory) \<Rightarrow>
                Inr (FetchedData (ResolvedData
                  (case deploymentFactory of Some f \<Rightarrow> f | None \<Rightarrow> hd fs) (af_owner facts) holders)))
         }
       })"
      using lb stage2 hd
      by (auto intro!: pred_state_bind_any simp: fetched_sound_def split: sum.splits)
  qed
qed

lemma fetchA1OnChain_sound:
  assumes s: "serves ctx policy q facts" and d: "deployed_first policy chainId q facts"
  shows "pred_state (case_sum (\<lambda>_. True) (fetched_sound q chainId policy facts))
    (fetchA1OnChain ctx chainId q policy)"
    (is "pred_state ?R _")
proof -
  let ?checks = "factory_checks policy chainId"
  let ?S = "\<lambda>r. \<forall>ow slots. r = Inr (ow, slots) \<longrightarrow>
        (\<forall>a. ow = SlotSuccess a \<longrightarrow> a = af_owner facts) \<and>
        (\<forall>i b. i < length ?checks \<longrightarrow> slots i = SlotSuccess b \<longrightarrow> b = af_provenance facts (?checks ! i))"
  have op: "pred_state ?R (fetchRetargetterOperation ctx (af_owner facts) q)"
    if "isAcceptedRetargetter (af_owner facts) chainId policy"
    unfolding fetchRetargetterOperation_def
    by (rule pred_state_bindI [where Q = "\<lambda>r. \<forall>x. r = Inr x \<longrightarrow> x = af_operation facts"])
      (use s that in \<open>auto simp: serves_def fetched_sound_def split: sum.splits\<close>)
  have hits: "pred_state ?R (case classify_slots slots 0 ?checks ([], []) of
              (factoryHits, failedFactories) \<Rightarrow>
                if factoryHits = [] then
                  (if failedFactories \<noteq> [] then ret (Inl (upstream503 ''accepted-factory read failed upstream''))
                   else ret (Inr (FetchedData NoFactory)))
                else fetch_roles ctx policy (map snd factoryHits) (af_owner facts) q)"
    if "\<forall>i b. i < length ?checks \<longrightarrow> slots i = SlotSuccess b \<longrightarrow> b = af_provenance facts (?checks ! i)" for slots
  proof -
    have "\<forall>g \<in> snd ` set (fst (classify_slots slots 0 ?checks ([], []))).
        \<exists>p. af_provenance facts (g, p) \<and> (g, p) \<in> set ?checks"
      by (rule classify_slots_sound) (use that in auto)
    then show ?thesis
      by (auto intro!: fetch_roles_sound [OF s d] simp: fetched_sound_def split: prod.splits)
  qed
  show ?thesis
    unfolding fetchA1OnChain_def
  proof (rule pred_state_bindI [where Q = ?S])
    show "pred_state ?S (a1_stage1 ctx q ?checks)" using s by (simp add: serves_def)
  next
    fix r assume "?S r"
    then show "pred_state ?R (case r of
         Inl e \<Rightarrow> ret (Inl (upstream503 ''request-contract read failed upstream''))
       | Inr (SlotFailure e, slots) \<Rightarrow>
           if isDeterministicContractCallFailure e [''owner''] then ret (Inr (FetchedData NoFactory))
           else ret (Inl (upstream503 ''request-contract read failed upstream''))
       | Inr (SlotSuccess ow, slots) \<Rightarrow>
           if isAcceptedRetargetter ow chainId policy
           then fetchRetargetterOperation ctx ow q
           else
             (case classify_slots slots 0 ?checks ([], []) of
                (factoryHits, failedFactories) \<Rightarrow>
                  if factoryHits = [] then
                    (if failedFactories \<noteq> [] then ret (Inl (upstream503 ''accepted-factory read failed upstream''))
                     else ret (Inr (FetchedData NoFactory)))
                  else fetch_roles ctx policy (map snd factoryHits) ow q))"
      using op hits
      by (auto simp: fetched_sound_def split: sum.split slot.split)
  qed
qed


lemma approved_trusted:
  assumes "isTrustedRequestContract q chainId policy"
    and "rollupA1 (trustedRequestContractChecks (checkDeadline (now_seconds n) deadline m)) = Inr cs"
    and "m = ap_maxDeadlineSecondsAhead policy"
  shows "a1_approved policy chainId q facts n deadline cs"
  using assms by (auto simp: rollupA1_Inr trustedRequestContractChecks_def a1_approved_def)

lemma approved_evaluate:
  assumes "data_sound q facts d"
    and "rollupA1 (evaluateA1 d chainId policy
      (checkDeadline (now_seconds n) deadline (ap_maxDeadlineSecondsAhead policy))) = Inr cs"
  shows "a1_approved policy chainId q facts n deadline cs"
proof -
  let ?dc = "checkDeadline (now_seconds n) deadline (ap_maxDeadlineSecondsAhead policy)"
  from assms(2) have p: "all_passed (evaluateA1 d chainId policy ?dc)" and cs: "cs = evaluateA1 d chainId policy ?dc"
    by (auto simp: rollupA1_Inr)
  from evaluateA1_sound [OF assms(1) p] show ?thesis
    unfolding a1_approved_def cs checkDeadline_simps by blast
qed

lemma approved_retargetter:
  assumes "fetched_sound q chainId policy facts (FetchedRetargetter r)"
    and "rollupA1 (evaluateRetargetter r q (now_seconds n) policy
      (checkDeadline (now_seconds n) deadline (ap_maxDeadlineSecondsAhead policy))) = Inr cs"
  shows "a1_approved policy chainId q facts n deadline cs"
proof -
  from assms(2) have "all_passed (evaluateRetargetter r q (now_seconds n) policy
      (checkDeadline (now_seconds n) deadline (ap_maxDeadlineSecondsAhead policy)))"
    by (simp add: rollupA1_Inr)
  from evaluateRetargetter_sound [OF this] assms(1) show ?thesis
    by (auto simp: a1_approved_def fetched_sound_def prod_eq_iff)
qed

lemma a1_approval:
  assumes "serves ctx (ad_policy deps) q facts" and "deployed_first (ad_policy deps) chainId q facts"
    and "ad_cache deps = None"
  shows "pred_state (\<lambda>r. \<forall>cs. r = Inr cs \<longrightarrow>
      a1_approved (ad_policy deps) chainId q facts (a1_now ctx) deadline cs)
    (runA1 ctx deps chainId q deadline)"
    (is "pred_state ?P _")
proof -
  let ?dc = "checkDeadline (now_seconds (a1_now ctx)) deadline (ap_maxDeadlineSecondsAhead (ad_policy deps))"
  have "pred_state ?P (case x of
        FetchedRetargetter r \<Rightarrow>
          ret (rollupA1 (evaluateRetargetter r q (now_seconds (a1_now ctx)) (ad_policy deps) ?dc))
      | FetchedData data \<Rightarrow> do {
          _ \<leftarrow> a1_cache_store deps key data;
          ret (rollupA1 (evaluateA1 data chainId (ad_policy deps) ?dc))
        })"
    if "fetched_sound q chainId (ad_policy deps) facts x" for x key
    using that
    by (cases x)
      (auto simp: fetched_sound_def intro!: pred_state_bind_any intro: approved_evaluate
        approved_retargetter [unfolded fetched_sound_def])
  then have "pred_state ?P (bindE (fetchA1OnChain ctx chainId q (ad_policy deps)) (\<lambda>x. case x of
        FetchedRetargetter r \<Rightarrow>
          ret (rollupA1 (evaluateRetargetter r q (now_seconds (a1_now ctx)) (ad_policy deps) ?dc))
      | FetchedData data \<Rightarrow> do {
          _ \<leftarrow> a1_cache_store deps key data;
          ret (rollupA1 (evaluateA1 data chainId (ad_policy deps) ?dc))
        }))" for key
    by (rule pred_state_bindE [where Q = "fetched_sound q chainId (ad_policy deps) facts", rotated])
      (use fetchA1OnChain_sound [OF assms(1,2)] in \<open>auto elim!: pred_state_mono split: sum.splits\<close>)
  moreover have "a1_cache_lookup deps chainId k = ret None" for k
    by (simp add: a1_cache_lookup_def assms(3))
  ultimately show ?thesis
    unfolding runA1_def Let_def by (auto dest: approved_trusted)
qed

text \<open>
  C3. What A.1 vouches for. When the node answers truthfully (it may fail at any call), an
  approval means: the deadline is in bounds, and either the operator trusts the contract, or
  its owner is an accepted retargetter attached to it with enough time left, or an accepted
  factory really made it and its real owner is accepted; and then, under the fail-closed
  disposition or whenever the reported entries contain no skipped one, every current holder
  of each role is accepted and each role has a holder.
\<close>

theorem a1_approval_sound:
  assumes "serves ctx (ad_policy deps) q facts" and "deployed_first (ad_policy deps) chainId q facts"
    and "ad_cache deps = None"
  shows "pred_state (\<lambda>r. \<forall>cs. r = Inr cs \<longrightarrow>
      a1_approved (ad_policy deps) chainId q facts (a1_now ctx) deadline cs)
    (runA1 ctx deps chainId q deadline)"
  by (rule a1_approval [OF assms])


text \<open>A client that serves given facts, and a small deployment for it.\<close>

definition ctx_of :: "a1_facts \<Rightarrow> int \<Rightarrow> 'w a1_ctx" where
  "ctx_of facts nowMs =
     \<lparr>si_getLogs = \<lambda>addrs f t. ret (Inr (visible (af_history facts) addrs f t)),
      si_now = ret 0, si_aborted = ret False,
      a1_stage1 = \<lambda>q checks. ret (Inr (SlotSuccess (af_owner facts), \<lambda>i. SlotSuccess (af_provenance facts (checks ! i)))),
      a1_operation = \<lambda>a. ret (Inr (af_operation facts)),
      a1_getBlockNumber = ret (Inr (af_latest facts)),
      a1_getCode = \<lambda>a b. ret (Inr False),
      a1_now = nowMs\<rparr>"

lemma serves_ctx_of:
  "history (a1_scan_args policy [] q (af_latest facts)) (af_history facts) \<Longrightarrow>
   serves (ctx_of facts n) policy q facts"
  by (simp add: serves_def ctx_of_def honest_node_def scan_io.truncate_def)

definition ex_facts :: a1_facts where
  "ex_facts =
     \<lparr>af_owner = ''0x0e'', af_provenance = (\<lambda>c. c = (''0xf'', IsRequest)),
      af_operation = (ZERO_ADDRESS, 0), af_latest = 10,
      af_history =
       [\<lparr>log_address = ''0xF'', log_event = RequestCreated (Some ''0xA''), log_blockNumber = 5, log_logIndex = 0\<rparr>,
        \<lparr>log_address = ''0xa'', log_event = RolesUpdated (Some ''0xB'') (Some 1), log_blockNumber = 5, log_logIndex = 1\<rparr>,
        \<lparr>log_address = ''0xa'', log_event = RolesUpdated (Some ''0xc'') (Some 2), log_blockNumber = 8, log_logIndex = 0\<rparr>]\<rparr>"

definition ex_policy :: a1_policy where
  "ex_policy =
     \<lparr>ap_maxDeadlineSecondsAhead = 600, ap_trustedRequestContracts = None, ap_acceptedRetargetters = None,
      ap_minRetargetterRepaymentBufferSeconds = None, ap_acceptedRequestFactories = [(1, [''0xf''])],
      ap_acceptedFlashLoanRequestFactories = None, ap_acceptedFlashLoanRequestExecutors = None,
      ap_acceptedOwners = [(1, [''0x0E''])], ap_acceptedPullers = [(1, [''0xb''])],
      ap_acceptedConsumers = [(1, [''0xc''])], ap_eventScanBlockRange = 3, ap_eventScanMaxLookbackBlocks = 100,
      ap_eventScanDeadlineMs = None, ap_onLookbackExhausted = Some Fail\<rparr>"

definition ex_deps :: "unit a1_deps" where
  "ex_deps = \<lparr>ad_policy = ex_policy, ad_cache = None, ad_cacheTtlMs = None\<rparr>"

lemma ex_deployed_first: "deployed_first ex_policy 1 ''0xa'' ex_facts"
proof -
  have "is_deployment_log (a1_scan_args ex_policy fs ''0xa'' 10) l \<longrightarrow> l = hd (af_history ex_facts)"
    if "l \<in> set (af_history ex_facts)" for fs l
    using that by (auto simp: ex_facts_def is_deployment_log_def)
  then show ?thesis
    by (auto simp: deployed_first_def deployed_before_roles_def ex_facts_def)
qed

theorem a1_approval_sound_witness:
  "case result_of (runA1 (ctx_of ex_facts 5000) ex_deps 1 ''0xa'' 100) () of
     Inl e \<Rightarrow> False
   | Inr cs \<Rightarrow> a1_approved ex_policy 1 ''0xa'' ex_facts 5000 100 cs \<and> length cs = 5"
proof -
  have "history (a1_scan_args ex_policy [] ''0xa'' (af_latest ex_facts)) (af_history ex_facts)"
    by code_simp
  note s = serves_ctx_of [OF this, of 5000]
  have "case result_of (runA1 (ctx_of ex_facts 5000) ex_deps 1 ''0xa'' 100) () of
     Inl e \<Rightarrow> False | Inr cs \<Rightarrow> length cs = 5"
    by code_simp
  then show ?thesis
    using pred_stateD' [OF a1_approval_sound [of "ctx_of ex_facts 5000" ex_deps "''0xa''" ex_facts 1 100], of "()"]
      s ex_deployed_first
    by (auto simp: ex_deps_def result_of_def ctx_of_def split: sum.splits)
qed


text \<open>
  A trusted request contract is decided without touching the world: the run is the
  constant answer computed from the deadline alone, whatever the client, the cache and
  the rest of the policy are.
\<close>

theorem a1_trusted_no_io:
  assumes "isTrustedRequestContract q chainId (ad_policy deps)"
  shows "runA1 ctx deps chainId q deadline =
    ret (if deadline \<le> now_seconds (a1_now ctx) + ap_maxDeadlineSecondsAhead (ad_policy deps)
         then Inr [passed TRUSTED_D, skipped FACTORY_D, skipped OWNER_D, skipped PULLER_D, skipped CONSUMER_D,
                passed DEADLINE_CHECK_DESCRIPTION]
         else Inl (ValidationFailedError ''Appendix A.1 checks failed''
                (trustedRequestContractChecks (checkDeadline (now_seconds (a1_now ctx)) deadline
                   (ap_maxDeadlineSecondsAhead (ad_policy deps))))))"
  using assms
  by (simp add: runA1_def rollupA1_def roll_result_rollUp trustedRequestContractChecks_def)
    (simp add: checkDeadline_def Let_def)

definition ex_trusting :: "unit a1_deps" where
  "ex_trusting = ex_deps\<lparr>ad_policy := ex_policy\<lparr>ap_trustedRequestContracts := Some [(1, [''0xABC''])]\<rparr>\<rparr>"

theorem a1_trusted_no_io_witness:
  "runA1 (ctx_of ex_facts 5000) ex_trusting 1 ''0xabc'' 100 =
     ret (Inr [passed TRUSTED_D, skipped FACTORY_D, skipped OWNER_D, skipped PULLER_D, skipped CONSUMER_D,
            passed DEADLINE_CHECK_DESCRIPTION])"
proof -
  have "isTrustedRequestContract ''0xabc'' 1 (ad_policy ex_trusting)" by code_simp
  from a1_trusted_no_io [OF this, of "ctx_of ex_facts 5000" 100] show ?thesis
    by (simp add: ctx_of_def now_seconds_def ex_trusting_def ex_deps_def ex_policy_def)
qed


section \<open>Replaying cached data against the live policy\<close>

text \<open>A computation that leaves an invariant of the world alone.\<close>

definition keeps :: "('w \<Rightarrow> bool) \<Rightarrow> ('w, 'a) state \<Rightarrow> bool" where
  "keeps I m \<longleftrightarrow> hoare I m (\<lambda>_. I)"

named_theorems keeps_rules \<open>what leaves an invariant alone\<close>

lemma keeps_ret [keeps_rules]: "keeps I (ret a)"
  by (simp add: keeps_def hoare_ret)

lemma keeps_bind [keeps_rules]: "keeps I m \<Longrightarrow> (\<And>a. keeps I (f a)) \<Longrightarrow> keeps I (State_Monad.bind m f)"
  unfolding keeps_def by (rule hoare_bind)

lemma keeps_bindE [keeps_rules]: "keeps I m \<Longrightarrow> (\<And>a. keeps I (f a)) \<Longrightarrow> keeps I (bindE m f)"
  unfolding bindE_def by (intro keeps_bind) (auto intro: keeps_ret split: sum.splits)

lemma keeps_pred: "keeps I m \<Longrightarrow> pred_state Q m \<Longrightarrow> hoare I m (\<lambda>a w. I w \<and> Q a)"
  by (auto simp: keeps_def hoare_def pred_state_iff split: prod.splits) (metis fst_conv)

definition scan_keeps :: "('w \<Rightarrow> bool) \<Rightarrow> 'w scan_io \<Rightarrow> bool" where
  "scan_keeps I io \<longleftrightarrow> (\<forall>addrs f t. keeps I (si_getLogs io addrs f t)) \<and> keeps I (si_now io) \<and> keeps I (si_aborted io)"

definition client_keeps :: "('w \<Rightarrow> bool) \<Rightarrow> 'w a1_ctx \<Rightarrow> bool" where
  "client_keeps I ctx \<longleftrightarrow> scan_keeps I (scan_io.truncate ctx) \<and> (\<forall>q cs. keeps I (a1_stage1 ctx q cs)) \<and>
     (\<forall>a. keeps I (a1_operation ctx a)) \<and> keeps I (a1_getBlockNumber ctx) \<and> (\<forall>a b. keeps I (a1_getCode ctx a b))"

lemma scan_loop_keeps:
  assumes "scan_keeps I io"
  shows "keeps I (scan_loop io a st t fc acc)"
proof (induction "nat (t + 1 - earliestAllowed a)" arbitrary: t fc acc rule: less_induct)
  case less
  have ov: "keeps I (over_budget io a st fc)"
    using assms by (auto simp: over_budget_def scan_keeps_def intro!: keeps_rules split: option.split)
  have ch: "keeps I (get_chunk io a f u)" for f u
    using assms by (auto simp: get_chunk_def scan_keeps_def intro!: keeps_rules)
  have rec: "keeps I (scan_loop io a st (chunk_from a t - 1) False acc')"
    if "0 < sa_blockRange a" "earliestAllowed a \<le> t" for acc'
    by (rule less.hyps) (use chunk_from_bounds [OF that] that in auto)
  show ?case
    using assms
    by (subst scan_loop.simps)
      (auto simp: scan_keeps_def Let_def intro!: keeps_rules ov ch rec split: option.split)
qed

lemma scanRoleHolders_keeps: "scan_keeps I io \<Longrightarrow> keeps I (scanRoleHolders io a)"
  unfolding scanRoleHolders_def
  by (auto simp: scan_keeps_def intro!: keeps_rules scan_loop_keeps split: option.split)

lemma fetchA1OnChain_keeps: "client_keeps I ctx \<Longrightarrow> keeps I (fetchA1OnChain ctx c q p)"
  unfolding fetchA1OnChain_def fetchRetargetterOperation_def fetch_roles_def code_before_window_def
  by (auto simp: client_keeps_def intro!: keeps_rules scanRoleHolders_keeps
      split: sum.split slot.split prod.split)

locale a1_cache = cache_contract get set holds
  for get :: "string \<Rightarrow> ('w, thrown + a1_data option) state"
    and set :: "string \<Rightarrow> a1_data \<Rightarrow> jsnum option \<Rightarrow> ('w, thrown + unit) state"
    and holds :: "(string \<Rightarrow> a1_data \<Rightarrow> bool) \<Rightarrow> 'w \<Rightarrow> bool"
begin

lemma cache_lookup_sound:
  assumes "ad_cache deps = Some \<lparr>ac_get = get, ac_set = set\<rparr>"
  shows "hoare (holds P) (a1_cache_lookup deps chainId key) (\<lambda>r w. holds P w \<and> (\<forall>d. r = Some d \<longrightarrow> P key d))"
  unfolding a1_cache_lookup_def assms option.case async_cache.simps
  by (rule hoare_bind [OF get_or_miss]) (auto intro!: hoare_ret split: option.splits)

lemma cache_store_keeps:
  assumes "ad_cache deps = Some \<lparr>ac_get = get, ac_set = set\<rparr>" and "P key d"
  shows "hoare (holds P) (a1_cache_store deps key d) (\<lambda>_. holds P)"
  unfolding a1_cache_store_def assms(1) option.case async_cache.simps
  by (auto intro!: hoare_ret hoare_bind [OF set_sound [where P = P and k = key and v = d, OF assms(2)]])

lemma runA1_cached:
  assumes c: "ad_cache deps = Some \<lparr>ac_get = get, ac_set = set\<rparr>"
    and P: "\<And>d. P (a1_cache_key chainId q) d \<longleftrightarrow> data_sound q facts d"
    and fetch: "hoare (holds P) (fetchA1OnChain ctx chainId q (ad_policy deps))
      (\<lambda>r w. holds P w \<and> (case r of Inl e \<Rightarrow> True | Inr x \<Rightarrow> fetched_sound q chainId (ad_policy deps) facts x))"
  shows "hoare (holds P) (runA1 ctx deps chainId q deadline)
    (\<lambda>r w. holds P w \<and> (\<forall>cs. r = Inr cs \<longrightarrow> a1_approved (ad_policy deps) chainId q facts (a1_now ctx) deadline cs))"
    (is "hoare _ _ ?Q")
proof -
  let ?key = "a1_cache_key chainId q"
  let ?dc = "checkDeadline (now_seconds (a1_now ctx)) deadline (ap_maxDeadlineSecondsAhead (ad_policy deps))"
  let ?eval = "\<lambda>d. ret (rollupA1 (evaluateA1 d chainId (ad_policy deps) ?dc))"
  let ?after = "\<lambda>x. case x of
        FetchedRetargetter r \<Rightarrow>
          ret (rollupA1 (evaluateRetargetter r q (now_seconds (a1_now ctx)) (ad_policy deps) ?dc))
      | FetchedData d \<Rightarrow> do { _ \<leftarrow> a1_cache_store deps ?key d; ?eval d }"
  have ev: "hoare (holds P) (?eval d) ?Q" if "data_sound q facts d" for d
    by (rule hoare_ret) (use that in \<open>auto intro: approved_evaluate\<close>)
  have after: "hoare (\<lambda>w. holds P w \<and> fetched_sound q chainId (ad_policy deps) facts x) (?after x) ?Q" for x
  proof (cases "fetched_sound q chainId (ad_policy deps) facts x")
    case s: True
    show ?thesis
    proof (cases x)
      case (FetchedData d)
      with s have d: "data_sound q facts d" by (simp add: fetched_sound_def)
      from cache_store_keeps [where P = P and key = ?key and d = d, OF c] P d
      have "hoare (holds P) (a1_cache_store deps ?key d) (\<lambda>_. holds P)" by blast
      from hoare_bind [OF this ev [OF d]] show ?thesis
        by (auto simp: FetchedData intro: hoare_weaken)
    next
      case (FetchedRetargetter r)
      with s show ?thesis by (auto intro!: hoare_ret intro: approved_retargetter)
    qed
  qed (simp add: hoare_def)
  have miss: "hoare (holds P) (bindE (fetchA1OnChain ctx chainId q (ad_policy deps)) ?after) ?Q"
    by (rule hoare_bindE [OF hoare_weaken [OF fetch] after]) (auto split: sum.splits)
  have look: "hoare (holds P) (do {
        hit \<leftarrow> a1_cache_lookup deps chainId ?key;
        case hit of Some d \<Rightarrow> ?eval d | None \<Rightarrow> bindE (fetchA1OnChain ctx chainId q (ad_policy deps)) ?after }) ?Q"
  proof (rule hoare_bind [OF cache_lookup_sound [where P = P and key = ?key, OF c]])
    fix hit
    show "hoare (\<lambda>w. holds P w \<and> (\<forall>d. hit = Some d \<longrightarrow> P ?key d))
      (case hit of Some d \<Rightarrow> ?eval d | None \<Rightarrow> bindE (fetchA1OnChain ctx chainId q (ad_policy deps)) ?after) ?Q"
    proof (cases hit)
      case None
      with miss show ?thesis by (auto intro: hoare_weaken)
    next
      case (Some d)
      show ?thesis
      proof (cases "data_sound q facts d")
        case True
        show ?thesis
          unfolding Some option.case by (rule hoare_weaken [OF ev [OF True]]) auto
      qed (simp add: hoare_def Some P)
    qed
  qed
  show ?thesis
    using look approved_trusted [where policy = "ad_policy deps" and q = q and chainId = chainId and facts = facts]
    by (auto simp: runA1_def Let_def intro!: hoare_ret)
qed

end


text \<open>The in-memory cache with the A.1 schema is such a cache.\<close>

interpretation a1_mem: a1_cache
  "ac_get (cache_of (mem_impl zA1OnChainData))" "ac_set (cache_of (mem_impl zA1OnChainData))" mem_holds
  by unfold_locales (rule mem.get_sound, rule mem.set_sound)

definition cached_deps :: "a1_policy \<Rightarrow> jsnum option \<Rightarrow> a1_data mem_world a1_deps" where
  "cached_deps policy ttl =
     \<lparr>ad_policy = policy, ad_cache = Some (cache_of (mem_impl zA1OnChainData)), ad_cacheTtlMs = ttl\<rparr>"

lemma cached_deps_simps [simp]:
  "ad_policy (cached_deps policy ttl) = policy"
  "ad_cache (cached_deps policy ttl) = Some (cache_of (mem_impl zA1OnChainData))"
  by (simp_all add: cached_deps_def)

text \<open>
  C23. The cache does not weaken A.1. Over a world with the in-memory cache, in which every
  entry stored for this contract is true of the chain (whatever else is in there, under
  whichever policy it was fetched), an approval means exactly what it means without a cache,
  judged by the policy of now; and the entries stay true afterwards, so the next run starts
  from the same premise.
\<close>

theorem a1_cached_approval_sound:
  assumes "serves ctx policy q facts" and "deployed_first policy chainId q facts"
    and "\<And>P. client_keeps (mem_holds P) ctx"
    and "mem_holds (\<lambda>k d. k = a1_cache_key chainId q \<longrightarrow> data_sound q facts d) w"
    and "run_state (runA1 ctx (cached_deps policy ttl) chainId q deadline) w = (r, w')"
  shows "mem_holds (\<lambda>k d. k = a1_cache_key chainId q \<longrightarrow> data_sound q facts d) w' \<and>
    (\<forall>cs. r = Inr cs \<longrightarrow> a1_approved policy chainId q facts (a1_now ctx) deadline cs)"
proof -
  let ?P = "\<lambda>k d. k = a1_cache_key chainId q \<longrightarrow> data_sound q facts d"
  have fetch: "hoare (mem_holds ?P) (fetchA1OnChain ctx chainId q policy)
      (\<lambda>r w. mem_holds ?P w \<and> (case r of Inl e \<Rightarrow> True | Inr x \<Rightarrow> fetched_sound q chainId policy facts x))"
    by (rule keeps_pred [OF fetchA1OnChain_keeps [OF assms(3)] fetchA1OnChain_sound [OF assms(1,2)]])
  have "hoare (mem_holds ?P) (runA1 ctx (cached_deps policy ttl) chainId q deadline)
      (\<lambda>r w. mem_holds ?P w \<and> (\<forall>cs. r = Inr cs \<longrightarrow> a1_approved policy chainId q facts (a1_now ctx) deadline cs))"
    by (rule a1_mem.runA1_cached [where deps = "cached_deps policy ttl", unfolded cached_deps_simps])
      (use fetch in \<open>simp_all add: cache_of_def\<close>)
  from hoareD [OF this assms(4,5)] show ?thesis .
qed

definition ex_world :: "a1_data mem_world" where
  "ex_world = \<lparr>mw_cache = \<lparr>mc_defaultTtlMs = None, mc_maxEntries = 4, mc_map = []\<rparr>, mw_clock = int, mw_ticks = 0\<rparr>"

theorem a1_cached_approval_sound_witness:
  "case run_state (runA1 (ctx_of ex_facts 5000) (cached_deps ex_policy (Some (JFin 100))) 1 ''0xa'' 100) ex_world of
     (r, w) \<Rightarrow> (case run_state (runA1 (ctx_of ex_facts 5000) (cached_deps ex_policy (Some (JFin 100))) 1 ''0xa'' 200) w of
       (r', w') \<Rightarrow> isr r' \<and> (\<forall>cs. r' = Inr cs \<longrightarrow> a1_approved ex_policy 1 ''0xa'' ex_facts 5000 200 cs))"
proof -
  let ?run = "\<lambda>d. runA1 (ctx_of ex_facts 5000) (cached_deps ex_policy (Some (JFin 100))) 1 ''0xa'' d"
  let ?P = "\<lambda>k d. k = a1_cache_key 1 ''0xa'' \<longrightarrow> data_sound ''0xa'' ex_facts d"
  have k: "client_keeps (mem_holds P) (ctx_of ex_facts 5000)" for P
    by (simp add: client_keeps_def scan_keeps_def scan_io.truncate_def ctx_of_def keeps_ret)
  have "history (a1_scan_args ex_policy [] ''0xa'' (af_latest ex_facts)) (af_history ex_facts)"
    by code_simp
  note sound = a1_cached_approval_sound [OF serves_ctx_of [OF this] ex_deployed_first k]
  have h: "mem_holds ?P ex_world" by (simp add: mem_holds_def ex_world_def mem_wf_def)
  obtain r w where 1: "run_state (?run 100) ex_world = (r, w)" by fastforce
  obtain r' w' where 2: "run_state (?run 200) w = (r', w')" by fastforce
  from sound [OF h 1] have "mem_holds ?P w" by blast
  from sound [OF this 2] have "\<forall>cs. r' = Inr cs \<longrightarrow> a1_approved ex_policy 1 ''0xa'' ex_facts 5000 200 cs"
    by (simp add: ctx_of_def)
  moreover have "isr (fst (run_state (?run 200) (snd (run_state (?run 100) ex_world))))"
    by code_simp
  ultimately show ?thesis by (simp add: 1 2)
qed

end
