(* ===== verification/Fund_Binding.thy ===== *)
theory Fund_Binding
  imports Helpers Schemas
begin

text \<open>
  The A.2 check runner of \<open>guardian-defaults/src/checks/intent-fund-binding.ts\<close>: the
  off-chain short-circuit, the single multicall with the classification of its failures, the
  six entries, and the precedence of 422 over 409.
\<close>

section \<open>Policy, client, entries\<close>

record a2_policy =
  fp_maxDeadlineSecondsAhead :: int
  fp_acceptedFunds :: chain_sets
  fp_acceptedOwners :: chain_sets

record asset_ref =
  as_asset :: string
  as_isPositionManager :: bool

record intent_properties =
  ip_depositAsset :: asset_ref
  ip_targetAsset :: asset_ref

text \<open>
  The multicall of \<open>fund.owner()\<close> and \<open>facility.getIntent(id)\<close> with \<open>allowFailure: false\<close>: the
  owner, the intent's properties and its current fund, or what viem throws.
\<close>

record 'w a2_ctx =
  a2_stage1 :: "string \<Rightarrow> string \<Rightarrow> int \<Rightarrow> ('w, thrown + string \<times> intent_properties \<times> string) state"
  a2_now :: int

definition FUND_LIST_D :: string where
  "FUND_LIST_D = ''fund contract is on the accepted-funds list''"
definition FUND_OWNER_D :: string where
  "FUND_OWNER_D = ''fund contract owner is on the accepted-owners list''"
definition FUND_PM_D :: string where
  "FUND_PM_D = ''proposed position manager matches the intent's position-manager asset''"
definition NO_FUND_D :: string where
  "NO_FUND_D = ''intent has no currently bound fund''"
definition DEPOSITOR_D :: string where
  "DEPOSITOR_D = ''fund holds DEPOSITOR_ROLE for the facility''"

lemmas a2_descriptions = FUND_LIST_D_def FUND_OWNER_D_def FUND_PM_D_def NO_FUND_D_def DEPOSITOR_D_def
  DEADLINE_CHECK_DESCRIPTION_def

definition zeroAddress :: string where
  "zeroAddress = ''0x0000000000000000000000000000000000000000''"

text \<open>
  \<open>BigInt(intent.id)\<close>: a body that went through the schema has a canonical decimal there, so
  the conversion does not throw; the other case is arbitrary.
\<close>

definition intent_number :: "intent_ref \<Rightarrow> int" where
  "intent_number i = (case BigInt (ir_id i) of Some n \<Rightarrow> n | None \<Rightarrow> 0)"

fun join_assets :: "string list \<Rightarrow> string" where
  "join_assets [] = []"
| "join_assets [x] = x"
| "join_assets (x # xs) = x @ '', '' @ join_assets xs"

definition pm_assets :: "intent_properties \<Rightarrow> string list" where
  "pm_assets props =
     map as_asset (filter as_isPositionManager [ip_depositAsset props, ip_targetAsset props])"

definition pm_check :: "intent_fund_binding_body \<Rightarrow> intent_properties \<Rightarrow> check_entry" where
  "pm_check body props =
     (if list_ex (\<lambda>a. toLowerCase a = toLowerCase (fb_positionManager body)) (pm_assets props)
      then passed FUND_PM_D
      else failed FUND_PM_D
        (if pm_assets props = []
         then ''intent '' @ ir_id (fb_intent body) @ '' declares no position-manager asset''
         else ''intent '' @ ir_id (fb_intent body) @ '' declares position-manager asset(s) '' @
              join_assets (pm_assets props) @ '' but the request proposes '' @ fb_positionManager body))"

definition no_fund_check :: "intent_fund_binding_body \<Rightarrow> string \<Rightarrow> check_entry" where
  "no_fund_check body currentFund =
     (if currentFund = zeroAddress then passed NO_FUND_D
      else failed NO_FUND_D
        (''intent '' @ ir_id (fb_intent body) @ '' is currently bound to '' @ currentFund @
         ''; unbind (setFund(0,...)) before rebinding to a new fund''))"

definition owner_read_failure :: "intent_fund_binding_body \<Rightarrow> thrown \<Rightarrow> string" where
  "owner_read_failure body e =
     (if execution_function e = Some ''owner''
      then ''fund contract '' @ fb_fundContract body @ '' did not answer owner() '' @
           ''(EOA or non-Ownable contract); owner could not be read deterministically''
      else ''facility '' @ fb_facility body @ '' did not answer getIntent('' @ ir_id (fb_intent body) @ '') '' @
           ''(EOA or non-facility contract); fund owner could not be read deterministically'')"

definition rollupA2 :: "check_entry list \<Rightarrow> guardian_error + check_entry list" where
  "rollupA2 all = roll_result (rollUp all ''Appendix A.2 checks failed'')"

text \<open>What the runner answers once the reads are in.\<close>

definition evaluateA2 ::
    "intent_fund_binding_body \<Rightarrow> a2_policy \<Rightarrow> check_entry \<Rightarrow> check_entry \<Rightarrow>
     string \<times> intent_properties \<times> string \<Rightarrow> guardian_error + check_entry list" where
  "evaluateA2 body policy deadlineCheck fundOnList reads =
     (case reads of (fundOwner, props, currentFund) \<Rightarrow>
        let ownerCheck = checkMembership FUND_OWNER_D fundOwner
              (chain_set (fp_acceptedOwners policy) (fb_chainId body)) True None;
            pmCheck = pm_check body props;
            noCurrentFundCheck = no_fund_check body currentFund;
            depositorRoleCheck = skipped DEPOSITOR_D;
            all = [deadlineCheck, fundOnList, ownerCheck, pmCheck, noCurrentFundCheck, depositorRoleCheck];
            class422 = [deadlineCheck, fundOnList, ownerCheck, pmCheck, depositorRoleCheck]
        in if list_ex (\<lambda>c. \<not> ce_passed c) class422 then rollupA2 all
           else if \<not> ce_passed noCurrentFundCheck
           then Inl (StateConflictError ''Intent already has a fund bound (Appendix A.2)'' all)
           else Inr all)"

definition runA2 ::
    "a2_policy \<Rightarrow> 'w a2_ctx \<Rightarrow> intent_fund_binding_body \<Rightarrow> ('w, guardian_error + check_entry list) state" where
  "runA2 policy ctx body =
     (let nowUnix = a2_now ctx div 1000;
          deadlineCheck = checkDeadline nowUnix (fb_deadline body) (fp_maxDeadlineSecondsAhead policy);
          fundOnList = checkMembership FUND_LIST_D (fb_fundContract body)
            (chain_set (fp_acceptedFunds policy) (fb_chainId body)) True None
      in if \<not> ce_passed fundOnList
         then ret (rollupA2 [deadlineCheck, fundOnList, skipped FUND_OWNER_D, skipped FUND_PM_D,
                skipped NO_FUND_D, skipped DEPOSITOR_D])
         else do {
           stage1 \<leftarrow> a2_stage1 ctx (fb_fundContract body) (fb_facility body) (intent_number (fb_intent body));
           ret (case stage1 of
              Inl e \<Rightarrow>
                if isDeterministicContractCallFailure e [''owner'', ''getIntent'']
                then rollupA2 [deadlineCheck, fundOnList, failed FUND_OWNER_D (owner_read_failure body e),
                       skipped FUND_PM_D, skipped NO_FUND_D, skipped DEPOSITOR_D]
                else Inl (upstream503 ''fund-binding read failed upstream'')
            | Inr reads \<Rightarrow> evaluateA2 body policy deadlineCheck fundOnList reads)
         })"


section \<open>Lemmas\<close>

lemma wf_pm_check [wf_rules, simp]: "wf_entry (pm_check b p)"
  by (simp add: pm_check_def a2_descriptions)

lemma wf_no_fund_check [wf_rules, simp]: "wf_entry (no_fund_check b f)"
  by (simp add: no_fund_check_def a2_descriptions)

lemma evaluateA2_contract:
  "wf_entry dc \<Longrightarrow> wf_entry fl \<Longrightarrow> runner_result True (evaluateA2 body policy dc fl reads)"
  by (cases reads)
    (auto simp: evaluateA2_def rollupA2_def Let_def a2_descriptions intro!: io_rules)

lemma runA2_contract: "pred_state (runner_result True) (runA2 policy ctx body)"
  unfolding runA2_def Let_def
  by (auto simp: rollupA2_def a2_descriptions owner_read_failure_def
      intro!: pred_state_bind_any io_rules evaluateA2_contract split: sum.splits)

text \<open>The conditions of A.2 on what was read.\<close>

definition a2_policy_ok ::
    "a2_policy \<Rightarrow> int \<Rightarrow> intent_fund_binding_body \<Rightarrow> string \<times> intent_properties \<times> string \<Rightarrow> bool" where
  "a2_policy_ok policy nowMs body reads \<longleftrightarrow>
     fb_deadline body \<le> nowMs div 1000 + fp_maxDeadlineSecondsAhead policy \<and>
     in_ci (fb_fundContract body) (chain_set (fp_acceptedFunds policy) (fb_chainId body)) \<and>
     in_ci (fst reads) (chain_set (fp_acceptedOwners policy) (fb_chainId body)) \<and>
     (\<exists>a\<in>{ip_depositAsset (fst (snd reads)), ip_targetAsset (fst (snd reads))}.
        as_isPositionManager a \<and> toLowerCase (as_asset a) = toLowerCase (fb_positionManager body))"

lemma pm_check_passed:
  "ce_passed (pm_check body props) \<longleftrightarrow>
     (\<exists>a\<in>{ip_depositAsset props, ip_targetAsset props}.
        as_isPositionManager a \<and> toLowerCase (as_asset a) = toLowerCase (fb_positionManager body))"
  by (auto simp: pm_check_def pm_assets_def list_ex_iff)

lemma no_fund_check_passed: "ce_passed (no_fund_check body f) \<longleftrightarrow> f = zeroAddress"
  by (simp add: no_fund_check_def)

lemma runA2_reads:
  assumes "run_state (a2_stage1 ctx (fb_fundContract body) (fb_facility body) (intent_number (fb_intent body))) w =
      (Inr reads, w')"
    and "in_ci (fb_fundContract body) (chain_set (fp_acceptedFunds policy) (fb_chainId body))"
  shows "result_of (runA2 policy ctx body) w =
    evaluateA2 body policy (checkDeadline (a2_now ctx div 1000) (fb_deadline body) (fp_maxDeadlineSecondsAhead policy))
      (checkMembership FUND_LIST_D (fb_fundContract body)
        (chain_set (fp_acceptedFunds policy) (fb_chainId body)) True None) reads"
  by (simp add: result_of_def runA2_def Let_def assms)

lemma evaluateA2_decision:
  "case evaluateA2 body policy (checkDeadline (nowMs div 1000) (fb_deadline body) (fp_maxDeadlineSecondsAhead policy))
      (checkMembership FUND_LIST_D (fb_fundContract body)
        (chain_set (fp_acceptedFunds policy) (fb_chainId body)) True None) reads of
      Inr cs \<Rightarrow> a2_policy_ok policy nowMs body reads \<and> snd (snd reads) = zeroAddress
    | Inl (StateConflictError m cs) \<Rightarrow> a2_policy_ok policy nowMs body reads \<and> snd (snd reads) \<noteq> zeroAddress
    | Inl (ValidationFailedError m cs) \<Rightarrow> \<not> a2_policy_ok policy nowMs body reads
    | Inl _ \<Rightarrow> False"
proof -
  obtain ow props cur where r: "reads = (ow, props, cur)" by (cases reads)
  let ?dc = "checkDeadline (nowMs div 1000) (fb_deadline body) (fp_maxDeadlineSecondsAhead policy)"
  let ?fl = "checkMembership FUND_LIST_D (fb_fundContract body)
        (chain_set (fp_acceptedFunds policy) (fb_chainId body)) True None"
  let ?oc = "checkMembership FUND_OWNER_D ow (chain_set (fp_acceptedOwners policy) (fb_chainId body)) True None"
  let ?all = "[?dc, ?fl, ?oc, pm_check body props, no_fund_check body cur, skipped DEPOSITOR_D]"
  have ok: "list_ex (\<lambda>c. \<not> ce_passed c) [?dc, ?fl, ?oc, pm_check body props, skipped DEPOSITOR_D] \<longleftrightarrow>
      \<not> a2_policy_ok policy nowMs body reads"
    by (auto simp: r a2_policy_ok_def pm_check_passed)
  then have failing: "\<not> all_passed ?all" if "\<not> a2_policy_ok policy nowMs body reads"
    using that by auto
  have ev: "evaluateA2 body policy ?dc ?fl reads =
     (if \<not> a2_policy_ok policy nowMs body reads then rollupA2 ?all
      else if cur \<noteq> zeroAddress then Inl (StateConflictError ''Intent already has a fund bound (Appendix A.2)'' ?all)
      else Inr ?all)"
    unfolding evaluateA2_def Let_def r prod.case no_fund_check_passed [symmetric, of _ body]
    using ok [unfolded r] by (simp only:)
  show ?thesis
  proof (cases "a2_policy_ok policy nowMs body reads")
    case True
    then show ?thesis unfolding ev by (auto simp: r)
  next
    case False
    then have "rollupA2 ?all = Inl (ValidationFailedError ''Appendix A.2 checks failed'' ?all)"
      unfolding rollupA2_def roll_result_rollUp by (rule if_not_P [OF failing])
    with False show ?thesis unfolding ev by (simp only: if_True simp_thms sum.case guardian_error.case)
  qed
qed

lemma a2_run:
  assumes "run_state (a2_stage1 ctx (fb_fundContract body) (fb_facility body) (intent_number (fb_intent body))) w =
      (Inr reads, w')"
  shows "case result_of (runA2 policy ctx body) w of
      Inr cs \<Rightarrow> a2_policy_ok policy (a2_now ctx) body reads \<and> snd (snd reads) = zeroAddress
    | Inl (StateConflictError m cs) \<Rightarrow> a2_policy_ok policy (a2_now ctx) body reads \<and> snd (snd reads) \<noteq> zeroAddress
    | Inl (ValidationFailedError m cs) \<Rightarrow> \<not> a2_policy_ok policy (a2_now ctx) body reads
    | Inl _ \<Rightarrow> False"
proof (cases "in_ci (fb_fundContract body) (chain_set (fp_acceptedFunds policy) (fb_chainId body))")
  case True
  then show ?thesis
    using evaluateA2_decision [where reads = reads and policy = policy and body = body and nowMs = "a2_now ctx"] by (simp add: runA2_reads [OF assms])
next
  case False
  then show ?thesis
    by (simp add: result_of_def runA2_def Let_def rollupA2_def roll_result_rollUp a2_policy_ok_def)
qed

lemma a2_approval:
  assumes "pred_state (\<lambda>r. \<forall>reads. r = Inr reads \<longrightarrow> reads = state)
    (a2_stage1 ctx (fb_fundContract body) (fb_facility body) (intent_number (fb_intent body)))"
  shows "pred_state (\<lambda>r. \<forall>cs. r = Inr cs \<longrightarrow> a2_policy_ok policy (a2_now ctx) body state \<and> snd (snd state) = zeroAddress)
    (runA2 policy ctx body)"
proof (cases "in_ci (fb_fundContract body) (chain_set (fp_acceptedFunds policy) (fb_chainId body))")
  case True
  have "case evaluateA2 body policy (checkDeadline (a2_now ctx div 1000) (fb_deadline body) (fp_maxDeadlineSecondsAhead policy))
      (checkMembership FUND_LIST_D (fb_fundContract body) (chain_set (fp_acceptedFunds policy) (fb_chainId body)) True None) state of
      Inr cs \<Rightarrow> a2_policy_ok policy (a2_now ctx) body state \<and> snd (snd state) = zeroAddress | Inl _ \<Rightarrow> True"
    using evaluateA2_decision [where reads = state and policy = policy and body = body and nowMs = "a2_now ctx"]
    by (auto split: sum.splits)
  with True show ?thesis
    by (auto simp: runA2_def Let_def upstream503_def rollupA2_def roll_result_rollUp
        intro!: pred_state_bindI [OF assms] split: sum.splits)
next
  case False
  then show ?thesis by (simp add: runA2_def Let_def rollupA2_def roll_result_rollUp)
qed

text \<open>
  C11. A.2 decides by disjoint cases on what the chain answers, so each outcome is reported
  exactly in its case. 422: the fund is off the list (then the chain is not asked at all), or
  \<open>owner()\<close> or \<open>getIntent\<close> fails the way only the named contract can make it fail, or some
  policy condition fails on what was read (deadline, accepted owner, the declared position
  manager), whether or not the intent also has a fund. 503: the fund is listed and the read
  fails in any other way, whatever the deadline. 409: all conditions hold and the intent has a
  fund bound. Approval: all hold and it has none. So 409 is never reported for a request that
  retrying could not fix, and an outage of the node never reads as a refusal.
\<close>

theorem a2_decision:
  "case run_state (runA2 policy ctx body) w of (answer, w') \<Rightarrow>
   case run_state (a2_stage1 ctx (fb_fundContract body) (fb_facility body) (intent_number (fb_intent body))) w of (read, wr) \<Rightarrow>
     let listed = in_ci (fb_fundContract body) (chain_set (fp_acceptedFunds policy) (fb_chainId body)) in
     w' = (if listed then wr else w) \<and>
     (case answer of
        Inr cs \<Rightarrow> \<exists>reads. read = Inr reads \<and> a2_policy_ok policy (a2_now ctx) body reads \<and> snd (snd reads) = zeroAddress
      | Inl (StateConflictError m cs) \<Rightarrow>
          \<exists>reads. read = Inr reads \<and> a2_policy_ok policy (a2_now ctx) body reads \<and> snd (snd reads) \<noteq> zeroAddress
      | Inl (ValidationFailedError m cs) \<Rightarrow> \<not> listed \<or>
          (case read of Inl e \<Rightarrow> isDeterministicContractCallFailure e [''owner'', ''getIntent'']
           | Inr reads \<Rightarrow> \<not> a2_policy_ok policy (a2_now ctx) body reads)
      | Inl (UpstreamUnavailableError m status retryAfter) \<Rightarrow> status = HTTP503 \<and> retryAfter = None \<and> listed \<and>
          (\<exists>e. read = Inl e \<and> \<not> isDeterministicContractCallFailure e [''owner'', ''getIntent''])
      | Inl _ \<Rightarrow> False)"
proof (cases "in_ci (fb_fundContract body) (chain_set (fp_acceptedFunds policy) (fb_chainId body))")
  case False
  then show ?thesis by (auto simp: runA2_def Let_def rollupA2_def roll_result_rollUp split: prod.splits)
next
  case listed: True
  let ?read = "a2_stage1 ctx (fb_fundContract body) (fb_facility body) (intent_number (fb_intent body))"
  obtain read wr where r: "run_state ?read w = (read, wr)" by fastforce
  have w': "snd (run_state (runA2 policy ctx body) w) = wr"
    using listed r by (simp add: runA2_def Let_def)
  show ?thesis
  proof (cases read)
    case (Inl e)
    with listed r show ?thesis
      by (auto simp: runA2_def Let_def rollupA2_def roll_result_rollUp upstream503_def)
  next
    case (Inr reads)
    with a2_run [of ctx body w reads wr policy] r w' listed show ?thesis
      by (auto simp: result_of_def split: prod.splits sum.splits guardian_error.splits)
  qed
qed

definition ex_a2_ctx :: "string \<Rightarrow> unit a2_ctx" where
  "ex_a2_ctx cur =
     \<lparr>a2_stage1 = \<lambda>f fac i. ret (Inr (''0xbb'',
        \<lparr>ip_depositAsset = \<lparr>as_asset = ''0xcc'', as_isPositionManager = False\<rparr>,
         ip_targetAsset = \<lparr>as_asset = ''0xPM'', as_isPositionManager = True\<rparr>\<rparr>, cur)),
      a2_now = 0\<rparr>"

definition ex_a2_policy :: a2_policy where
  "ex_a2_policy = \<lparr>fp_maxDeadlineSecondsAhead = 60, fp_acceptedFunds = [(1, [''0xaa''])],
     fp_acceptedOwners = [(1, [''0xBB''])]\<rparr>"

definition ex_a2_body :: intent_fund_binding_body where
  "ex_a2_body = \<lparr>fb_chainId = 1, fb_facility = ''0xfa'', fb_intent = \<lparr>ir_id = ''7''\<rparr>,
     fb_fundContract = ''0xAA'', fb_positionManager = ''0xpm'', fb_deadline = 50\<rparr>"

definition ex_reads :: "string \<Rightarrow> string \<times> intent_properties \<times> string" where
  "ex_reads cur = (''0xbb'',
     \<lparr>ip_depositAsset = \<lparr>as_asset = ''0xcc'', as_isPositionManager = False\<rparr>,
      ip_targetAsset = \<lparr>as_asset = ''0xPM'', as_isPositionManager = True\<rparr>\<rparr>, cur)"

theorem a2_decision_witness:
  "isr (result_of (runA2 ex_a2_policy (ex_a2_ctx zeroAddress) ex_a2_body) ()) \<and>
   (\<exists>m cs. result_of (runA2 ex_a2_policy (ex_a2_ctx ''0xdd'') ex_a2_body) () = Inl (StateConflictError m cs)) \<and>
   (\<exists>m. result_of (runA2 ex_a2_policy ((ex_a2_ctx zeroAddress)\<lparr>a2_stage1 := \<lambda>_ _ _. ret (Inl \<lparr>th_isBaseError = True, th_chain = []\<rparr>)\<rparr>)
      ex_a2_body) () = Inl (UpstreamUnavailableError m HTTP503 None))"
proof -
  have run: "run_state (a2_stage1 (ex_a2_ctx cur) f fac i) () = (Inr (ex_reads cur), ())" for cur f fac i
    by (simp add: ex_a2_ctx_def ex_reads_def)
  let ?down = "(ex_a2_ctx zeroAddress)\<lparr>a2_stage1 := \<lambda>_ _ _. ret (Inl \<lparr>th_isBaseError = True, th_chain = []\<rparr>)\<rparr>"
  have "a2_policy_ok ex_a2_policy (a2_now (ex_a2_ctx zeroAddress)) ex_a2_body (ex_reads zeroAddress)"
    and "a2_policy_ok ex_a2_policy (a2_now (ex_a2_ctx ''0xdd'')) ex_a2_body (ex_reads ''0xdd'')"
    and "snd (snd (ex_reads zeroAddress)) = zeroAddress" and "snd (snd (ex_reads ''0xdd'')) \<noteq> zeroAddress"
    and "in_ci (fb_fundContract ex_a2_body) (chain_set (fp_acceptedFunds ex_a2_policy) (fb_chainId ex_a2_body))"
    and "\<not> isDeterministicContractCallFailure \<lparr>th_isBaseError = True, th_chain = []\<rparr> [''owner'', ''getIntent'']"
    by code_simp+
  then show ?thesis
    using a2_decision [where policy = ex_a2_policy and body = ex_a2_body and ctx = "ex_a2_ctx zeroAddress" and w = "()"]
      a2_decision [where policy = ex_a2_policy and body = ex_a2_body and ctx = "ex_a2_ctx ''0xdd''" and w = "()"]
      a2_decision [where policy = ex_a2_policy and body = ex_a2_body and ctx = ?down and w = "()"]
    by (auto simp: run result_of_def isr_case Let_def split: sum.splits guardian_error.splits prod.splits)
qed

end
