(* ===== verification/Swap_Checks.thy ===== *)
theory Swap_Checks
  imports Fund_Binding Request_Binding
begin

text \<open>
  The A.3 check runner of \<open>guardian-defaults/src/checks/intent-swap.ts\<close>: the stage-1 multicall
  over (leg, factory) pairs with the classification of failed slots, the exclusive-or on the
  legs, the stage-2 reads of the position manager and the share-price check. On-chain
  integers are 256-bit words, read as unsigned integers where the code computes with \<open>bigint\<close>.
\<close>

section \<open>Policy and client\<close>

record a3_policy =
  sp_maxDeadlineSecondsAhead :: int
  sp_acceptedPmFactories :: chain_sets
  sp_acceptedPmOwners :: chain_sets
  sp_swapPriceToleranceBps :: jsnum

record pm_views =
  pv_owner :: string
  pv_collateralAsset :: string
  pv_debtAsset :: string
  pv_totalAssets :: "256 word"
  pv_totalSupply :: "256 word"
  pv_mgmtFeeShares :: "256 word"
  pv_perfFeeShares :: "256 word"
  pv_virtualShareOffset :: "256 word"

text \<open>
  Stage 1 gets the calls, pairs of a factory and a leg asset, and answers each by its index;
  stage 2 is the all-or-nothing multicall on the position manager.
\<close>

record 'w a3_ctx =
  a3_stage1 :: "(string \<times> string) list \<Rightarrow> ('w, thrown + (nat \<Rightarrow> bool slot)) state"
  a3_stage2 :: "string \<Rightarrow> ('w, thrown + pm_views) state"
  a3_now :: int

definition ONE_PM_D :: string where
  "ONE_PM_D = ''exactly one leg's asset is a position manager from an accepted factory''"
definition PM_OWNER_D :: string where
  "PM_OWNER_D = ''position manager owner is on the accepted-owners list''"
definition DEBT_D :: string where
  "DEBT_D = ''non-PM leg's asset equals the position manager's debt asset''"
definition SHARE_PRICE_D :: string where
  "SHARE_PRICE_D = ''swap legs match the position-manager share price within tolerance''"

lemmas a3_descriptions = ONE_PM_D_def PM_OWNER_D_def DEBT_D_def SHARE_PRICE_D_def DEADLINE_CHECK_DESCRIPTION_def

definition VIRTUAL_ASSETS :: int where
  "VIRTUAL_ASSETS = 1"

definition rollupA3 :: "check_entry list \<Rightarrow> guardian_error + check_entry list" where
  "rollupA3 all = roll_result (rollUp all ''Appendix A.3 checks failed'')"

definition one_pm_failure :: "string \<Rightarrow> check_entry \<Rightarrow> check_entry list" where
  "one_pm_failure reason deadlineCheck =
     [failed ONE_PM_D reason, skipped PM_OWNER_D, skipped DEBT_D, skipped SHARE_PRICE_D, deadlineCheck]"

definition stage1_calls :: "string list \<Rightarrow> swap_leg \<Rightarrow> swap_leg \<Rightarrow> (string \<times> string) list" where
  "stage1_calls factories legA legB =
     map (\<lambda>f. (f, leg_asset legA)) factories @ map (\<lambda>f. (f, leg_asset legB)) factories"

text \<open>
  The loop over the slots: \<open>None\<close> where the runner answers 503, else the number of
  deterministic failures.
\<close>

fun count_failures :: "bool slot list \<Rightarrow> nat \<Rightarrow> nat option" where
  "count_failures [] n = Some n"
| "count_failures (SlotSuccess b # ss) n = count_failures ss n"
| "count_failures (SlotFailure e # ss) n =
     (if isDeterministicContractCallFailure e [''isPositionManager''] then count_failures ss (Suc n) else None)"

definition hit :: "bool slot \<Rightarrow> bool" where
  "hit s \<longleftrightarrow> s = SlotSuccess True"

definition leg_amount_num :: "swap_leg \<Rightarrow> int" where
  "leg_amount_num leg = (case BigInt (leg_amount leg) of Some n \<Rightarrow> n | None \<Rightarrow> 0)"

definition share_denominator :: "pm_views \<Rightarrow> int" where
  "share_denominator v =
     uint (pv_totalSupply v) + uint (pv_virtualShareOffset v) + uint (pv_mgmtFeeShares v) + uint (pv_perfFeeShares v)"

definition expected_debt :: "pm_views \<Rightarrow> int \<Rightarrow> int" where
  "expected_debt v pmShares = (pmShares * (uint (pv_totalAssets v) + VIRTUAL_ASSETS)) sdiv share_denominator v"

definition price_check :: "pm_views \<Rightarrow> int \<Rightarrow> int \<Rightarrow> jsnum \<Rightarrow> check_entry" where
  "price_check v pmShares actualDebt bps =
     (if share_denominator v = 0 then
        failed SHARE_PRICE_D ''PM share-price denominator is zero (totalSupply + virtual + fees == 0)''
      else
        let expectedDebt = expected_debt v pmShares;
            delta = (if actualDebt > expectedDebt then actualDebt - expectedDebt else expectedDebt - actualDebt);
            tolerance = bpsToleranceWithWeiFloor expectedDebt (num_to_int bps)
        in if delta \<le> tolerance then passed SHARE_PRICE_D
           else failed SHARE_PRICE_D
             (''actual debt '' @ show_int actualDebt @ '' deviates from expected '' @ show_int expectedDebt @
              '' by '' @ show_int delta @ '' (tolerance '' @ show_int tolerance @ '', bps='' @ show_num bps @ '')''))"

definition debt_match_check :: "swap_leg \<Rightarrow> pm_views \<Rightarrow> check_entry" where
  "debt_match_check debtLeg v =
     (if toLowerCase (leg_asset debtLeg) = toLowerCase (pv_debtAsset v) then passed DEBT_D
      else failed DEBT_D
        (''non-PM leg asset is '' @ leg_asset debtLeg @ '' but PM debt asset is '' @ pv_debtAsset v @
         '' (collateral asset for reference: '' @ pv_collateralAsset v @ '')''))"

text \<open>The entries once the position manager has been read.\<close>

definition evaluateA3 ::
    "a3_policy \<Rightarrow> int \<Rightarrow> swap_leg \<Rightarrow> swap_leg \<Rightarrow> check_entry \<Rightarrow> pm_views \<Rightarrow> check_entry list" where
  "evaluateA3 policy chainId pmLeg debtLeg deadlineCheck v =
     (let ownerCheck = checkMembership PM_OWNER_D (pv_owner v)
            (chain_set (sp_acceptedPmOwners policy) chainId) True None;
          debtMatchCheck = debt_match_check debtLeg v;
          priceCheck =
            (if \<not> ce_passed debtMatchCheck then skipped SHARE_PRICE_D
             else price_check v (leg_amount_num pmLeg) (leg_amount_num debtLeg) (sp_swapPriceToleranceBps policy))
      in [passed ONE_PM_D, ownerCheck, debtMatchCheck, priceCheck, deadlineCheck])"

definition run_pm_leg ::
    "a3_policy \<Rightarrow> 'w a3_ctx \<Rightarrow> int \<Rightarrow> swap_leg \<Rightarrow> swap_leg \<Rightarrow> check_entry \<Rightarrow> ('w, guardian_error + check_entry list) state" where
  "run_pm_leg policy ctx chainId pmLeg debtLeg deadlineCheck = do {
     stage2 \<leftarrow> a3_stage2 ctx (leg_asset pmLeg);
     ret (case stage2 of
        Inl e \<Rightarrow> Inl (upstream503 ''position-manager read failed upstream'')
      | Inr v \<Rightarrow> rollupA3 (evaluateA3 policy chainId pmLeg debtLeg deadlineCheck v))
   }"

text \<open>
  What follows the multicall, with the slots of the two legs (\<open>slice(0, n)\<close> and \<open>slice(n)\<close>).
\<close>

definition decide_legs ::
    "a3_policy \<Rightarrow> 'w a3_ctx \<Rightarrow> int \<Rightarrow> swap_leg \<Rightarrow> swap_leg \<Rightarrow> check_entry \<Rightarrow> bool slot list \<Rightarrow> bool slot list \<Rightarrow>
     ('w, guardian_error + check_entry list) state" where
  "decide_legs policy ctx chainId legA legB deadlineCheck slotsA slotsB =
     (case count_failures (slotsA @ slotsB) 0 of
        None \<Rightarrow> ret (Inl (upstream503 ''position-manager factory read failed upstream''))
      | Some deterministicFailures \<Rightarrow>
          let aHits = list_ex hit slotsA; bHits = list_ex hit slotsB in
          if aHits = bHits then
            (if \<not> aHits \<and> deterministicFailures > 0
             then ret (Inl (upstream503 ''position-manager factory read failed upstream''))
             else ret (rollupA3 (one_pm_failure
               (if aHits then ''both legs resolved as position managers; expected exactly one''
                else ''neither leg's asset is a position manager from an accepted factory'')
               deadlineCheck)))
          else run_pm_leg policy ctx chainId
            (if aHits then legA else legB) (if aHits then legB else legA) deadlineCheck)"

definition runA3 ::
    "a3_policy \<Rightarrow> 'w a3_ctx \<Rightarrow> intent_swap_body \<Rightarrow> ('w, guardian_error + check_entry list) state" where
  "runA3 policy ctx body =
     (case sw_legs body of
        legA # legB # rest \<Rightarrow>
          let factories = chain_set (sp_acceptedPmFactories policy) (sw_chainId body);
              nowUnix = a3_now ctx div 1000;
              deadlineCheck = checkDeadline nowUnix (sw_deadline body) (sp_maxDeadlineSecondsAhead policy)
          in if factories = [] then
               ret (rollupA3 (one_pm_failure ''no accepted PM factories configured for this chain'' deadlineCheck))
             else do {
               stage1 \<leftarrow> a3_stage1 ctx (stage1_calls factories legA legB);
               case stage1 of
                 Inl e \<Rightarrow> ret (Inl (upstream503 ''position-manager factory read failed upstream''))
               | Inr answers \<Rightarrow>
                   let slots = map answers [0..<2 * length factories] in
                   decide_legs policy ctx (sw_chainId body) legA legB deadlineCheck
                     (take (length factories) slots) (drop (length factories) slots)
             }
      | _ \<Rightarrow> ret (Inl (upstream503 ''intent-swap body did not contain two legs'')))"

definition buildIntentSwapChecks ::
    "a3_policy \<Rightarrow> ('w a3_ctx \<Rightarrow> intent_swap_body \<Rightarrow> ('w, guardian_error + check_entry list) state) option" where
  "buildIntentSwapChecks policy =
     (if \<not> num_isInteger (sp_swapPriceToleranceBps policy) \<or> num_lt_int (sp_swapPriceToleranceBps policy) 0
      then None else Some (runA3 policy))"


section \<open>Shape of the results\<close>

lemma wf_price_check [wf_rules, simp]: "wf_entry (price_check v s d b)"
  by (simp add: price_check_def a3_descriptions Let_def)

lemma wf_debt_match_check [wf_rules, simp]: "wf_entry (debt_match_check l v)"
  by (simp add: debt_match_check_def a3_descriptions)

lemma wf_evaluateA3 [wf_rules]: "wf_entry dc \<Longrightarrow> list_all wf_entry (evaluateA3 p c l m dc v)"
  by (simp add: evaluateA3_def a3_descriptions Let_def)

lemma runner_result_rollupA3 [io_rules]: "list_all wf_entry cs \<Longrightarrow> runner_result b (rollupA3 cs)"
  by (simp add: rollupA3_def runner_result_rollUp)

lemma wf_one_pm_failure [wf_rules]: "r \<noteq> [] \<Longrightarrow> wf_entry dc \<Longrightarrow> list_all wf_entry (one_pm_failure r dc)"
  by (simp add: one_pm_failure_def a3_descriptions)

lemma rollupA3_Inr: "rollupA3 cs = Inr ds \<longleftrightarrow> all_passed cs \<and> ds = cs"
  by (auto simp: rollupA3_def roll_result_rollUp)

lemma runA3_contract: "pred_state (runner_result conflict) (runA3 policy ctx body)"
  unfolding runA3_def decide_legs_def run_pm_leg_def
  by (auto simp: Let_def intro!: pred_state_bind_any io_rules wf_rules split: list.split sum.split option.split)


section \<open>The order of the legs carries no meaning\<close>

definition is_failure :: "bool slot \<Rightarrow> bool" where
  "is_failure s \<longleftrightarrow> (case s of SlotFailure e \<Rightarrow> True | _ \<Rightarrow> False)"

definition classified :: "bool slot \<Rightarrow> bool" where
  "classified s \<longleftrightarrow> (case s of
     SlotFailure e \<Rightarrow> isDeterministicContractCallFailure e [''isPositionManager''] | _ \<Rightarrow> True)"

lemma slot_simps [simp]:
  "\<not> is_failure (SlotSuccess b)" "is_failure (SlotFailure e)" "classified (SlotSuccess b)"
  "classified (SlotFailure e) \<longleftrightarrow> isDeterministicContractCallFailure e [''isPositionManager'']"
  by (simp_all add: is_failure_def classified_def)

lemma count_failures_eq:
  "count_failures ss n = (if list_all classified ss then Some (n + length (filter is_failure ss)) else None)"
  by (induction ss n rule: count_failures.induct) auto

text \<open>A node that answers each call of the multicall by what the call asks.\<close>

definition answers_by_call :: "'w a3_ctx \<Rightarrow> (string \<times> string \<Rightarrow> bool slot) \<Rightarrow> ('w, thrown option) state \<Rightarrow> bool" where
  "answers_by_call ctx ans m \<longleftrightarrow> (\<forall>calls. a3_stage1 ctx calls =
     do { e \<leftarrow> m; ret (case e of Some t \<Rightarrow> Inl t | None \<Rightarrow> Inr (\<lambda>i. ans (calls ! i))) })"

lemma decide_legs_swap:
  "decide_legs policy ctx c a b dc sa sb = decide_legs policy ctx c b a dc sb sa"
  by (auto simp: decide_legs_def count_failures_eq Let_def add.commute)

lemma slots_by_call:
  "map (\<lambda>i. ans (stage1_calls fs a b ! i)) [0..<2 * length fs] =
     map (\<lambda>f. ans (f, leg_asset a)) fs @ map (\<lambda>f. ans (f, leg_asset b)) fs"
proof -
  have l: "length (stage1_calls fs a b) = 2 * length fs" by (simp add: stage1_calls_def)
  have "map (\<lambda>i. ans (stage1_calls fs a b ! i)) [0..<length (stage1_calls fs a b)] = map ans (stage1_calls fs a b)"
    by (metis map_map map_nth comp_def map_cong)
  then show ?thesis unfolding l by (simp add: stage1_calls_def)
qed

lemma runA3_by_call:
  assumes "answers_by_call ctx ans m" and "sw_legs body = [a, b]"
  shows "runA3 policy ctx body =
    (let factories = chain_set (sp_acceptedPmFactories policy) (sw_chainId body);
         dc = checkDeadline (a3_now ctx div 1000) (sw_deadline body) (sp_maxDeadlineSecondsAhead policy)
     in if factories = [] then
          ret (rollupA3 (one_pm_failure ''no accepted PM factories configured for this chain'' dc))
        else do {
          e \<leftarrow> m;
          case e of
            Some t \<Rightarrow> ret (Inl (upstream503 ''position-manager factory read failed upstream''))
          | None \<Rightarrow> decide_legs policy ctx (sw_chainId body) a b dc
              (map (\<lambda>f. ans (f, leg_asset a)) factories) (map (\<lambda>f. ans (f, leg_asset b)) factories)
        })"
proof -
  have c: "(case (case e of Some t \<Rightarrow> Inl t | None \<Rightarrow> Inr x) of Inl t \<Rightarrow> P t | Inr y \<Rightarrow> Q y) =
      (case e of Some t \<Rightarrow> P t | None \<Rightarrow> Q x)" for e :: "thrown option" and x :: "nat \<Rightarrow> bool slot" and P Q
    by (cases e) simp_all
  have tk: "take (length fs) (map (\<lambda>i. ans (stage1_calls fs a b ! i)) [0..<2 * length fs]) = map (\<lambda>f. ans (f, leg_asset a)) fs"
    "drop (length fs) (map (\<lambda>i. ans (stage1_calls fs a b ! i)) [0..<2 * length fs]) = map (\<lambda>f. ans (f, leg_asset b)) fs"
    for fs by (simp_all only: slots_by_call) simp_all
  have st: "a3_stage1 ctx calls = do { e \<leftarrow> m; ret (case e of Some t \<Rightarrow> Inl t | None \<Rightarrow> Inr (\<lambda>i. ans (calls ! i))) }" for calls
    using assms(1) by (simp add: answers_by_call_def)
  show ?thesis
    unfolding runA3_def assms(2) list.case Let_def st
    by (simp only: State_Monad.bind_assoc State_Monad.bind_left_identity c tk)
qed

lemma body_eqs:
  "sw_chainId (body\<lparr>sw_legs := l\<rparr>) = sw_chainId body" "sw_deadline (body\<lparr>sw_legs := l\<rparr>) = sw_deadline body"
  by simp_all

text \<open>
  C26. Swapping the two legs changes nothing: the runner's whole behaviour, its entries, its
  errors and its effects on the world, is the same for [A, B] and [B, A], with failed slots
  at whatever place, given a node that answers each factory call by what it asks.
\<close>

theorem a3_leg_order_irrelevant:
  assumes "answers_by_call ctx ans m"
  shows "runA3 policy ctx (body\<lparr>sw_legs := [a, b]\<rparr>) = runA3 policy ctx (body\<lparr>sw_legs := [b, a]\<rparr>)"
proof -
  have "runA3 policy ctx (body\<lparr>sw_legs := [x, y]\<rparr>) =
    (let factories = chain_set (sp_acceptedPmFactories policy) (sw_chainId body);
         dc = checkDeadline (a3_now ctx div 1000) (sw_deadline body) (sp_maxDeadlineSecondsAhead policy)
     in if factories = [] then
          ret (rollupA3 (one_pm_failure ''no accepted PM factories configured for this chain'' dc))
        else do {
          e \<leftarrow> m;
          case e of
            Some t \<Rightarrow> ret (Inl (upstream503 ''position-manager factory read failed upstream''))
          | None \<Rightarrow> decide_legs policy ctx (sw_chainId body) x y dc
              (map (\<lambda>f. ans (f, leg_asset x)) factories) (map (\<lambda>f. ans (f, leg_asset y)) factories)
        })" for x y
    by (rule runA3_by_call [OF assms, of "body\<lparr>sw_legs := [x, y]\<rparr>" x y, unfolded body_eqs]) simp
  then show ?thesis
    by (simp only: decide_legs_swap [of policy ctx "sw_chainId body" b a])
qed


definition ex_a3_ctx :: "unit a3_ctx" where
  "ex_a3_ctx =
     \<lparr>a3_stage1 = \<lambda>calls. ret (Inr (\<lambda>i. SlotSuccess (snd (calls ! i) = ''0xpm''))),
      a3_stage2 = \<lambda>pm. ret (Inr \<lparr>pv_owner = ''0xow'', pv_collateralAsset = ''0xcc'', pv_debtAsset = ''0xdd'',
        pv_totalAssets = 2999, pv_totalSupply = 900, pv_mgmtFeeShares = 50, pv_perfFeeShares = 49,
        pv_virtualShareOffset = 1\<rparr>),
      a3_now = 0\<rparr>"

definition ex_a3_policy :: a3_policy where
  "ex_a3_policy = \<lparr>sp_maxDeadlineSecondsAhead = 60, sp_acceptedPmFactories = [(1, [''0xff''])],
     sp_acceptedPmOwners = [(1, [''0xOW''])], sp_swapPriceToleranceBps = JFin 1\<rparr>"

definition ex_pm_leg :: swap_leg where
  "ex_pm_leg = \<lparr>leg_intent = \<lparr>ir_id = ''1''\<rparr>, leg_asset = ''0xpm'', leg_amount = ''100''\<rparr>"

definition ex_debt_leg :: swap_leg where
  "ex_debt_leg = \<lparr>leg_intent = \<lparr>ir_id = ''2''\<rparr>, leg_asset = ''0xdd'', leg_amount = ''301''\<rparr>"

definition ex_a3_body :: intent_swap_body where
  "ex_a3_body = \<lparr>sw_chainId = 1, sw_facility = ''0xfa'', sw_legs = [ex_pm_leg, ex_debt_leg], sw_deadline = 60\<rparr>"

lemma ex_by_call: "answers_by_call ex_a3_ctx (\<lambda>c. SlotSuccess (snd c = ''0xpm'')) (ret None)"
  by (simp add: answers_by_call_def ex_a3_ctx_def)

theorem a3_leg_order_irrelevant_witness:
  "runA3 ex_a3_policy ex_a3_ctx (ex_a3_body\<lparr>sw_legs := [ex_pm_leg, ex_debt_leg]\<rparr>) =
     runA3 ex_a3_policy ex_a3_ctx (ex_a3_body\<lparr>sw_legs := [ex_debt_leg, ex_pm_leg]\<rparr>) \<and>
   isr (result_of (runA3 ex_a3_policy ex_a3_ctx ex_a3_body) ())"
  by (rule conjI, rule a3_leg_order_irrelevant [OF ex_by_call]) code_simp


section \<open>What an approval means\<close>

text \<open>A client whose answers, where it gives any, are true of the chain.\<close>

definition serves_pm :: "'w a3_ctx \<Rightarrow> (string \<times> string \<Rightarrow> bool) \<Rightarrow> (string \<Rightarrow> pm_views) \<Rightarrow> bool" where
  "serves_pm ctx is_pm views \<longleftrightarrow>
     (\<forall>calls. pred_state (\<lambda>r. \<forall>answers. r = Inr answers \<longrightarrow>
        (\<forall>i b. i < length calls \<longrightarrow> answers i = SlotSuccess b \<longrightarrow> b = is_pm (calls ! i))) (a3_stage1 ctx calls)) \<and>
     (\<forall>pm. pred_state (\<lambda>r. \<forall>v. r = Inr v \<longrightarrow> v = views pm) (a3_stage2 ctx pm))"

definition a3_price_ok :: "pm_views \<Rightarrow> int \<Rightarrow> int \<Rightarrow> int \<Rightarrow> bool" where
  "a3_price_ok v pmShares actualDebt bps \<longleftrightarrow>
     (let expd = pmShares * (uint (pv_totalAssets v) + 1) div share_denominator v;
          delta = \<bar>actualDebt - expd\<bar> in
      0 < share_denominator v \<and>
      (delta * 10000 \<le> expd * bps \<or> (delta = 1 \<and> 0 < bps \<and> expd * bps < 10000)))"

definition a3_approved ::
    "a3_policy \<Rightarrow> (string \<times> string \<Rightarrow> bool) \<Rightarrow> (string \<Rightarrow> pm_views) \<Rightarrow> int \<Rightarrow> int \<Rightarrow> swap_leg \<Rightarrow> swap_leg \<Rightarrow> bool" where
  "a3_approved policy is_pm views chainId bps pmLeg debtLeg \<longleftrightarrow>
     (let v = views (leg_asset pmLeg) in
      (\<exists>f\<in>set (chain_set (sp_acceptedPmFactories policy) chainId). is_pm (f, leg_asset pmLeg)) \<and>
      in_ci (pv_owner v) (chain_set (sp_acceptedPmOwners policy) chainId) \<and>
      toLowerCase (leg_asset debtLeg) = toLowerCase (pv_debtAsset v) \<and>
      a3_price_ok v (leg_amount_num pmLeg) (leg_amount_num debtLeg) bps)"

lemma share_denominator_nonneg: "0 \<le> share_denominator v"
  by (simp add: share_denominator_def)

lemma price_check_ok:
  assumes "0 \<le> s" and "0 \<le> num_to_int b"
  shows "ce_passed (price_check v s d b) \<longleftrightarrow> a3_price_ok v s d (num_to_int b)"
proof (cases "share_denominator v = 0")
  case True
  then show ?thesis by (simp add: price_check_def a3_price_ok_def)
next
  case False
  then have pos: "0 < share_denominator v" using share_denominator_nonneg [of v] by simp
  have num: "0 \<le> s * (uint (pv_totalAssets v) + 1)" using assms(1) by simp
  define e where "e = s * (uint (pv_totalAssets v) + 1) div share_denominator v"
  have e: "expected_debt v s = e" "0 \<le> e"
    using num pos by (simp_all add: expected_debt_def VIRTUAL_ASSETS_def sdiv_nonneg e_def pos_imp_zdiv_nonneg_iff)
  have "(if d > e then d - e else e - d) = \<bar>d - e\<bar>" by auto
  with bps_tolerance_bound [OF e(2) assms(2), of "\<bar>d - e\<bar>"] pos e False show ?thesis
    by (simp add: price_check_def a3_price_ok_def Let_def e_def [symmetric])
qed

lemma evaluateA3_approved:
  assumes "all_passed (evaluateA3 policy chainId pmLeg debtLeg dc (views (leg_asset pmLeg)))"
    and "0 \<le> leg_amount_num pmLeg" and "0 \<le> num_to_int (sp_swapPriceToleranceBps policy)"
    and "\<exists>f\<in>set (chain_set (sp_acceptedPmFactories policy) chainId). is_pm (f, leg_asset pmLeg)"
  shows "ce_passed dc \<and>
    a3_approved policy is_pm views chainId (num_to_int (sp_swapPriceToleranceBps policy)) pmLeg debtLeg"
  using assms price_check_ok [OF assms(2,3), of "views (leg_asset pmLeg)"]
  by (auto simp: evaluateA3_def a3_approved_def debt_match_check_def Let_def split: if_splits)


lemma leg_amount_nonneg: "wf_leg l \<Longrightarrow> 0 \<le> leg_amount_num l"
  by (auto simp: wf_leg_def leg_amount_num_def)

lemma run_pm_leg_approved:
  assumes s: "serves_pm ctx is_pm views" and nn: "0 \<le> leg_amount_num pmLeg" "0 \<le> num_to_int (sp_swapPriceToleranceBps policy)"
    and f: "\<exists>f\<in>set (chain_set (sp_acceptedPmFactories policy) chainId). is_pm (f, leg_asset pmLeg)"
  shows "pred_state (\<lambda>r. \<forall>cs. r = Inr cs \<longrightarrow> ce_passed dc \<and>
      a3_approved policy is_pm views chainId (num_to_int (sp_swapPriceToleranceBps policy)) pmLeg debtLeg)
    (run_pm_leg policy ctx chainId pmLeg debtLeg dc)"
  unfolding run_pm_leg_def
  by (rule pred_state_bindI [where Q = "\<lambda>r. \<forall>v. r = Inr v \<longrightarrow> v = views (leg_asset pmLeg)"])
    (use s evaluateA3_approved [OF _ nn f] in \<open>auto simp: serves_pm_def rollupA3_Inr split: sum.splits\<close>)

definition truthful :: "(string \<times> string \<Rightarrow> bool) \<Rightarrow> (string \<times> string) list \<Rightarrow> (nat \<Rightarrow> bool slot) \<Rightarrow> bool" where
  "truthful is_pm calls answers \<longleftrightarrow>
     (\<forall>i b. i < length calls \<longrightarrow> answers i = SlotSuccess b \<longrightarrow> b = is_pm (calls ! i))"

lemma hit_legA:
  assumes "truthful is_pm (stage1_calls fs a b) answers"
    and "list_ex hit (take (length fs) (map answers [0..<2 * length fs]))"
  shows "\<exists>f\<in>set fs. is_pm (f, leg_asset a)"
proof -
  from assms(2) obtain i where i: "i < length fs" "answers i = SlotSuccess True"
    by (auto simp: list_ex_iff hit_def in_set_conv_nth)
  with assms(1) have "is_pm (stage1_calls fs a b ! i)" by (fastforce simp: truthful_def stage1_calls_def)
  with i(1) show ?thesis by (auto simp: stage1_calls_def nth_append)
qed

lemma hit_legB:
  assumes "truthful is_pm (stage1_calls fs a b) answers"
    and "list_ex hit (drop (length fs) (map answers [0..<2 * length fs]))"
  shows "\<exists>f\<in>set fs. is_pm (f, leg_asset b)"
proof -
  from assms(2) obtain i where i: "i < length fs" "answers (length fs + i) = SlotSuccess True"
    by (auto simp: list_ex_iff hit_def in_set_conv_nth)
  with assms(1) have "is_pm (stage1_calls fs a b ! (length fs + i))"
    by (fastforce simp: truthful_def stage1_calls_def)
  with i(1) show ?thesis by (auto simp: stage1_calls_def nth_append)
qed

lemma decide_legs_approved:
  assumes "serves_pm ctx is_pm views" and "0 \<le> leg_amount_num a" and "0 \<le> leg_amount_num b"
    and "0 \<le> num_to_int (sp_swapPriceToleranceBps policy)"
    and "truthful is_pm (stage1_calls (chain_set (sp_acceptedPmFactories policy) chainId) a b) answers"
  shows "pred_state (\<lambda>r. \<forall>cs. r = Inr cs \<longrightarrow> ce_passed dc \<and>
      (a3_approved policy is_pm views chainId (num_to_int (sp_swapPriceToleranceBps policy)) a b \<or>
       a3_approved policy is_pm views chainId (num_to_int (sp_swapPriceToleranceBps policy)) b a))
    (decide_legs policy ctx chainId a b dc
      (take (length (chain_set (sp_acceptedPmFactories policy) chainId))
        (map answers [0..<2 * length (chain_set (sp_acceptedPmFactories policy) chainId)]))
      (drop (length (chain_set (sp_acceptedPmFactories policy) chainId))
        (map answers [0..<2 * length (chain_set (sp_acceptedPmFactories policy) chainId)])))"
  using pred_state_mono [OF run_pm_leg_approved [OF assms(1,2,4) hit_legA [OF assms(5)]]]
    pred_state_mono [OF run_pm_leg_approved [OF assms(1,3,4) hit_legB [OF assms(5)]]]
  unfolding decide_legs_def Let_def
  by (auto simp: rollupA3_Inr one_pm_failure_def split: option.split)

definition swap_approved ::
    "a3_policy \<Rightarrow> (string \<times> string \<Rightarrow> bool) \<Rightarrow> (string \<Rightarrow> pm_views) \<Rightarrow> int \<Rightarrow> intent_swap_body \<Rightarrow> bool" where
  "swap_approved policy is_pm views nowMs body \<longleftrightarrow>
     sw_deadline body \<le> nowMs div 1000 + sp_maxDeadlineSecondsAhead policy \<and>
     (\<exists>a b. sw_legs body = [a, b] \<and>
        (a3_approved policy is_pm views (sw_chainId body) (num_to_int (sp_swapPriceToleranceBps policy)) a b \<or>
         a3_approved policy is_pm views (sw_chainId body) (num_to_int (sp_swapPriceToleranceBps policy)) b a))"

lemma a3_approval:
  assumes bps: "0 \<le> num_to_int (sp_swapPriceToleranceBps policy)" and "wf_swap body" and "serves_pm ctx is_pm views"
  shows "pred_state (\<lambda>r. \<forall>cs. r = Inr cs \<longrightarrow> swap_approved policy is_pm views (a3_now ctx) body) (runA3 policy ctx body)"
proof -
  from assms(2) obtain a b where legs: "sw_legs body = [a, b]"
    by (auto simp: wf_swap_def numeral_2_eq_2 length_Suc_conv)
  with assms(2) have nn: "0 \<le> leg_amount_num a" "0 \<le> leg_amount_num b"
    by (auto simp: wf_swap_def leg_amount_nonneg)
  let ?calls = "stage1_calls (chain_set (sp_acceptedPmFactories policy) (sw_chainId body)) a b"
  have st: "pred_state (\<lambda>r. \<forall>answers. r = Inr answers \<longrightarrow> truthful is_pm ?calls answers) (a3_stage1 ctx ?calls)"
    using assms(3) by (simp add: serves_pm_def truthful_def)
  note d = decide_legs_approved [OF assms(3) nn bps]
  show ?thesis
    unfolding runA3_def legs list.case Let_def swap_approved_def
    by (auto simp: rollupA3_Inr one_pm_failure_def split: sum.split
        intro!: pred_state_bindI [OF st] pred_state_mono [OF d])
qed

text \<open>
  That exactly one leg is a position manager. The exclusive-or of the runner counts a call that
  reverts as no hit; \<open>reverts_deny\<close> says that such a factory does not vouch for the asset.
\<close>

definition accepted_pm :: "a3_policy \<Rightarrow> (string \<times> string \<Rightarrow> bool) \<Rightarrow> int \<Rightarrow> swap_leg \<Rightarrow> bool" where
  "accepted_pm policy is_pm chainId leg \<longleftrightarrow>
     (\<exists>f\<in>set (chain_set (sp_acceptedPmFactories policy) chainId). is_pm (f, leg_asset leg))"

definition denied :: "(string \<times> string \<Rightarrow> bool) \<Rightarrow> (string \<times> string) list \<Rightarrow> (nat \<Rightarrow> bool slot) \<Rightarrow> bool" where
  "denied is_pm calls answers \<longleftrightarrow>
     (\<forall>i e. i < length calls \<longrightarrow> answers i = SlotFailure e \<longrightarrow>
        isDeterministicContractCallFailure e [''isPositionManager''] \<longrightarrow> \<not> is_pm (calls ! i))"

definition reverts_deny :: "'w a3_ctx \<Rightarrow> (string \<times> string \<Rightarrow> bool) \<Rightarrow> bool" where
  "reverts_deny ctx is_pm \<longleftrightarrow>
     (\<forall>calls. pred_state (\<lambda>r. \<forall>answers. r = Inr answers \<longrightarrow> denied is_pm calls answers) (a3_stage1 ctx calls))"

lemma unaccepted_slot:
  assumes "truthful is_pm calls answers" and "denied is_pm calls answers" and "i < length calls"
    and "classified (answers i)" and "\<not> hit (answers i)"
  shows "\<not> is_pm (calls ! i)"
proof (cases "answers i")
  case (SlotSuccess b)
  with assms(1,3) have "b = is_pm (calls ! i)" unfolding truthful_def by blast
  with SlotSuccess assms(5) show ?thesis by (simp add: hit_def)
next
  case (SlotFailure e)
  with assms(2,3,4) show ?thesis unfolding denied_def by auto
qed

lemma unaccepted_legs:
  assumes t: "truthful is_pm (stage1_calls fs a b) answers" and d: "denied is_pm (stage1_calls fs a b) answers"
    and c: "list_all classified (map answers [0..<2 * length fs])"
  shows "\<not> list_ex hit (take (length fs) (map answers [0..<2 * length fs])) \<Longrightarrow> \<forall>f\<in>set fs. \<not> is_pm (f, leg_asset a)"
    and "\<not> list_ex hit (drop (length fs) (map answers [0..<2 * length fs])) \<Longrightarrow> \<forall>f\<in>set fs. \<not> is_pm (f, leg_asset b)"
proof -
  have l: "length (stage1_calls fs a b) = 2 * length fs" by (simp add: stage1_calls_def)
  have u: "\<not> is_pm (stage1_calls fs a b ! i)" if "i < 2 * length fs" "\<not> hit (answers i)" for i
    using unaccepted_slot [OF t d, of i] that c l by (simp add: list_all_length)
  show "\<forall>f\<in>set fs. \<not> is_pm (f, leg_asset a)" if "\<not> list_ex hit (take (length fs) (map answers [0..<2 * length fs]))"
  proof
    fix f assume "f \<in> set fs"
    then obtain i where i: "i < length fs" "f = fs ! i" by (auto simp: in_set_conv_nth)
    with that have "\<not> hit (answers i)" by (auto simp: list_ex_length)
    from u [OF _ this] i show "\<not> is_pm (f, leg_asset a)" by (simp add: stage1_calls_def nth_append)
  qed
  show "\<forall>f\<in>set fs. \<not> is_pm (f, leg_asset b)" if "\<not> list_ex hit (drop (length fs) (map answers [0..<2 * length fs]))"
  proof
    fix f assume "f \<in> set fs"
    then obtain i where i: "i < length fs" "f = fs ! i" by (auto simp: in_set_conv_nth)
    with that have "\<not> hit (answers (length fs + i))" by (auto simp: list_ex_length)
    from u [OF _ this] i show "\<not> is_pm (f, leg_asset b)" by (simp add: stage1_calls_def nth_append)
  qed
qed

lemma decide_legs_one:
  assumes "truthful is_pm (stage1_calls (chain_set (sp_acceptedPmFactories policy) chainId) a b) answers"
    and "denied is_pm (stage1_calls (chain_set (sp_acceptedPmFactories policy) chainId) a b) answers"
  shows "pred_state (\<lambda>r. \<forall>cs. r = Inr cs \<longrightarrow> accepted_pm policy is_pm chainId a \<noteq> accepted_pm policy is_pm chainId b)
    (decide_legs policy ctx chainId a b dc
      (take (length (chain_set (sp_acceptedPmFactories policy) chainId))
        (map answers [0..<2 * length (chain_set (sp_acceptedPmFactories policy) chainId)]))
      (drop (length (chain_set (sp_acceptedPmFactories policy) chainId))
        (map answers [0..<2 * length (chain_set (sp_acceptedPmFactories policy) chainId)])))"
    (is "pred_state ?Q (decide_legs policy ctx chainId a b dc (take ?n ?slots) (drop ?n ?slots))")
proof (cases "list_all classified ?slots \<and> list_ex hit (take ?n ?slots) \<noteq> list_ex hit (drop ?n ?slots)")
  case True
  then have "accepted_pm policy is_pm chainId a \<noteq> accepted_pm policy is_pm chainId b"
    using unaccepted_legs [OF assms] hit_legA [OF assms(1)] hit_legB [OF assms(1)] unfolding accepted_pm_def by blast
  then show ?thesis by (intro pred_stateI) simp
next
  case False
  then show ?thesis
    unfolding decide_legs_def Let_def append_take_drop_id
    by (auto simp: count_failures_eq rollupA3_Inr one_pm_failure_def)
qed

lemma a3_one_pm:
  assumes legs: "sw_legs body = [a, b]" and "serves_pm ctx is_pm views" and "reverts_deny ctx is_pm"
  shows "pred_state (\<lambda>r. \<forall>cs. r = Inr cs \<longrightarrow>
      accepted_pm policy is_pm (sw_chainId body) a \<noteq> accepted_pm policy is_pm (sw_chainId body) b) (runA3 policy ctx body)"
proof -
  let ?calls = "stage1_calls (chain_set (sp_acceptedPmFactories policy) (sw_chainId body)) a b"
  have "pred_state (\<lambda>r. \<forall>answers. r = Inr answers \<longrightarrow> truthful is_pm ?calls answers) (a3_stage1 ctx ?calls)"
    using assms(2) by (simp add: serves_pm_def truthful_def)
  from pred_state_conjI [OF this spec [OF assms(3) [unfolded reverts_deny_def], of ?calls]]
  have st: "pred_state (\<lambda>r. \<forall>answers. r = Inr answers \<longrightarrow> truthful is_pm ?calls answers \<and> denied is_pm ?calls answers)
      (a3_stage1 ctx ?calls)"
    by (rule pred_state_mono) blast
  show ?thesis
    unfolding runA3_def legs list.case Let_def
    by (auto simp: rollupA3_Inr one_pm_failure_def split: sum.split
        intro!: pred_state_bindI [OF st] pred_state_mono [OF decide_legs_one])
qed

text \<open>
  C7. What A.3 vouches for. With the body from the schema, a configured tolerance the builder
  accepts and a node whose answers are true, an approval means: the deadline is in bounds;
  one of the two legs, in either position, is a position manager of an accepted factory, whose
  owner is accepted; the other leg is its debt asset, and no accepted factory takes it for a
  position manager too (a call that reverts denies it); and the debt amount deviates from the
  share price, rounded down, by no more than the tolerance in exact integer terms, the one-unit
  floor included.
\<close>

theorem a3_approval_sound:
  assumes "buildIntentSwapChecks policy = Some run" and "wf_swap body" and "serves_pm ctx is_pm views"
  shows "pred_state (\<lambda>r. \<forall>cs. r = Inr cs \<longrightarrow>
      sw_deadline body \<le> a3_now ctx div 1000 + sp_maxDeadlineSecondsAhead policy \<and>
      (\<exists>pm debt. sw_legs body \<in> {[pm, debt], [debt, pm]} \<and>
         a3_approved policy is_pm views (sw_chainId body) (num_to_int (sp_swapPriceToleranceBps policy)) pm debt \<and>
         (reverts_deny ctx is_pm \<longrightarrow> \<not> accepted_pm policy is_pm (sw_chainId body) debt)))
    (run ctx body)"
proof -
  from assms(1) have run: "run = runA3 policy" and bps: "0 \<le> num_to_int (sp_swapPriceToleranceBps policy)"
    by (auto simp: buildIntentSwapChecks_def num_isInteger_iff split: if_splits)
  from assms(2) obtain a b where legs: "sw_legs body = [a, b]"
    by (auto simp: wf_swap_def numeral_2_eq_2 length_Suc_conv)
  have "pred_state (\<lambda>r. \<forall>cs. r = Inr cs \<longrightarrow> (reverts_deny ctx is_pm \<longrightarrow>
      accepted_pm policy is_pm (sw_chainId body) a \<noteq> accepted_pm policy is_pm (sw_chainId body) b)) (runA3 policy ctx body)"
    using a3_one_pm [OF legs assms(3), of policy] by (cases "reverts_deny ctx is_pm") simp_all
  from pred_state_conjI [OF a3_approval [OF bps assms(2,3)] this]
  show ?thesis unfolding run
    by (rule pred_state_mono) (auto simp: swap_approved_def legs a3_approved_def accepted_pm_def Let_def)
qed

lemma ex_serves_pm:
  "serves_pm ex_a3_ctx (\<lambda>c. snd c = ''0xpm'') (\<lambda>pm. \<lparr>pv_owner = ''0xow'', pv_collateralAsset = ''0xcc'',
     pv_debtAsset = ''0xdd'', pv_totalAssets = 2999, pv_totalSupply = 900, pv_mgmtFeeShares = 50,
     pv_perfFeeShares = 49, pv_virtualShareOffset = 1\<rparr>)"
  by (simp add: serves_pm_def ex_a3_ctx_def)

definition ex_wf_swap :: intent_swap_body where
  "ex_wf_swap = \<lparr>sw_chainId = 1, sw_facility = ''0x'' @ replicate 40 (CHR ''a''),
     sw_legs = [\<lparr>leg_intent = \<lparr>ir_id = ''1''\<rparr>, leg_asset = ''0x'' @ replicate 40 (CHR ''b''), leg_amount = ''100''\<rparr>,
                \<lparr>leg_intent = \<lparr>ir_id = ''2''\<rparr>, leg_asset = ''0x'' @ replicate 40 (CHR ''c''), leg_amount = ''301''\<rparr>],
     sw_deadline = 60\<rparr>"

lemma wf_ex_swap: "wf_swap ex_wf_swap"
proof -
  have n: "show_nat 1 = ''1''" "show_nat 2 = ''2''" "show_nat 100 = ''100''" "show_nat 301 = ''301''"
    by code_simp+
  have i1: "wf_intent \<lparr>ir_id = ''1''\<rparr>" unfolding wf_intent_def by (rule exI [of _ 1]) (use n in simp)
  have i2: "wf_intent \<lparr>ir_id = ''2''\<rparr>" unfolding wf_intent_def by (rule exI [of _ 2]) (simp add: n)
  have a1: "\<exists>k. ''100'' = show_nat k \<and> int k < 2 ^ 256" by (rule exI [of _ 100]) (simp add: n)
  have a2: "\<exists>k. ''301'' = show_nat k \<and> int k < 2 ^ 256" by (rule exI [of _ 301]) (simp add: n)
  have h: "is_address (''0x'' @ replicate 40 (CHR ''a''))" "is_address (''0x'' @ replicate 40 (CHR ''b''))"
    "is_address (''0x'' @ replicate 40 (CHR ''c''))"
    by code_simp+
  show ?thesis
    using i1 i2 a1 a2 h by (simp add: wf_swap_def wf_leg_def wf_chain_deadline_def ex_wf_swap_def MAX_SAFE_INTEGER_def)
qed

text \<open>A node for this body: the asset of the first leg is a position manager whose debt asset is the other's.\<close>

definition ex_wf_pm :: string where
  "ex_wf_pm = ''0x'' @ replicate 40 (CHR ''b'')"

definition ex_wf_views :: pm_views where
  "ex_wf_views = \<lparr>pv_owner = ''0xow'', pv_collateralAsset = ''0xcc'', pv_debtAsset = ''0x'' @ replicate 40 (CHR ''C''),
     pv_totalAssets = 2999, pv_totalSupply = 900, pv_mgmtFeeShares = 50, pv_perfFeeShares = 49,
     pv_virtualShareOffset = 1\<rparr>"

definition ex_wf_a3_ctx :: "unit a3_ctx" where
  "ex_wf_a3_ctx =
     \<lparr>a3_stage1 = \<lambda>calls. ret (Inr (\<lambda>i. SlotSuccess (snd (calls ! i) = ex_wf_pm))),
      a3_stage2 = \<lambda>pm. ret (Inr ex_wf_views), a3_now = 0\<rparr>"

theorem a3_approval_sound_witness:
  "isr (result_of (runA3 ex_a3_policy ex_wf_a3_ctx ex_wf_swap) ()) \<and>
   (\<exists>pm debt. sw_legs ex_wf_swap \<in> {[pm, debt], [debt, pm]} \<and>
      a3_approved ex_a3_policy (\<lambda>c. snd c = ex_wf_pm) (\<lambda>_. ex_wf_views) 1 1 pm debt \<and>
      \<not> accepted_pm ex_a3_policy (\<lambda>c. snd c = ex_wf_pm) 1 debt)"
proof -
  have b: "buildIntentSwapChecks ex_a3_policy = Some (runA3 ex_a3_policy)"
    by (simp add: buildIntentSwapChecks_def ex_a3_policy_def)
  have s: "serves_pm ex_wf_a3_ctx (\<lambda>c. snd c = ex_wf_pm) (\<lambda>_. ex_wf_views)"
    and d: "reverts_deny ex_wf_a3_ctx (\<lambda>c. snd c = ex_wf_pm)"
    by (simp_all add: serves_pm_def reverts_deny_def denied_def ex_wf_a3_ctx_def)
  have "isr (result_of (runA3 ex_a3_policy ex_wf_a3_ctx ex_wf_swap) ())" by code_simp
  moreover have "sw_chainId ex_wf_swap = 1" "num_to_int (sp_swapPriceToleranceBps ex_a3_policy) = 1" by code_simp+
  ultimately show ?thesis
    using pred_stateD' [OF a3_approval_sound [OF b wf_ex_swap s], of "()"] d
    by (auto simp: isr_case result_of_def split: sum.splits)
qed

end
