(* ===== verification/Whitelisting.thy ===== *)
theory Whitelisting
  imports Request_Binding
begin

text \<open>
  The A.4 runner of whitelist operations (\<open>checks/request-whitelisting.ts\<close>): the batch cap
  and the book gate before any read, A.1 for every contract of a whitelist operation, the
  deadline, and the per-validator nonce window of the book.
\<close>

section \<open>Policy and reads\<close>

record a4_policy = a1_policy +
  wp_maxNonceAboveFloor :: int
  wp_acceptedWhitelistBooks :: "chain_sets option"
  wp_maxRequestContracts :: "jsnum option"

text \<open>
  The client of A.1 and the nonce multicall with \<open>allowFailure: false\<close>: the floor of the
  validator in the book and whether it has consumed the nonce, or what viem throws.
\<close>

record 'w a4_ctx = "'w a1_ctx" +
  a4_nonce_state :: "string \<Rightarrow> string \<Rightarrow> int \<Rightarrow> ('w, thrown + int \<times> bool) state"

record 'w a4_deps =
  wd_policy :: a4_policy
  wd_guardianSigner :: string
  wd_cache :: "('w, a1_data) async_cache option"
  wd_cacheTtlMs :: "jsnum option"

definition DEFAULT_MAX_REQUEST_CONTRACTS :: jsnum where
  "DEFAULT_MAX_REQUEST_CONTRACTS = JFin 50"

definition NONCE_CHECK_DESCRIPTIONS :: "string list" where
  "NONCE_CHECK_DESCRIPTIONS =
     [''nonce has not been consumed by the on-chain whitelist book'',
      ''nonce is at or above the on-chain nonce floor'',
      ''nonce does not exceed floor + MAX_NONCE_ABOVE_FLOOR'']"

definition BATCH_D :: string where
  "BATCH_D = ''requestContracts batch size is within MAX_REQUEST_CONTRACTS''"
definition BOOK_D :: string where
  "BOOK_D = ''whitelist book is on the accepted-books list''"
definition NONCE_STATE_D :: string where
  "NONCE_STATE_D = ''whitelist book exposes per-validator nonce state''"

lemmas a4_descriptions = BATCH_D_def BOOK_D_def NONCE_STATE_D_def NONCE_CHECK_DESCRIPTIONS_def


section \<open>The entries of one contract\<close>

definition isA1DeadlineEntry :: "check_entry \<Rightarrow> bool" where
  "isA1DeadlineEntry e \<longleftrightarrow> ce_description e = DEADLINE_CHECK_DESCRIPTION"

definition suffixed :: "check_entry \<Rightarrow> string \<Rightarrow> check_entry" where
  "suffixed e contract =
     (let description = ce_description e @ '' (for '' @ contract @ '')'' in
      if ce_skipped e then skipped description
      else if ce_passed e then passed description
      else failed description (case ce_reason e of None \<Rightarrow> ''check failed'' | Some r \<Rightarrow> r))"

definition batch_entries :: "string \<Rightarrow> check_entry list \<Rightarrow> check_entry list" where
  "batch_entries contract entries =
     map (\<lambda>e. suffixed e contract) (filter (\<lambda>e. \<not> isA1DeadlineEntry e) entries)"

text \<open>
  The sequential loop over \<open>requestContracts\<close>. A 503 of any contract ends it; every other
  error A.1 has is a 422, whose \<open>checks\<close> are collected (\<open>runA1_contract\<close> shows that no other
  error reaches the last line).
\<close>

fun run_contracts ::
    "'w a1_ctx \<Rightarrow> 'w a1_deps \<Rightarrow> int \<Rightarrow> int \<Rightarrow> string list \<Rightarrow> check_entry list \<Rightarrow>
     ('w, guardian_error + check_entry list) state" where
  "run_contracts ctx deps chainId deadline [] checks = ret (Inr checks)"
| "run_contracts ctx deps chainId deadline (requestContract # rest) checks = do {
     r \<leftarrow> runA1 ctx deps chainId requestContract deadline;
     case r of
       Inr entries \<Rightarrow>
         run_contracts ctx deps chainId deadline rest (checks @ batch_entries requestContract entries)
     | Inl e \<Rightarrow>
         (case e of
            UpstreamUnavailableError m st ra \<Rightarrow> ret (Inl e)
          | ValidationFailedError m entries \<Rightarrow>
              run_contracts ctx deps chainId deadline rest (checks @ batch_entries requestContract entries)
          | _ \<Rightarrow> ret (Inl e))
   }"


section \<open>The runner\<close>

definition rollupA4 :: "check_entry list \<Rightarrow> guardian_error + check_entry list" where
  "rollupA4 checks = roll_result (rollUp checks ''Appendix A.4 checks failed'')"

text \<open>\<open>BigInt(body.nonce)\<close>; the schema lets canonical decimals through only.\<close>

definition nonce_number :: "request_whitelisting_body \<Rightarrow> int" where
  "nonce_number body = (case BigInt (wl_nonce body) of Some n \<Rightarrow> n | None \<Rightarrow> 0)"

text \<open>The entry of the book gate, when one is configured.\<close>

definition book_check :: "a4_policy \<Rightarrow> request_whitelisting_body \<Rightarrow> check_entry list" where
  "book_check policy body =
     (case wp_acceptedWhitelistBooks policy of
        None \<Rightarrow> []
      | Some books \<Rightarrow> [checkMembership BOOK_D (wl_whitelistBook body) (chain_set books (wl_chainId body)) True None])"

definition a4_deadline :: "a4_policy \<Rightarrow> int \<Rightarrow> request_whitelisting_body \<Rightarrow> check_entry" where
  "a4_deadline policy nowMs body =
     checkDeadline (now_seconds nowMs) (wl_deadline body) (ap_maxDeadlineSecondsAhead policy)"

text \<open>
  The entries for the answer of the nonce reads; \<open>None\<close> where the read failed for another
  reason than the book not being one, and the runner answers 503.
\<close>

definition nonce_entries ::
    "a4_policy \<Rightarrow> request_whitelisting_body \<Rightarrow> thrown + int \<times> bool \<Rightarrow> check_entry list option" where
  "nonce_entries policy body r =
     (case r of
        Inl e \<Rightarrow>
          if isDeterministicContractCallFailure e [''validatorNonceFloor'', ''isNonceConsumed'']
          then Some (failed NONCE_STATE_D
               (''whitelist book '' @ wl_whitelistBook body @ '' did not answer '' @
                ''validatorNonceFloor/isNonceConsumed (EOA or non-book contract)'') #
             map skipped NONCE_CHECK_DESCRIPTIONS)
          else None
      | Inr (nonceFloor, consumed) \<Rightarrow>
          Some (checkNonceWindow (nonce_number body) consumed nonceFloor (wp_maxNonceAboveFloor policy)))"

definition finish_nonce ::
    "'w a4_deps \<Rightarrow> 'w a4_ctx \<Rightarrow> request_whitelisting_body \<Rightarrow> check_entry list \<Rightarrow>
     ('w, guardian_error + check_entry list) state" where
  "finish_nonce deps ctx body checks = do {
     r \<leftarrow> a4_nonce_state ctx (wl_whitelistBook body) (wd_guardianSigner deps) (nonce_number body);
     ret (case nonce_entries (wd_policy deps) body r of
        None \<Rightarrow> Inl (upstream503 ''whitelist-book read failed upstream'')
      | Some entries \<Rightarrow> rollupA4 (checks @ entries))
   }"

definition a1_deps_of :: "'w a4_deps \<Rightarrow> 'w a1_deps" where
  "a1_deps_of deps =
     \<lparr>ad_policy = a1_policy.truncate (wd_policy deps), ad_cache = wd_cache deps, ad_cacheTtlMs = wd_cacheTtlMs deps\<rparr>"

definition max_request_contracts :: "a4_policy \<Rightarrow> jsnum" where
  "max_request_contracts policy =
     (case wp_maxRequestContracts policy of None \<Rightarrow> DEFAULT_MAX_REQUEST_CONTRACTS | Some n \<Rightarrow> n)"

definition runA4 ::
    "'w a4_deps \<Rightarrow> 'w a4_ctx \<Rightarrow> request_whitelisting_body \<Rightarrow> ('w, guardian_error + check_entry list) state" where
  "runA4 deps ctx body =
     (let policy = wd_policy deps;
          deadlineCheck = a4_deadline policy (a1_now ctx) body;
          gate = book_check policy body;
          maxRequestContracts = num_to_int (max_request_contracts policy)
      in if int (length (wl_requestContracts body)) > maxRequestContracts
         then ret (rollupA4 [failed BATCH_D
                (''batch of '' @ show_nat (length (wl_requestContracts body)) @ '' contracts exceeds the maximum of '' @
                 show_int maxRequestContracts)])
         else if list_ex (\<lambda>c. \<not> ce_passed c) gate
         then ret (rollupA4 (gate @ [deadlineCheck] @ map skipped NONCE_CHECK_DESCRIPTIONS))
         else bindE
           (if wl_operation body = Whitelist
            then run_contracts (a1_ctx.truncate ctx) (a1_deps_of deps) (wl_chainId body) (wl_deadline body)
                   (wl_requestContracts body) gate
            else ret (Inr gate))
           (\<lambda>checks. finish_nonce deps ctx body (checks @ [deadlineCheck])))"

text \<open>The builder throws on a batch cap or a retargetter buffer that is not an integer in range.\<close>

definition buildRequestWhitelistingChecks ::
    "'w a4_deps \<Rightarrow> ('w a4_ctx \<Rightarrow> request_whitelisting_body \<Rightarrow> ('w, guardian_error + check_entry list) state) option" where
  "buildRequestWhitelistingChecks deps =
     (let m = max_request_contracts (wd_policy deps) in
      if \<not> num_isInteger m \<or> num_lt_int m 1 then None
      else if assertRetargetterPolicy (a1_policy.truncate (wd_policy deps)) then Some (runA4 deps)
      else None)"


section \<open>Shape of the results\<close>

lemma wf_suffixed [wf_rules]: "wf_entry e \<Longrightarrow> wf_entry (suffixed e c)"
  by (auto simp: suffixed_def Let_def wf_entry_def zCheckEntry_def)

lemma ce_suffixed [simp]:
  "ce_description (suffixed e c) = ce_description e @ '' (for '' @ c @ '')''"
  "ce_passed (suffixed e c) \<longleftrightarrow> ce_passed e \<or> ce_skipped e"
  "ce_skipped (suffixed e c) \<longleftrightarrow> ce_skipped e"
  by (auto simp: suffixed_def Let_def)

lemma wf_batch_entries [wf_rules]: "list_all wf_entry es \<Longrightarrow> list_all wf_entry (batch_entries c es)"
  by (auto simp: batch_entries_def list_all_iff intro: wf_suffixed)

lemma suffixed_not_deadline [simp]: "\<not> isA1DeadlineEntry (suffixed e c)"
proof
  assume "isA1DeadlineEntry (suffixed e c)"
  then have "last (ce_description (suffixed e c)) = last DEADLINE_CHECK_DESCRIPTION"
    by (simp add: isA1DeadlineEntry_def)
  then show False by (simp add: DEADLINE_CHECK_DESCRIPTION_def)
qed

lemma batch_entries_deadline [simp]: "filter isA1DeadlineEntry (batch_entries c es) = []"
  by (auto simp: batch_entries_def filter_empty_conv)

lemma batch_entries_passed:
  "list_all wf_entry es \<Longrightarrow>
   all_passed (batch_entries c es) \<longleftrightarrow> (\<forall>e\<in>set es. \<not> isA1DeadlineEntry e \<longrightarrow> ce_passed e)"
  by (fastforce simp: batch_entries_def all_passed_def list_all_iff wf_entry_def)

text \<open>A.1 reports its deadline entry exactly once, whatever path it takes.\<close>

definition a1_entries :: "guardian_error + check_entry list \<Rightarrow> check_entry list option" where
  "a1_entries r = (case r of Inr es \<Rightarrow> Some es | Inl (ValidationFailedError m es) \<Rightarrow> Some es | Inl _ \<Rightarrow> None)"

definition deadline_once :: "check_entry \<Rightarrow> guardian_error + check_entry list \<Rightarrow> bool" where
  "deadline_once dc r \<longleftrightarrow> (\<forall>es. a1_entries r = Some es \<longrightarrow> filter isA1DeadlineEntry es = [dc])"

lemma isA1DeadlineEntry_checkDeadline [simp]: "isA1DeadlineEntry (checkDeadline n d m)"
  by (simp add: isA1DeadlineEntry_def checkDeadline_def Let_def)

lemma deadline_once_503: "is_503 e \<Longrightarrow> deadline_once dc (Inl e)"
  by (auto simp: is_503_def deadline_once_def a1_entries_def upstream503_def)

lemma deadline_once_rollupA1:
  "filter isA1DeadlineEntry es = [dc] \<Longrightarrow> deadline_once dc (rollupA1 es)"
  by (simp add: deadline_once_def a1_entries_def rollupA1_def roll_result_rollUp)

lemma not_deadline [simp]:
  "d \<noteq> DEADLINE_CHECK_DESCRIPTION \<Longrightarrow> \<not> isA1DeadlineEntry (passed d)"
  "d \<noteq> DEADLINE_CHECK_DESCRIPTION \<Longrightarrow> \<not> isA1DeadlineEntry (skipped d)"
  "d \<noteq> DEADLINE_CHECK_DESCRIPTION \<Longrightarrow> \<not> isA1DeadlineEntry (failed d r)"
  by (simp_all add: isA1DeadlineEntry_def)

lemma not_deadline_checks [simp]:
  "d \<noteq> DEADLINE_CHECK_DESCRIPTION \<Longrightarrow> \<not> isA1DeadlineEntry (checkMembership d v a l f)"
  "d \<noteq> DEADLINE_CHECK_DESCRIPTION \<Longrightarrow> \<not> isA1DeadlineEntry (role_check x d m a p)"
  by (auto simp: checkMembership_def role_check_def checkSubset_def checkPartialHolders_def Let_def
      split: a1_data.split)

lemma deadline_evaluateA1:
  "isA1DeadlineEntry dc \<Longrightarrow> filter isA1DeadlineEntry (evaluateA1 d c p dc) = [dc]"
  by (simp add: evaluateA1_def factory_failure_def a1_descriptions Let_def)

lemma deadline_evaluateRetargetter:
  "isA1DeadlineEntry dc \<Longrightarrow> filter isA1DeadlineEntry (evaluateRetargetter r q n p dc) = [dc]"
  by (simp add: evaluateRetargetter_def a1_descriptions Let_def)

lemma deadline_trusted:
  "isA1DeadlineEntry dc \<Longrightarrow> filter isA1DeadlineEntry (trustedRequestContractChecks dc) = [dc]"
  by (simp add: trustedRequestContractChecks_def a1_descriptions)

lemma runA1_deadline_once:
  "pred_state (deadline_once (checkDeadline (now_seconds (a1_now ctx)) deadline (ap_maxDeadlineSecondsAhead (ad_policy deps))))
     (runA1 ctx deps chainId requestContract deadline)"
    (is "pred_state (deadline_once ?dc) _")
proof -
  have e: "pred_state (deadline_once ?dc) (bindE (fetchA1OnChain ctx c q p) f)"
    if "\<And>a. pred_state (deadline_once ?dc) (f a)" for c q p f
    by (rule pred_state_bindE [where Q = "\<lambda>_. True"])
      (use fetchA1OnChain_error [of ctx c q p] that in
        \<open>auto elim!: pred_state_mono intro: deadline_once_503 split: sum.splits\<close>)
  show ?thesis
    unfolding runA1_def Let_def
    by (auto intro!: pred_state_bind_any e deadline_once_rollupA1 deadline_evaluateA1
        deadline_evaluateRetargetter deadline_trusted split: option.splits a1_fetched.splits)
qed


section \<open>The batch\<close>

lemma nonce_descriptions_ne [simp]:
  "list_all wf_entry (map skipped NONCE_CHECK_DESCRIPTIONS)"
  "filter isA1DeadlineEntry (map skipped NONCE_CHECK_DESCRIPTIONS) = []"
  "all_passed (map skipped NONCE_CHECK_DESCRIPTIONS)"
  by (simp_all add: NONCE_CHECK_DESCRIPTIONS_def isA1DeadlineEntry_def DEADLINE_CHECK_DESCRIPTION_def)

lemma nonce_window_deadline [simp]: "filter isA1DeadlineEntry (checkNonceWindow n c f m) = []"
  by (simp add: checkNonceWindow_def nonce_descriptions isA1DeadlineEntry_def DEADLINE_CHECK_DESCRIPTION_def)

lemma not_batch_descriptions [simp]:
  "BATCH_D \<noteq> DEADLINE_CHECK_DESCRIPTION" "BOOK_D \<noteq> DEADLINE_CHECK_DESCRIPTION"
  "NONCE_STATE_D \<noteq> DEADLINE_CHECK_DESCRIPTION" "BATCH_D \<noteq> []" "BOOK_D \<noteq> []" "NONCE_STATE_D \<noteq> []"
  by (simp_all add: a4_descriptions DEADLINE_CHECK_DESCRIPTION_def)

definition is_unavailable :: "guardian_error \<Rightarrow> bool" where
  "is_unavailable e \<longleftrightarrow> (\<exists>m ra. e = UpstreamUnavailableError m HTTP503 ra)"

lemma runner_result_unavailable [io_rules]: "is_unavailable e \<Longrightarrow> runner_result b (Inl e)"
  by (auto simp: is_unavailable_def)

text \<open>
  The loop collects, in the order of the batch, what A.1 reports of each contract, whether
  it approves or answers 422; an error of the loop is a 503.
\<close>

definition collected :: "(string \<Rightarrow> check_entry list \<Rightarrow> bool) \<Rightarrow> string list \<Rightarrow> check_entry list \<Rightarrow> check_entry list \<Rightarrow> bool" where
  "collected P qs acc cs \<longleftrightarrow> (\<exists>ess. list_all2 P qs ess \<and> cs = acc @ concat (map2 batch_entries qs ess))"

lemma collected_Cons:
  "P q es \<Longrightarrow> collected P qs (acc @ batch_entries q es) cs \<Longrightarrow> collected P (q # qs) acc cs"
  unfolding collected_def by (elim exE conjE, rule_tac x = "es # ess" in exI) simp

lemma run_contracts_entries:
  assumes "\<And>q. q \<in> set qs \<Longrightarrow>
      pred_state (\<lambda>r. \<forall>es. a1_entries r = Some es \<longrightarrow> P q es) (runA1 ctx deps chainId q deadline)"
  shows "pred_state (case_sum is_unavailable (collected P qs acc)) (run_contracts ctx deps chainId deadline qs acc)"
  using assms
proof (induction qs arbitrary: acc)
  case (Cons q qs)
  have rec: "pred_state (case_sum is_unavailable (collected P (q # qs) acc))
      (run_contracts ctx deps chainId deadline qs (acc @ batch_entries q es))" if "P q es" for es
    by (rule pred_state_mono [OF Cons.IH])
      (use Cons.prems that in \<open>auto split: sum.splits intro: collected_Cons\<close>)
  let ?R = "\<lambda>r. (\<forall>es. a1_entries r = Some es \<longrightarrow> P q es) \<and> runner_result False r"
  have "pred_state ?R (runA1 ctx deps chainId q deadline)"
    using Cons.prems by (intro pred_state_conjI runA1_contract) auto
  then show ?case
    unfolding run_contracts.simps
  proof (rule pred_state_bindI)
    fix r assume "?R r"
    then show "pred_state (case_sum is_unavailable (collected P (q # qs) acc)) (case r of
        Inr es \<Rightarrow> run_contracts ctx deps chainId deadline qs (acc @ batch_entries q es)
      | Inl e \<Rightarrow> (case e of
            UpstreamUnavailableError m st ra \<Rightarrow> ret (Inl e)
          | ValidationFailedError m es \<Rightarrow> run_contracts ctx deps chainId deadline qs (acc @ batch_entries q es)
          | _ \<Rightarrow> ret (Inl e)))"
      by (auto simp: a1_entries_def is_unavailable_def intro!: rec split: sum.splits guardian_error.splits)
  qed
qed (simp add: collected_def)

lemma collected_wf:
  "collected P qs acc cs \<Longrightarrow> (\<And>q es. P q es \<Longrightarrow> list_all wf_entry es) \<Longrightarrow> list_all wf_entry acc \<Longrightarrow> list_all wf_entry cs"
proof -
  assume c: "collected P qs acc cs" and P: "\<And>q es. P q es \<Longrightarrow> list_all wf_entry es" and a: "list_all wf_entry acc"
  have "list_all wf_entry (concat (map2 batch_entries qs ess))" if "list_all2 P qs ess" for ess
    using that by (induction rule: list_all2_induct) (auto intro: wf_batch_entries P)
  with c a show ?thesis by (auto simp: collected_def)
qed

lemma map2_batch_deadline [simp]: "filter isA1DeadlineEntry (concat (map2 batch_entries qs ess)) = []"
  by (auto simp: filter_empty_conv batch_entries_def elim!: in_set_zipE)

text \<open>What follows the batch: the nonce entries, or the entry that there are none.\<close>

definition nonce_tail :: "(int \<Rightarrow> bool \<Rightarrow> bool) \<Rightarrow> int \<Rightarrow> int \<Rightarrow> check_entry list \<Rightarrow> bool" where
  "nonce_tail Q nonce maxAbove tail \<longleftrightarrow>
     list_all wf_entry tail \<and> filter isA1DeadlineEntry tail = [] \<and>
     tail \<noteq> [] \<and> (all_passed tail \<longrightarrow> (\<exists>floor consumed. Q floor consumed \<and> \<not> consumed \<and> floor \<le> nonce \<and> nonce \<le> floor + maxAbove))"

lemma nonce_tail_window: "Q f c \<Longrightarrow> nonce_tail Q n m (checkNonceWindow n c f m)"
  by (auto simp: nonce_tail_def wf_checkNonceWindow checkNonceWindow_passed) (simp add: checkNonceWindow_def)

lemma nonce_tail_failed: "r \<noteq> [] \<Longrightarrow> nonce_tail Q n m (failed NONCE_STATE_D r # map skipped NONCE_CHECK_DESCRIPTIONS)"
  by (simp add: nonce_tail_def)

lemma nonce_entries_tail:
  assumes "\<forall>f c. r = Inr (f, c) \<longrightarrow> Q f c" and "nonce_entries policy body r = Some tail"
  shows "nonce_tail Q (nonce_number body) (wp_maxNonceAboveFloor policy) tail"
  using assms unfolding nonce_entries_def
  by (auto simp: nonce_tail_window nonce_tail_failed split: sum.splits prod.splits if_splits)

definition a4_tail_result ::
    "(int \<Rightarrow> bool \<Rightarrow> bool) \<Rightarrow> 'w a4_deps \<Rightarrow> request_whitelisting_body \<Rightarrow> check_entry list \<Rightarrow>
     guardian_error + check_entry list \<Rightarrow> bool" where
  "a4_tail_result Q deps body checks r \<longleftrightarrow>
     r = Inl (upstream503 ''whitelist-book read failed upstream'') \<or>
     (\<exists>tail. r = rollupA4 (checks @ tail) \<and>
        nonce_tail Q (nonce_number body) (wp_maxNonceAboveFloor (wd_policy deps)) tail)"

lemma finish_nonce_result:
  assumes "pred_state (\<lambda>r. \<forall>f c. r = Inr (f, c) \<longrightarrow> Q f c)
      (a4_nonce_state ctx (wl_whitelistBook body) (wd_guardianSigner deps) (nonce_number body))"
  shows "pred_state (a4_tail_result Q deps body checks) (finish_nonce deps ctx body checks)"
  unfolding finish_nonce_def
  by (rule pred_state_bindI [OF assms])
    (auto simp: a4_tail_result_def split: option.splits dest: nonce_entries_tail)

text \<open>The whole run, beyond the two guards that answer before any read.\<close>

lemma runA4_result:
  assumes Q: "pred_state (\<lambda>r. \<forall>f c. r = Inr (f, c) \<longrightarrow> Q f c)
      (a4_nonce_state ctx (wl_whitelistBook body) (wd_guardianSigner deps) (nonce_number body))"
    and P: "\<And>q. q \<in> set (wl_requestContracts body) \<Longrightarrow> wl_operation body = Whitelist \<Longrightarrow>
      pred_state (\<lambda>r. \<forall>es. a1_entries r = Some es \<longrightarrow> P q es)
        (runA1 (a1_ctx.truncate ctx) (a1_deps_of deps) (wl_chainId body) q (wl_deadline body))"
    and small: "int (length (wl_requestContracts body)) \<le> num_to_int (max_request_contracts (wd_policy deps))"
    and gate: "all_passed (book_check (wd_policy deps) body)"
  shows "pred_state (\<lambda>r. (\<exists>e. r = Inl e \<and> is_unavailable e) \<or>
     (\<exists>cs. collected P (if wl_operation body = Whitelist then wl_requestContracts body else [])
             (book_check (wd_policy deps) body) cs \<and>
           a4_tail_result Q deps body (cs @ [a4_deadline (wd_policy deps) (a1_now ctx) body]) r))
   (runA4 deps ctx body)"
proof -
  let ?qs = "if wl_operation body = Whitelist then wl_requestContracts body else []"
  let ?gate = "book_check (wd_policy deps) body"
  have g: "\<not> list_ex (\<lambda>c. \<not> ce_passed c) ?gate"
    using gate by (auto simp: all_passed_def list_all_iff list_ex_iff)
  have "pred_state (case_sum is_unavailable (collected P ?qs ?gate))
      (if wl_operation body = Whitelist
       then run_contracts (a1_ctx.truncate ctx) (a1_deps_of deps) (wl_chainId body) (wl_deadline body)
              (wl_requestContracts body) ?gate
       else ret (Inr ?gate))"
    using P by (auto simp: collected_def intro!: run_contracts_entries)
  then show ?thesis
    using small g unfolding runA4_def Let_def
    by (auto intro!: pred_state_bindE [where Q = "collected P ?qs ?gate"] elim!: pred_state_mono
        intro: pred_state_mono [OF finish_nonce_result [OF Q]] split: sum.splits)
qed


lemma a1_entries_wf: "runner_result b r \<Longrightarrow> a1_entries r = Some es \<Longrightarrow> list_all wf_entry es"
  by (auto simp: a1_entries_def split: sum.splits guardian_error.splits)

lemma a1_entries_passed: "runner_result b r \<Longrightarrow> a1_entries r = Some es \<Longrightarrow> all_passed es \<longleftrightarrow> r = Inr es"
  by (auto simp: a1_entries_def split: sum.splits guardian_error.splits)

lemma runA1_entries_wf:
  "pred_state (\<lambda>r. \<forall>es. a1_entries r = Some es \<longrightarrow> list_all wf_entry es) (runA1 ctx deps chainId q deadline)"
  by (rule pred_state_mono [OF runA1_contract [of True]]) (auto dest: a1_entries_wf)

lemma book_check_facts [simp]:
  "list_all wf_entry (book_check policy body)" "filter isA1DeadlineEntry (book_check policy body) = []"
  by (auto simp: book_check_def wf_rules split: option.splits)

lemma wf_a4_deadline [simp]:
  "wf_entry (a4_deadline policy n body)" "isA1DeadlineEntry (a4_deadline policy n body)"
  "ce_passed (a4_deadline policy n body) \<longleftrightarrow>
     wl_deadline body \<le> now_seconds n + ap_maxDeadlineSecondsAhead policy"
  by (simp_all add: a4_deadline_def wf_rules checkDeadline_simps)

lemma runner_result_rollupA4: "list_all wf_entry cs \<Longrightarrow> runner_result b (rollupA4 cs)"
  by (simp add: rollupA4_def runner_result_rollUp)

lemma runA4_refused:
  assumes "int (length (wl_requestContracts body)) > num_to_int (max_request_contracts (wd_policy deps)) \<or>
    \<not> all_passed (book_check (wd_policy deps) body)"
  shows "\<exists>cs m. runA4 deps ctx body = ret (Inl (ValidationFailedError m cs)) \<and> \<not> all_passed cs \<and> list_all wf_entry cs"
proof -
  have g: "list_ex (\<lambda>c. \<not> ce_passed c) (book_check (wd_policy deps) body) \<longleftrightarrow> \<not> all_passed (book_check (wd_policy deps) body)"
    by (auto simp: all_passed_def list_all_iff list_ex_iff)
  show ?thesis
    using assms unfolding runA4_def Let_def g
    by (auto simp: rollupA4_def roll_result_rollUp)
qed

lemma runA4_contract: "pred_state (runner_result conflict) (runA4 deps ctx body)"
proof (cases "int (length (wl_requestContracts body)) > num_to_int (max_request_contracts (wd_policy deps)) \<or>
    \<not> all_passed (book_check (wd_policy deps) body)")
  case True
  from runA4_refused [OF this, of ctx] show ?thesis by auto
next
  case False
  let ?P = "\<lambda>(_::string) es. list_all wf_entry es"
  have "list_all wf_entry (cs @ [a4_deadline (wd_policy deps) (a1_now ctx) body])"
    if "collected ?P qs (book_check (wd_policy deps) body) cs" for qs cs
    using that by (auto dest: collected_wf)
  with False show ?thesis
    by (intro pred_state_mono [OF runA4_result [where Q = "\<lambda>_ _. True" and P = ?P]] runA1_entries_wf)
      (auto simp: a4_tail_result_def nonce_tail_def intro!: io_rules runner_result_rollupA4)
qed

lemma truncate_simps [simp]:
  "a1_now (a1_ctx.truncate ctx) = a1_now ctx"
  "ap_maxDeadlineSecondsAhead (a1_policy.truncate policy) = ap_maxDeadlineSecondsAhead policy"
  "ad_policy (a1_deps_of deps) = a1_policy.truncate (wd_policy deps)"
  "ad_cache (a1_deps_of deps) = wd_cache deps"
  by (simp_all add: a1_ctx.defs a1_policy.defs a1_deps_of_def)

lemma runA1_entries_deadline:
  "pred_state (\<lambda>r. \<forall>es. a1_entries r = Some es \<longrightarrow>
       filter isA1DeadlineEntry es = [a4_deadline (wd_policy deps) (a1_now ctx) body])
     (runA1 (a1_ctx.truncate ctx) (a1_deps_of deps) chainId q (wl_deadline body))"
  by (rule pred_state_mono [OF runA1_deadline_once]) (simp add: deadline_once_def a4_deadline_def)

text \<open>A run that gets past the guards, and what it answers unless the answer is a 503.\<close>

definition a4_guarded :: "'w a4_deps \<Rightarrow> request_whitelisting_body \<Rightarrow> bool" where
  "a4_guarded deps body \<longleftrightarrow>
     int (length (wl_requestContracts body)) \<le> num_to_int (max_request_contracts (wd_policy deps)) \<and>
     all_passed (book_check (wd_policy deps) body)"

definition a4_contracts :: "request_whitelisting_body \<Rightarrow> string list" where
  "a4_contracts body = (if wl_operation body = Whitelist then wl_requestContracts body else [])"

definition a4_reports ::
    "'w a4_deps \<Rightarrow> int \<Rightarrow> request_whitelisting_body \<Rightarrow> guardian_error + check_entry list \<Rightarrow> bool" where
  "a4_reports deps nowMs body r \<longleftrightarrow>
     (\<exists>ess tail. let
        dc = a4_deadline (wd_policy deps) nowMs body;
        cs = book_check (wd_policy deps) body @ concat (map2 batch_entries (a4_contracts body) ess) @ [dc] @ tail
      in list_all2 (\<lambda>q es. filter isA1DeadlineEntry es = [dc]) (a4_contracts body) ess \<and>
         filter isA1DeadlineEntry cs = [dc] \<and> tail \<noteq> [] \<and>
         r = (if all_passed cs then Inr cs else Inl (ValidationFailedError ''Appendix A.4 checks failed'' cs)))"

lemma a4_reportsI:
  assumes "collected (\<lambda>q es. filter isA1DeadlineEntry es = [a4_deadline (wd_policy deps) n body])
      (a4_contracts body) (book_check (wd_policy deps) body) cs"
    and "nonce_tail Q k m tail"
  shows "a4_reports deps n body (rollupA4 (cs @ a4_deadline (wd_policy deps) n body # tail))"
  using assms
  by (auto simp: a4_reports_def collected_def nonce_tail_def rollupA4_def roll_result_rollUp Let_def
      intro!: exI [of _ tail])

text \<open>
  The shape of an A.4 answer. The two guards (the batch cap and the book gate) answer a
  422 without reading anything. Beyond them every answer is a 503 or reports, in this order,
  the book entry, all entries of every contract of a whitelist operation in batch order, with
  what A.1 reported of it and its deadline entry dropped, one request-wide deadline entry and
  the nonce entries; and it is a success exactly if all of them pass.
\<close>

theorem a4_report:
  "if a4_guarded deps body
   then pred_state (\<lambda>r. (\<exists>m ra. r = Inl (UpstreamUnavailableError m HTTP503 ra)) \<or> a4_reports deps (a1_now ctx) body r)
          (runA4 deps ctx body)
   else \<exists>cs m. runA4 deps ctx body = ret (Inl (ValidationFailedError m cs)) \<and> \<not> all_passed cs"
proof (cases "a4_guarded deps body")
  case True
  let ?P = "\<lambda>(_::string) es. filter isA1DeadlineEntry es = [a4_deadline (wd_policy deps) (a1_now ctx) body]"
  have "pred_state (\<lambda>r. (\<exists>m ra. r = Inl (UpstreamUnavailableError m HTTP503 ra)) \<or> a4_reports deps (a1_now ctx) body r)
          (runA4 deps ctx body)"
    using True
    by (intro pred_state_mono [OF runA4_result [where Q = "\<lambda>_ _. True" and P = ?P]] runA1_entries_deadline)
      (auto simp: is_unavailable_def a4_tail_result_def upstream503_def a4_guarded_def
        simp flip: a4_contracts_def intro: a4_reportsI)
  with True show ?thesis by simp
next
  case False
  then have "\<exists>cs m. runA4 deps ctx body = ret (Inl (ValidationFailedError m cs)) \<and> \<not> all_passed cs \<and> list_all wf_entry cs"
    by (intro runA4_refused) (auto simp: a4_guarded_def)
  then show ?thesis unfolding if_not_P [OF False] by blast
qed


text \<open>
  An approved batch: every contract was approved by A.1 on its own, and its entries are in
  the report (so that an unverified role shows there).
\<close>

definition a4_approved ::
    "'w a4_deps \<Rightarrow> (string \<Rightarrow> a1_facts) \<Rightarrow> int \<Rightarrow> request_whitelisting_body \<Rightarrow> check_entry list \<Rightarrow> bool" where
  "a4_approved deps facts nowMs body cs \<longleftrightarrow>
     (\<forall>q\<in>set (a4_contracts body). \<exists>es.
        a1_approved (a1_policy.truncate (wd_policy deps)) (wl_chainId body) q (facts q) nowMs (wl_deadline body) es \<and>
        set (batch_entries q es) \<subseteq> set cs)"

definition a1_passes ::
    "'w a4_deps \<Rightarrow> (string \<Rightarrow> a1_facts) \<Rightarrow> int \<Rightarrow> request_whitelisting_body \<Rightarrow> string \<Rightarrow> check_entry list \<Rightarrow> bool" where
  "a1_passes deps facts nowMs body q es \<longleftrightarrow>
     list_all wf_entry es \<and> filter isA1DeadlineEntry es = [a4_deadline (wd_policy deps) nowMs body] \<and>
     (all_passed es \<longrightarrow>
        a1_approved (a1_policy.truncate (wd_policy deps)) (wl_chainId body) q (facts q) nowMs (wl_deadline body) es)"

lemma runA1_passes:
  assumes "serves (a1_ctx.truncate ctx) (a1_policy.truncate (wd_policy deps)) q (facts q)"
    and "deployed_first (a1_policy.truncate (wd_policy deps)) (wl_chainId body) q (facts q)"
    and "wd_cache deps = None"
  shows "pred_state (\<lambda>r. \<forall>es. a1_entries r = Some es \<longrightarrow> a1_passes deps facts (a1_now ctx) body q es)
    (runA1 (a1_ctx.truncate ctx) (a1_deps_of deps) (wl_chainId body) q (wl_deadline body))"
  using pred_state_conjI [OF runA1_entries_deadline [of deps ctx body] pred_state_conjI [OF runA1_contract [of True]
      a1_approval [of "a1_ctx.truncate ctx" "a1_deps_of deps" q "facts q" "wl_chainId body" "wl_deadline body"]]] assms
  by (auto elim!: pred_state_mono simp: a1_passes_def a1_entries_wf a1_entries_passed)

lemma batch_passed:
  assumes "a1_passes deps facts n body q es" and "all_passed (batch_entries q es)"
    and "ce_passed (a4_deadline (wd_policy deps) n body)"
  shows "all_passed es"
proof -
  have "ce_passed e" if "e \<in> set es" for e
  proof (cases "isA1DeadlineEntry e")
    case True
    with that have "e \<in> set (filter isA1DeadlineEntry es)" by simp
    with assms(1,3) show ?thesis by (simp add: a1_passes_def)
  next
    case False
    with that assms show ?thesis by (simp add: a1_passes_def batch_entries_passed)
  qed
  then show ?thesis by (simp add: all_passed_def list_all_iff)
qed

lemma collected_approved:
  assumes "collected (a1_passes deps facts n body) (a4_contracts body) acc cs" and "all_passed cs"
    and "ce_passed (a4_deadline (wd_policy deps) n body)"
  shows "a4_approved deps facts n body cs"
proof -
  from assms(1) obtain ess where l: "list_all2 (a1_passes deps facts n body) (a4_contracts body) ess"
    and cs: "cs = acc @ concat (map2 batch_entries (a4_contracts body) ess)"
    by (auto simp: collected_def)
  have "\<exists>es. a1_approved (a1_policy.truncate (wd_policy deps)) (wl_chainId body) q (facts q) n (wl_deadline body) es \<and>
        set (batch_entries q es) \<subseteq> set cs" if "q \<in> set (a4_contracts body)" for q
  proof -
    from that l obtain es where p: "a1_passes deps facts n body q es" and z: "(q, es) \<in> set (zip (a4_contracts body) ess)"
      by (metis in_set_impl_in_set_zip1 in_set_zipE list_all2_iff case_prodD surj_pair fst_conv)
    from z have sub: "set (batch_entries q es) \<subseteq> set cs" by (force simp: cs)
    with assms(2) have "all_passed (batch_entries q es)"
      by (auto simp: all_passed_def list_all_iff)
    from batch_passed [OF p this assms(3)] p sub show ?thesis by (auto simp: a1_passes_def)
  qed
  then show ?thesis by (simp add: a4_approved_def)
qed

lemma a4_approved_mono: "a4_approved deps facts n body cs \<Longrightarrow> set cs \<subseteq> set ds \<Longrightarrow> a4_approved deps facts n body ds"
  unfolding a4_approved_def by (meson subset_trans)

text \<open>What an approval of A.4 says: \<open>nonceFloor\<close> and \<open>consumed\<close> are the book's answer for the nonce of the body.\<close>

definition batch_approved ::
    "'w a4_deps \<Rightarrow> (string \<Rightarrow> a1_facts) \<Rightarrow> int \<times> bool \<Rightarrow> int \<Rightarrow> request_whitelisting_body \<Rightarrow> check_entry list \<Rightarrow> bool" where
  "batch_approved deps facts state nowMs body cs \<longleftrightarrow>
     a4_guarded deps body \<and>
     \<not> snd state \<and> fst state \<le> nonce_number body \<and>
     nonce_number body \<le> fst state + wp_maxNonceAboveFloor (wd_policy deps) \<and>
     wl_deadline body \<le> now_seconds nowMs + ap_maxDeadlineSecondsAhead (wd_policy deps) \<and>
     a4_approved deps facts nowMs body cs"

lemma a4_approval:
  assumes "wd_cache deps = None"
    and "\<forall>q\<in>set (wl_requestContracts body).
      serves (a1_ctx.truncate ctx) (a1_policy.truncate (wd_policy deps)) q (facts q) \<and>
      deployed_first (a1_policy.truncate (wd_policy deps)) (wl_chainId body) q (facts q)"
    and "pred_state (\<lambda>r. \<forall>f c. r = Inr (f, c) \<longrightarrow> f = nonceFloor \<and> c = consumed)
      (a4_nonce_state ctx (wl_whitelistBook body) (wd_guardianSigner deps) (nonce_number body))"
  shows "pred_state (\<lambda>r. \<forall>cs. r = Inr cs \<longrightarrow> batch_approved deps facts (nonceFloor, consumed) (a1_now ctx) body cs)
    (runA4 deps ctx body)"
proof (cases "a4_guarded deps body")
  case True
  let ?P = "a1_passes deps facts (a1_now ctx) body"
  have "pred_state (\<lambda>r. (\<exists>e. r = Inl e \<and> is_unavailable e) \<or>
      (\<exists>cs. collected ?P (a4_contracts body) (book_check (wd_policy deps) body) cs \<and>
         a4_tail_result (\<lambda>f c. f = nonceFloor \<and> c = consumed) deps body
           (cs @ [a4_deadline (wd_policy deps) (a1_now ctx) body]) r))
    (runA4 deps ctx body)"
    unfolding a4_contracts_def
    by (rule runA4_result) (use assms True in \<open>auto simp: a4_guarded_def intro!: runA1_passes\<close>)
  with True show ?thesis
    by (auto elim!: pred_state_mono simp: batch_approved_def a4_tail_result_def rollupA4_def roll_result_rollUp nonce_tail_def
        intro: a4_approved_mono [OF collected_approved] split: if_splits)
next
  case False
  then have "\<exists>cs m. runA4 deps ctx body = ret (Inl (ValidationFailedError m cs)) \<and> \<not> all_passed cs \<and> list_all wf_entry cs"
    by (intro runA4_refused) (auto simp: a4_guarded_def)
  then show ?thesis by auto
qed

text \<open>
  C6. What A.4 vouches for. With a node whose answers are true, an approval means: the batch
  is within the cap and the book is one the operator configured, if any are; the nonce the
  client sent is not consumed and lies in the window of the book; the deadline is in bounds;
  and, for a whitelist operation, A.1 vouches for every contract of the batch on its own. In
  particular a contract whose only failing entry is the dropped deadline entry cannot slip
  through.
\<close>

theorem a4_approval_sound:
  assumes "buildRequestWhitelistingChecks deps = Some run" and "wl_nonce body = show_nat n"
    and "wd_cache deps = None"
    and "\<forall>q\<in>set (wl_requestContracts body).
      serves (a1_ctx.truncate ctx) (a1_policy.truncate (wd_policy deps)) q (facts q) \<and>
      deployed_first (a1_policy.truncate (wd_policy deps)) (wl_chainId body) q (facts q)"
    and "pred_state (\<lambda>r. \<forall>f c. r = Inr (f, c) \<longrightarrow> f = nonceFloor \<and> c = consumed)
      (a4_nonce_state ctx (wl_whitelistBook body) (wd_guardianSigner deps) (int n))"
  shows "pred_state (\<lambda>r. \<forall>cs. r = Inr cs \<longrightarrow>
      a4_guarded deps body \<and>
      \<not> consumed \<and> nonceFloor \<le> int n \<and> int n \<le> nonceFloor + wp_maxNonceAboveFloor (wd_policy deps) \<and>
      wl_deadline body \<le> now_seconds (a1_now ctx) + ap_maxDeadlineSecondsAhead (wd_policy deps) \<and>
      a4_approved deps facts (a1_now ctx) body cs)
    (run ctx body)"
proof -
  from assms(1) have run: "run = runA4 deps"
    by (auto simp: buildRequestWhitelistingChecks_def Let_def split: if_splits)
  have n: "nonce_number body = int n" by (simp add: nonce_number_def assms(2))
  show ?thesis
    unfolding run by (rule a4_approval [OF assms(3,4), of nonceFloor consumed, unfolded batch_approved_def n fst_conv snd_conv, OF assms(5)])
qed

definition ex_a4_policy :: a4_policy where
  "ex_a4_policy = a1_policy.extend ex_policy
     \<lparr>wp_maxNonceAboveFloor = 10, wp_acceptedWhitelistBooks = Some [(1, [''0xBo''])], wp_maxRequestContracts = None\<rparr>"

definition ex_a4_deps :: "unit a4_deps" where
  "ex_a4_deps = \<lparr>wd_policy = ex_a4_policy, wd_guardianSigner = ''0x51'', wd_cache = None, wd_cacheTtlMs = None\<rparr>"

definition ex_a4_ctx :: "unit a4_ctx" where
  "ex_a4_ctx = a1_ctx.extend (ctx_of ex_facts 5000) \<lparr>a4_nonce_state = \<lambda>book signer n. ret (Inr (5, n = 6))\<rparr>"

definition ex_a4_body :: request_whitelisting_body where
  "ex_a4_body = \<lparr>wl_chainId = 1, wl_whitelistBook = ''0xbo'', wl_operation = Whitelist, wl_requestContracts = [''0xa''],
     wl_nonce = ''7'', wl_deadline = 100\<rparr>"

theorem a4_approval_sound_witness:
  "case result_of (runA4 ex_a4_deps ex_a4_ctx ex_a4_body) () of
     Inl e \<Rightarrow> False
   | Inr cs \<Rightarrow> a4_approved ex_a4_deps (\<lambda>_. ex_facts) 5000 ex_a4_body cs \<and> length cs = 9"
proof -
  have t: "a1_policy.truncate ex_a4_policy = ex_policy" "a1_ctx.truncate ex_a4_ctx = ctx_of ex_facts 5000"
    by (simp_all add: ex_a4_policy_def ex_a4_ctx_def a1_policy.defs a1_ctx.defs)
  have h: "history (a1_scan_args ex_policy [] ''0xa'' (af_latest ex_facts)) (af_history ex_facts)"
    by code_simp
  have b: "buildRequestWhitelistingChecks ex_a4_deps = Some (runA4 ex_a4_deps)"
    by (simp add: buildRequestWhitelistingChecks_def max_request_contracts_def DEFAULT_MAX_REQUEST_CONTRACTS_def
        assertRetargetterPolicy_def ex_a4_deps_def t)
      (simp add: ex_a4_policy_def ex_policy_def a1_policy.defs DEFAULT_MAX_REQUEST_CONTRACTS_def)
  have k: "wl_nonce ex_a4_body = show_nat 7" by code_simp
  have r: "case result_of (runA4 ex_a4_deps ex_a4_ctx ex_a4_body) () of Inl e \<Rightarrow> False | Inr cs \<Rightarrow> length cs = 9"
    by code_simp
  have "pred_state (\<lambda>r. \<forall>cs. r = Inr cs \<longrightarrow> a4_approved ex_a4_deps (\<lambda>_. ex_facts) 5000 ex_a4_body cs)
     (runA4 ex_a4_deps ex_a4_ctx ex_a4_body)"
    by (rule pred_state_mono [OF a4_approval_sound [OF b k, where facts = "\<lambda>_. ex_facts" and nonceFloor = 5 and consumed = False]])
      (use serves_ctx_of [OF h, of 5000] ex_deployed_first in
        \<open>auto simp: t ex_a4_deps_def ex_a4_body_def\<close>,
       simp_all add: ex_a4_ctx_def ctx_of_def a1_ctx.defs)
  from pred_stateD' [OF this, of "()"] r show ?thesis by (auto simp: result_of_def split: sum.splits)
qed

end
