(* ===== verification/Typed_Data.thy ===== *)
theory Typed_Data
  imports Helpers Schemas "HOL-Library.Multiset"
begin

text \<open>
  The EIP-712 payload builders (\<open>typed-data/*.ts\<close>): the struct types of the four
  endpoints, the canonical order of swap legs, and the message each builder hands to the
  signer. The digest (\<open>hashTypedData\<close> of viem) is a parameter of every builder.
\<close>

section \<open>Typed data\<close>

record domain_name_version =
  dn_name :: string
  dn_version :: string

record eip712_domain = domain_name_version +
  dn_chainId :: int
  dn_verifyingContract :: string

datatype td_value = TdUint int | TdAddress string | TdAddresses "string list"

text \<open>A struct type is its name with the name and type of each member.\<close>

type_synonym td_types = "(string \<times> (string \<times> string) list) list"

record typed_data =
  td_domain :: eip712_domain
  td_types :: td_types
  td_primaryType :: string
  td_message :: "(string \<times> td_value) list"

record guardian_typed_data =
  gt_typedData :: typed_data
  gt_payloadHash :: string

text \<open>A builder throws a plain \<open>Error\<close> with a message, or returns the payload and its digest.\<close>

type_synonym 'b builder = "(typed_data \<Rightarrow> string) \<Rightarrow> eip712_domain \<Rightarrow> 'b \<Rightarrow> string + guardian_typed_data"

definition hashed :: "(typed_data \<Rightarrow> string) \<Rightarrow> typed_data \<Rightarrow> guardian_typed_data" where
  "hashed hashTypedData td = \<lparr>gt_typedData = td, gt_payloadHash = hashTypedData td\<rparr>"

definition domain_matches :: "eip712_domain \<Rightarrow> string \<Rightarrow> bool" where
  "domain_matches domain verifier \<longleftrightarrow> toLowerCase (dn_verifyingContract domain) = toLowerCase verifier"

text \<open>\<open>BigInt\<close> of a field the schema restricts to canonical decimals.\<close>

definition uint_of :: "string \<Rightarrow> int" where
  "uint_of s = (case BigInt s of Some n \<Rightarrow> n | None \<Rightarrow> 0)"

lemma uint_of_show_nat [simp]: "uint_of (show_nat n) = int n"
  by (simp add: uint_of_def)


section \<open>Request and fund bindings\<close>

definition setRequestParamsTypes :: td_types where
  "setRequestParamsTypes =
     [(''SetRequestParams'', [(''id'', ''uint256''), (''newRequest'', ''address''), (''deadline'', ''uint256'')])]"

definition buildIntentRequestBindingTypedData :: "intent_request_binding_body builder" where
  "buildIntentRequestBindingTypedData hashTypedData domain body =
     (if \<not> domain_matches domain (rb_facility body)
      then Inl ''buildIntentRequestBindingTypedData: domain.verifyingContract must equal body.facility''
      else Inr (hashed hashTypedData
        \<lparr>td_domain = domain, td_types = setRequestParamsTypes, td_primaryType = ''SetRequestParams'',
         td_message =
           [(''id'', TdUint (uint_of (ir_id (rb_intent body)))),
            (''newRequest'', TdAddress (rb_requestContract body)),
            (''deadline'', TdUint (rb_deadline body))]\<rparr>))"

definition setFundParamsTypes :: td_types where
  "setFundParamsTypes =
     [(''SetFundParams'', [(''id'', ''uint256''), (''newFund'', ''address''), (''deadline'', ''uint256'')])]"

definition buildIntentFundBindingTypedData :: "intent_fund_binding_body builder" where
  "buildIntentFundBindingTypedData hashTypedData domain body =
     (if \<not> domain_matches domain (fb_facility body)
      then Inl ''buildIntentFundBindingTypedData: domain.verifyingContract must equal body.facility''
      else Inr (hashed hashTypedData
        \<lparr>td_domain = domain, td_types = setFundParamsTypes, td_primaryType = ''SetFundParams'',
         td_message =
           [(''id'', TdUint (uint_of (ir_id (fb_intent body)))),
            (''newFund'', TdAddress (fb_fundContract body)),
            (''deadline'', TdUint (fb_deadline body))]\<rparr>))"


section \<open>Swaps\<close>

definition swapParamsTypes :: td_types where
  "swapParamsTypes =
     [(''SwapParams'',
       [(''id1'', ''uint256''), (''token1'', ''address''), (''id2'', ''uint256''), (''token2'', ''address''),
        (''amount1'', ''uint256''), (''amount2'', ''uint256''), (''deadline'', ''uint256'')])]"

text \<open>JavaScript's \<open><\<close> on strings: code units from the left.\<close>

fun str_less :: "string \<Rightarrow> string \<Rightarrow> bool" where
  "str_less _ [] = False"
| "str_less [] (_ # _) = True"
| "str_less (a # as) (b # bs) =
     (if code_of a < code_of b then True else if code_of b < code_of a then False else str_less as bs)"

text \<open>\<open>None\<close> is the throw on anything but two legs.\<close>

definition canonicaliseSwapLegs :: "swap_leg list \<Rightarrow> (swap_leg \<times> swap_leg) option" where
  "canonicaliseSwapLegs legs =
     (case legs of
        [a, b] \<Rightarrow>
          (let idA = uint_of (ir_id (leg_intent a)); idB = uint_of (ir_id (leg_intent b));
               assetA = toLowerCase (leg_asset a); assetB = toLowerCase (leg_asset b);
               amountA = uint_of (leg_amount a); amountB = uint_of (leg_amount b)
           in Some
             (if idA < idB then (a, b)
              else if idA > idB then (b, a)
              else if str_less assetA assetB then (a, b)
              else if str_less assetB assetA then (b, a)
              else if amountA < amountB then (a, b)
              else if amountA > amountB then (b, a)
              else (a, b)))
      | _ \<Rightarrow> None)"

definition buildIntentSwapTypedData :: "intent_swap_body builder" where
  "buildIntentSwapTypedData hashTypedData domain body =
     (if \<not> domain_matches domain (sw_facility body)
      then Inl ''buildIntentSwapTypedData: domain.verifyingContract must equal body.facility''
      else (case canonicaliseSwapLegs (sw_legs body) of
        None \<Rightarrow> Inl ''canonicaliseSwapLegs requires exactly two legs''
      | Some (first, second) \<Rightarrow> Inr (hashed hashTypedData
        \<lparr>td_domain = domain, td_types = swapParamsTypes, td_primaryType = ''SwapParams'',
         td_message =
           [(''id1'', TdUint (uint_of (ir_id (leg_intent first)))), (''token1'', TdAddress (leg_asset first)),
            (''id2'', TdUint (uint_of (ir_id (leg_intent second)))), (''token2'', TdAddress (leg_asset second)),
            (''amount1'', TdUint (uint_of (leg_amount first))), (''amount2'', TdUint (uint_of (leg_amount second))),
            (''deadline'', TdUint (sw_deadline body))]\<rparr>)))"


section \<open>Whitelisting\<close>

definition sharedFields :: "(string \<times> string) list" where
  "sharedFields =
     [(''targets'', ''address[]''), (''deadline'', ''uint256''), (''validator'', ''address''), (''nonce'', ''uint256'')]"

definition whitelistRequestTypes :: td_types where
  "whitelistRequestTypes = [(''WhitelistRequest'', sharedFields)]"

definition unwhitelistRequestTypes :: td_types where
  "unwhitelistRequestTypes = [(''UnwhitelistRequest'', sharedFields)]"

definition assertDomainMatchesBook :: "string \<Rightarrow> eip712_domain \<Rightarrow> request_whitelisting_body \<Rightarrow> string option" where
  "assertDomainMatchesBook builder domain body =
     (if \<not> domain_matches domain (wl_whitelistBook body)
      then Some (builder @ '': domain.verifyingContract must equal body.whitelistBook'') else None)"

definition messageOf :: "request_whitelisting_body \<Rightarrow> string \<Rightarrow> (string \<times> td_value) list" where
  "messageOf body validator =
     [(''targets'', TdAddresses (wl_requestContracts body)), (''deadline'', TdUint (wl_deadline body)),
      (''validator'', TdAddress validator), (''nonce'', TdUint (uint_of (wl_nonce body)))]"

definition buildWhitelistRequestTypedData :: "string \<Rightarrow> request_whitelisting_body builder" where
  "buildWhitelistRequestTypedData validator hashTypedData domain body =
     (case assertDomainMatchesBook ''buildWhitelistRequestTypedData'' domain body of
        Some m \<Rightarrow> Inl m
      | None \<Rightarrow> Inr (hashed hashTypedData
          \<lparr>td_domain = domain, td_types = whitelistRequestTypes, td_primaryType = ''WhitelistRequest'',
           td_message = messageOf body validator\<rparr>))"

definition buildUnwhitelistRequestTypedData :: "string \<Rightarrow> request_whitelisting_body builder" where
  "buildUnwhitelistRequestTypedData validator hashTypedData domain body =
     (case assertDomainMatchesBook ''buildUnwhitelistRequestTypedData'' domain body of
        Some m \<Rightarrow> Inl m
      | None \<Rightarrow> Inr (hashed hashTypedData
          \<lparr>td_domain = domain, td_types = unwhitelistRequestTypes, td_primaryType = ''UnwhitelistRequest'',
           td_message = messageOf body validator\<rparr>))"

definition buildRequestWhitelistingTypedData :: "string \<Rightarrow> request_whitelisting_body builder" where
  "buildRequestWhitelistingTypedData validator hashTypedData domain body =
     (if wl_operation body = Whitelist
      then buildWhitelistRequestTypedData validator hashTypedData domain body
      else buildUnwhitelistRequestTypedData validator hashTypedData domain body)"


section \<open>The canonical leg order\<close>

lemma str_less_irrefl [simp]: "\<not> str_less a a"
  by (induction a) auto

lemma str_less_asym: "str_less a b \<Longrightarrow> \<not> str_less b a"
  by (induction a b rule: str_less.induct) (auto split: if_splits)

lemma str_less_Nil [simp]: "str_less [] b \<longleftrightarrow> b \<noteq> []"
  by (cases b) auto

lemma str_less_total: "str_less a b \<or> a = b \<or> str_less b a"
  by (induction a b rule: str_less.induct) (auto simp: not_less_iff_gr_or_eq)

text \<open>Of a schema-valid leg the decimals and the asset determine the record.\<close>

lemma wf_leg_eqI:
  assumes "wf_leg a" and "wf_leg b" and "uint_of (ir_id (leg_intent a)) = uint_of (ir_id (leg_intent b))"
    and "leg_asset a = leg_asset b" and "uint_of (leg_amount a) = uint_of (leg_amount b)"
  shows "a = b"
  using assms by (auto simp: wf_leg_def wf_intent_def intro: swap_leg.equality intent_ref.equality)

lemma canonicalise_swap:
  assumes "wf_leg a" and "wf_leg b"
  shows "canonicaliseSwapLegs [a, b] = canonicaliseSwapLegs [b, a]"
proof -
  have "toLowerCase (leg_asset a) = leg_asset a" "toLowerCase (leg_asset b) = leg_asset b"
    using assms by (simp_all add: wf_leg_def)
  then show ?thesis
    using wf_leg_eqI [OF assms] str_less_asym [of "leg_asset a" "leg_asset b"]
      str_less_total [of "leg_asset a" "leg_asset b"]
    by (auto simp: canonicaliseSwapLegs_def Let_def not_less_iff_gr_or_eq)
qed

lemma canonicalise_mset:
  "canonicaliseSwapLegs [a, b] = Some (c, d) \<Longrightarrow> (c, d) = (a, b) \<or> (c, d) = (b, a)"
  by (auto simp: canonicaliseSwapLegs_def Let_def split: if_splits)

lemma canonicalise_two: "\<exists>c d. canonicaliseSwapLegs [a, b] = Some (c, d)"
  by (simp add: canonicaliseSwapLegs_def Let_def)


section \<open>What is signed for a request\<close>

text \<open>
  The four requests, and the payload each is signed with: the domain is the verifying
  contract's name and version, the body's chain and the body's contract.
\<close>

datatype sign_request =
    RequestBinding intent_request_binding_body
  | FundBinding intent_fund_binding_body
  | Swap intent_swap_body
  | Whitelisting request_whitelisting_body

definition domain_of :: "domain_name_version \<Rightarrow> int \<Rightarrow> string \<Rightarrow> eip712_domain" where
  "domain_of nv chainId verifyingContract =
     domain_name_version.extend nv \<lparr>dn_chainId = chainId, dn_verifyingContract = verifyingContract\<rparr>"

fun payload :: "(typed_data \<Rightarrow> string) \<Rightarrow> string \<Rightarrow> domain_name_version \<Rightarrow> sign_request \<Rightarrow> string + guardian_typed_data" where
  "payload hash validator nv (RequestBinding b) =
     buildIntentRequestBindingTypedData hash (domain_of nv (rb_chainId b) (rb_facility b)) b"
| "payload hash validator nv (FundBinding b) =
     buildIntentFundBindingTypedData hash (domain_of nv (fb_chainId b) (fb_facility b)) b"
| "payload hash validator nv (Swap b) =
     buildIntentSwapTypedData hash (domain_of nv (sw_chainId b) (sw_facility b)) b"
| "payload hash validator nv (Whitelisting b) =
     buildRequestWhitelistingTypedData validator hash (domain_of nv (wl_chainId b) (wl_whitelistBook b)) b"

fun wf_request :: "sign_request \<Rightarrow> bool" where
  "wf_request (RequestBinding b) \<longleftrightarrow> wf_request_binding b"
| "wf_request (FundBinding b) \<longleftrightarrow> wf_fund_binding b"
| "wf_request (Swap b) \<longleftrightarrow> wf_swap b"
| "wf_request (Whitelisting b) \<longleftrightarrow> wf_whitelisting b"

text \<open>
  Requests that ask for the same signature: equal, except that the position manager of a
  fund binding is not signed and the legs of a swap are unordered.
\<close>

fun same_request :: "sign_request \<Rightarrow> sign_request \<Rightarrow> bool" where
  "same_request (RequestBinding b) (RequestBinding b') \<longleftrightarrow> b = b'"
| "same_request (FundBinding b) (FundBinding b') \<longleftrightarrow>
     b\<lparr>fb_positionManager := []\<rparr> = b'\<lparr>fb_positionManager := []\<rparr>"
| "same_request (Swap b) (Swap b') \<longleftrightarrow>
     b\<lparr>sw_legs := []\<rparr> = b'\<lparr>sw_legs := []\<rparr> \<and> mset (sw_legs b) = mset (sw_legs b')"
| "same_request (Whitelisting b) (Whitelisting b') \<longleftrightarrow> b = b'"
| "same_request _ _ \<longleftrightarrow> False"

lemma domain_of_simps [simp]:
  "dn_verifyingContract (domain_of nv c v) = v"
  "domain_of nv c v = domain_of nv' c' v' \<longleftrightarrow> nv = nv' \<and> c = c' \<and> v = v'"
  by (auto simp: domain_of_def domain_name_version.defs intro: domain_name_version.equality)

lemma domain_matches_own [simp]: "domain_matches (domain_of nv c v) v"
  by (simp add: domain_matches_def)

lemma build_request_binding:
  "buildIntentRequestBindingTypedData hash (domain_of nv c (rb_facility b)) b = Inr (hashed hash
     \<lparr>td_domain = domain_of nv c (rb_facility b), td_types = setRequestParamsTypes,
      td_primaryType = ''SetRequestParams'',
      td_message = [(''id'', TdUint (uint_of (ir_id (rb_intent b)))),
        (''newRequest'', TdAddress (rb_requestContract b)), (''deadline'', TdUint (rb_deadline b))]\<rparr>)"
  by (simp add: buildIntentRequestBindingTypedData_def)

lemma build_fund_binding:
  "buildIntentFundBindingTypedData hash (domain_of nv c (fb_facility b)) b = Inr (hashed hash
     \<lparr>td_domain = domain_of nv c (fb_facility b), td_types = setFundParamsTypes,
      td_primaryType = ''SetFundParams'',
      td_message = [(''id'', TdUint (uint_of (ir_id (fb_intent b)))),
        (''newFund'', TdAddress (fb_fundContract b)), (''deadline'', TdUint (fb_deadline b))]\<rparr>)"
  by (simp add: buildIntentFundBindingTypedData_def)

lemma build_whitelisting:
  "buildRequestWhitelistingTypedData validator hash (domain_of nv c (wl_whitelistBook b)) b = Inr (hashed hash
     (if wl_operation b = Whitelist
      then \<lparr>td_domain = domain_of nv c (wl_whitelistBook b), td_types = whitelistRequestTypes,
            td_primaryType = ''WhitelistRequest'', td_message = messageOf b validator\<rparr>
      else \<lparr>td_domain = domain_of nv c (wl_whitelistBook b), td_types = unwhitelistRequestTypes,
            td_primaryType = ''UnwhitelistRequest'', td_message = messageOf b validator\<rparr>))"
  by (simp add: buildRequestWhitelistingTypedData_def buildWhitelistRequestTypedData_def
      buildUnwhitelistRequestTypedData_def assertDomainMatchesBook_def)

definition swap_message :: "swap_leg \<Rightarrow> swap_leg \<Rightarrow> int \<Rightarrow> (string \<times> td_value) list" where
  "swap_message first second deadline =
     [(''id1'', TdUint (uint_of (ir_id (leg_intent first)))), (''token1'', TdAddress (leg_asset first)),
      (''id2'', TdUint (uint_of (ir_id (leg_intent second)))), (''token2'', TdAddress (leg_asset second)),
      (''amount1'', TdUint (uint_of (leg_amount first))), (''amount2'', TdUint (uint_of (leg_amount second))),
      (''deadline'', TdUint deadline)]"

lemma build_swap:
  assumes "canonicaliseSwapLegs (sw_legs b) = Some (p, q)"
  shows "buildIntentSwapTypedData hash (domain_of nv c (sw_facility b)) b = Inr (hashed hash
     \<lparr>td_domain = domain_of nv c (sw_facility b), td_types = swapParamsTypes,
      td_primaryType = ''SwapParams'', td_message = swap_message p q (sw_deadline b)\<rparr>)"
  by (simp add: buildIntentSwapTypedData_def assms swap_message_def)

lemma gt_typedData_hashed [simp]: "gt_typedData (hashed h td) = td" "gt_payloadHash (hashed h td) = h td"
  by (simp_all add: hashed_def)


lemma wf_intent_eqI: "wf_intent i \<Longrightarrow> wf_intent j \<Longrightarrow> uint_of (ir_id i) = uint_of (ir_id j) \<longleftrightarrow> i = j"
  by (auto simp: wf_intent_def intro: intent_ref.equality)

lemma swap_message_eq:
  assumes "wf_leg p" "wf_leg q" "wf_leg p'" "wf_leg q'"
  shows "swap_message p q d = swap_message p' q' d' \<longleftrightarrow> p = p' \<and> q = q' \<and> d = d'"
  using wf_leg_eqI [OF assms(1,3)] wf_leg_eqI [OF assms(2,4)] by (auto simp: swap_message_def)

lemma canonical_legs:
  assumes "wf_swap b"
  obtains p q where "canonicaliseSwapLegs (sw_legs b) = Some (p, q)" "wf_leg p" "wf_leg q"
    "mset (sw_legs b) = {#p, q#}"
proof -
  from assms obtain a c where l: "sw_legs b = [a, c]" and wf: "wf_leg a" "wf_leg c"
    by (auto simp: wf_swap_def numeral_2_eq_2 length_Suc_conv)
  obtain p q where pq: "canonicaliseSwapLegs [a, c] = Some (p, q)"
    using canonicalise_two by blast
  from canonicalise_mset [OF this] wf l pq show thesis
    by (intro that [of p q]) (auto simp: add_mset_commute)
qed

lemma canonical_determined:
  assumes "wf_swap b" "wf_swap b'" "mset (sw_legs b) = mset (sw_legs b')"
  shows "canonicaliseSwapLegs (sw_legs b) = canonicaliseSwapLegs (sw_legs b')"
proof -
  from assms(1) obtain a c where l: "sw_legs b = [a, c]" and wf: "wf_leg a" "wf_leg c"
    by (auto simp: wf_swap_def numeral_2_eq_2 length_Suc_conv)
  from assms(2) obtain a' c' where l': "sw_legs b' = [a', c']"
    by (auto simp: wf_swap_def numeral_2_eq_2 length_Suc_conv)
  from assms(3) have "(a', c') = (a, c) \<or> (a', c') = (c, a)"
    by (auto simp: l l' add_eq_conv_ex)
  with canonicalise_swap [OF wf] show ?thesis by (auto simp: l l')
qed

lemma payload_total:
  assumes "wf_request r"
  obtains td where "payload hash validator nv r = Inr (hashed hash td)"
proof (cases r)
  case (Swap b)
  with assms canonical_legs [of b] build_swap that show thesis by (metis payload.simps(3) wf_request.simps(3))
qed (use that build_request_binding build_fund_binding build_whitelisting in \<open>metis payload.simps\<close>)+

lemma request_binding_eq:
  "wf_request_binding b \<Longrightarrow> wf_request_binding b' \<Longrightarrow>
     b = b' \<longleftrightarrow> rb_chainId b = rb_chainId b' \<and> rb_facility b = rb_facility b' \<and>
       uint_of (ir_id (rb_intent b)) = uint_of (ir_id (rb_intent b')) \<and>
       rb_requestContract b = rb_requestContract b' \<and> rb_deadline b = rb_deadline b'"
  by (cases b; cases b') (auto simp: wf_request_binding_def wf_intent_eqI)

lemma fund_binding_eq:
  "wf_fund_binding c \<Longrightarrow> wf_fund_binding c' \<Longrightarrow>
     c\<lparr>fb_positionManager := []\<rparr> = c'\<lparr>fb_positionManager := []\<rparr> \<longleftrightarrow>
       fb_chainId c = fb_chainId c' \<and> fb_facility c = fb_facility c' \<and>
       uint_of (ir_id (fb_intent c)) = uint_of (ir_id (fb_intent c')) \<and>
       fb_fundContract c = fb_fundContract c' \<and> fb_deadline c = fb_deadline c'"
  by (cases c; cases c') (auto simp: wf_fund_binding_def wf_intent_eqI)

lemma whitelisting_eq:
  "wf_whitelisting e \<Longrightarrow> wf_whitelisting e' \<Longrightarrow>
     e = e' \<longleftrightarrow> wl_chainId e = wl_chainId e' \<and> wl_whitelistBook e = wl_whitelistBook e' \<and>
       wl_operation e = wl_operation e' \<and> wl_requestContracts e = wl_requestContracts e' \<and>
       wl_deadline e = wl_deadline e' \<and> uint_of (wl_nonce e) = uint_of (wl_nonce e')"
  by (cases e; cases e') (auto simp: wf_whitelisting_def)

lemma swap_rest_eq:
  fixes b b' :: intent_swap_body
  shows "b\<lparr>sw_legs := []\<rparr> = b'\<lparr>sw_legs := []\<rparr> \<longleftrightarrow>
     sw_chainId b = sw_chainId b' \<and> sw_facility b = sw_facility b' \<and> sw_deadline b = sw_deadline b'"
  by (cases b; cases b') auto

lemma operation_cases: "p \<noteq> Whitelist \<longleftrightarrow> p = Unwhitelist"
  by (cases p) simp_all

text \<open>The primary type of a payload tells the endpoint (and the operation).\<close>

fun primary_of :: "sign_request \<Rightarrow> string" where
  "primary_of (RequestBinding b) = ''SetRequestParams''"
| "primary_of (FundBinding b) = ''SetFundParams''"
| "primary_of (Swap b) = ''SwapParams''"
| "primary_of (Whitelisting b) = (if wl_operation b = Whitelist then ''WhitelistRequest'' else ''UnwhitelistRequest'')"

lemma payload_primary: "wf_request r \<Longrightarrow> payload hash v nv r = Inr t \<Longrightarrow> td_primaryType (gt_typedData t) = primary_of r"
proof (cases r)
  case (Swap b)
  assume "wf_request r" "payload hash v nv r = Inr t"
  with Swap canonical_legs [of b] build_swap [of b] show ?thesis
    by (metis Inr_inject gt_typedData_hashed(1) payload.simps(3) primary_of.simps(3) typed_data.select_convs(3) wf_request.simps(3))
qed (auto simp: build_request_binding build_fund_binding build_whitelisting)

definition payload_agrees :: "(typed_data \<Rightarrow> string) \<Rightarrow> string \<Rightarrow> domain_name_version \<Rightarrow> domain_name_version \<Rightarrow> sign_request \<Rightarrow> sign_request \<Rightarrow> bool" where
  "payload_agrees hash v nv nv' r r' \<longleftrightarrow>
     (\<exists>t t'. payload hash v nv r = Inr t \<and> payload hash v nv' r' = Inr t' \<and>
       (gt_typedData t = gt_typedData t' \<longleftrightarrow> nv = nv' \<and> same_request r r'))"

lemma payload_agrees_request:
  "wf_request_binding b \<Longrightarrow> wf_request_binding b' \<Longrightarrow> payload_agrees hash v nv nv' (RequestBinding b) (RequestBinding b')"
  by (auto simp: payload_agrees_def build_request_binding request_binding_eq)

lemma payload_agrees_fund:
  "wf_fund_binding b \<Longrightarrow> wf_fund_binding b' \<Longrightarrow> payload_agrees hash v nv nv' (FundBinding b) (FundBinding b')"
  by (auto simp: payload_agrees_def build_fund_binding fund_binding_eq)

lemma payload_agrees_whitelisting:
  "wf_whitelisting b \<Longrightarrow> wf_whitelisting b' \<Longrightarrow> payload_agrees hash v nv nv' (Whitelisting b) (Whitelisting b')"
  by (cases "wl_operation b"; cases "wl_operation b'")
    (auto simp: payload_agrees_def build_whitelisting whitelisting_eq messageOf_def)

lemma payload_agrees_swap:
  assumes "wf_swap b" "wf_swap b'"
  shows "payload_agrees hash v nv nv' (Swap b) (Swap b')"
proof -
  obtain p q where c: "canonicaliseSwapLegs (sw_legs b) = Some (p, q)" "wf_leg p" "wf_leg q"
    "mset (sw_legs b) = {#p, q#}" using canonical_legs [OF assms(1)] .
  obtain p' q' where c': "canonicaliseSwapLegs (sw_legs b') = Some (p', q')" "wf_leg p'" "wf_leg q'"
    "mset (sw_legs b') = {#p', q'#}" using canonical_legs [OF assms(2)] .
  have m: "mset (sw_legs b) = mset (sw_legs b') \<longleftrightarrow> p = p' \<and> q = q'"
    using canonical_determined [OF assms] c(1,4) c'(1,4) by auto
  show ?thesis
    unfolding payload_agrees_def payload.simps build_swap [OF c(1)] build_swap [OF c'(1)] same_request.simps swap_rest_eq m
    using swap_message_eq [OF c(2,3) c'(2,3), of "sw_deadline b" "sw_deadline b'"] by simp blast
qed

lemma payload_agrees_other:
  assumes "wf_request r" "wf_request r'" "primary_of r \<noteq> primary_of r'" "\<not> same_request r r'"
  shows "payload_agrees hash v nv nv' r r'"
proof -
  obtain td td' where "payload hash v nv r = Inr (hashed hash td)" "payload hash v nv' r' = Inr (hashed hash td')"
    using payload_total assms(1,2) by metis
  with payload_primary assms show ?thesis unfolding payload_agrees_def by metis
qed

lemma payload_agrees_wf:
  assumes "wf_request r" "wf_request r'"
  shows "payload_agrees hash v nv nv' r r'"
proof (cases "primary_of r = primary_of r' \<or> same_request r r'")
  case True
  with assms show ?thesis
    by (cases r; cases r')
      (auto intro: payload_agrees_request payload_agrees_fund payload_agrees_whitelisting payload_agrees_swap
        split: if_splits)
qed (use payload_agrees_other [OF assms] in blast)

text \<open>
  C5. A signature is for one request. Every schema-valid request has a payload (no builder
  throws for the domain of its own contract), and two requests have the same payload iff
  they are the same request, down to the order of swap legs and the position manager, and
  the contracts report the same name and version. So no signature can be replayed for
  another chain, contract, intent, amount, deadline, nonce, batch or endpoint.
\<close>

theorem payload_binds_request:
  assumes "wf_request r" and "wf_request r'"
  shows "\<exists>t t'. payload hash validator nv r = Inr t \<and> payload hash validator nv' r' = Inr t' \<and>
    (gt_typedData t = gt_typedData t' \<longleftrightarrow> nv = nv' \<and> same_request r r')"
  using payload_agrees_wf [OF assms] by (simp add: payload_agrees_def)

definition ex_signed_swap :: "bool \<Rightarrow> sign_request" where
  "ex_signed_swap flip =
     (let a = \<lparr>leg_intent = \<lparr>ir_id = ''2''\<rparr>, leg_asset = ''0x'' @ replicate 40 (CHR ''b''), leg_amount = ''5''\<rparr>;
          b = \<lparr>leg_intent = \<lparr>ir_id = ''10''\<rparr>, leg_asset = ''0x'' @ replicate 40 (CHR ''c''), leg_amount = ''7''\<rparr>
      in Swap \<lparr>sw_chainId = 1, sw_facility = ''0x'' @ replicate 40 (CHR ''a''),
           sw_legs = (if flip then [b, a] else [a, b]), sw_deadline = 60\<rparr>)"

theorem payload_binds_request_witness:
  "\<exists>t t'. payload (\<lambda>_. ''0x'') ''0xv'' \<lparr>dn_name = ''3F'', dn_version = ''1''\<rparr> (ex_signed_swap True) = Inr t \<and> payload (\<lambda>_. ''0x'') ''0xv'' \<lparr>dn_name = ''3F'', dn_version = ''1''\<rparr> (ex_signed_swap False) = Inr t' \<and>
     gt_typedData t = gt_typedData t'"
proof -
  have n: "show_nat 2 = ''2''" "show_nat 10 = ''10''" "show_nat 5 = ''5''" "show_nat 7 = ''7''"
    by code_simp+
  have a: "is_address (''0x'' @ replicate 40 (CHR ''a''))" "is_address (''0x'' @ replicate 40 (CHR ''b''))"
    "is_address (''0x'' @ replicate 40 (CHR ''c''))"
    by code_simp+
  have "wf_leg \<lparr>leg_intent = \<lparr>ir_id = show_nat 2\<rparr>, leg_asset = ''0x'' @ replicate 40 (CHR ''b''), leg_amount = show_nat 5\<rparr>"
    "wf_leg \<lparr>leg_intent = \<lparr>ir_id = show_nat 10\<rparr>, leg_asset = ''0x'' @ replicate 40 (CHR ''c''), leg_amount = show_nat 7\<rparr>"
    using a by (auto simp: wf_leg_def wf_intent_def)
  then have "wf_request (ex_signed_swap flip)" for flip
    using a by (simp add: ex_signed_swap_def wf_swap_def wf_chain_deadline_def MAX_SAFE_INTEGER_def n Let_def)
  from payload_binds_request [OF this [of True] this [of False], of "\<lambda>_. ''0x''" "''0xv''" "\<lparr>dn_name = ''3F'', dn_version = ''1''\<rparr>" "\<lparr>dn_name = ''3F'', dn_version = ''1''\<rparr>"] show ?thesis
    by (auto simp: ex_signed_swap_def Let_def add_mset_commute)
qed

end
