(* ===== verification/Eip712_Domain.thy ===== *)
theory Eip712_Domain
  imports Typed_Data Cache
begin

text \<open>
  The ERC-5267 domain read (\<open>lib/eip712-domain.ts\<close>): the cache in front of it, the
  classification of a failed read as the caller's fault (404) or the upstream's (503), and
  the back-fill. The contract call is a parameter.
\<close>

section \<open>The read\<close>

definition eip712DomainCacheKey :: "int \<Rightarrow> string \<Rightarrow> string" where
  "eip712DomainCacheKey chainId verifyingContract = show_int chainId @ '':'' @ toLowerCase verifyingContract"

text \<open>
  \<open>err.walk\<close> visits the error and its causes: the arguments here are the remaining chain,
  which starts with the error in question. 3 is viem's \<open>ExecutionRevertedError.code\<close>.
\<close>

fun isGenuineRevert :: "err_node list \<Rightarrow> bool" where
  "isGenuineRevert [] = False"
| "isGenuineRevert (n # ns) =
     (if en_class n = ContractFunctionRevertedError True then True
      else list_ex (\<lambda>m. en_code m = Some 3) (n # ns))"

fun caller_caused :: "err_node list \<Rightarrow> bool" where
  "caller_caused [] = False"
| "caller_caused (n # ns) =
     (case en_class n of
        ContractFunctionZeroDataError \<Rightarrow> True
      | ContractFunctionRevertedError evidence \<Rightarrow> isGenuineRevert (n # ns)
      | _ \<Rightarrow> False)"

definition domain_failure :: "int \<Rightarrow> string \<Rightarrow> thrown \<Rightarrow> guardian_error" where
  "domain_failure chainId verifyingContract e =
     (if th_isBaseError e \<and> exists_suffix caller_caused (th_chain e)
      then NotFoundError
        (''Verifying contract at '' @ verifyingContract @ '' does not implement '' @ ''ERC-5267 eip712Domain().'')
        (Some [(''chainId'', JNum (num_of_int chainId)), (''verifyingContract'', JStr verifyingContract)])
      else UpstreamUnavailableError (''eip712Domain() read failed at '' @ verifyingContract @ ''.'') HTTP503 None)"

definition domain_lookup ::
    "('w, domain_name_version) async_cache option \<Rightarrow> string \<Rightarrow> ('w, domain_name_version option) state" where
  "domain_lookup cache key =
     (case cache of
        None \<Rightarrow> ret None
      | Some c \<Rightarrow> do {
          r \<leftarrow> ac_get c key;
          ret (case r of Inl e \<Rightarrow> None | Inr hit \<Rightarrow> hit)
        })"

definition domain_backfill ::
    "('w, domain_name_version) async_cache option \<Rightarrow> string \<Rightarrow> domain_name_version \<Rightarrow> jsnum option \<Rightarrow> ('w, unit) state" where
  "domain_backfill cache key result ttlMs =
     (case cache of
        None \<Rightarrow> ret ()
      | Some c \<Rightarrow> do { _ \<leftarrow> ac_set c key result ttlMs; ret () })"

text \<open>\<open>readDomain\<close> is \<open>client.readContract\<close> of \<open>eip712Domain()\<close>, reduced to the name and the version.\<close>

definition fetchEip712DomainNameVersion ::
    "(string \<Rightarrow> ('w, thrown + domain_name_version) state) \<Rightarrow> int \<Rightarrow> string \<Rightarrow>
     ('w, domain_name_version) async_cache option \<Rightarrow> jsnum option \<Rightarrow>
     ('w, guardian_error + domain_name_version) state" where
  "fetchEip712DomainNameVersion readDomain chainId verifyingContract cache ttlMs =
     (let key = eip712DomainCacheKey chainId verifyingContract in do {
        hit \<leftarrow> domain_lookup cache key;
        case hit of
          Some nv \<Rightarrow> ret (Inr nv)
        | None \<Rightarrow> do {
            r \<leftarrow> readDomain verifyingContract;
            case r of
              Inl e \<Rightarrow> ret (Inl (domain_failure chainId verifyingContract e))
            | Inr result \<Rightarrow> do {
                _ \<leftarrow> domain_backfill cache key result ttlMs;
                ret (Inr result)
              }
          }
      })"


section \<open>Failures\<close>

lemma exists_caller_caused:
  "exists_suffix caller_caused ns \<longleftrightarrow>
     (\<exists>n\<in>set ns. en_class n = ContractFunctionZeroDataError \<or> en_class n = ContractFunctionRevertedError True) \<or>
     (\<exists>ps n qs. ns = ps @ n # qs \<and> en_class n = ContractFunctionRevertedError False \<and>
        (\<exists>m\<in>set (n # qs). en_code m = Some 3))"
    (is "?l ns \<longleftrightarrow> ?z ns \<or> ?r ns")
proof (induction ns)
  case (Cons n ns)
  have r: "?r (n # ns) \<longleftrightarrow> ?r ns \<or> (en_class n = ContractFunctionRevertedError False \<and> (\<exists>m\<in>set (n # ns). en_code m = Some 3))"
  proof
    assume "?r (n # ns)"
    then obtain ps p qs where h: "n # ns = ps @ p # qs" "en_class p = ContractFunctionRevertedError False"
      "\<exists>m\<in>set (p # qs). en_code m = Some 3" by blast
    then show "?r ns \<or> (en_class n = ContractFunctionRevertedError False \<and> (\<exists>m\<in>set (n # ns). en_code m = Some 3))"
      by (cases ps) auto
  next
    assume "?r ns \<or> (en_class n = ContractFunctionRevertedError False \<and> (\<exists>m\<in>set (n # ns). en_code m = Some 3))"
    then show "?r (n # ns)"
      by (metis append_Cons append_Nil)
  qed
  have c: "caller_caused (n # ns) \<longleftrightarrow>
      en_class n = ContractFunctionZeroDataError \<or> en_class n = ContractFunctionRevertedError True \<or>
      (en_class n = ContractFunctionRevertedError False \<and> (\<exists>m\<in>set (n # ns). en_code m = Some 3))"
    by (auto simp: list_ex_iff split: err_class.split)
  show ?case
    unfolding exists_suffix.simps Cons.IH c r by auto
qed simp

lemma domain_failure_error:
  "case domain_failure c v e of NotFoundError m d \<Rightarrow> True | UpstreamUnavailableError m s r \<Rightarrow> s = HTTP503 | _ \<Rightarrow> False"
  by (simp add: domain_failure_def)

text \<open>What a sign function may get back from the domain read.\<close>

definition is_domain_error :: "guardian_error \<Rightarrow> bool" where
  "is_domain_error e \<longleftrightarrow> (\<exists>m d. e = NotFoundError m d) \<or> (\<exists>m. e = UpstreamUnavailableError m HTTP503 None)"

lemma is_domain_error_failure [simp]: "is_domain_error (domain_failure c v e)"
  by (simp add: is_domain_error_def domain_failure_def)

lemma fetch_domain_error:
  "pred_state (case_sum is_domain_error (\<lambda>_. True)) (fetchEip712DomainNameVersion rd c v cache ttl)"
  unfolding fetchEip712DomainNameVersion_def Let_def
  by (auto intro!: pred_state_bind_any split: option.splits sum.splits)


section \<open>The cache in front of the read\<close>

locale domain_cache = cache_contract get set holds
  for get :: "string \<Rightarrow> ('w, thrown + domain_name_version option) state"
    and set :: "string \<Rightarrow> domain_name_version \<Rightarrow> jsnum option \<Rightarrow> ('w, thrown + unit) state"
    and holds :: "(string \<Rightarrow> domain_name_version \<Rightarrow> bool) \<Rightarrow> 'w \<Rightarrow> bool"
begin

text \<open>With a cache the read is the read-through of the cache contract.\<close>

lemma fetch_cached:
  assumes "hoare (holds P) (rd v) (\<lambda>r w. holds P w \<and> (\<forall>nv. r = Inr nv \<longrightarrow> P (eip712DomainCacheKey c v) nv))"
  shows "hoare (holds P) (fetchEip712DomainNameVersion rd c v (Some \<lparr>ac_get = get, ac_set = set\<rparr>) ttl)
    (\<lambda>r w. holds P w \<and> (\<forall>nv. r = Inr nv \<longrightarrow> P (eip712DomainCacheKey c v) nv))"
proof -
  let ?k = "eip712DomainCacheKey c v"
  let ?fetch = "do { r \<leftarrow> rd v; ret (case r of Inl e \<Rightarrow> Inl (domain_failure c v e) | Inr nv \<Rightarrow> Inr nv) }"
  have f: "hoare (holds P) ?fetch (\<lambda>r w. holds P w \<and> (\<forall>nv. r = Inr nv \<longrightarrow> P ?k nv))"
    by (rule hoare_bind [OF assms]) (auto intro!: hoare_ret split: sum.splits)
  have "fetchEip712DomainNameVersion rd c v (Some \<lparr>ac_get = get, ac_set = set\<rparr>) ttl =
     do {
        hit \<leftarrow> do { r \<leftarrow> get ?k; ret (case r of Inl e \<Rightarrow> None | Inr x \<Rightarrow> x) };
        case hit of
          Some nv \<Rightarrow> ret (Inr nv)
        | None \<Rightarrow> bindE ?fetch (\<lambda>nv. do { _ \<leftarrow> set ?k nv ttl; ret (Inr nv) })
      }"
    by (intro state.expand ext)
      (auto simp: fetchEip712DomainNameVersion_def domain_lookup_def domain_backfill_def Let_def bindE_def
        split: option.splits prod.splits sum.splits)
  with read_through [OF f] show ?thesis by simp
qed

end

text \<open>The in-memory cache with any schema for the name and the version.\<close>

interpretation domain_mem: domain_cache
  "ac_get (cache_of (mem_impl valid))" "ac_set (cache_of (mem_impl valid))" mem_holds for valid
  by unfold_locales (rule mem.get_sound, rule mem.set_sound)

text \<open>
  C21. A failed domain read is blamed on the caller (404, not retryable) exactly if viem's
  cause chain shows that the address answered without data, that a revert carried data, or
  that a revert has an execution-reverted code (3) at or below it. Every other failure, in
  particular the revert viem makes up for a bare \<open>-32603\<close>, is the retryable 503 of the domain
  read; no other error comes of it. So answers the fetch whenever the cache has no hit, and
  a failed read leaves the cache as the lookup left it.
\<close>

theorem domain_404_iff:
  "(\<exists>m d. domain_failure chainId v e = NotFoundError m d) =
     (th_isBaseError e \<and>
      ((\<exists>n. n \<in> set (th_chain e) \<and>
          (en_class n = ContractFunctionZeroDataError \<or> en_class n = ContractFunctionRevertedError True)) \<or>
       (\<exists>outer n causes m. th_chain e = outer @ n # causes \<and> en_class n = ContractFunctionRevertedError False \<and>
          m \<in> set (n # causes) \<and> en_code m = Some 3))) \<and>
   (\<exists>m. domain_failure chainId v e = UpstreamUnavailableError m HTTP503 None) =
     (\<nexists>m d. domain_failure chainId v e = NotFoundError m d) \<and>
   run_state (fetchEip712DomainNameVersion readDomain chainId v cache ttlMs) w =
     (let (hit, w1) = run_state (domain_lookup cache (eip712DomainCacheKey chainId v)) w;
          (answer, w2) = run_state (readDomain v) w1 in
      case hit of Some nv \<Rightarrow> (Inr nv, w1)
      | None \<Rightarrow> (case answer of Inl e' \<Rightarrow> (Inl (domain_failure chainId v e'), w2)
          | Inr nv \<Rightarrow> (Inr nv, snd (run_state (domain_backfill cache (eip712DomainCacheKey chainId v) nv ttlMs) w2))))"
proof (intro conjI)
  show "run_state (fetchEip712DomainNameVersion readDomain chainId v cache ttlMs) w =
     (let (hit, w1) = run_state (domain_lookup cache (eip712DomainCacheKey chainId v)) w;
          (answer, w2) = run_state (readDomain v) w1 in
      case hit of Some nv \<Rightarrow> (Inr nv, w1)
      | None \<Rightarrow> (case answer of Inl e' \<Rightarrow> (Inl (domain_failure chainId v e'), w2)
          | Inr nv \<Rightarrow> (Inr nv, snd (run_state (domain_backfill cache (eip712DomainCacheKey chainId v) nv ttlMs) w2))))"
    by (auto simp: fetchEip712DomainNameVersion_def Let_def split: prod.splits option.splits sum.splits)
qed (auto simp: domain_failure_def exists_caller_caused Bex_def)

text \<open>
  The cache never changes a domain: over a world with the in-memory cache in which every
  entry stored for this chain and contract is its true name and version, a successful read
  is the true name and version, and the entries are still true afterwards, whatever is
  evicted, expired or rejected by the schema in between.
\<close>

theorem domain_cached_sound:
  assumes "\<And>P. hoare (mem_holds P) (rd v) (\<lambda>r w. mem_holds P w \<and> (\<forall>nv. r = Inr nv \<longrightarrow> nv = truth))"
    and "mem_holds (\<lambda>k nv. k = eip712DomainCacheKey chainId v \<longrightarrow> nv = truth) w"
    and "run_state (fetchEip712DomainNameVersion rd chainId v (Some (cache_of (mem_impl valid))) ttl) w = (r, w')"
  shows "(\<forall>nv. r = Inr nv \<longrightarrow> nv = truth) \<and> mem_holds (\<lambda>k nv. k = eip712DomainCacheKey chainId v \<longrightarrow> nv = truth) w'"
proof -
  let ?P = "\<lambda>k nv. k = eip712DomainCacheKey chainId v \<longrightarrow> nv = truth"
  have "hoare (mem_holds ?P) (rd v) (\<lambda>r w. mem_holds ?P w \<and> (\<forall>nv. r = Inr nv \<longrightarrow> ?P (eip712DomainCacheKey chainId v) nv))"
    by (rule hoare_weaken [OF assms(1)]) auto
  from domain_mem.fetch_cached [where valid = valid and P = ?P and rd = rd and v = v and c = chainId, OF this, of ttl] have
    "hoare (mem_holds ?P) (fetchEip712DomainNameVersion rd chainId v (Some (cache_of (mem_impl valid))) ttl)
      (\<lambda>r w. mem_holds ?P w \<and> (\<forall>nv. r = Inr nv \<longrightarrow> ?P (eip712DomainCacheKey chainId v) nv))"
    by (simp add: cache_of_def)
  from hoareD [OF this assms(2,3)] show ?thesis by simp
qed

definition ex_nv :: domain_name_version where
  "ex_nv = \<lparr>dn_name = ''3F'', dn_version = ''1''\<rparr>"

definition ex_nv_world :: "domain_name_version mem_world" where
  "ex_nv_world = \<lparr>mw_cache = \<lparr>mc_defaultTtlMs = None, mc_maxEntries = 4, mc_map = []\<rparr>, mw_clock = int, mw_ticks = 0\<rparr>"

theorem domain_cached_sound_witness:
  "case run_state (fetchEip712DomainNameVersion (\<lambda>_. ret (Inr ex_nv)) 1 ''0xF'' (Some (cache_of (mem_impl (\<lambda>_. True)))) None)
      ex_nv_world of (r, w) \<Rightarrow> r = Inr ex_nv \<and>
     (case run_state (fetchEip712DomainNameVersion (\<lambda>_. ret (Inr ex_nv)) 1 ''0xf'' (Some (cache_of (mem_impl (\<lambda>_. True)))) None) w of
        (r', w') \<Rightarrow> isr r' \<and> (\<forall>nv. r' = Inr nv \<longrightarrow> nv = ex_nv))"
proof -
  let ?run = "\<lambda>v. fetchEip712DomainNameVersion (\<lambda>_. ret (Inr ex_nv)) 1 v (Some (cache_of (mem_impl (\<lambda>_. True)))) None"
  let ?P = "\<lambda>k nv. k = eip712DomainCacheKey 1 ''0xF'' \<longrightarrow> nv = ex_nv"
  have k: "eip712DomainCacheKey 1 ''0xf'' = eip712DomainCacheKey 1 ''0xF''" by code_simp
  have rd: "hoare (mem_holds P) (ret (Inr ex_nv)) (\<lambda>r w. mem_holds P w \<and> (\<forall>nv. r = Inr nv \<longrightarrow> nv = ex_nv))"
    for P :: "string \<Rightarrow> domain_name_version \<Rightarrow> bool"
    by (rule hoare_ret) simp
  have h: "mem_holds ?P ex_nv_world" by (simp add: mem_holds_def ex_nv_world_def mem_wf_def)
  obtain r w where 1: "run_state (?run ''0xF'') ex_nv_world = (r, w)" by fastforce
  obtain r' w' where 2: "run_state (?run ''0xf'') w = (r', w')" by fastforce
  have e: "case run_state (?run ''0xF'') ex_nv_world of (r, w) \<Rightarrow> r = Inr ex_nv \<and> isr (fst (run_state (?run ''0xf'') w))"
    by code_simp
  from domain_cached_sound [OF rd h 1] have "mem_holds ?P w" by blast
  from domain_cached_sound [OF rd this [folded k] 2] e show ?thesis by (simp add: 1 2)
qed

end
