(* ===== verification/Deadline.thy ===== *)
theory Deadline
  imports Helpers
begin

text \<open>
  Deadlines on host calls (\<open>lib/deadline.ts\<close>): the resolution of the configured timeouts,
  the race between a call and its timer as a step relation over everything the JavaScript
  code keeps (timer, abort signal, the settled result, the late rejection), and the same race
  as the one value its caller awaits.
\<close>

section \<open>Timeouts\<close>

record guardian_timeouts =
  gt_authenticateMs :: "jsnum option"
  gt_rateLimitMs :: "jsnum option"
  gt_livenessMs :: "jsnum option"
  gt_signMs :: "jsnum option"

record resolved_timeouts =
  rt_authenticateMs :: jsnum
  rt_rateLimitMs :: jsnum
  rt_livenessMs :: jsnum
  rt_signMs :: jsnum

definition DEFAULT_GUARDIAN_TIMEOUTS :: resolved_timeouts where
  "DEFAULT_GUARDIAN_TIMEOUTS =
     \<lparr>rt_authenticateMs = JFin 2000, rt_rateLimitMs = JFin 1000, rt_livenessMs = JFin 5000, rt_signMs = JFin 6000\<rparr>"

definition MAX_TIMEOUT_MS :: int where
  "MAX_TIMEOUT_MS = 2 ^ 31 - 1"

text \<open>One key of the loop: \<open>None\<close> is the \<open>TypeError\<close>.\<close>

definition resolve_timeout :: "jsnum option \<Rightarrow> jsnum \<Rightarrow> jsnum option" where
  "resolve_timeout override fallback =
     (case override of
        None \<Rightarrow> Some fallback
      | Some v \<Rightarrow> if \<not> num_isFinite v \<or> num_le_int v 0 \<or> num_gt_int v MAX_TIMEOUT_MS then None else Some v)"

definition no_timeouts :: guardian_timeouts where
  "no_timeouts = \<lparr>gt_authenticateMs = None, gt_rateLimitMs = None, gt_livenessMs = None, gt_signMs = None\<rparr>"

definition resolveGuardianTimeouts :: "guardian_timeouts option \<Rightarrow> resolved_timeouts option" where
  "resolveGuardianTimeouts overrides =
     (let o' = (case overrides of None \<Rightarrow> no_timeouts | Some t \<Rightarrow> t); d = DEFAULT_GUARDIAN_TIMEOUTS in do {
        a \<leftarrow> resolve_timeout (gt_authenticateMs o') (rt_authenticateMs d);
        r \<leftarrow> resolve_timeout (gt_rateLimitMs o') (rt_rateLimitMs d);
        l \<leftarrow> resolve_timeout (gt_livenessMs o') (rt_livenessMs d);
        s \<leftarrow> resolve_timeout (gt_signMs o') (rt_signMs d);
        Some \<lparr>rt_authenticateMs = a, rt_rateLimitMs = r, rt_livenessMs = l, rt_signMs = s\<rparr>
      })"

definition usable_timeout :: "jsnum \<Rightarrow> bool" where
  "usable_timeout v \<longleftrightarrow> num_isFinite v \<and> \<not> num_le_int v 0 \<and> \<not> num_gt_int v MAX_TIMEOUT_MS"

lemma resolve_timeout_Some:
  assumes "usable_timeout fallback"
  shows "resolve_timeout override fallback = Some v \<longleftrightarrow>
    usable_timeout v \<and> v = (case override of None \<Rightarrow> fallback | Some x \<Rightarrow> x)"
  using assms by (auto simp: resolve_timeout_def usable_timeout_def split: option.splits)

lemma default_timeouts:
  "rt_authenticateMs DEFAULT_GUARDIAN_TIMEOUTS = JFin 2000" "rt_rateLimitMs DEFAULT_GUARDIAN_TIMEOUTS = JFin 1000"
  "rt_livenessMs DEFAULT_GUARDIAN_TIMEOUTS = JFin 5000" "rt_signMs DEFAULT_GUARDIAN_TIMEOUTS = JFin 6000"
  by (simp_all add: DEFAULT_GUARDIAN_TIMEOUTS_def)

lemma resolve_timeout_None:
  "resolve_timeout override fallback = None \<longleftrightarrow> (\<exists>v. override = Some v \<and> \<not> usable_timeout v)"
  by (auto simp: resolve_timeout_def usable_timeout_def split: option.splits)

lemma usable_defaults:
  "usable_timeout (rt_authenticateMs DEFAULT_GUARDIAN_TIMEOUTS)" "usable_timeout (rt_rateLimitMs DEFAULT_GUARDIAN_TIMEOUTS)"
  "usable_timeout (rt_livenessMs DEFAULT_GUARDIAN_TIMEOUTS)" "usable_timeout (rt_signMs DEFAULT_GUARDIAN_TIMEOUTS)"
  by code_simp+


section \<open>The race\<close>

text \<open>What a thrown value carries, as far as the shell tells them apart.\<close>

datatype raised = RaisedError string | RaisedSyntax string | RaisedGuardian guardian_error

text \<open>
  \<open>dr_result\<close> is what the returned promise has settled with. The timer is armed before the
  task starts; the \<open>finally\<close> clears it.
\<close>

datatype timer = Armed | Fired | Cleared

record 'a deadline_race =
  dr_timer :: timer
  dr_aborted :: bool
  dr_task :: "(raised + 'a) option"
  dr_result :: "(raised + 'a) option"

definition dr_init :: "'a deadline_race" where
  "dr_init = \<lparr>dr_timer = Armed, dr_aborted = False, dr_task = None, dr_result = None\<rparr>"

definition timeout_error :: "string \<Rightarrow> jsnum \<Rightarrow> raised" where
  "timeout_error abstraction ms =
     RaisedGuardian (upstream503 (abstraction @ '' did not complete within '' @ show_num ms @ ''ms''))"

text \<open>
  The task settles (also long after the race is decided: its rejection then meets the no-op
  handler), the timer fires (abort and reject first, whatever the logger does after), or the
  settled race runs its \<open>finally\<close>.
\<close>

inductive dr_step :: "string \<Rightarrow> jsnum \<Rightarrow> 'a deadline_race \<Rightarrow> 'a deadline_race \<Rightarrow> bool" for abstraction ms where
  settle: "dr_task s = None \<Longrightarrow>
    dr_step abstraction ms s
      (s\<lparr>dr_task := Some r, dr_result := (case dr_result s of None \<Rightarrow> Some r | Some x \<Rightarrow> Some x)\<rparr>)"
| fire: "dr_timer s = Armed \<Longrightarrow>
    dr_step abstraction ms s
      (s\<lparr>dr_timer := Fired, dr_aborted := True,
         dr_result := (case dr_result s of None \<Rightarrow> Some (Inl (timeout_error abstraction ms)) | Some x \<Rightarrow> Some x)\<rparr>)"
| clear: "dr_result s \<noteq> None \<Longrightarrow> dr_timer s = Armed \<Longrightarrow>
    dr_step abstraction ms s (s\<lparr>dr_timer := Cleared\<rparr>)"

inductive_cases dr_stepE: "dr_step abstraction ms s s'"

definition dr_inv :: "string \<Rightarrow> jsnum \<Rightarrow> 'a deadline_race \<Rightarrow> bool" where
  "dr_inv abstraction ms s \<longleftrightarrow>
     (dr_timer s = Fired \<longleftrightarrow> dr_aborted s) \<and>
     (dr_result s = None \<longleftrightarrow> dr_task s = None \<and> dr_timer s = Armed) \<and>
     (\<forall>r. dr_result s = Some r \<longrightarrow> dr_task s = Some r \<or> (r = Inl (timeout_error abstraction ms) \<and> dr_aborted s)) \<and>
     (dr_timer s = Cleared \<longrightarrow> (\<exists>r. dr_task s = Some r \<and> dr_result s = Some r))"

lemma dr_inv_init: "dr_inv abstraction ms dr_init"
  by (simp add: dr_inv_def dr_init_def)

lemma dr_inv_step: "dr_step abstraction ms s s' \<Longrightarrow> dr_inv abstraction ms s \<Longrightarrow> dr_inv abstraction ms s'"
  by (erule dr_stepE) (auto simp: dr_inv_def split: option.splits)

lemma dr_inv_reach: "(dr_step abstraction ms)\<^sup>*\<^sup>* dr_init s \<Longrightarrow> dr_inv abstraction ms s"
  by (induction rule: rtranclp_induct) (auto intro: dr_inv_init dr_inv_step)

lemma dr_result_stable: "(dr_step abstraction ms)\<^sup>*\<^sup>* s s' \<Longrightarrow> dr_result s = Some r \<Longrightarrow> dr_result s' = Some r"
  by (induction rule: rtranclp_induct) (auto elim!: dr_stepE split: option.splits)

text \<open>
  C28. The deadline, under every order of the task settling (or never settling), the timer and
  the clean-up: the promise settles at most once and keeps its value; that value is the
  task's own or, with the signal aborted, the 503 of the deadline; the signal is aborted
  exactly if the timer fired, and once the race is cleaned up it never fires; no state is
  stuck without a result, and a task that never settles is answered by one step of the timer.
\<close>

theorem deadline_race:
  assumes "(dr_step abstraction ms)\<^sup>*\<^sup>* dr_init s"
  shows "(\<forall>s' r. (dr_step abstraction ms)\<^sup>*\<^sup>* s s' \<longrightarrow> dr_result s = Some r \<longrightarrow> dr_result s' = Some r) \<and>
    (\<forall>r. dr_result s = Some r \<longrightarrow> dr_task s = Some r \<or> (r = Inl (timeout_error abstraction ms) \<and> dr_aborted s)) \<and>
    (dr_aborted s \<longleftrightarrow> dr_timer s = Fired) \<and>
    (dr_timer s = Cleared \<longrightarrow> (\<forall>s'. (dr_step abstraction ms)\<^sup>*\<^sup>* s s' \<longrightarrow> \<not> dr_aborted s')) \<and>
    (dr_result s = None \<longrightarrow> (\<exists>s'. dr_step abstraction ms s s' \<and> dr_result s' = Some (Inl (timeout_error abstraction ms))))"
proof (intro conjI)
  note inv = dr_inv_reach [OF assms]
  show "\<forall>s' r. (dr_step abstraction ms)\<^sup>*\<^sup>* s s' \<longrightarrow> dr_result s = Some r \<longrightarrow> dr_result s' = Some r"
    by (blast intro: dr_result_stable)
  have "dr_timer s' = Cleared" if "(dr_step abstraction ms)\<^sup>*\<^sup>* s s'" "dr_timer s = Cleared" for s'
    using that by (induction rule: rtranclp_induct) (auto elim!: dr_stepE)
  moreover have "dr_inv abstraction ms s'" if "(dr_step abstraction ms)\<^sup>*\<^sup>* s s'" for s'
    using dr_inv_reach [OF rtranclp_trans [OF assms that]] .
  ultimately show "dr_timer s = Cleared \<longrightarrow> (\<forall>s'. (dr_step abstraction ms)\<^sup>*\<^sup>* s s' \<longrightarrow> \<not> dr_aborted s')"
    by (fastforce simp: dr_inv_def)
  show "dr_result s = None \<longrightarrow> (\<exists>s'. dr_step abstraction ms s s' \<and> dr_result s' = Some (Inl (timeout_error abstraction ms)))"
    using inv by (auto simp: dr_inv_def intro!: exI dr_step.fire)
qed (use dr_inv_reach [OF assms] in \<open>auto simp: dr_inv_def\<close>)

theorem deadline_race_witness:
  "\<exists>s. (dr_step ''sign'' (JFin 6000))\<^sup>*\<^sup>* dr_init s \<and> dr_task s = Some (Inr (7::nat)) \<and>
     dr_result s = Some (Inl (timeout_error ''sign'' (JFin 6000))) \<and> dr_aborted s"
proof -
  obtain e :: "raised + nat" where e: "e = Inl (timeout_error ''sign'' (JFin 6000))" by blast
  let ?s1 = "\<lparr>dr_timer = Fired, dr_aborted = True, dr_task = None, dr_result = Some e\<rparr>"
  let ?s2 = "\<lparr>dr_timer = Fired, dr_aborted = True, dr_task = Some (Inr 7), dr_result = Some e\<rparr>"
  have r: "(dr_step ''sign'' (JFin 6000))\<^sup>*\<^sup>* dr_init ?s1"
    using dr_step.fire [of dr_init "''sign''" "JFin 6000"]
    by (intro r_into_rtranclp) (simp add: dr_init_def e)
  have 2: "dr_step ''sign'' (JFin 6000) ?s1 ?s2"
    using dr_step.settle [of ?s1 "''sign''" "JFin 6000" "Inr 7"] by simp
  then have "(dr_step ''sign'' (JFin 6000))\<^sup>*\<^sup>* ?s1 ?s2" by (rule r_into_rtranclp)
  with deadline_race [OF r, THEN conjunct1] have "\<forall>x. dr_result ?s1 = Some x \<longrightarrow> dr_result ?s2 = Some x" by blast
  then have "dr_result ?s2 = Some e" by simp
  moreover from r 2 have "(dr_step ''sign'' (JFin 6000))\<^sup>*\<^sup>* dr_init ?s2"
    by (rule rtranclp.rtrancl_into_rtrancl)
  ultimately show ?thesis unfolding e [symmetric] by (intro exI [of _ ?s2]) simp
qed


section \<open>The race as a value\<close>

text \<open>
  What the caller awaits: \<open>expires ms\<close> says whether the timer fires before the task settles;
  the task's effects happen either way.
\<close>

definition withAbstractionDeadline ::
    "(jsnum \<Rightarrow> ('w, bool) state) \<Rightarrow> string \<Rightarrow> jsnum \<Rightarrow> ('w, raised + 'a) state \<Rightarrow> ('w, raised + 'a) state" where
  "withAbstractionDeadline expires abstraction ms run = do {
     r \<leftarrow> run;
     late \<leftarrow> expires ms;
     ret (if late then Inl (timeout_error abstraction ms) else r)
   }"

text \<open>
  The awaited value abstracts the race: a run of \<open>withAbstractionDeadline\<close> over a task that
  settles with \<open>r\<close> returns exactly the values the race can settle with for that task, whatever
  the order of its steps.
\<close>

theorem deadline_refines:
  "{fst (run_state (withAbstractionDeadline (\<lambda>_. ret late) abstraction ms (ret r)) w) | late. True} =
   {x. \<exists>s. (dr_step abstraction ms)\<^sup>*\<^sup>* dr_init s \<and> dr_task s = Some r \<and> dr_result s = Some x}"
proof -
  let ?e = "Inl (timeout_error abstraction ms)"
  let ?s = "\<lparr>dr_timer = Armed, dr_aborted = False, dr_task = Some r, dr_result = Some r\<rparr>"
  let ?t = "\<lparr>dr_timer = Fired, dr_aborted = True, dr_task = None, dr_result = Some ?e\<rparr>"
  let ?u = "\<lparr>dr_timer = Fired, dr_aborted = True, dr_task = Some r, dr_result = Some ?e\<rparr>"
  have s: "(dr_step abstraction ms)\<^sup>*\<^sup>* dr_init ?s"
    using dr_step.settle [of dr_init abstraction ms r] by (simp add: dr_init_def r_into_rtranclp)
  have t: "dr_step abstraction ms dr_init ?t"
    using dr_step.fire [of dr_init abstraction ms] by (simp add: dr_init_def)
  have u: "dr_step abstraction ms ?t ?u"
    using dr_step.settle [of ?t abstraction ms r] by simp
  have v: "(dr_step abstraction ms)\<^sup>*\<^sup>* dr_init ?u"
    using rtranclp.rtrancl_into_rtrancl [OF r_into_rtranclp [of "dr_step abstraction ms", OF t], OF u] .
  have "x = r \<or> x = ?e"
    if "(dr_step abstraction ms)\<^sup>*\<^sup>* dr_init s" "dr_task s = Some r" "dr_result s = Some x" for s x
    using dr_inv_reach [OF that(1)] that(2,3) by (auto simp: dr_inv_def)
  moreover have "\<exists>s. (dr_step abstraction ms)\<^sup>*\<^sup>* dr_init s \<and> dr_task s = Some r \<and> dr_result s = Some r"
    using s by (intro exI [of _ ?s]) simp
  moreover have "\<exists>s. (dr_step abstraction ms)\<^sup>*\<^sup>* dr_init s \<and> dr_task s = Some r \<and> dr_result s = Some ?e"
    using v by (intro exI [of _ ?u]) simp
  moreover have "{fst (run_state (withAbstractionDeadline (\<lambda>_. ret late) abstraction ms (ret r)) w) | late. True} = {r, ?e}"
    by (auto simp: withAbstractionDeadline_def intro: exI [of _ False] exI [of _ True])
  ultimately show ?thesis by auto
qed

text \<open>
  Timeouts resolve to numbers \<open>setTimeout\<close> keeps: positive, finite, at most \<open>2 ^ 31 - 1\<close>; each is
  the host's override, or the default; an override outside these bounds is refused, never
  clamped. Without overrides, authentication, accounting and signing together stay under ten
  seconds.
\<close>

theorem timeouts_resolved:
  "(case resolveGuardianTimeouts overrides of
      None \<Rightarrow> (\<exists>t f v. overrides = Some t \<and> f \<in> {gt_authenticateMs, gt_rateLimitMs, gt_livenessMs, gt_signMs} \<and>
        f t = Some v \<and> \<not> usable_timeout v)
    | Some t \<Rightarrow> usable_timeout (rt_authenticateMs t) \<and> usable_timeout (rt_rateLimitMs t) \<and>
        usable_timeout (rt_livenessMs t) \<and> usable_timeout (rt_signMs t) \<and>
        (overrides = None \<and> t = DEFAULT_GUARDIAN_TIMEOUTS \<or>
         (\<exists>o'. overrides = Some o' \<and>
           rt_signMs t = (case gt_signMs o' of None \<Rightarrow> JFin 6000 | Some v \<Rightarrow> v) \<and>
           rt_authenticateMs t = (case gt_authenticateMs o' of None \<Rightarrow> JFin 2000 | Some v \<Rightarrow> v) \<and>
           rt_rateLimitMs t = (case gt_rateLimitMs o' of None \<Rightarrow> JFin 1000 | Some v \<Rightarrow> v) \<and>
           rt_livenessMs t = (case gt_livenessMs o' of None \<Rightarrow> JFin 5000 | Some v \<Rightarrow> v))))"
proof (cases overrides)
  case None
  have "resolveGuardianTimeouts None = Some DEFAULT_GUARDIAN_TIMEOUTS" by code_simp
  with None usable_defaults show ?thesis by simp
next
  case (Some o')
  show ?thesis
  proof (cases "resolveGuardianTimeouts overrides")
    case None
    then have "resolve_timeout (gt_authenticateMs o') (rt_authenticateMs DEFAULT_GUARDIAN_TIMEOUTS) = None \<or>
        resolve_timeout (gt_rateLimitMs o') (rt_rateLimitMs DEFAULT_GUARDIAN_TIMEOUTS) = None \<or>
        resolve_timeout (gt_livenessMs o') (rt_livenessMs DEFAULT_GUARDIAN_TIMEOUTS) = None \<or>
        resolve_timeout (gt_signMs o') (rt_signMs DEFAULT_GUARDIAN_TIMEOUTS) = None"
      by (auto simp: Some resolveGuardianTimeouts_def Let_def bind_eq_None_conv)
    then have "\<exists>f v. f \<in> {gt_authenticateMs, gt_rateLimitMs, gt_livenessMs, gt_signMs} \<and> f o' = Some v \<and> \<not> usable_timeout v"
      unfolding resolve_timeout_None by blast
    with None Some show ?thesis by auto
  next
    case t: (Some t)
    note some = resolve_timeout_Some [OF usable_defaults(1)] resolve_timeout_Some [OF usable_defaults(2)]
      resolve_timeout_Some [OF usable_defaults(3)] resolve_timeout_Some [OF usable_defaults(4)]
    have "usable_timeout (rt_authenticateMs t) \<and> usable_timeout (rt_rateLimitMs t) \<and>
        usable_timeout (rt_livenessMs t) \<and> usable_timeout (rt_signMs t) \<and>
        rt_signMs t = (case gt_signMs o' of None \<Rightarrow> rt_signMs DEFAULT_GUARDIAN_TIMEOUTS | Some v \<Rightarrow> v) \<and>
        rt_authenticateMs t = (case gt_authenticateMs o' of None \<Rightarrow> rt_authenticateMs DEFAULT_GUARDIAN_TIMEOUTS | Some v \<Rightarrow> v) \<and>
        rt_rateLimitMs t = (case gt_rateLimitMs o' of None \<Rightarrow> rt_rateLimitMs DEFAULT_GUARDIAN_TIMEOUTS | Some v \<Rightarrow> v) \<and>
        rt_livenessMs t = (case gt_livenessMs o' of None \<Rightarrow> rt_livenessMs DEFAULT_GUARDIAN_TIMEOUTS | Some v \<Rightarrow> v)"
      using t by (auto simp: Some resolveGuardianTimeouts_def Let_def bind_eq_Some_conv some)
    then show ?thesis
      unfolding default_timeouts by (elim conjE) (simp add: t [unfolded Some] Some)
  qed
qed

end
