(* ===== verification/Sign_Runners.thy ===== *)
theory Sign_Runners
  imports Deadline Eip712_Domain Whitelisting Fund_Binding Swap_Checks
begin

text \<open>
  The validate-and-sign functions (\<open>typed-data/sign-runners.ts\<close>): checks first, then the
  domain read, then the payload, then the signer. The signer and viem's digest are
  parameters. \<open>check_runner\<close> is the contract the four shipped runners meet.
\<close>

section \<open>Dates\<close>

text \<open>\<open>Date.prototype.toISOString\<close>: the proleptic Gregorian date of a count of milliseconds.\<close>

definition civil_of_days :: "int \<Rightarrow> int \<times> int \<times> int" where
  "civil_of_days days =
     (let z = days + 719468;
          era = z div 146097;
          doe = z mod 146097;
          yoe = (doe - doe div 1460 + doe div 36524 - doe div 146096) div 365;
          doy = doe - (365 * yoe + yoe div 4 - yoe div 100);
          mp = (5 * doy + 2) div 153;
          d = doy - (153 * mp + 2) div 5 + 1;
          m = (if mp < 10 then mp + 3 else mp - 9);
          y = yoe + era * 400 + (if m \<le> 2 then 1 else 0)
      in (y, m, d))"

definition pad :: "nat \<Rightarrow> int \<Rightarrow> string" where
  "pad n i = (let s = show_nat (nat i) in replicate (n - length s) (CHR ''0'') @ s)"

definition toISOString :: "int \<Rightarrow> string" where
  "toISOString ms =
     (case civil_of_days (ms div 86400000) of (y, m, d) \<Rightarrow>
        let t = ms mod 86400000;
            year = (if 0 \<le> y \<and> y \<le> 9999 then pad 4 y
                    else if y < 0 then ''-'' @ pad 6 (- y) else ''+'' @ pad 6 y)
        in year @ ''-'' @ pad 2 m @ ''-'' @ pad 2 d @ ''T'' @
           pad 2 (t div 3600000) @ '':'' @ pad 2 (t div 60000 mod 60) @ '':'' @
           pad 2 (t div 1000 mod 60) @ ''.'' @ pad 3 (t mod 1000) @ ''Z'')"

definition SIGNED_AT_EPOCH :: string where
  "SIGNED_AT_EPOCH = ''1970-01-01T00:00:00.000Z''"

text \<open>An invalid \<open>Date\<close>, whose time is \<open>NaN\<close>, is \<open>None\<close>.\<close>

definition nowIso :: "int option \<Rightarrow> string" where
  "nowIso now = (case now of None \<Rightarrow> SIGNED_AT_EPOCH | Some ms \<Rightarrow> toISOString ms)"

lemma iso_examples:
  "toISOString 0 = SIGNED_AT_EPOCH"
  "toISOString 951782400000 = ''2000-02-29T00:00:00.000Z''"
  "toISOString (-1) = ''1969-12-31T23:59:59.999Z''"
  by code_simp+


section \<open>The sign functions\<close>

text \<open>
  \<open>sg_client\<close> is what the check runner sees of the context. A thrown exception is told from
  an \<open>Err\<close>: it carries a message, or it is one of the tagged errors.
\<close>

record ('w, 'c) signing_context =
  sg_chainId :: int
  sg_client :: 'c
  sg_readDomain :: "string \<Rightarrow> ('w, thrown + domain_name_version) state"
  sg_now :: "int option"
  sg_signTypedData :: "typed_data \<Rightarrow> ('w, guardian_error + string) state"

record ('w, 'c, 'b) sign_deps =
  sd_checks :: "'c \<Rightarrow> 'b \<Rightarrow> ('w, guardian_error + check_entry list) state"
  sd_guardianSigner :: string
  sd_cache :: "('w, domain_name_version) async_cache option"
  sd_cacheTtlMs :: "jsnum option"

record signing_success =
  ss_guardian :: string
  ss_signature :: string
  ss_payloadHash :: string
  ss_signedAt :: string
  ss_checks :: "check_entry list"

record whitelisting_success = signing_success +
  ss_address :: string
  ss_nonce :: string

definition resolveDomain ::
    "('w, 'c) signing_context \<Rightarrow> ('w, 'c, 'b) sign_deps \<Rightarrow> string \<Rightarrow> ('w, guardian_error + domain_name_version) state" where
  "resolveDomain ctx deps verifyingContract =
     fetchEip712DomainNameVersion (sg_readDomain ctx) (sg_chainId ctx) verifyingContract (sd_cache deps) (sd_cacheTtlMs deps)"

text \<open>
  The steps every factory repeats, over the endpoint's contract, its builder and its
  success record; an \<open>Err\<close> is \<open>Inr (Inl e)\<close>, an exception of the builder \<open>Inl\<close>.
\<close>

definition sign_with ::
    "('w, 'c, 'b) sign_deps \<Rightarrow> ('w, 'c) signing_context \<Rightarrow> 'b \<Rightarrow> string \<Rightarrow>
     (domain_name_version \<Rightarrow> string + guardian_typed_data) \<Rightarrow>
     (string \<Rightarrow> string \<Rightarrow> check_entry list \<Rightarrow> 's) \<Rightarrow> ('w, raised + guardian_error + 's) state" where
  "sign_with deps ctx body verifyingContract build success = do {
     checkResult \<leftarrow> sd_checks deps (sg_client ctx) body;
     case checkResult of
       Inl e \<Rightarrow> ret (Inr (Inl e))
     | Inr checks \<Rightarrow> do {
         domainResult \<leftarrow> resolveDomain ctx deps verifyingContract;
         case domainResult of
           Inl e \<Rightarrow> ret (Inr (Inl e))
         | Inr nv \<Rightarrow>
             (case build nv of
                Inl m \<Rightarrow> ret (Inl (RaisedError m))
              | Inr td \<Rightarrow> do {
                  sigResult \<leftarrow> sg_signTypedData ctx (gt_typedData td);
                  ret (case sigResult of
                     Inl e \<Rightarrow> Inr (Inl e)
                   | Inr sig \<Rightarrow> Inr (Inr (success sig (gt_payloadHash td) checks)))
                })
       }
   }"

definition success_of ::
    "('w, 'c, 'b) sign_deps \<Rightarrow> ('w, 'c) signing_context \<Rightarrow> string \<Rightarrow> string \<Rightarrow> check_entry list \<Rightarrow> signing_success" where
  "success_of deps ctx sig payloadHash checks =
     \<lparr>ss_guardian = sd_guardianSigner deps, ss_signature = sig, ss_payloadHash = payloadHash,
      ss_signedAt = nowIso (sg_now ctx), ss_checks = checks\<rparr>"

definition makeSignIntentRequestBinding ::
    "(typed_data \<Rightarrow> string) \<Rightarrow> ('w, 'c, intent_request_binding_body) sign_deps \<Rightarrow> ('w, 'c) signing_context \<Rightarrow>
     intent_request_binding_body \<Rightarrow> ('w, raised + guardian_error + signing_success) state" where
  "makeSignIntentRequestBinding hashTypedData deps ctx body =
     sign_with deps ctx body (rb_facility body)
       (\<lambda>nv. buildIntentRequestBindingTypedData hashTypedData (domain_of nv (rb_chainId body) (rb_facility body)) body)
       (success_of deps ctx)"

definition makeSignIntentFundBinding ::
    "(typed_data \<Rightarrow> string) \<Rightarrow> ('w, 'c, intent_fund_binding_body) sign_deps \<Rightarrow> ('w, 'c) signing_context \<Rightarrow>
     intent_fund_binding_body \<Rightarrow> ('w, raised + guardian_error + signing_success) state" where
  "makeSignIntentFundBinding hashTypedData deps ctx body =
     sign_with deps ctx body (fb_facility body)
       (\<lambda>nv. buildIntentFundBindingTypedData hashTypedData (domain_of nv (fb_chainId body) (fb_facility body)) body)
       (success_of deps ctx)"

definition makeSignIntentSwap ::
    "(typed_data \<Rightarrow> string) \<Rightarrow> ('w, 'c, intent_swap_body) sign_deps \<Rightarrow> ('w, 'c) signing_context \<Rightarrow>
     intent_swap_body \<Rightarrow> ('w, raised + guardian_error + signing_success) state" where
  "makeSignIntentSwap hashTypedData deps ctx body =
     sign_with deps ctx body (sw_facility body)
       (\<lambda>nv. buildIntentSwapTypedData hashTypedData (domain_of nv (sw_chainId body) (sw_facility body)) body)
       (success_of deps ctx)"

definition whitelisting_success_of ::
    "('w, 'c, request_whitelisting_body) sign_deps \<Rightarrow> ('w, 'c) signing_context \<Rightarrow> request_whitelisting_body \<Rightarrow>
     string \<Rightarrow> string \<Rightarrow> check_entry list \<Rightarrow> whitelisting_success" where
  "whitelisting_success_of deps ctx body sig payloadHash checks =
     \<lparr>ss_guardian = sd_guardianSigner deps, ss_signature = sig, ss_payloadHash = payloadHash,
      ss_signedAt = nowIso (sg_now ctx), ss_checks = checks,
      ss_address = sd_guardianSigner deps, ss_nonce = wl_nonce body\<rparr>"

definition makeSignRequestWhitelisting ::
    "(typed_data \<Rightarrow> string) \<Rightarrow> ('w, 'c, request_whitelisting_body) sign_deps \<Rightarrow> ('w, 'c) signing_context \<Rightarrow>
     request_whitelisting_body \<Rightarrow> ('w, raised + guardian_error + whitelisting_success) state" where
  "makeSignRequestWhitelisting hashTypedData deps ctx body =
     sign_with deps ctx body (wl_whitelistBook body)
       (\<lambda>nv. if wl_operation body = Whitelist
          then buildWhitelistRequestTypedData (sd_guardianSigner deps) hashTypedData
                 (domain_of nv (wl_chainId body) (wl_whitelistBook body)) body
          else buildUnwhitelistRequestTypedData (sd_guardianSigner deps) hashTypedData
                 (domain_of nv (wl_chainId body) (wl_whitelistBook body)) body)
       (whitelisting_success_of deps ctx body)"


section \<open>What a success went through\<close>

text \<open>The run of a sign function up to its signature, as the worlds it passes.\<close>

definition signed_for ::
    "(typed_data \<Rightarrow> string) \<Rightarrow> ('w, 'c, 'b) sign_deps \<Rightarrow> ('w, 'c) signing_context \<Rightarrow> 'b \<Rightarrow> string \<Rightarrow> sign_request \<Rightarrow>
     'w \<Rightarrow> 'w \<Rightarrow> string \<Rightarrow> string \<Rightarrow> check_entry list \<Rightarrow> bool" where
  "signed_for hash deps ctx body verifyingContract req w w' sig payloadHash checks \<longleftrightarrow>
     (\<exists>w1 nv w2 td.
        run_state (sd_checks deps (sg_client ctx) body) w = (Inr checks, w1) \<and>
        run_state (resolveDomain ctx deps verifyingContract) w1 = (Inr nv, w2) \<and>
        payload hash (sd_guardianSigner deps) nv req = Inr td \<and> payloadHash = gt_payloadHash td \<and>
        run_state (sg_signTypedData ctx (gt_typedData td)) w2 = (Inr sig, w'))"

lemma sign_with_success:
  "run_state (sign_with deps ctx body v build success) w = (Inr (Inr s), w') \<longleftrightarrow>
     (\<exists>w1 nv w2 td sig checks.
        run_state (sd_checks deps (sg_client ctx) body) w = (Inr checks, w1) \<and>
        run_state (resolveDomain ctx deps v) w1 = (Inr nv, w2) \<and> build nv = Inr td \<and>
        run_state (sg_signTypedData ctx (gt_typedData td)) w2 = (Inr sig, w') \<and>
        s = success sig (gt_payloadHash td) checks)"
  unfolding sign_with_def
  by (auto split: prod.splits sum.splits)

lemma sign_with_refused:
  "run_state (sd_checks deps (sg_client ctx) body) w = (Inl e, w1) \<Longrightarrow>
   run_state (sign_with deps ctx body v build success) w = (Inr (Inl e), w1)"
  by (simp add: sign_with_def)

lemmas make_defs = makeSignIntentRequestBinding_def makeSignIntentFundBinding_def makeSignIntentSwap_def
  makeSignRequestWhitelisting_def

lemma sign_with_for:
  assumes "\<And>nv. build nv = payload hash (sd_guardianSigner deps) nv req"
  shows "run_state (sign_with deps ctx body v build success) w = (Inr (Inr s), w') \<longleftrightarrow>
    (\<exists>sig ph cs. signed_for hash deps ctx body v req w w' sig ph cs \<and> s = success sig ph cs)"
  unfolding sign_with_success assms signed_for_def by blast

text \<open>
  C4. No signature without its checks. Each sign function succeeds exactly if its check
  runner approved, then the domain of the body's own contract was read, then the signer
  signed the payload of this very request; the response carries that signature, the digest
  of that payload and the runner's entries. A runner that refuses ends the call: nothing
  more is read and the signer is not reached, so the world is as the runner left it.
\<close>

theorem signature_trace:
  "(run_state (makeSignIntentRequestBinding hash d1 ctx b1) w = (Inr (Inr s), w') \<longleftrightarrow>
      (\<exists>sig ph cs. signed_for hash d1 ctx b1 (rb_facility b1) (RequestBinding b1) w w' sig ph cs \<and> s = success_of d1 ctx sig ph cs)) \<and>
   (run_state (makeSignIntentFundBinding hash d2 ctx b2) w = (Inr (Inr s), w') \<longleftrightarrow>
      (\<exists>sig ph cs. signed_for hash d2 ctx b2 (fb_facility b2) (FundBinding b2) w w' sig ph cs \<and> s = success_of d2 ctx sig ph cs)) \<and>
   (run_state (makeSignIntentSwap hash d3 ctx b3) w = (Inr (Inr s), w') \<longleftrightarrow>
      (\<exists>sig ph cs. signed_for hash d3 ctx b3 (sw_facility b3) (Swap b3) w w' sig ph cs \<and> s = success_of d3 ctx sig ph cs)) \<and>
   (run_state (makeSignRequestWhitelisting hash d4 ctx b4) w = (Inr (Inr s'), w') \<longleftrightarrow>
      (\<exists>sig ph cs. signed_for hash d4 ctx b4 (wl_whitelistBook b4) (Whitelisting b4) w w' sig ph cs \<and>
         s' = whitelisting_success_of d4 ctx b4 sig ph cs)) \<and>
   (case run_state (sd_checks d1 (sg_client ctx) b1) w of (Inl e, w1) \<Rightarrow>
      run_state (makeSignIntentRequestBinding hash d1 ctx b1) w = (Inr (Inl e), w1) | _ \<Rightarrow> True) \<and>
   (case run_state (sd_checks d2 (sg_client ctx) b2) w of (Inl e, w1) \<Rightarrow>
      run_state (makeSignIntentFundBinding hash d2 ctx b2) w = (Inr (Inl e), w1) | _ \<Rightarrow> True) \<and>
   (case run_state (sd_checks d3 (sg_client ctx) b3) w of (Inl e, w1) \<Rightarrow>
      run_state (makeSignIntentSwap hash d3 ctx b3) w = (Inr (Inl e), w1) | _ \<Rightarrow> True) \<and>
   (case run_state (sd_checks d4 (sg_client ctx) b4) w of (Inl e, w1) \<Rightarrow>
      run_state (makeSignRequestWhitelisting hash d4 ctx b4) w = (Inr (Inl e), w1) | _ \<Rightarrow> True)"
proof -
  note refused = sign_with_refused [of d1 ctx b1] sign_with_refused [of d2 ctx b2]
    sign_with_refused [of d3 ctx b3] sign_with_refused [of d4 ctx b4]
  show ?thesis
    unfolding make_defs
    by (intro conjI sign_with_for) 
      (auto simp: buildRequestWhitelistingTypedData_def refused split: prod.splits sum.splits)
qed


section \<open>The contract of a check runner\<close>

text \<open>
  The two errors of a host's signer, and what a sign function may come back with: no
  exception, an error of the signing union (and a 409 only where the endpoint has one), or a
  success with well-formed, passing entries.
\<close>

fun is_signer_error :: "guardian_error \<Rightarrow> bool" where
  "is_signer_error (InternalError m) = True"
| "is_signer_error (UpstreamUnavailableError m st ra) = True"
| "is_signer_error _ = False"

definition signer_ok :: "('w, 'c) signing_context \<Rightarrow> bool" where
  "signer_ok ctx \<longleftrightarrow> (\<forall>td. pred_state (case_sum is_signer_error (\<lambda>_. True)) (sg_signTypedData ctx td))"

definition sign_outcome :: "bool \<Rightarrow> raised + guardian_error + 's signing_success_scheme \<Rightarrow> bool" where
  "sign_outcome conflict r \<longleftrightarrow>
     (case r of
        Inl x \<Rightarrow> False
      | Inr (Inl e) \<Rightarrow> is_SigningError e \<and> (\<not> conflict \<longrightarrow> (\<forall>rid. re_status (resolveError e rid) \<noteq> 409))
      | Inr (Inr s) \<Rightarrow> all_passed (ss_checks s) \<and> list_all wf_entry (ss_checks s))"

lemma upstream_status_code_409 [simp]: "upstream_status_code st \<noteq> 409"
  by (cases st) simp_all

lemma sign_outcome_runner: "runner_result conflict (Inl e) \<Longrightarrow> sign_outcome conflict (Inr (Inl e))"
  by (cases e) (auto simp: sign_outcome_def resolved_def)

lemma sign_outcome_domain: "is_domain_error e \<Longrightarrow> sign_outcome conflict (Inr (Inl e))"
  by (auto simp: sign_outcome_def is_domain_error_def resolved_def)

lemma sign_outcome_signer: "is_signer_error e \<Longrightarrow> sign_outcome conflict (Inr (Inl e))"
  by (cases e) (auto simp: sign_outcome_def resolved_def)

text \<open>
  What a sign function relies on: its runner answers passing entries, a 422 with a failing
  entry, a 503 or, where it may, a 409.
\<close>

locale check_runner =
  fixes run :: "'c \<Rightarrow> 'b \<Rightarrow> ('w, guardian_error + check_entry list) state" and conflict :: bool
  assumes contract: "pred_state (runner_result conflict) (run ctx body)"
begin

lemma sign_with_outcome:
  assumes "sd_checks deps = run" and "signer_ok ctx" and "\<And>nv. \<exists>td. build nv = Inr td"
    and "\<And>sig ph cs. ss_checks (success sig ph cs) = cs"
  shows "pred_state (sign_outcome conflict) (sign_with deps ctx body v build success)"
    (is "pred_state ?P _")
proof -
  have sig: "pred_state ?P (do { r \<leftarrow> sg_signTypedData ctx td;
        ret (case r of Inl e \<Rightarrow> Inr (Inl e) | Inr sg \<Rightarrow> Inr (Inr (success sg ph cs))) })"
    if "all_passed cs" "list_all wf_entry cs" for td ph cs
    by (rule pred_state_bindI [OF assms(2) [unfolded signer_ok_def, rule_format]])
      (use that in \<open>auto simp: sign_outcome_signer assms(4) split: sum.splits, simp add: sign_outcome_def assms(4)\<close>)
  have after: "pred_state ?P (do {
         domainResult \<leftarrow> resolveDomain ctx deps v;
         case domainResult of
           Inl e \<Rightarrow> ret (Inr (Inl e))
         | Inr nv \<Rightarrow> (case build nv of
                Inl m \<Rightarrow> ret (Inl (RaisedError m))
              | Inr td \<Rightarrow> do {
                  r \<leftarrow> sg_signTypedData ctx (gt_typedData td);
                  ret (case r of Inl e \<Rightarrow> Inr (Inl e) | Inr sg \<Rightarrow> Inr (Inr (success sg (gt_payloadHash td) cs)))
                }) })"
    if cs: "all_passed cs" "list_all wf_entry cs" for cs
    unfolding resolveDomain_def
  proof (rule pred_state_bindI [OF fetch_domain_error])
    fix r :: "guardian_error + domain_name_version"
    assume r: "case_sum is_domain_error (\<lambda>_. True) r"
    show "pred_state ?P (case r of
           Inl e \<Rightarrow> ret (Inr (Inl e))
         | Inr nv \<Rightarrow> (case build nv of
                Inl m \<Rightarrow> ret (Inl (RaisedError m))
              | Inr td \<Rightarrow> do {
                  r \<leftarrow> sg_signTypedData ctx (gt_typedData td);
                  ret (case r of Inl e \<Rightarrow> Inr (Inl e) | Inr sg \<Rightarrow> Inr (Inr (success sg (gt_payloadHash td) cs)))
                }))"
    proof (cases r)
      case (Inr nv)
      obtain td where "build nv = Inr td" using assms(3) by blast
      with sig [OF cs] Inr show ?thesis by simp
    qed (use r in \<open>simp add: sign_outcome_domain\<close>)
  qed
  show ?thesis
    unfolding sign_with_def assms(1)
    by (rule pred_state_bindI [OF contract]) (use sign_outcome_runner after in \<open>auto split: sum.splits\<close>)
qed

end

text \<open>The four runners of the defaults package.\<close>

interpretation a1_runner: check_runner
  "\<lambda>ctx body. runA1 ctx deps (rb_chainId body) (rb_requestContract body) (rb_deadline body)" False for deps
  by unfold_locales (rule runA1_contract)

interpretation a2_runner: check_runner "runA2 policy" True for policy
  by unfold_locales (rule runA2_contract)

interpretation a3_runner: check_runner "runA3 policy" False for policy
  by unfold_locales (rule runA3_contract)

interpretation a4_runner: check_runner "runA4 deps" False for deps
  by unfold_locales (rule runA4_contract)

lemma payload_swap_total: "wf_swap b \<Longrightarrow> \<exists>td. buildIntentSwapTypedData h (domain_of nv (sw_chainId b) (sw_facility b)) b = Inr td"
  by (metis payload.simps(3) payload_total wf_request.simps(3))

text \<open>
  C22. The outcomes of the four endpoints, with the shipped runners and a signer that fails
  only with its two errors: for every world and whatever fails underneath, a schema-valid
  request ends in a success whose entries all pass and are well-formed, or in one of the
  errors of the signing union; no builder throws; and only the fund binding ever answers 409.
\<close>

theorem sign_outcomes:
  assumes "signer_ok c1" and "signer_ok c2" and "signer_ok c3" and "signer_ok c4" and "wf_swap b3"
  shows "pred_state (sign_outcome False) (makeSignIntentRequestBinding hash
      \<lparr>sd_checks = \<lambda>ctx body. runA1 ctx deps1 (rb_chainId body) (rb_requestContract body) (rb_deadline body),
       sd_guardianSigner = g, sd_cache = e1, sd_cacheTtlMs = ttl\<rparr> c1 b1) \<and>
    pred_state (sign_outcome True) (makeSignIntentFundBinding hash
      \<lparr>sd_checks = runA2 policy2, sd_guardianSigner = g, sd_cache = e2, sd_cacheTtlMs = ttl\<rparr> c2 b2) \<and>
    pred_state (sign_outcome False) (makeSignIntentSwap hash
      \<lparr>sd_checks = runA3 policy3, sd_guardianSigner = g, sd_cache = e3, sd_cacheTtlMs = ttl\<rparr> c3 b3) \<and>
    pred_state (sign_outcome False) (makeSignRequestWhitelisting hash
      \<lparr>sd_checks = runA4 deps4, sd_guardianSigner = g, sd_cache = e4, sd_cacheTtlMs = ttl\<rparr> c4 b4)"
  unfolding make_defs
proof (intro conjI)
  show "pred_state (sign_outcome False) (sign_with \<lparr>sd_checks = \<lambda>ctx body. runA1 ctx deps1 (rb_chainId body) (rb_requestContract body) (rb_deadline body),
       sd_guardianSigner = g, sd_cache = e1, sd_cacheTtlMs = ttl\<rparr> c1 b1 (rb_facility b1)
       (\<lambda>nv. buildIntentRequestBindingTypedData hash (domain_of nv (rb_chainId b1) (rb_facility b1)) b1)
       (success_of \<lparr>sd_checks = \<lambda>ctx body. runA1 ctx deps1 (rb_chainId body) (rb_requestContract body) (rb_deadline body),
       sd_guardianSigner = g, sd_cache = e1, sd_cacheTtlMs = ttl\<rparr> c1))"
    by (rule a1_runner.sign_with_outcome [OF _ assms(1)]) (simp_all add: build_request_binding success_of_def)
  show "pred_state (sign_outcome True) (sign_with \<lparr>sd_checks = runA2 policy2, sd_guardianSigner = g, sd_cache = e2,
       sd_cacheTtlMs = ttl\<rparr> c2 b2 (fb_facility b2)
       (\<lambda>nv. buildIntentFundBindingTypedData hash (domain_of nv (fb_chainId b2) (fb_facility b2)) b2)
       (success_of \<lparr>sd_checks = runA2 policy2, sd_guardianSigner = g, sd_cache = e2, sd_cacheTtlMs = ttl\<rparr> c2))"
    by (rule a2_runner.sign_with_outcome [OF _ assms(2)]) (simp_all add: build_fund_binding success_of_def)
qed (rule a3_runner.sign_with_outcome [OF _ assms(3)] a4_runner.sign_with_outcome [OF _ assms(4)];
     simp add: success_of_def whitelisting_success_of_def payload_swap_total assms(5)
       build_whitelisting [unfolded buildRequestWhitelistingTypedData_def])+

text \<open>A context whose chain answers for the facts of \<open>ex_facts\<close>.\<close>

definition sign_ctx_for :: "'c \<Rightarrow> (unit, 'c) signing_context" where
  "sign_ctx_for client =
     \<lparr>sg_chainId = 1, sg_client = client, sg_readDomain = \<lambda>_. ret (Inr ex_nv), sg_now = Some 5000,
      sg_signTypedData = \<lambda>td. ret (Inr (''0x'' @ td_primaryType td))\<rparr>"

lemma signer_ok_for: "signer_ok (sign_ctx_for client)"
  by (simp add: signer_ok_def sign_ctx_for_def)

definition ex_request_body :: intent_request_binding_body where
  "ex_request_body = \<lparr>rb_chainId = 1, rb_facility = ''0xfa'', rb_intent = \<lparr>ir_id = ''7''\<rparr>, rb_requestContract = ''0xa'',
     rb_deadline = 100\<rparr>"

definition ex_sign_deps ::
    "(unit, unit a1_ctx, intent_request_binding_body) sign_deps" where
  "ex_sign_deps =
     \<lparr>sd_checks = \<lambda>ctx body. runA1 ctx ex_deps (rb_chainId body) (rb_requestContract body) (rb_deadline body),
      sd_guardianSigner = ''0x51'', sd_cache = None, sd_cacheTtlMs = None\<rparr>"

theorem sign_outcomes_witness:
  "case result_of (makeSignIntentRequestBinding (\<lambda>_. ''0xdd'') ex_sign_deps (sign_ctx_for (ctx_of ex_facts 5000)) ex_request_body) () of
     Inr (Inr s) \<Rightarrow> all_passed (ss_checks s) \<and> list_all wf_entry (ss_checks s) \<and> ss_signature s = ''0xSetRequestParams''
   | _ \<Rightarrow> False"
proof -
  have "case result_of (makeSignIntentRequestBinding (\<lambda>_. ''0xdd'') ex_sign_deps (sign_ctx_for (ctx_of ex_facts 5000)) ex_request_body) () of
     Inr (Inr s) \<Rightarrow> ss_signature s = ''0xSetRequestParams'' | _ \<Rightarrow> False"
    by code_simp
  moreover have "pred_state (sign_outcome False) (makeSignIntentRequestBinding (\<lambda>_. ''0xdd'') ex_sign_deps
      (sign_ctx_for (ctx_of ex_facts 5000)) ex_request_body)"
    using sign_outcomes [OF signer_ok_for signer_ok_for signer_ok_for signer_ok_for wf_ex_swap,
        where ?deps1.0 = ex_deps and g = "''0x51''" and ?e1.0 = None and ttl = None]
    unfolding ex_sign_deps_def by blast
  ultimately show ?thesis
    by (auto simp: sign_outcome_def result_of_def pred_state_iff split: sum.splits) 
qed

end
