(* ===== verification/Js_Text.thy ===== *)
theory Js_Text
  imports Json Helpers "HOL-Library.Word"
begin

text \<open>
  Library functions of JavaScript on text: \<open>Number(s)\<close>, \<open>TextEncoder\<close>, \<open>JSON.stringify\<close>.
  \<open>Number\<close> rounds as the language does; strings are Latin-1.
\<close>

section \<open>Splitting\<close>

fun split_on :: "char \<Rightarrow> string \<Rightarrow> string list" where
  "split_on c [] = [[]]"
| "split_on c (x # xs) =
     (if x = c then [] # split_on c xs
      else case split_on c xs of [] \<Rightarrow> [[x]] | p # ps \<Rightarrow> (x # p) # ps)"

section \<open>Bytes\<close>

type_synonym bytes = "8 word list"

definition utf8_char :: "char \<Rightarrow> bytes" where
  "utf8_char c = (let n = code_of c in
     if n < 128 then [of_nat n] else [of_nat (192 + n div 64), of_nat (128 + n mod 64)])"

definition TextEncoder_encode :: "string \<Rightarrow> bytes" where
  "TextEncoder_encode s = concat (map utf8_char s)"

lemma TextEncoder_append [simp]: "TextEncoder_encode (s @ t) = TextEncoder_encode s @ TextEncoder_encode t"
  by (simp add: TextEncoder_encode_def)

lemma utf8_ascii: "code_of c < 128 \<Longrightarrow> utf8_char c = [of_nat (code_of c)]"
  by (simp add: utf8_char_def)

lemma of_nat_byte_inject:
  assumes "m < 256" "n < 256"
  shows "(of_nat m :: 8 word) = of_nat n \<longleftrightarrow> m = n"
proof
  assume "(of_nat m :: 8 word) = of_nat n"
  then have "unat (of_nat m :: 8 word) = unat (of_nat n :: 8 word)" by simp
  with assms show "m = n" by (simp add: unat_of_nat)
qed simp

lemma TextEncoder_ascii_inject:
  "list_all (\<lambda>c. code_of c < 128) s \<Longrightarrow> list_all (\<lambda>c. code_of c < 128) t \<Longrightarrow>
   TextEncoder_encode s = TextEncoder_encode t \<longleftrightarrow> s = t"
proof (induction s arbitrary: t)
  case Nil
  then show ?case by (cases t) (auto simp: TextEncoder_encode_def utf8_ascii)
next
  case (Cons c s)
  show ?case
  proof (cases t)
    case Nil
    with Cons.prems show ?thesis by (auto simp: TextEncoder_encode_def utf8_ascii)
  next
    case (Cons d t')
    with Cons.prems Cons.IH [of t'] show ?thesis
      by (auto simp: TextEncoder_encode_def utf8_ascii of_nat_byte_inject code_of_inject)
  qed
qed


section \<open>Numbers\<close>

text \<open>
  The double nearest to a rational, ties to even. \<open>double_exponent\<close> is the exponent of its unit in the
  last place: the significand has 53 bits, fewer below \<open>2 ^ - 1022\<close>. What reaches \<open>2 ^ 1024\<close>, that is
  \<open>2 ^ 53 * 2 ^ 971\<close>, is \<open>Infinity\<close>.
\<close>

function bit_length :: "int \<Rightarrow> nat" where
  "bit_length n = (if n \<le> 0 then 0 else Suc (bit_length (n div 2)))"
  by auto
termination by (relation "measure nat") auto

declare bit_length.simps [simp del]

definition shift2 :: "rat \<Rightarrow> int \<Rightarrow> rat" where
  "shift2 r e = r * 2 powi e"

definition round_even :: "rat \<Rightarrow> int" where
  "round_even r =
     (let f = \<lfloor>r\<rfloor>; d = r - of_int f in
      if d < 1 / 2 \<or> (d = 1 / 2 \<and> even f) then f else f + 1)"

definition double_exponent :: "rat \<Rightarrow> int" where
  "double_exponent r =
     (let (p, q) = quotient_of r; e = int (bit_length p) - int (bit_length q) - 53 in
      max (if shift2 r (- e) < 2 ^ 53 then e else e + 1) (- 1074))"

definition to_double :: "rat \<Rightarrow> jsnum" where
  "to_double r =
     (if r = 0 then JFin 0
      else let e = double_exponent \<bar>r\<bar>; k = round_even (shift2 \<bar>r\<bar> (- e)) in
        if e > 971 \<or> (e = 971 \<and> k = 2 ^ 53) then (if r > 0 then JPosInf else JNegInf)
        else JFin (shift2 (of_int (if r > 0 then k else - k)) e))"

lemma rounding_examples:
  "to_double 9007199254740993 = JFin 9007199254740992" "to_double 9007199254740995 = JFin 9007199254740996"
  "to_double 12 = JFin 12" "to_double (1 / 2) = JFin (1 / 2)" "to_double (- 3) = JFin (- 3)"
  by code_simp+

lemma bit_length_le: "n < 2 ^ k \<Longrightarrow> bit_length n \<le> k"
proof (induction k arbitrary: n)
  case (Suc k)
  then have "n div 2 < 2 ^ k" by auto
  from Suc.IH [OF this] show ?case by (subst bit_length.simps) simp
qed (simp add: bit_length.simps)

lemma bit_length_bounds: "0 < n \<Longrightarrow> 2 ^ bit_length n \<le> 2 * n \<and> n < 2 ^ bit_length n"
proof (induction n rule: bit_length.induct)
  case (1 n)
  show ?case
  proof (cases "n = 1")
    case True
    then show ?thesis by (simp add: bit_length.simps)
  next
    case False
    with 1 have "2 ^ bit_length (n div 2) \<le> 2 * (n div 2) \<and> n div 2 < 2 ^ bit_length (n div 2)" by simp
    then have "2 ^ bit_length (n div 2) \<le> n \<and> n < 2 * 2 ^ bit_length (n div 2)" by auto
    with 1(2) show ?thesis by (subst (1 2) bit_length.simps) simp
  qed
qed

lemma round_even_of_int [simp]: "round_even (of_int k) = k"
  by (simp add: round_even_def)

lemma round_even_ge:
  assumes "of_int k \<le> r"
  shows "k \<le> round_even r"
proof -
  from assms have "k \<le> \<lfloor>r\<rfloor>" by (simp add: le_floor_iff)
  then show ?thesis by (simp add: round_even_def Let_def)
qed

lemma round_even_le: "r < of_int k \<Longrightarrow> round_even r \<le> k"
proof -
  assume "r < of_int k"
  then have "\<lfloor>r\<rfloor> < k" by (simp add: floor_less_iff)
  then show ?thesis by (simp add: round_even_def Let_def)
qed

lemma powi2_less: "(2 :: rat) powi a < 2 powi b \<longleftrightarrow> a < b"
  using power_int_strict_increasing [of a b "2 :: rat"] power_int_increasing [of b a "2 :: rat"] by (cases "a < b") auto

text \<open>Every positive rational lies between the powers of two its bit lengths give.\<close>

lemma quotient_bounds:
  assumes "0 < r" and "quotient_of r = (p, q)"
  defines "d \<equiv> int (bit_length p) - int (bit_length q)"
  shows "2 powi (d - 1) < r" and "r < 2 powi (d + 1)"
proof -
  have q: "0 < q" using quotient_of_denom_pos [OF assms(2)] .
  have r: "r = of_int p / of_int q" using quotient_of_div [OF assms(2)] .
  with assms(1) q have p: "0 < p" by (simp add: zero_less_divide_iff)
  let ?P = "bit_length p" and ?Q = "bit_length q"
  from bit_length_bounds [OF p] have P: "(2 :: rat) ^ ?P \<le> 2 * of_int p" "(of_int p :: rat) < 2 ^ ?P"
    by (metis of_int_le_iff of_int_mult of_int_numeral of_int_power, metis of_int_less_iff of_int_numeral of_int_power)
  from bit_length_bounds [OF q] have Q: "(2 :: rat) ^ ?Q \<le> 2 * of_int q" "(of_int q :: rat) < 2 ^ ?Q"
    by (metis of_int_le_iff of_int_mult of_int_numeral of_int_power, metis of_int_less_iff of_int_numeral of_int_power)
  have pw: "(2 :: rat) powi (d - 1) = 2 ^ ?P / (2 * 2 ^ ?Q)" "(2 :: rat) powi (d + 1) = 2 * 2 ^ ?P / 2 ^ ?Q"
    by (simp_all add: d_def power_int_diff power_int_add)
  have "2 ^ ?P * of_int q < 2 * of_int p * (2 ^ ?Q :: rat)"
    using P Q q by (intro mult_le_less_imp_less) simp_all
  then show "2 powi (d - 1) < r" unfolding pw r using q by (simp add: field_simps)
  have "of_int p * 2 ^ ?Q < 2 ^ ?P * (2 * of_int q :: rat)"
    using P Q p by (intro mult_less_le_imp_less) simp_all
  then show "r < 2 powi (d + 1)" unfolding pw r using q by (simp add: field_simps)
qed

lemma shift2_less: "shift2 r (- e) < x \<longleftrightarrow> r < x * 2 powi e"
proof -
  have "shift2 r (- e) = r / 2 powi e" by (simp add: shift2_def power_int_minus divide_inverse)
  then show ?thesis by (simp add: pos_divide_less_eq)
qed

lemma double_exponent_grid:
  assumes "0 < r" and "r < 2 ^ 53 * 2 powi e" and "- 1074 \<le> e"
  shows "double_exponent r \<le> e"
proof -
  obtain p q where pq: "quotient_of r = (p, q)" by fastforce
  let ?d = "int (bit_length p) - int (bit_length q)"
  have b: "(2 ^ 53 :: rat) * 2 powi a = 2 powi (53 + a)" for a by (simp add: power_int_add)
  from quotient_bounds(1) [OF assms(1) pq] assms(2) have "(2 :: rat) powi (?d - 1) < 2 powi (53 + e)"
    unfolding b by (rule less_trans)
  then have d: "?d - 53 \<le> e" by (simp add: powi2_less)
  moreover have "?d - 53 + 1 \<le> e" if "\<not> shift2 r (- (?d - 53)) < 2 ^ 53"
  proof -
    have "(2 ^ 53 :: rat) * 2 powi (?d - 53) \<le> r"
      using that unfolding shift2_less by simp
    then have "(2 :: rat) powi (53 + (?d - 53)) < 2 powi (53 + e)" using assms(2) unfolding b by (rule le_less_trans)
    then show ?thesis by (simp add: powi2_less)
  qed
  ultimately show ?thesis using assms(3) by (auto simp: double_exponent_def pq Let_def)
qed

lemma double_exponent_scaled:
  assumes "0 < r"
  shows "shift2 r (- double_exponent r) < 2 ^ 53"
proof -
  obtain p q where pq: "quotient_of r = (p, q)" by fastforce
  let ?d = "int (bit_length p) - int (bit_length q)"
  let ?e = "if shift2 r (- (?d - 53)) < 2 ^ 53 then ?d - 53 else ?d - 53 + 1"
  have "r * 2 powi (- (?d - 53 + 1)) < 2 powi (?d + 1) * 2 powi (- (?d - 53 + 1))"
    using quotient_bounds(2) [OF assms pq] by (intro mult_strict_right_mono) simp_all
  also have "\<dots> = 2 ^ 53" by (simp flip: power_int_add)
  finally have e: "shift2 r (- ?e) < 2 ^ 53" by (auto simp: shift2_def)
  have "double_exponent r = max ?e (- 1074)" by (simp add: double_exponent_def pq Let_def)
  then have "- double_exponent r \<le> - ?e" by simp
  then have "r * 2 powi (- double_exponent r) \<le> r * 2 powi (- ?e)"
    using assms by (intro mult_left_mono power_int_increasing) simp_all
  with e show ?thesis by (simp add: shift2_def)
qed

lemma to_double_grid:
  assumes "0 < k" and "k < 2 ^ 53" and "- 1074 \<le> e" and "e \<le> 971"
  shows "to_double (of_int k * 2 powi e) = JFin (of_int k * 2 powi e)"
proof -
  define r where "r = (of_int k * 2 powi e :: rat)"
  define j where "j = k * 2 ^ nat (e - double_exponent r)"
  have r: "0 < r" using assms(1) by (simp add: r_def)
  have "(of_int k :: rat) < 2 ^ 53" using assms(2) by (metis of_int_less_iff of_int_numeral of_int_power)
  then have le: "double_exponent r \<le> e" using r assms(3) by (intro double_exponent_grid) (simp_all add: r_def)
  then have s: "shift2 r (- double_exponent r) = of_int j"
    by (simp add: shift2_def j_def r_def mult.assoc power_int_def [of _ "e - double_exponent r"] flip: power_int_add)
       (simp add: r_def power_int_def)
  have "shift2 (of_int j) (double_exponent r) = r"
    unfolding s [symmetric] by (simp add: shift2_def mult.assoc flip: power_int_add)
  moreover have "\<not> (double_exponent r > 971 \<or> (double_exponent r = 971 \<and> j = 2 ^ 53))" using le assms(2,4) by (auto simp: j_def)
  ultimately show ?thesis unfolding r_def [symmetric] using r by (simp add: to_double_def Let_def s)
qed

text \<open>Rounding gives a double: rounding it again changes nothing.\<close>

lemma to_double_pos_cases:
  assumes "0 < r" and "to_double r = JFin x"
  shows "x = 0 \<or> (\<exists>k e. 0 < k \<and> k < 2 ^ 53 \<and> - 1074 \<le> e \<and> e \<le> 971 \<and> x = of_int k * 2 powi e)"
proof -
  define e k where "e = double_exponent r" and "k = round_even (shift2 r (- e))"
  from assms have small: "\<not> (e > 971 \<or> (e = 971 \<and> k = 2 ^ 53))" and x: "x = of_int k * 2 powi e"
    by (auto simp: to_double_def Let_def shift2_def e_def k_def split: if_splits)
  have e: "- 1074 \<le> e" by (simp add: e_def double_exponent_def Let_def split: prod.split)
  have "0 \<le> k" using assms(1) unfolding k_def by (intro round_even_ge) (simp add: shift2_def)
  moreover have "k \<le> 2 ^ 53" unfolding k_def e_def by (rule round_even_le) (use double_exponent_scaled [OF assms(1)] in simp)
  ultimately consider "k = 0" | "0 < k" "k < 2 ^ 53" | "k = 2 ^ 53" by linarith
  then show ?thesis
  proof cases
    case 3
    with small have "e + 1 \<le> 971" by auto
    moreover have "x = of_int (2 ^ 52) * 2 powi (e + 1)" by (simp add: x 3 power_int_add)
    moreover have "0 < (2 ^ 52 :: int)" "(2 ^ 52 :: int) < 2 ^ 53" "- 1074 \<le> e + 1" using e by simp_all
    ultimately show ?thesis by blast
  next
    case 2
    moreover from small have "e \<le> 971" by simp
    ultimately show ?thesis using e x by blast
  qed (simp add: x)
qed

lemma to_double_idem:
  assumes "0 < r" and "to_double r = JFin x"
  shows "to_double x = JFin x"
  using to_double_pos_cases [OF assms]
proof (elim disjE exE conjE)
  fix k e assume "0 < k" "k < 2 ^ 53" "- 1074 \<le> e" "e \<le> 971" "x = of_int k * 2 powi e"
  then show ?thesis by (simp add: to_double_grid del: of_int_mult)
qed (simp add: to_double_def)

lemma to_double_exact:
  assumes "0 \<le> i" and "i \<le> 2 ^ 53"
  shows "to_double (of_int i) = JFin (of_int i)"
proof (cases "i = 0 \<or> i = 2 ^ 53")
  case False
  with assms show ?thesis using to_double_grid [of i 0] by simp
next
  case True
  then show ?thesis using to_double_grid [of "2 ^ 52" 1] by (auto simp: to_double_def [of 0])
qed

text \<open>A decimal beyond \<open>2 ^ 53\<close> is not read as one below it.\<close>

lemma double_exponent_normal:
  assumes "0 < r" and "- 1074 < double_exponent r"
  shows "2 ^ 52 * 2 powi double_exponent r \<le> r"
proof -
  obtain p q where pq: "quotient_of r = (p, q)" by fastforce
  let ?d = "int (bit_length p) - int (bit_length q)"
  have b: "(2 ^ n :: rat) * 2 powi a = 2 powi (int n + a)" for n a by (simp add: power_int_add)
  show ?thesis
  proof (cases "shift2 r (- (?d - 53)) < 2 ^ 53")
    case True
    with assms(2) have "double_exponent r = ?d - 53" by (auto simp: double_exponent_def pq Let_def max_def split: if_splits)
    with quotient_bounds(1) [OF assms(1) pq] show ?thesis unfolding b by simp
  next
    case False
    with assms(2) have "double_exponent r = ?d - 53 + 1" by (auto simp: double_exponent_def pq Let_def max_def split: if_splits)
    with False show ?thesis unfolding shift2_less b by simp
  qed
qed

lemma to_double_large:
  assumes "2 ^ 53 \<le> i" and "to_double (of_int i) = JFin x"
  shows "2 ^ 53 \<le> x"
proof -
  define e where "e = double_exponent (of_int i)"
  have r: "(2 ^ 53 :: rat) \<le> of_int i" using assms(1) by (metis of_int_le_iff of_int_numeral of_int_power)
  then have pos: "0 < (of_int i :: rat)" by (rule less_le_trans [rotated]) simp
  from assms(2) pos have x: "x = of_int (round_even (shift2 (of_int i) (- e))) * 2 powi e"
    by (auto simp: to_double_def Let_def shift2_def e_def split: if_splits)
  show ?thesis
  proof (cases "e \<le> 0")
    case True
    then have "shift2 (of_int i) (- e) = of_int (i * 2 ^ nat (- e))" by (simp add: shift2_def power_int_def)
    then have "x = shift2 (of_int i) (- e) * 2 powi e" unfolding x by (metis round_even_of_int)
    then have "x = of_int i" by (simp add: shift2_def mult.assoc flip: power_int_add)
    with r show ?thesis by simp
  next
    case False
    with double_exponent_normal [OF pos] have "2 ^ 52 * 2 powi e \<le> (of_int i :: rat)" by (simp add: e_def)
    then have "\<not> shift2 (of_int i) (- e) < 2 ^ 52" unfolding shift2_less by simp
    then have "2 ^ 52 \<le> round_even (shift2 (of_int i) (- e))" by (intro round_even_ge) simp
    then have "(2 ^ 52 :: rat) \<le> of_int (round_even (shift2 (of_int i) (- e)))"
      by (metis of_int_le_iff of_int_numeral of_int_power)
    moreover have "(2 :: rat) powi 1 \<le> 2 powi e" using False by (intro power_int_increasing) simp_all
    ultimately have "2 ^ 52 * 2 powi 1 \<le> x" unfolding x by (intro mult_mono) simp_all
    then show ?thesis by simp
  qed
qed

definition exponent_part :: "string \<Rightarrow> int option" where
  "exponent_part s =
     (case s of
        [] \<Rightarrow> None
      | c # cs \<Rightarrow>
          if c = CHR ''-'' then map_option (\<lambda>n. - int n) (parse_digits 10 cs)
          else if c = CHR ''+'' then map_option int (parse_digits 10 cs)
          else map_option int (parse_digits 10 s))"

definition scale10 :: "rat \<Rightarrow> int \<Rightarrow> rat" where
  "scale10 r e = (if e = 0 then r else if e \<ge> 0 then r * 10 ^ nat e else r / 10 ^ nat (- e))"

definition dec_int :: "string \<Rightarrow> int" where
  "dec_int s = foldl (\<lambda>n c. 10 * n + int (digit_val c)) 0 s"

lemma dec_int_eq: "dec_int s = int (parse_dec s)"
proof -
  have "foldl (\<lambda>n c. 10 * n + int (digit_val c)) (int a) s = int (foldl (\<lambda>n c. 10 * n + digit_val c) a s)" for a
  proof (induction s arbitrary: a)
    case (Cons c s)
    from Cons.IH [of "10 * a + digit_val c"] show ?case by simp
  qed simp
  from this [of 0] show ?thesis by (simp add: dec_int_def parse_dec_def)
qed

definition unsigned_decimal :: "string \<Rightarrow> rat option" where
  "unsigned_decimal s =
     (let ip = takeWhile is_digit s;
          after = dropWhile is_digit s;
          frac = (case after of c # t \<Rightarrow> if c = CHR ''.'' then t else [] | [] \<Rightarrow> []);
          fp = takeWhile is_digit frac;
          rest = (case after of c # t \<Rightarrow> if c = CHR ''.'' then dropWhile is_digit t else after | [] \<Rightarrow> []);
          m = scale10 (of_int (dec_int (ip @ fp))) (- int (length fp))
      in if ip = [] \<and> fp = [] then None
         else case rest of
           [] \<Rightarrow> Some m
         | c # t \<Rightarrow> if c = CHR ''e'' \<or> c = CHR ''E'' then map_option (scale10 m) (exponent_part t) else None)"

definition signed_decimal :: "string \<Rightarrow> jsnum" where
  "signed_decimal t =
     (let (neg, u) = (case t of [] \<Rightarrow> (False, t)
                      | c # cs \<Rightarrow> if c = CHR ''-'' then (True, cs) else if c = CHR ''+'' then (False, cs) else (False, t))
      in if u = ''Infinity'' then (if neg then JNegInf else JPosInf)
         else case unsigned_decimal u of None \<Rightarrow> JNaN | Some r \<Rightarrow> to_double (if neg then - r else r))"

definition Number :: "string \<Rightarrow> jsnum" where
  "Number s =
     (let t = trim s; radix = (\<lambda>b. case parse_digits b (drop 2 t) of None \<Rightarrow> JNaN | Some n \<Rightarrow> to_double (of_int (int n))) in
      if t = [] then JFin 0
      else if take 2 t = ''0x'' \<or> take 2 t = ''0X'' then radix 16
      else if take 2 t = ''0o'' \<or> take 2 t = ''0O'' then radix 8
      else if take 2 t = ''0b'' \<or> take 2 t = ''0B'' then radix 2
      else signed_decimal t)"

lemma Number_examples:
  "Number ''12'' = JFin 12" "Number '' .5'' = JFin (1/2)" "Number ''1048576'' = num_of_int 1048576" "Number ''12a'' = JNaN" "Number [] = JFin 0"
  "Number ''0x1F'' = JFin 31" "Number ''-Infinity'' = JNegInf"
  by code_simp+

lemma Number_digits:
  assumes "list_all is_digit s" and "s \<noteq> []"
  shows "Number s = to_double (of_nat (parse_dec s))"
proof -
  have t: "trim s = s" using assms(1) by (rule trim_digits)
  have np: "take 2 s \<noteq> [a, b]" if "\<not> is_digit b" for a b
    using assms that by (cases s; cases "tl s") auto
  have tw: "takeWhile is_digit s = s" "dropWhile is_digit s = []"
    using assms(1) by (auto simp: list_all_iff)
  have u: "unsigned_decimal s = Some (of_nat (parse_dec s))"
    using assms(2) by (simp add: unsigned_decimal_def tw scale10_def dec_int_eq)
  obtain c cs where s: "s = c # cs" using assms(2) by (cases s) auto
  with assms(1) have c: "is_digit c" by simp
  then have "c \<noteq> CHR ''-''" "c \<noteq> CHR ''+''" "c \<noteq> CHR ''I''" by (auto simp: is_digit_def code_of_def)
  then have "signed_decimal s = to_double (of_nat (parse_dec s))"
    using u s by (auto simp: signed_decimal_def)
  then show ?thesis
    using assms(2) np by (simp add: Number_def t Let_def is_digit_def code_of_def)
qed


text \<open>The integers that are doubles, and what a decimal reads as: itself up to \<open>2 ^ 53\<close>, never less than that beyond.\<close>

definition is_double :: "int \<Rightarrow> bool" where
  "is_double i \<longleftrightarrow> to_double (of_int i) = num_of_int i"

lemma num_of_int_inject: "num_of_int a = num_of_int b \<longleftrightarrow> a = b"
  by (simp add: num_of_int_def)

lemma is_double_upto: "0 \<le> i \<Longrightarrow> i \<le> 2 ^ 53 \<Longrightarrow> is_double i"
  by (simp add: is_double_def num_of_int_def to_double_exact)

lemma to_double_positive:
  assumes "to_double q = JFin x" and "0 < x"
  shows "to_double x = JFin x"
proof (cases "0 < q")
  case True
  from to_double_idem [OF this assms(1)] show ?thesis .
next
  case False
  define k where "k = round_even (shift2 \<bar>q\<bar> (- double_exponent \<bar>q\<bar>))"
  have "0 \<le> k" unfolding k_def by (intro round_even_ge) (simp add: shift2_def)
  then have "(0 :: rat) \<le> of_int k * 2 powi e" for e by (intro mult_nonneg_nonneg) simp_all
  then have "\<not> 0 < shift2 (of_int (- k)) e" for e by (simp add: shift2_def not_less)
  with False assms show ?thesis by (auto simp: to_double_def Let_def k_def split: if_splits)
qed

text \<open>A positive integer that \<open>Number\<close> gives is a double.\<close>

lemma Number_is_double:
  assumes "Number s = num_of_int c" and "0 < c"
  shows "is_double c"
proof -
  have c: "(0 :: rat) < of_int c" using assms(2) by simp
  have d: "is_double c" if "to_double q = JFin (of_int c)" for q
    using to_double_positive [OF that c] by (simp add: is_double_def num_of_int_def)
  have sd: "is_double c" if "signed_decimal t = JFin (of_int c)" for t
    using that by (auto simp: signed_decimal_def Let_def dest: d split: prod.splits if_splits option.splits)
  from assms(1) c show ?thesis
    by (auto simp: Number_def num_of_int_def Let_def dest: d sd split: if_splits option.splits)
qed

lemma to_double_integer:
  assumes "0 \<le> i" and "to_double (of_int i) = JFin x"
  shows "\<exists>t. x = of_int t"
proof (cases "i = 0")
  case False
  define e where "e = double_exponent (of_int i)"
  from False assms have x: "x = of_int (round_even (shift2 (of_int i) (- e))) * 2 powi e"
    by (auto simp: to_double_def Let_def shift2_def e_def split: if_splits)
  show ?thesis
  proof (cases "e \<le> 0")
    case True
    then have "shift2 (of_int i) (- e) = of_int (i * 2 ^ nat (- e))" by (simp add: shift2_def power_int_def)
    then have "x = shift2 (of_int i) (- e) * 2 powi e" unfolding x by (metis round_even_of_int)
    then have "x = of_int i" by (simp add: shift2_def mult.assoc flip: power_int_add)
    then show ?thesis ..
  next
    case False
    then have "x = of_int (round_even (shift2 (of_int i) (- e)) * 2 ^ nat e)" by (simp add: x power_int_def)
    then show ?thesis ..
  qed
qed (use assms in \<open>simp add: to_double_def exI [of _ 0]\<close>)

lemma Number_decimal_exact:
  assumes "list_all is_digit s" and "s \<noteq> []" and "int (parse_dec s) \<le> 2 ^ 53"
  shows "Number s = num_of_int (int (parse_dec s))"
  using to_double_exact [of "int (parse_dec s)"] assms(3) by (simp add: Number_digits [OF assms(1,2)] num_of_int_def)

lemma Number_decimal_large:
  assumes "list_all is_digit s" and "s \<noteq> []" and "2 ^ 53 \<le> int (parse_dec s)" and "Number s = num_of_int t"
  shows "2 ^ 53 \<le> t"
proof -
  have "to_double (of_int (int (parse_dec s))) = JFin (of_int t)"
    using assms(4) by (simp add: Number_digits [OF assms(1,2)] num_of_int_def)
  from to_double_large [OF assms(3) this] show ?thesis by (metis of_int_le_iff of_int_numeral of_int_power)
qed


section \<open>JSON.stringify\<close>

definition hex_digit :: "nat \<Rightarrow> char" where
  "hex_digit d = (if d < 10 then digit_char d else char_of (87 + d))"

definition json_escape :: "char \<Rightarrow> string" where
  "json_escape c =
     (let n = code_of c in
      if n = 34 then [char_of (92::nat), char_of (34::nat)]
      else if n = 92 then [char_of (92::nat), char_of (92::nat)]
      else if n = 8 then char_of (92::nat) # ''b''
      else if n = 9 then char_of (92::nat) # ''t''
      else if n = 10 then char_of (92::nat) # ''n''
      else if n = 12 then char_of (92::nat) # ''f''
      else if n = 13 then char_of (92::nat) # ''r''
      else if n < 32 then char_of (92::nat) # ''u00'' @ [hex_digit (n div 16), hex_digit (n mod 16)]
      else [c])"

definition json_quote :: "string \<Rightarrow> string" where
  "json_quote s = [char_of (34::nat)] @ concat (map json_escape s) @ [char_of (34::nat)]"

fun join_with :: "string \<Rightarrow> string list \<Rightarrow> string" where
  "join_with sep [] = []"
| "join_with sep [x] = x"
| "join_with sep (x # xs) = x @ sep @ join_with sep xs"

fun JSON_stringify :: "json \<Rightarrow> string" where
  "JSON_stringify JNull = ''null''"
| "JSON_stringify (JBool b) = (if b then ''true'' else ''false'')"
| "JSON_stringify (JNum x) = (if num_isFinite x then show_num x else ''null'')"
| "JSON_stringify (JStr s) = json_quote s"
| "JSON_stringify (JArr js) = ''['' @ join_with '','' (map JSON_stringify js) @ '']''"
| "JSON_stringify (JObj kvs) = ''{'' @ join_with '','' (map (\<lambda>(k, v). json_quote k @ '':'' @ JSON_stringify v) kvs) @ ''}''"

end
