(* ===== verification/Auth.thy ===== *)
theory Auth
  imports Js_Text Deadline Rate_Limit
begin

text \<open>
  Authentication (\<open>plugins/auth.ts\<close>, \<open>lib/hmac.ts\<close>, \<open>lib/time.ts\<close>): the bearer token, the HMAC
  of the raw body, the scope check and the rate-limit accounting, in the order of the
  derive. Header names are lower-case in a request; a response keeps the names of
  \<open>PROTECTED_RESPONSE_HEADERS\<close>. The HMAC-SHA-256 of the noble library, as hex, is a parameter.
\<close>

section \<open>Tokens, headers, hosts\<close>

datatype endpoint_scope =
    IntentRequestBindings | IntentFundBindings | IntentSwaps | RequestWhitelistings

definition ENDPOINT_SCOPES :: "(endpoint_scope \<times> string) list" where
  "ENDPOINT_SCOPES =
     [(IntentRequestBindings, ''facility:intent-request-bindings''),
      (IntentFundBindings, ''facility:intent-fund-bindings''),
      (IntentSwaps, ''facility:intent-swaps''),
      (RequestWhitelistings, ''whitelist-book:request-whitelistings'')]"

record token_info =
  ti_tokenId :: string
  ti_scopes :: "endpoint_scope list"
  ti_requiresHmac :: bool
  ti_hmacSecret :: "string option"

type_synonym request_headers = "(string \<times> string) list"
type_synonym response_headers = "(string, string) omap"

record 'w auth_host =
  ah_authenticate :: "string \<Rightarrow> ('w, raised + guardian_error + token_info) state"
  ah_accountRateLimit :: "(token_info \<Rightarrow> ('w, raised + guardian_error + rate_limit_window) state) option"
  ah_now :: "('w, int) state"
  ah_hmacHex :: "bytes \<Rightarrow> bytes \<Rightarrow> string"
  ah_expires :: "jsnum \<Rightarrow> ('w, bool) state"
  ah_timeouts :: resolved_timeouts

definition REQUEST_ID_HEADER :: string where "REQUEST_ID_HEADER = ''X-Request-Id''"
definition VERSION_HEADER :: string where "VERSION_HEADER = ''X-Guardian-Version''"
definition RATELIMIT_LIMIT :: string where "RATELIMIT_LIMIT = ''X-RateLimit-Limit''"
definition RATELIMIT_REMAINING :: string where "RATELIMIT_REMAINING = ''X-RateLimit-Remaining''"
definition RATELIMIT_RESET :: string where "RATELIMIT_RESET = ''X-RateLimit-Reset''"
definition RETRY_AFTER :: string where "RETRY_AFTER = ''Retry-After''"

lemmas header_names = REQUEST_ID_HEADER_def VERSION_HEADER_def RATELIMIT_LIMIT_def RATELIMIT_REMAINING_def
  RATELIMIT_RESET_def RETRY_AFTER_def

text \<open>The section sign and the plus-minus sign of the messages.\<close>

definition sect :: string where "sect = [CHR 0xA7]"
definition plusminus :: string where "plusminus = [CHR 0xB1]"


section \<open>HMAC\<close>

definition nowUnixSeconds :: "int \<Rightarrow> int" where
  "nowUnixSeconds ms = ms div 1000"

definition hmac_message :: "string \<Rightarrow> bytes \<Rightarrow> bytes" where
  "hmac_message unixSecondsAscii rawBody = TextEncoder_encode (unixSecondsAscii @ ''.'') @ rawBody"

definition computeBodyHmacHex :: "(bytes \<Rightarrow> bytes \<Rightarrow> string) \<Rightarrow> string \<Rightarrow> string \<Rightarrow> bytes \<Rightarrow> string" where
  "computeBodyHmacHex hmacHex secret unixSecondsAscii rawBody =
     hmacHex (TextEncoder_encode secret) (hmac_message unixSecondsAscii rawBody)"

text \<open>The loop of \<open>timingSafeEqualHex\<close>, with the 32-bit integers of \<open>|\<close> and \<open>^\<close>.\<close>

unbundle bit_operations_syntax

definition charCode :: "char \<Rightarrow> 32 word" where
  "charCode c = of_nat (code_of c)"

definition timing_step :: "char \<times> char \<Rightarrow> 32 word \<Rightarrow> 32 word" where
  "timing_step ab diff = diff OR (charCode (fst ab) XOR charCode (snd ab))"

definition timingSafeEqualHex :: "string \<Rightarrow> string \<Rightarrow> bool" where
  "timingSafeEqualHex a b =
     (if length a \<noteq> length b then False else fold timing_step (zip a b) 0 = 0)"

lemma charCode_inject [simp]: "charCode c = charCode d \<longleftrightarrow> c = d"
proof
  assume "charCode c = charCode d"
  then have "unat (of_nat (code_of c) :: 32 word) = unat (of_nat (code_of d) :: 32 word)" by (simp add: charCode_def)
  moreover have "code_of x mod 4294967296 = code_of x" for x
    by (rule mod_less) (rule less_trans [OF code_of_less], simp)
  ultimately show "c = d" by (simp add: unat_of_nat code_of_inject)
qed simp

lemma word_OR_eq_0: "(x :: 'a::len word) OR y = 0 \<longleftrightarrow> x = 0 \<and> y = 0"
  by (auto simp: bit_eq_iff bit_simps)

lemma word_XOR_eq_0: "(x :: 'a::len word) XOR y = 0 \<longleftrightarrow> x = y"
  by (metis bit.xor_self xor.assoc xor.left_neutral xor.right_neutral)

lemma timing_fold: "fold timing_step ps d = 0 \<longleftrightarrow> d = 0 \<and> (\<forall>(a, b) \<in> set ps. a = b)"
  by (induction ps arbitrary: d) (auto simp: timing_step_def word_OR_eq_0 word_XOR_eq_0)

lemma timing_safe: "timingSafeEqualHex a b \<longleftrightarrow> a = b"
proof (cases "length a = length b")
  case True
  then have "(\<forall>(x, y) \<in> set (zip a b). x = y) \<longleftrightarrow> a = b"
    by (induction a b rule: list_induct2) auto
  with True show ?thesis by (simp add: timingSafeEqualHex_def timing_fold)
qed (auto simp: timingSafeEqualHex_def)

text \<open>
  The constant-time loop over 32-bit integers decides equality of two strings of equal
  length and refuses strings of different length: it is string equality.
\<close>

theorem timingSafeEqualHex_iff: "timingSafeEqualHex a b \<longleftrightarrow> a = b"
  by (rule timing_safe)

lemma digit_ascii: "is_digit c \<Longrightarrow> code_of c < 128"
  by (simp add: is_digit_def)

lemma hmac_message_decode_both:
  "list_all is_digit ts \<Longrightarrow> takeWhile (\<lambda>b. b \<noteq> 46) (hmac_message ts raw) = TextEncoder_encode ts \<and>
     tl (dropWhile (\<lambda>b. b \<noteq> 46) (hmac_message ts raw)) = raw"
proof (induction ts)
  case Nil
  have "TextEncoder_encode ''.'' = [46]" by (simp add: TextEncoder_encode_def utf8_char_def code_of_def)
  then show ?case by (simp add: hmac_message_def) (simp add: TextEncoder_encode_def)
next
  case (Cons c ts)
  from Cons.prems have c: "utf8_char c = [of_nat (code_of c)]" by (simp add: utf8_ascii digit_ascii)
  from Cons.prems have "code_of c \<noteq> 46" by (auto simp: is_digit_def)
  then have "(of_nat (code_of c) :: 8 word) \<noteq> of_nat 46" by (subst of_nat_byte_inject) simp_all
  then have n: "(of_nat (code_of c) :: 8 word) \<noteq> 46" by simp
  have m: "hmac_message (c # ts) raw = of_nat (code_of c) # hmac_message ts raw"
    by (simp add: hmac_message_def TextEncoder_encode_def c)
  have e: "TextEncoder_encode (c # ts) = of_nat (code_of c) # TextEncoder_encode ts"
    by (simp add: TextEncoder_encode_def c)
  from Cons n show ?case by (simp add: m e)
qed

lemmas hmac_message_decode =
  hmac_message_decode_both [THEN conjunct1] hmac_message_decode_both [THEN conjunct2]

text \<open>
  The bytes under the MAC determine the timestamp and the body: two requests with decimal
  timestamps have the same message only if both are the same, so a signature of one request
  is never one of a request with digits moved between the timestamp and the body.
\<close>

theorem hmac_message_unambiguous:
  assumes "list_all is_digit ts" and "list_all is_digit ts'"
  shows "hmac_message ts raw = hmac_message ts' raw' \<longleftrightarrow> ts = ts' \<and> raw = raw'"
proof
  assume e: "hmac_message ts raw = hmac_message ts' raw'"
  then have "TextEncoder_encode ts = TextEncoder_encode ts'"
    using hmac_message_decode(1) [OF assms(1)] hmac_message_decode(1) [OF assms(2)] by metis
  moreover have "raw = raw'"
    using e hmac_message_decode(2) [OF assms(1)] hmac_message_decode(2) [OF assms(2)] by metis
  ultimately show "ts = ts' \<and> raw = raw'"
    using assms by (simp add: TextEncoder_ascii_inject list_all_iff digit_ascii)
qed simp

theorem hmac_message_unambiguous_witness:
  "hmac_message ''17'' [55, 46] \<noteq> hmac_message ''177'' [46]"
  using hmac_message_unambiguous [of "''17''" "''177''" "[55, 46]" "[46]"]
  by (simp add: is_digit_def code_of_def)


section \<open>The derive\<close>

definition HMAC_TIMESTAMP_TOLERANCE_SECONDS :: int where
  "HMAC_TIMESTAMP_TOLERANCE_SECONDS = 60"

definition unauthenticated :: "string \<Rightarrow> guardian_error" where
  "unauthenticated m = UnauthenticatedError m"

definition requireSecret :: "token_info \<Rightarrow> guardian_error + string" where
  "requireSecret token =
     (case ti_hmacSecret token of
        None \<Rightarrow> Inl (unauthenticated (''HMAC required but no secret configured ('' @ sect @ ''5.4).''))
      | Some s \<Rightarrow> if s = [] then Inl (unauthenticated (''HMAC required but no secret configured ('' @ sect @ ''5.4).''))
                 else Inr s)"

text \<open>\<open>Math.abs(now - timestamp) > tolerance\<close>, where an overlong decimal reads as infinity.\<close>

definition skew_exceeds :: "int \<Rightarrow> jsnum \<Rightarrow> bool" where
  "skew_exceeds now x =
     (case x of
        JFin r \<Rightarrow> \<bar>of_int now - r\<bar> > of_int HMAC_TIMESTAMP_TOLERANCE_SECONDS
      | JNaN \<Rightarrow> False
      | _ \<Rightarrow> True)"

text \<open>A header that is absent or empty is falsy.\<close>

definition header_value :: "request_headers \<Rightarrow> string \<Rightarrow> string option" where
  "header_value hs name = (case map_of hs name of None \<Rightarrow> None | Some v \<Rightarrow> if v = [] then None else Some v)"

definition hmac_headers :: "request_headers \<Rightarrow> guardian_error + string \<times> string" where
  "hmac_headers hs =
     (case (header_value hs ''x-guardian-timestamp'', header_value hs ''x-guardian-signature'') of
        (Some ts, Some sig) \<Rightarrow>
          if \<not> list_all is_digit ts
          then Inl (unauthenticated (''X-Guardian-Timestamp MUST be ASCII decimal seconds ('' @ sect @ ''5.4.2).''))
          else Inr (ts, sig)
      | _ \<Rightarrow> Inl (unauthenticated
          (''X-Guardian-Timestamp and X-Guardian-Signature are required for HMAC-flagged tokens ('' @ sect @ ''5.4.2).'')))"

definition hmac_verdict ::
    "(bytes \<Rightarrow> bytes \<Rightarrow> string) \<Rightarrow> int \<Rightarrow> string \<Rightarrow> string \<Rightarrow> string \<Rightarrow> bytes \<Rightarrow> guardian_error + unit" where
  "hmac_verdict hmacHex ms secret ts sig rawBody =
     (if skew_exceeds (nowUnixSeconds ms) (Number ts)
      then Inl (unauthenticated (''X-Guardian-Timestamp outside the '' @ plusminus @
        show_int HMAC_TIMESTAMP_TOLERANCE_SECONDS @ ''s window ('' @ sect @ ''5.4.3).''))
      else if \<not> timingSafeEqualHex (computeBodyHmacHex hmacHex secret ts rawBody) (toLowerCase sig)
      then Inl (unauthenticated (''X-Guardian-Signature did not match ('' @ sect @ ''5.4.3).''))
      else Inr ())"

definition verifyHmac :: "'w auth_host \<Rightarrow> request_headers \<Rightarrow> bytes \<Rightarrow> string \<Rightarrow> ('w, guardian_error + unit) state" where
  "verifyHmac host hs rawBody secret =
     (case hmac_headers hs of
        Inl e \<Rightarrow> ret (Inl e)
      | Inr (ts, sig) \<Rightarrow> do {
          ms \<leftarrow> ah_now host;
          ret (hmac_verdict (ah_hmacHex host) ms secret ts sig rawBody)
        })"

definition check_hmac :: "'w auth_host \<Rightarrow> request_headers \<Rightarrow> bytes \<Rightarrow> token_info \<Rightarrow> ('w, guardian_error + unit) state" where
  "check_hmac host hs rawBody token =
     (if ti_requiresHmac token then
        (case requireSecret token of
           Inl e \<Rightarrow> ret (Inl e)
         | Inr secret \<Rightarrow> verifyHmac host hs rawBody secret)
      else ret (Inr ()))"

definition bearer_token :: "request_headers \<Rightarrow> guardian_error + string" where
  "bearer_token hs =
     (let authz = (case map_of hs ''authorization'' of None \<Rightarrow> [] | Some a \<Rightarrow> a) in
      if authz = [] \<or> \<not> startsWith (toLowerCase authz) ''bearer ''
      then Inl (unauthenticated (''Missing or malformed Authorization header ('' @ sect @ ''5.1).''))
      else let token = trim (drop (length ''bearer '') authz) in
        if token = [] then Inl (unauthenticated (''Empty bearer token ('' @ sect @ ''5.1).''))
        else Inr token)"

definition window_headers :: "rate_limit_window \<Rightarrow> response_headers \<Rightarrow> response_headers" where
  "window_headers w rh =
     omap_set RATELIMIT_RESET (show_int (rw_resetUnixSeconds w))
       (omap_set RATELIMIT_REMAINING (show_int (rw_remaining w))
         (omap_set RATELIMIT_LIMIT (show_int (rw_limit w)) rh))"

definition rate_limit_step ::
    "'w auth_host \<Rightarrow> token_info \<Rightarrow> response_headers \<Rightarrow> ('w, response_headers \<times> (raised + token_info)) state" where
  "rate_limit_step host token rh =
     (case ah_accountRateLimit host of
        None \<Rightarrow> ret (rh, Inr token)
      | Some account \<Rightarrow> do {
          r \<leftarrow> withAbstractionDeadline (ah_expires host) ''accountRateLimit'' (rt_rateLimitMs (ah_timeouts host)) (account token);
          ret (case r of
             Inl x \<Rightarrow> (rh, Inl x)
           | Inr (Inl e) \<Rightarrow>
               (case e of RateLimitedError m s \<Rightarrow> omap_set RETRY_AFTER (show_int s) rh | _ \<Rightarrow> rh, Inl (RaisedGuardian e))
           | Inr (Inr w) \<Rightarrow> (window_headers w rh, Inr token))
        })"

text \<open>After \<open>authenticate\<close>: the HMAC before the scope, the accounting after both.\<close>

definition authorize ::
    "'w auth_host \<Rightarrow> endpoint_scope \<Rightarrow> request_headers \<Rightarrow> bytes \<Rightarrow> response_headers \<Rightarrow> token_info \<Rightarrow>
     ('w, response_headers \<times> (raised + token_info)) state" where
  "authorize host requiredScope hs rawBody rh tokenInfo = do {
     h \<leftarrow> check_hmac host hs rawBody tokenInfo;
     case h of
       Inl e \<Rightarrow> ret (rh, Inl (RaisedGuardian e))
     | Inr _ \<Rightarrow>
         if requiredScope \<notin> set (ti_scopes tokenInfo)
         then ret (rh, Inl (RaisedGuardian (ForbiddenError
           (''Token lacks the scope required by this endpoint ('' @ sect @ ''5.2).''))))
         else rate_limit_step host tokenInfo rh
   }"

definition auth_derive ::
    "'w auth_host \<Rightarrow> endpoint_scope \<Rightarrow> request_headers \<Rightarrow> bytes \<Rightarrow> response_headers \<Rightarrow>
     ('w, response_headers \<times> (raised + token_info)) state" where
  "auth_derive host requiredScope hs rawBody rh =
     (case bearer_token hs of
        Inl e \<Rightarrow> ret (rh, Inl (RaisedGuardian e))
      | Inr token \<Rightarrow> do {
          authResult \<leftarrow> withAbstractionDeadline (ah_expires host) ''authenticate'' (rt_authenticateMs (ah_timeouts host))
            (ah_authenticate host token);
          case authResult of
            Inl x \<Rightarrow> ret (rh, Inl x)
          | Inr (Inl e) \<Rightarrow> ret (rh, Inl (RaisedGuardian e))
          | Inr (Inr tokenInfo) \<Rightarrow> authorize host requiredScope hs rawBody rh tokenInfo
        })"


section \<open>What the derive grants\<close>

text \<open>
  The HMAC condition without the code's branches: a secret is configured, both headers are
  present, the timestamp is decimal and reads as a number at most a minute off the clock, and
  the signature, in any case, is the MAC of the timestamp, a dot and the body bytes. At a time a
  JavaScript clock can show, the decimal itself is at most a minute off (\<open>timestamp_near_exact\<close>).
\<close>

definition timestamp_near :: "int \<Rightarrow> string \<Rightarrow> bool" where
  "timestamp_near ms ts \<longleftrightarrow> (\<exists>t. Number ts = num_of_int t \<and> \<bar>ms div 1000 - t\<bar> \<le> 60)"

definition hmac_ok :: "(bytes \<Rightarrow> bytes \<Rightarrow> string) \<Rightarrow> request_headers \<Rightarrow> bytes \<Rightarrow> int \<Rightarrow> token_info \<Rightarrow> bool" where
  "hmac_ok hmacHex hs rawBody ms token \<longleftrightarrow>
     (\<exists>secret ts sig.
        ti_hmacSecret token = Some secret \<and> secret \<noteq> [] \<and>
        map_of hs ''x-guardian-timestamp'' = Some ts \<and> ts \<noteq> [] \<and> list_all is_digit ts \<and>
        map_of hs ''x-guardian-signature'' = Some sig \<and> sig \<noteq> [] \<and>
        timestamp_near ms ts \<and>
        toLowerCase sig = hmacHex (TextEncoder_encode secret) (TextEncoder_encode ts @ 46 # rawBody))"

definition bearer_of :: "request_headers \<Rightarrow> string \<Rightarrow> bool" where
  "bearer_of hs token \<longleftrightarrow>
     (\<exists>a. map_of hs ''authorization'' = Some a \<and> startsWith (toLowerCase a) ''bearer '' \<and>
        token = trim (drop 7 a) \<and> token \<noteq> [])"

lemma bearer_token_Inr: "bearer_token hs = Inr token \<longleftrightarrow> bearer_of hs token"
  by (auto simp: bearer_token_def bearer_of_def Let_def startsWith_def eval_nat_numeral split: option.splits)

lemma header_value_Some: "header_value hs n = Some v \<longleftrightarrow> map_of hs n = Some v \<and> v \<noteq> []"
  by (auto simp: header_value_def split: option.splits)

lemma hmac_headers_Inr: "hmac_headers hs = Inr (ts, sig) \<longleftrightarrow>
   header_value hs ''x-guardian-timestamp'' = Some ts \<and> header_value hs ''x-guardian-signature'' = Some sig \<and>
   list_all is_digit ts"
  by (auto simp: hmac_headers_def split: option.splits)

lemma requireSecret_Inr: "requireSecret token = Inr s \<longleftrightarrow> ti_hmacSecret token = Some s \<and> s \<noteq> []"
  by (auto simp: requireSecret_def split: option.splits)

lemma skew_exceeds_decimal:
  assumes "list_all is_digit ts" and "ts \<noteq> []"
  shows "\<not> skew_exceeds (ms div 1000) (Number ts) \<longleftrightarrow> timestamp_near ms ts"
proof (cases "Number ts")
  case (JFin x)
  then obtain t where t: "x = of_int t"
    using to_double_integer [of "int (parse_dec ts)" x] by (auto simp: Number_digits [OF assms])
  have "\<bar>(of_int n :: rat) - of_int t\<bar> = of_int \<bar>n - t\<bar>" for n by simp
  then have "\<bar>(of_int n :: rat) - of_int t\<bar> > 60 \<longleftrightarrow> \<bar>n - t\<bar> > 60" for n
    by (metis of_int_less_iff of_int_numeral)
  then show ?thesis
    by (auto simp: JFin t skew_exceeds_def timestamp_near_def num_of_int_def HMAC_TIMESTAMP_TOLERANCE_SECONDS_def)
qed (use assms in \<open>auto simp: skew_exceeds_def timestamp_near_def num_of_int_def Number_digits to_double_def Let_def split: if_splits\<close>)

text \<open>A clock shows at most \<open>8.64 * 10 ^ 15\<close> ms.\<close>

lemma timestamp_near_exact:
  assumes "list_all is_digit ts" and "ts \<noteq> []" and "ms \<le> 8640000000000000"
  shows "timestamp_near ms ts \<longleftrightarrow> \<bar>ms div 1000 - int (parse_dec ts)\<bar> \<le> 60"
proof (cases "int (parse_dec ts) \<le> 2 ^ 53")
  case True
  then show ?thesis by (simp add: timestamp_near_def Number_decimal_exact [OF assms(1,2)] num_of_int_inject)
next
  case False
  then have "2 ^ 53 \<le> t" if "Number ts = num_of_int t" for t
    using Number_decimal_large [OF assms(1,2) _ that] by simp
  with False assms(3) show ?thesis by (fastforce simp: timestamp_near_def)
qed

lemma hmac_message_bytes: "hmac_message ts raw = TextEncoder_encode ts @ 46 # raw"
proof -
  have "TextEncoder_encode ''.'' = [46]" by (simp add: TextEncoder_encode_def utf8_char_def code_of_def)
  then show ?thesis by (simp add: hmac_message_def)
qed

lemma hmac_verdict_Inr:
  "list_all is_digit ts \<Longrightarrow> ts \<noteq> [] \<Longrightarrow> hmac_verdict h ms secret ts sig raw = Inr () \<longleftrightarrow>
     timestamp_near ms ts \<and>
     toLowerCase sig = h (TextEncoder_encode secret) (TextEncoder_encode ts @ 46 # raw)"
  using skew_exceeds_decimal [of ts ms]
  by (auto simp: hmac_verdict_def timing_safe computeBodyHmacHex_def hmac_message_bytes nowUnixSeconds_def)

lemma check_hmac_flagged:
  assumes "ti_requiresHmac token"
  shows "run_state (check_hmac host hs raw token) w = (Inr (), w') \<longleftrightarrow>
    (\<exists>ms. run_state (ah_now host) w = (ms, w') \<and> hmac_ok (ah_hmacHex host) hs raw ms token)"
proof (cases "requireSecret token")
  case (Inl e)
  then have "\<not> hmac_ok (ah_hmacHex host) hs raw ms token" for ms
    by (auto simp: hmac_ok_def requireSecret_def split: option.splits)
  with Inl assms show ?thesis by (simp add: check_hmac_def)
next
  case (Inr secret)
  then have sec: "ti_hmacSecret token = Some secret" "secret \<noteq> []" by (simp_all add: requireSecret_Inr)
  show ?thesis
  proof (cases "hmac_headers hs")
    case (Inl e)
    then have "\<not> hmac_ok (ah_hmacHex host) hs raw ms token" for ms
      using hmac_headers_Inr [of hs] by (auto simp: hmac_ok_def header_value_Some)
    with Inl Inr assms show ?thesis by (simp add: check_hmac_def verifyHmac_def)
  next
    case p: (Inr p)
    obtain ts sig where [simp]: "p = (ts, sig)" by fastforce
    from p have h: "map_of hs ''x-guardian-timestamp'' = Some ts" "ts \<noteq> []" "list_all is_digit ts"
        "map_of hs ''x-guardian-signature'' = Some sig" "sig \<noteq> []"
      by (simp_all add: hmac_headers_Inr header_value_Some)
    have "hmac_ok (ah_hmacHex host) hs raw ms token \<longleftrightarrow> hmac_verdict (ah_hmacHex host) ms secret ts sig raw = Inr ()" for ms
      unfolding hmac_verdict_Inr [OF h(3,2)] hmac_ok_def using sec h by auto
    with p Inr assms show ?thesis by (auto simp: check_hmac_def verifyHmac_def split: prod.splits)
  qed
qed

lemma auth_derive_Inr:
  "run_state (auth_derive host requiredScope hs rawBody rh) w = ((rh', Inr token), w') \<longleftrightarrow>
   (\<exists>bearer w1 w2.
      bearer_of hs bearer \<and>
      run_state (withAbstractionDeadline (ah_expires host) ''authenticate'' (rt_authenticateMs (ah_timeouts host))
        (ah_authenticate host bearer)) w = (Inr (Inr token), w1) \<and>
      (if ti_requiresHmac token
       then \<exists>ms. run_state (ah_now host) w1 = (ms, w2) \<and> hmac_ok (ah_hmacHex host) hs rawBody ms token
       else w2 = w1) \<and>
      requiredScope \<in> set (ti_scopes token) \<and>
      (case ah_accountRateLimit host of
         None \<Rightarrow> rh' = rh \<and> w' = w2
       | Some account \<Rightarrow> \<exists>window.
           run_state (withAbstractionDeadline (ah_expires host) ''accountRateLimit'' (rt_rateLimitMs (ah_timeouts host))
             (account token)) w2 = (Inr (Inr window), w') \<and> rh' = window_headers window rh))"
proof -
  have limit: "run_state (rate_limit_step host ti rh) w2 = ((rh', Inr token), w') \<longleftrightarrow> ti = token \<and>
      (case ah_accountRateLimit host of
         None \<Rightarrow> rh' = rh \<and> w' = w2
       | Some account \<Rightarrow> \<exists>window.
           run_state (withAbstractionDeadline (ah_expires host) ''accountRateLimit'' (rt_rateLimitMs (ah_timeouts host))
             (account ti)) w2 = (Inr (Inr window), w') \<and> rh' = window_headers window rh)" for ti w2
    by (cases "ah_accountRateLimit host")
      (auto simp: rate_limit_step_def split: prod.splits sum.splits guardian_error.splits)
  have hmac: "run_state (check_hmac host hs rawBody token) w1 = (Inr (), w2) \<longleftrightarrow>
      (if ti_requiresHmac token
       then \<exists>ms. run_state (ah_now host) w1 = (ms, w2) \<and> hmac_ok (ah_hmacHex host) hs rawBody ms token
       else w2 = w1)" for w1 w2
    by (auto simp: check_hmac_flagged) (auto simp: check_hmac_def)
  have "run_state (auth_derive host requiredScope hs rawBody rh) w = ((rh', Inr token), w') \<longleftrightarrow>
    (\<exists>bearer w1 w2. bearer_token hs = Inr bearer \<and>
      run_state (withAbstractionDeadline (ah_expires host) ''authenticate'' (rt_authenticateMs (ah_timeouts host))
        (ah_authenticate host bearer)) w = (Inr (Inr token), w1) \<and>
      run_state (check_hmac host hs rawBody token) w1 = (Inr (), w2) \<and>
      requiredScope \<in> set (ti_scopes token) \<and> run_state (rate_limit_step host token rh) w2 = ((rh', Inr token), w'))"
    by (auto simp: auth_derive_def authorize_def limit split: prod.splits sum.splits if_splits)
  then show ?thesis unfolding bearer_token_Inr hmac limit by simp
qed



text \<open>
  C30. A stolen token does not show its scopes. For an HMAC-flagged token whose HMAC check fails at
  the time the clock shows (no secret, a header missing or malformed, a timestamp off by more than a
  minute, even under a valid signature, or a signature that does not match), there is one answer, a
  401 with one message and no response header added, that the derive gives whatever scopes
  \<open>authenticate\<close> reports and whatever scope the route requires; and nothing is asked of the host
  after the clock: neither the scope check nor the accounting is reached.
\<close>

theorem hmac_failure_uniform:
  assumes "bearer_of hs bearer" and "ti_requiresHmac token"
    and "run_state (ah_expires host (rt_authenticateMs (ah_timeouts host))) w1 = (False, w2)"
    and "run_state (ah_now host) w2 = (ms, w3)" and "\<not> hmac_ok (ah_hmacHex host) hs rawBody ms token"
  shows "\<exists>m w'. w' \<in> {w2, w3} \<and>
    (\<forall>w scopes requiredScope.
      run_state (ah_authenticate host bearer) w = (Inr (Inr (token\<lparr>ti_scopes := scopes\<rparr>)), w1) \<longrightarrow>
      run_state (auth_derive host requiredScope hs rawBody rh) w = ((rh, Inl (RaisedGuardian (UnauthenticatedError m))), w'))"
proof -
  have same: "check_hmac host hs rawBody (token\<lparr>ti_scopes := scopes\<rparr>) = check_hmac host hs rawBody token" for scopes
    by (simp add: check_hmac_def requireSecret_def)
  obtain r w' where c: "run_state (check_hmac host hs rawBody token) w2 = (r, w')" by fastforce
  have "r \<noteq> Inr ()" using check_hmac_flagged [OF assms(2), of host hs rawBody w2 w'] assms(4,5) c by auto
  then obtain e where e: "r = Inl e" by (cases r) auto
  have "(\<exists>m. e = UnauthenticatedError m) \<and> w' \<in> {w2, w3}"
    using c e assms(2,4)
    by (auto simp: check_hmac_def requireSecret_def verifyHmac_def hmac_headers_def hmac_verdict_def unauthenticated_def
        split: option.splits prod.splits if_splits sum.splits)
  then obtain m where m: "e = UnauthenticatedError m" "w' \<in> {w2, w3}" by blast
  have b: "bearer_token hs = Inr bearer" using assms(1) by (simp add: bearer_token_Inr)
  have "run_state (auth_derive host requiredScope hs rawBody rh) w = ((rh, Inl (RaisedGuardian (UnauthenticatedError m))), w')"
    if "run_state (ah_authenticate host bearer) w = (Inr (Inr (token\<lparr>ti_scopes := scopes\<rparr>)), w1)" for w scopes requiredScope
    by (simp add: auth_derive_def authorize_def b withAbstractionDeadline_def that assms(3) same c e m(1))
  with m(2) show ?thesis by blast
qed

definition ex_token :: token_info where
  "ex_token = \<lparr>ti_tokenId = ''t1'', ti_scopes = [IntentSwaps], ti_requiresHmac = True, ti_hmacSecret = Some ''k''\<rparr>"

definition ex_auth_host :: "unit auth_host" where
  "ex_auth_host =
     \<lparr>ah_authenticate = \<lambda>b. ret (Inr (if b = ''abc'' then Inr ex_token else Inl (unauthenticated ''unknown''))),
      ah_accountRateLimit = None, ah_now = ret 17000,
      ah_hmacHex = \<lambda>k m. show_nat (length k) @ show_nat (length m), ah_expires = \<lambda>_. ret False,
      ah_timeouts = DEFAULT_GUARDIAN_TIMEOUTS\<rparr>"

definition ex_auth_headers :: "string \<Rightarrow> string \<Rightarrow> request_headers" where
  "ex_auth_headers ts sig =
     [(''authorization'', ''Bearer abc''), (''x-guardian-timestamp'', ts), (''x-guardian-signature'', sig)]"

lemma ex_bearer: "bearer_of (ex_auth_headers ts sig) ''abc''"
proof -
  have "bearer_token (ex_auth_headers ts sig) = Inr ''abc''" by code_simp
  then show ?thesis by (simp add: bearer_token_Inr)
qed

text \<open>A replay: the signature is the MAC of this body under its timestamp, which is too old.\<close>

theorem hmac_failure_uniform_witness:
  "computeBodyHmacHex (ah_hmacHex ex_auth_host) ''k'' ''177'' [7] = ''15'' \<and>
   (\<exists>m. \<forall>requiredScope. result_of (auth_derive ex_auth_host requiredScope (ex_auth_headers ''177'' ''15'') [7] []) () =
     ([], Inl (RaisedGuardian (UnauthenticatedError m))))"
proof -
  have "\<not> timestamp_near 17000 ''177''"
  proof -
    have "\<not> skew_exceeds (17000 div 1000) (Number ''177'') \<longleftrightarrow> timestamp_near 17000 ''177''"
      by (rule skew_exceeds_decimal) (simp_all add: is_digit_def code_of_def)
    moreover have "skew_exceeds (17000 div 1000) (Number ''177'')" by code_simp
    ultimately show ?thesis by blast
  qed
  then have no: "\<not> hmac_ok (ah_hmacHex ex_auth_host) (ex_auth_headers ''177'' ''15'') [7] 17000 ex_token"
    by (auto simp: hmac_ok_def ex_auth_headers_def)
  have flagged: "ti_requiresHmac ex_token" by (simp add: ex_token_def)
  have "run_state (ah_authenticate ex_auth_host ''abc'') () = (Inr (Inr (ex_token\<lparr>ti_scopes := [IntentSwaps]\<rparr>)), ())"
    by (simp add: ex_auth_host_def ex_token_def)
  with hmac_failure_uniform [OF ex_bearer flagged _ _ no, of "()" "()" "()" "[]"]
  have "\<exists>m. \<forall>requiredScope. result_of (auth_derive ex_auth_host requiredScope (ex_auth_headers ''177'' ''15'') [7] []) () =
     ([], Inl (RaisedGuardian (UnauthenticatedError m)))"
    by (fastforce simp: ex_auth_host_def result_of_def)
  moreover have "computeBodyHmacHex (ah_hmacHex ex_auth_host) ''k'' ''177'' [7] = ''15''" by code_simp
  ultimately show ?thesis by blast
qed

end
