(* ===== verification/Gates.thy ===== *)
theory Gates
  imports Auth Schemas
begin

text \<open>
  The plugins around the routes: the request id (\<open>lib/request-id.ts\<close>, \<open>plugins/request-id.ts\<close>),
  the content-type gate (\<open>plugins/content-type.ts\<close>), the capped raw body
  (\<open>plugins/raw-body.ts\<close>) and the error handler (\<open>plugins/error-handler.ts\<close>). Decoding a body
  (\<open>JSON.parse\<close> of the \<open>TextDecoder\<close>'s text) is a parameter, a \<open>SyntaxError\<close> its \<open>Inl\<close>.
\<close>

section \<open>Requests and responses\<close>

text \<open>
  \<open>rq_stream\<close> is what the reader of the body yields: \<open>None\<close> without a body; a read that
  rejects is \<open>Inl\<close>.
\<close>

record http_request =
  rq_method :: string
  rq_path :: string
  rq_headers :: request_headers
  rq_stream :: "(unit + bytes) list option"

definition isCanonicalUuid :: "string option \<Rightarrow> bool" where
  "isCanonicalUuid v = (case v of None \<Rightarrow> False | Some s \<Rightarrow> UUID_RE s)"

definition resolveRequestId :: "('w, string) state \<Rightarrow> string option \<Rightarrow> ('w, string) state" where
  "resolveRequestId randomUUID headerValue =
     (if isCanonicalUuid headerValue then ret (the headerValue) else randomUUID)"

definition request_id_derive ::
    "('w, string) state \<Rightarrow> request_headers \<Rightarrow> response_headers \<Rightarrow> ('w, response_headers \<times> string) state" where
  "request_id_derive randomUUID hs rh = do {
     requestId \<leftarrow> resolveRequestId randomUUID (map_of hs ''x-request-id'');
     ret (omap_set REQUEST_ID_HEADER requestId rh, requestId)
   }"


section \<open>Content type\<close>

definition media_type :: "string \<Rightarrow> string" where
  "media_type ct = toLowerCase (trim (before_char (CHR '';'') ct))"

definition content_type_of :: "http_request \<Rightarrow> string" where
  "content_type_of req = (case map_of (rq_headers req) ''content-type'' of None \<Rightarrow> [] | Some c \<Rightarrow> c)"

definition contentTypePlugin :: "http_request \<Rightarrow> guardian_error option" where
  "contentTypePlugin req =
     (if rq_method req \<noteq> ''POST'' \<and> rq_method req \<noteq> ''PUT'' then None
      else if media_type (content_type_of req) \<noteq> ''application/json''
      then Some (UnsupportedMediaTypeError (''Content-Type MUST be application/json ('' @ sect @ ''6.1).''))
      else None)"


section \<open>The raw body\<close>

definition DEFAULT_MAX_BODY_BYTES :: int where
  "DEFAULT_MAX_BODY_BYTES = 1048576"

text \<open>The construction check; \<open>None\<close> is its \<open>TypeError\<close>.\<close>

definition rawBodyPlugin_cap :: "jsnum \<Rightarrow> int option" where
  "rawBodyPlugin_cap maxBodyBytes =
     (if \<not> num_isSafeInteger maxBodyBytes \<or> num_le_int maxBodyBytes 0 then None
      else Some (num_to_int maxBodyBytes))"

datatype parse_cause = CauseGuardian guardian_error | CauseSyntax string | CauseOther

definition payloadTooLarge :: "int \<Rightarrow> guardian_error" where
  "payloadTooLarge maxBodyBytes =
     PayloadTooLargeError (''Request body exceeds the '' @ show_int maxBodyBytes @ ''-byte limit.'')"

text \<open>The reading loop, with the chunks kept so far.\<close>

fun read_loop :: "int \<Rightarrow> int \<Rightarrow> bytes list \<Rightarrow> (unit + bytes) list \<Rightarrow> parse_cause + bytes list" where
  "read_loop maxBodyBytes received chunks [] = Inr chunks"
| "read_loop maxBodyBytes received chunks (Inl _ # reads) = Inl CauseOther"
| "read_loop maxBodyBytes received chunks (Inr value # reads) =
     (let received' = received + int (length value) in
      if received' > maxBodyBytes then Inl (CauseGuardian (payloadTooLarge maxBodyBytes))
      else read_loop maxBodyBytes received' (chunks @ [value]) reads)"

definition readBodyCapped :: "(unit + bytes) list option \<Rightarrow> int \<Rightarrow> parse_cause + bytes" where
  "readBodyCapped stream maxBodyBytes =
     (case stream of
        None \<Rightarrow> Inr []
      | Some reads \<Rightarrow>
          (case read_loop maxBodyBytes 0 [] reads of
             Inl c \<Rightarrow> Inl c
           | Inr chunks \<Rightarrow> Inr (if length chunks = 1 then hd chunks else concat chunks)))"

datatype parsed_body = Unconsumed | JsonDocument json | TextDocument string

record body_decoder =
  bd_json :: "bytes \<Rightarrow> string + json"
  bd_text :: "bytes \<Rightarrow> string"

definition parse_json_body :: "body_decoder \<Rightarrow> bytes \<Rightarrow> parse_cause + parsed_body" where
  "parse_json_body dec bytes =
     (if bytes = [] then Inr (JsonDocument (JObj []))
      else case bd_json dec bytes of Inl m \<Rightarrow> Inl (CauseSyntax m) | Inr j \<Rightarrow> Inr (JsonDocument j))"

text \<open>The parse hook: the bytes kept for the HMAC, and what the routes get as their body.\<close>

definition onParse :: "body_decoder \<Rightarrow> int \<Rightarrow> http_request \<Rightarrow> parse_cause + bytes \<times> parsed_body" where
  "onParse dec maxBodyBytes req =
     (if rq_method req = ''GET'' \<or> rq_method req = ''HEAD'' then Inr ([], Unconsumed)
      else
        let mediaType = media_type (content_type_of req);
            isJson = (mediaType = ''application/json'');
            declared = Number (case map_of (rq_headers req) ''content-length'' of None \<Rightarrow> [] | Some c \<Rightarrow> c)
        in
          if \<not> isJson \<and> \<not> startsWith mediaType ''text/'' then Inr ([], Unconsumed)
          else if num_isFinite declared \<and> num_gt_int declared maxBodyBytes
          then Inl (CauseGuardian (payloadTooLarge maxBodyBytes))
          else case readBodyCapped (rq_stream req) maxBodyBytes of
            Inl c \<Rightarrow> Inl c
          | Inr bytes \<Rightarrow>
              if isJson then (case parse_json_body dec bytes of Inl c \<Rightarrow> Inl c | Inr b \<Rightarrow> Inr (bytes, b))
              else Inr (bytes, TextDocument (bd_text dec bytes)))"

lemma read_loop_Inr:
  "read_loop m received chunks reads = Inr out \<longleftrightarrow>
     (\<exists>vs. reads = map Inr vs \<and> out = chunks @ vs \<and>
        (\<forall>n. 0 < n \<and> n \<le> length vs \<longrightarrow> received + int (length (concat (take n vs))) \<le> m))"
proof (induction m received chunks reads rule: read_loop.induct)
  case (3 m received chunks c reads)
  have shift: "(\<forall>n. 0 < n \<and> n \<le> length (c # vs) \<longrightarrow> received + int (length (concat (take n (c # vs)))) \<le> m) \<longleftrightarrow>
      received + int (length c) \<le> m \<and>
      (\<forall>n. 0 < n \<and> n \<le> length vs \<longrightarrow> received + int (length c) + int (length (concat (take n vs))) \<le> m)" for vs
  proof (intro iffI conjI allI impI)
    assume h: "\<forall>n. 0 < n \<and> n \<le> length (c # vs) \<longrightarrow> received + int (length (concat (take n (c # vs)))) \<le> m"
    from h [rule_format, of 1] show "received + int (length c) \<le> m" by simp
    fix n assume "0 < n \<and> n \<le> length vs"
    with h [rule_format, of "Suc n"] show "received + int (length c) + int (length (concat (take n vs))) \<le> m" by simp
  next
    fix n
    assume h: "received + int (length c) \<le> m \<and>
      (\<forall>n. 0 < n \<and> n \<le> length vs \<longrightarrow> received + int (length c) + int (length (concat (take n vs))) \<le> m)"
      and n: "0 < n \<and> n \<le> length (c # vs)"
    then show "received + int (length (concat (take n (c # vs)))) \<le> m"
      by (cases n; cases "n = 1") auto
  qed
  show ?case
  proof (cases "received + int (length c) > m")
    case True
    then show ?thesis using shift by (auto simp: Let_def Cons_eq_map_conv)
  next
    case False
    with 3 [OF refl] show ?thesis using shift by (auto simp: Let_def Cons_eq_map_conv)
  qed
qed auto

lemma concat_take_le: "length (concat (take n vs)) \<le> length (concat vs)"
  by (metis append_take_drop_id concat_append le_add1 length_append)

lemma readBodyCapped_Inr:
  assumes "0 \<le> m"
  shows "readBodyCapped stream m = Inr bytes \<longleftrightarrow>
    (case stream of None \<Rightarrow> bytes = [] | Some reads \<Rightarrow> \<exists>vs. reads = map Inr vs \<and> bytes = concat vs \<and> int (length bytes) \<le> m)"
proof (cases stream)
  case (Some reads)
  have one: "length vs = Suc 0 \<Longrightarrow> hd vs = concat vs" for vs :: "bytes list"
    by (cases vs) auto
  have "(\<forall>n. 0 < n \<and> n \<le> length vs \<longrightarrow> int (length (concat (take n vs))) \<le> m) \<longleftrightarrow> int (length (concat vs)) \<le> m" (is "?L \<longleftrightarrow> ?R")
    for vs :: "bytes list"
  proof
    assume ?L
    then show ?R using assms by (cases vs) (auto dest: spec [of _ "length vs"])
  next
    assume r: ?R
    have "int (length (concat (take n vs))) \<le> m" for n
      using concat_take_le [of n vs] r by linarith
    then show ?L by blast
  qed
  then show ?thesis
    using read_loop_Inr [of m 0 "[]" reads]
    by (auto simp: Some readBodyCapped_def one split: sum.splits)
qed (auto simp: readBodyCapped_def)


lemma read_loop_all_good: "read_loop m r cs (map Inr vs) = Inl c \<Longrightarrow> c = CauseGuardian (payloadTooLarge m)"
  by (induction vs arbitrary: r cs) (auto simp: Let_def split: if_splits)

lemma read_loop_cause: "read_loop m r cs reads = Inl (CauseGuardian e) \<Longrightarrow> e = payloadTooLarge m"
  by (induction m r cs reads rule: read_loop.induct) (auto simp: Let_def split: if_splits)

lemma readBodyCapped_cause: "readBodyCapped stream cap = Inl (CauseGuardian e) \<Longrightarrow> e = payloadTooLarge cap"
  by (auto simp: readBodyCapped_def dest: read_loop_cause split: option.splits sum.splits)

lemma readBodyCapped_over:
  assumes "0 < cap" and "cap < int (length (concat vs))"
  shows "readBodyCapped (Some (map Inr vs)) cap = Inl (CauseGuardian (payloadTooLarge cap))"
proof -
  from assms have vs: "0 < length vs" by (cases vs) auto
  have "read_loop cap 0 [] (map Inr vs) \<noteq> Inr out" for out
  proof
    assume "read_loop cap 0 [] (map Inr vs) = Inr out"
    then have "\<forall>n. 0 < n \<and> n \<le> length vs \<longrightarrow> 0 + int (length (concat (take n vs))) \<le> cap"
      using read_loop_Inr [of cap 0 "[]" "map Inr vs" out] by (auto simp: inj_map_eq_map)
    from this [rule_format, of "length vs"] vs assms(2) show False by simp
  qed
  then show ?thesis
    using read_loop_all_good [of cap 0 "[]" vs] by (auto simp: readBodyCapped_def split: sum.splits)
qed

text \<open>
  C31. Buffering is bounded and exact. Under the construction check, whatever the parse hook
  keeps is at most the cap, whether or not a length is declared; a consumed body is exactly
  the bytes of the stream, in order, so the HMAC is over what was sent; and a JSON body whose
  chunks together pass the cap is refused with the 413 error and nothing else.
\<close>

theorem raw_body_capped:
  assumes "rawBodyPlugin_cap maxBodyBytes = Some cap"
  shows "(case onParse dec cap req of
      Inr (bytes, body) \<Rightarrow> int (length bytes) \<le> cap \<and>
        (body = Unconsumed \<and> bytes = [] \<or> rq_stream req = None \<and> bytes = [] \<or>
         (\<exists>vs. rq_stream req = Some (map Inr vs) \<and> bytes = concat vs))
    | Inl (CauseGuardian e) \<Rightarrow> e = payloadTooLarge cap
    | Inl _ \<Rightarrow> True) \<and>
    (rq_method req = ''POST'' \<and> contentTypePlugin req = None \<and> (\<exists>vs. rq_stream req = Some (map Inr vs) \<and> int (length (concat vs)) > cap) \<longrightarrow>
       onParse dec cap req = Inl (CauseGuardian (payloadTooLarge cap)))"
    (is "?A \<and> ?B")
proof
  have pos: "0 < cap"
    using assms by (auto simp: rawBodyPlugin_cap_def num_isSafeInteger_def num_isInteger_iff split: if_splits)
  note body = readBodyCapped_Inr [of cap "rq_stream req"]
  note cause = readBodyCapped_cause
  show ?A
  proof (cases "onParse dec cap req")
    case (Inl c)
    then show ?thesis
      using cause by (auto simp: onParse_def parse_json_body_def Let_def split: if_splits sum.splits parse_cause.splits)
  next
    case (Inr p)
    obtain bytes b where p: "p = (bytes, b)" by fastforce
    show ?thesis
    proof (cases "b = Unconsumed \<and> bytes = []")
      case False
      with Inr p have "readBodyCapped (rq_stream req) cap = Inr bytes"
        by (auto simp: onParse_def parse_json_body_def Let_def split: if_splits sum.splits)
      with body [of bytes] pos have "case rq_stream req of None \<Rightarrow> bytes = []
          | Some reads \<Rightarrow> \<exists>vs. reads = map Inr vs \<and> bytes = concat vs \<and> int (length bytes) \<le> cap" by (metis less_imp_le)
      with Inr p pos show ?thesis by (cases "rq_stream req") auto
    qed (use Inr p pos in simp)
  qed
  show ?B
  proof (intro impI, elim conjE exE)
    fix vs
    assume r: "rq_method req = ''POST''" "contentTypePlugin req = None" "rq_stream req = Some (map Inr vs)"
      "cap < int (length (concat vs))"
    then have m: "media_type (content_type_of req) = ''application/json''"
      by (simp add: contentTypePlugin_def split: if_splits)
    with r readBodyCapped_over [OF pos r(4)] show "onParse dec cap req = Inl (CauseGuardian (payloadTooLarge cap))"
      by (simp add: onParse_def Let_def)
  qed
qed

definition ex_upload :: http_request where
  "ex_upload = \<lparr>rq_method = ''POST'', rq_path = ''/'', rq_headers = [(''content-type'', '' Application/JSON; charset=utf-8'')],
     rq_stream = Some [Inr [1, 2], Inr [3, 4, 5]]\<rparr>"

theorem raw_body_capped_witness:
  "\<forall>dec. onParse dec 4 ex_upload = Inl (CauseGuardian (payloadTooLarge 4))"
proof
  fix dec :: body_decoder
  have "rawBodyPlugin_cap (JFin 4) = Some 4" by code_simp
  note h = raw_body_capped [OF this, where dec = dec and req = ex_upload]
  have "contentTypePlugin ex_upload = None" by code_simp
  moreover have "rq_stream ex_upload = Some (map Inr [[1, 2], [3, 4, 5]])" by (simp add: ex_upload_def)
  moreover have "rq_method ex_upload = ''POST''" by (simp add: ex_upload_def)
  moreover have "4 < int (length (concat [[1, 2], [3, 4, 5 :: 8 word]]))" by simp
  ultimately show "onParse dec 4 ex_upload = Inl (CauseGuardian (payloadTooLarge 4))" using h [THEN conjunct2] by blast
qed

section \<open>The error handler\<close>

text \<open>
  A validation error carries its part and a message that is a JSON document (\<open>None\<close> where it
  does not parse); what was thrown is told apart as far as \<open>toGuardianError\<close> looks.
\<close>

record validation_error =
  ve_type :: string
  ve_message :: "json option"

datatype thrown_value =
    ThrownValidation validation_error
  | ThrownGuardianError guardian_error
  | ThrownNotFound
  | ThrownParse parse_cause
  | ThrownSyntax string
  | ThrownOther

fun thrown_of :: "raised \<Rightarrow> thrown_value" where
  "thrown_of (RaisedError m) = ThrownOther"
| "thrown_of (RaisedSyntax m) = ThrownSyntax m"
| "thrown_of (RaisedGuardian e) = ThrownGuardianError e"

text \<open>A property of a parsed value other than \<open>null\<close>: \<open>None\<close> is \<open>undefined\<close>.\<close>

fun js_prop :: "json \<Rightarrow> string \<Rightarrow> json option" where
  "js_prop (JObj kvs) k = map_of kvs k"
| "js_prop _ k = None"

definition opt_field :: "string \<Rightarrow> json option \<Rightarrow> (string \<times> json) list" where
  "opt_field k v = (case v of None \<Rightarrow> [] | Some j \<Rightarrow> [(k, j)])"

definition sanitize_issue :: "json \<Rightarrow> json" where
  "sanitize_issue e = JObj (opt_field ''path'' (js_prop e ''path'') @ opt_field ''message'' (js_prop e ''message''))"

text \<open>\<open>(parsed.errors ?? []).map\<close>: \<open>None\<close> where it throws.\<close>

definition sanitize_issues :: "json option \<Rightarrow> json list option" where
  "sanitize_issues errors =
     (case errors of
        None \<Rightarrow> Some []
      | Some JNull \<Rightarrow> Some []
      | Some (JArr es) \<Rightarrow> if JNull \<in> set es then None else Some (map sanitize_issue es)
      | Some _ \<Rightarrow> None)"

definition GENERIC_VALIDATION :: string where
  "GENERIC_VALIDATION = ''Request validation failed''"

definition sanitizeValidationMessage :: "json option \<Rightarrow> string" where
  "sanitizeValidationMessage message =
     (case message of
        None \<Rightarrow> GENERIC_VALIDATION
      | Some parsed \<Rightarrow>
          if parsed = JNull then GENERIC_VALIDATION
          else case sanitize_issues (js_prop parsed ''errors'') of
            None \<Rightarrow> GENERIC_VALIDATION
          | Some issues \<Rightarrow> JSON_stringify (JObj
              ((''type'', JStr ''validation'') # opt_field ''on'' (js_prop parsed ''on'') @
               opt_field ''property'' (js_prop parsed ''property'') @ opt_field ''message'' (js_prop parsed ''message'') @
               [(''errors'', JArr issues)])))"

fun toGuardianError :: "thrown_value \<Rightarrow> guardian_error" where
  "toGuardianError (ThrownValidation v) =
     (if ve_type v = ''response'' then InternalError ''Unexpected Guardian-side failure''
      else BadRequestError (sanitizeValidationMessage (ve_message v)) (Some [(''schema'', JStr (ve_type v))]))"
| "toGuardianError (ThrownGuardianError e) = e"
| "toGuardianError ThrownNotFound = NotFoundError ''Unknown route'' None"
| "toGuardianError (ThrownParse cause) =
     (case cause of
        CauseGuardian e \<Rightarrow> e
      | CauseSyntax m \<Rightarrow> BadRequestError (''Malformed JSON: '' @ m) None
      | CauseOther \<Rightarrow> BadRequestError ''Malformed request body'' None)"
| "toGuardianError (ThrownSyntax m) = BadRequestError (''Malformed JSON: '' @ m) None"
| "toGuardianError ThrownOther = InternalError ''Unexpected Guardian-side failure''"

record error_response =
  er_status :: int
  er_headers :: response_headers
  er_envelope :: error_envelope

definition error_headers :: "resolved_error \<Rightarrow> response_headers \<Rightarrow> response_headers" where
  "error_headers r rh =
     (let rh1 = (if re_status r = 401 then omap_set ''WWW-Authenticate'' (''Bearer realm='' @ json_quote ''guardian'') rh else rh)
      in case re_retryAfterSeconds r of None \<Rightarrow> rh1 | Some s \<Rightarrow> omap_set RETRY_AFTER (show_int s) rh1)"

definition onError ::
    "('w, string) state \<Rightarrow> request_headers \<Rightarrow> response_headers \<Rightarrow> thrown_value \<Rightarrow> ('w, error_response) state" where
  "onError randomUUID hs rh thrown = do {
     requestId \<leftarrow> (case map_of rh REQUEST_ID_HEADER of
        Some r \<Rightarrow> ret r
      | None \<Rightarrow> resolveRequestId randomUUID (map_of hs ''x-request-id''));
     let rh1 = omap_set ''Content-Type'' ''application/json; charset=utf-8'' (omap_set REQUEST_ID_HEADER requestId rh);
         r = resolveError (toGuardianError thrown) requestId
     in ret \<lparr>er_status = re_status r, er_headers = error_headers r rh1, er_envelope = re_envelope r\<rparr>
   }"

text \<open>
  What is left of a validation message after dropping every key the handler does not name,
  in the document and in each of its issues: \<open>found\<close>, \<open>value\<close> and the like.
\<close>

definition redact_issue :: "json \<Rightarrow> json" where
  "redact_issue e = (case e of JObj kvs \<Rightarrow> JObj (filter (\<lambda>kv. fst kv \<in> {''path'', ''message''}) kvs) | _ \<Rightarrow> e)"

definition redact_errors :: "string \<times> json \<Rightarrow> string \<times> json" where
  "redact_errors kv = (case kv of (k, JArr es) \<Rightarrow> if k = ''errors'' then (k, JArr (map redact_issue es)) else kv | _ \<Rightarrow> kv)"

definition redact :: "json \<Rightarrow> json" where
  "redact d = (case d of
      JObj kvs \<Rightarrow> JObj (map redact_errors (filter (\<lambda>kv. fst kv \<in> {''on'', ''property'', ''message'', ''errors''}) kvs))
    | _ \<Rightarrow> d)"

lemma map_of_filter_key: "P k \<Longrightarrow> map_of (filter (\<lambda>kv. P (fst kv)) kvs) k = map_of kvs k"
  by (induction kvs) auto

lemma map_of_filter_keys: "k \<in> K \<Longrightarrow> map_of (filter (\<lambda>kv. fst kv \<in> K) kvs) k = map_of kvs k"
  by (induction kvs) auto

lemma fst_redact_errors [simp]: "fst (redact_errors kv) = fst kv"
  by (auto simp: redact_errors_def split: prod.splits json.splits)

lemma map_of_redact_errors:
  "map_of (map redact_errors kvs) k = map_option (\<lambda>j. snd (redact_errors (k, j))) (map_of kvs k)"
proof (induction kvs)
  case (Cons p kvs)
  obtain k' j where p: "p = (k', j)" by fastforce
  have "redact_errors (k', j) = (k', snd (redact_errors (k', j)))"
    by (metis fst_conv fst_redact_errors prod.collapse)
  then have "map_of (map redact_errors (p # kvs)) k =
      (if k = k' then Some (snd (redact_errors (k', j))) else map_of (map redact_errors kvs) k)"
    unfolding p list.map by (metis fun_upd_apply map_of.simps(2) fst_conv snd_conv)
  with Cons.IH show ?case by (simp add: p)
qed simp

lemma redact_issue_null: "redact_issue e = JNull \<longleftrightarrow> e = JNull"
  by (cases e) (auto simp: redact_issue_def)

lemma sanitize_redact_issue: "sanitize_issue (redact_issue e) = sanitize_issue e"
proof (cases e)
  case (JObj kvs)
  show ?thesis
    unfolding JObj sanitize_issue_def redact_issue_def json.case js_prop.simps
    by (subst (1 2) map_of_filter_keys) auto
qed (simp_all add: sanitize_issue_def redact_issue_def)

text \<open>
  C32. No credential is echoed: the message of a validation error is a function of the
  document without \<open>found\<close>: dropping every key but \<open>on\<close>, \<open>property\<close>, \<open>message\<close> and \<open>errors\<close>, and in
  each issue every key but \<open>path\<close> and \<open>message\<close>, does not change one byte of the answer.
\<close>

theorem validation_message_redacted:
  "sanitizeValidationMessage (Some (redact d)) = sanitizeValidationMessage (Some d)"
proof (cases d)
  case (JObj kvs)
  have keep: "js_prop (redact (JObj kvs)) k = map_option (\<lambda>j. snd (redact_errors (k, j))) (map_of kvs k)"
    if "k \<in> {''on'', ''property'', ''message'', ''errors''}" for k
    unfolding redact_def json.case js_prop.simps map_of_redact_errors map_of_filter_keys [OF that] ..
  have "js_prop (redact (JObj kvs)) k = js_prop (JObj kvs) k" if "k \<in> {''on'', ''property'', ''message''}" for k
    using that keep [of k] by (cases "map_of kvs k") (auto simp: redact_errors_def split: json.splits)
  then have other: "js_prop (redact (JObj kvs)) ''on'' = js_prop (JObj kvs) ''on''"
    "js_prop (redact (JObj kvs)) ''property'' = js_prop (JObj kvs) ''property''"
    "js_prop (redact (JObj kvs)) ''message'' = js_prop (JObj kvs) ''message''" by blast+
  have errors: "sanitize_issues (js_prop (redact (JObj kvs)) ''errors'') = sanitize_issues (js_prop (JObj kvs) ''errors'')"
  proof (cases "map_of kvs ''errors''")
    case (Some j)
    then show ?thesis
    proof (cases j)
      case (JArr es)
      have "JNull \<in> redact_issue ` set es \<longleftrightarrow> JNull \<in> set es"
        by (metis (no_types, lifting) image_iff redact_issue_null)
      with Some JArr show ?thesis
        by (simp add: keep redact_errors_def sanitize_issues_def sanitize_redact_issue comp_def)
    qed (simp_all add: keep redact_errors_def sanitize_issues_def)
  qed (simp add: keep)
  have "redact (JObj kvs) \<noteq> JNull" by (simp add: redact_def)
  then show ?thesis
    unfolding JObj sanitizeValidationMessage_def option.case other errors by simp
qed (simp_all add: redact_def)

end
