(* ===== verification/Server.thy ===== *)
theory Server
  imports Gates Sign_Runners
begin

text \<open>
  The HTTP server (\<open>server.ts\<close>, \<open>lib/signing.ts\<close>, the \<open>routes\<close> and their header and response
  schemas). Elysia runs, in this order, the request hooks, the router, the parse hook, the
  derives, the validation of headers and then body, the handler, the validation of the
  response, and on any throw the error handler; the plugins are composed in that order.
\<close>

section \<open>Header and response schemas\<close>

definition semver_ids :: "string \<Rightarrow> bool" where
  "semver_ids s \<longleftrightarrow> list_all (\<lambda>p. p \<noteq> [] \<and> list_all (\<lambda>c. is_alnum c \<or> c = CHR ''-'') p) (split_on (CHR ''.'') s)"

definition SEMVER_RE :: "string \<Rightarrow> bool" where
  "SEMVER_RE s \<longleftrightarrow>
     (let core = takeWhile (\<lambda>c. c \<noteq> CHR ''-'' \<and> c \<noteq> CHR ''+'') s;
          rest = dropWhile (\<lambda>c. c \<noteq> CHR ''-'' \<and> c \<noteq> CHR ''+'') s;
          pre = takeWhile (\<lambda>c. c \<noteq> CHR ''+'') rest;
          build = dropWhile (\<lambda>c. c \<noteq> CHR ''+'') rest
      in length (split_on (CHR ''.'') core) = 3 \<and> list_all UINT_DECIMAL_RE (split_on (CHR ''.'') core) \<and>
         (pre = [] \<or> semver_ids (tl pre)) \<and> (build = [] \<or> semver_ids (tl build)))"

text \<open>\<open>d\<close> stands for a digit, every other character for itself.\<close>

definition has_shape :: "string \<Rightarrow> string \<Rightarrow> bool" where
  "has_shape = list_all2 (\<lambda>p c. if p = CHR ''d'' then is_digit c else c = p)"

definition RFC3339_UTC_RE :: "string \<Rightarrow> bool" where
  "RFC3339_UTC_RE s \<longleftrightarrow>
     (let rest = drop 19 s in
      has_shape ''dddd-dd-ddTdd:dd:dd'' (take 19 s) \<and>
      (rest = ''Z'' \<or>
       (case rest of [] \<Rightarrow> False
        | c # t \<Rightarrow> c = CHR ''.'' \<and> 2 \<le> length t \<and> last t = CHR ''Z'' \<and> list_all is_digit (butlast t))))"

definition zClientName :: "string \<Rightarrow> bool" where "zClientName = CLIENT_NAME_RE"
definition zSemver :: "string \<Rightarrow> bool" where "zSemver = SEMVER_RE"

text \<open>The three other headers of the schema are optional strings: any value passes.\<close>

definition zProtectedRequestHeaders :: "request_headers \<Rightarrow> bool" where
  "zProtectedRequestHeaders hs \<longleftrightarrow>
     (case map_of hs ''x-client-name'' of None \<Rightarrow> False | Some n \<Rightarrow> zClientName n) \<and>
     (case map_of hs ''x-client-version'' of None \<Rightarrow> False | Some v \<Rightarrow> zSemver v)"

lemma semver_examples:
  "SEMVER_RE ''1.0.0''" "SEMVER_RE ''1.2.3-rc.1+b-7''" "\<not> SEMVER_RE ''1.02.3''" "\<not> SEMVER_RE ''1.2''" "\<not> SEMVER_RE ''1.2.3-''"
  by code_simp+

definition lower_hex_response :: "nat \<Rightarrow> string \<Rightarrow> string option" where
  "lower_hex_response n s = (if hex0x_lower n (toLowerCase s) then Some (toLowerCase s) else None)"

definition zAddressResponse :: "string \<Rightarrow> string option" where "zAddressResponse = lower_hex_response 40"
definition zHash32Response :: "string \<Rightarrow> string option" where "zHash32Response = lower_hex_response 64"
definition zSignatureResponse :: "string \<Rightarrow> string option" where "zSignatureResponse = lower_hex_response 130"

definition zSigningSuccess :: "signing_success \<Rightarrow> signing_success option" where
  "zSigningSuccess s = do {
     guardian \<leftarrow> zAddressResponse (ss_guardian s);
     signature \<leftarrow> zSignatureResponse (ss_signature s);
     payloadHash \<leftarrow> zHash32Response (ss_payloadHash s);
     if RFC3339_UTC_RE (ss_signedAt s) \<and> list_all zCheckEntry (ss_checks s)
     then Some \<lparr>ss_guardian = guardian, ss_signature = signature, ss_payloadHash = payloadHash,
       ss_signedAt = ss_signedAt s, ss_checks = ss_checks s\<rparr>
     else None
   }"

definition zRequestWhitelistingResponse :: "whitelisting_success \<Rightarrow> whitelisting_success option" where
  "zRequestWhitelistingResponse s = do {
     base \<leftarrow> zSigningSuccess (signing_success.truncate s);
     address \<leftarrow> zAddressResponse (ss_address s);
     nonce \<leftarrow> zUintStringBelowMax (JStr (ss_nonce s));
     Some \<lparr>ss_guardian = ss_guardian base, ss_signature = ss_signature base, ss_payloadHash = ss_payloadHash base,
       ss_signedAt = ss_signedAt base, ss_checks = ss_checks base, ss_address = address, ss_nonce = nonce\<rparr>
   }"


section \<open>The host and the signing preamble\<close>

record 'k run_context =
  rc_chainId :: int
  rc_client :: 'k
  rc_requestId :: string
  rc_tokenId :: string
  rc_now :: int

type_synonym ('w, 'k, 'b, 's) validate_and_sign = "'k run_context \<Rightarrow> 'b \<Rightarrow> ('w, raised + (guardian_error + 's)) state"

record ('w, 'k) server_host =
  sh_auth :: "'w auth_host"
  sh_randomUUID :: "('w, string) state"
  sh_maxBodyBytes :: int
  sh_decoder :: body_decoder
  sh_validation :: "string \<Rightarrow> http_request \<Rightarrow> json option"
  sh_build :: string
  sh_guardianSigner :: string
  sh_supportedChains :: "int list"
  sh_liveness :: "('w, raised + (guardian_error + unit)) state"
  sh_probeUpstream :: "('w, raised + (guardian_error + unit)) state option"
  sh_getChainClient :: "int \<Rightarrow> ('w, raised + (guardian_error + 'k)) state"
  sh_signIntentRequestBinding :: "('w, 'k, intent_request_binding_body, signing_success) validate_and_sign"
  sh_signIntentFundBinding :: "('w, 'k, intent_fund_binding_body, signing_success) validate_and_sign"
  sh_signIntentSwap :: "('w, 'k, intent_swap_body, signing_success) validate_and_sign"
  sh_signRequestWhitelisting :: "('w, 'k, request_whitelisting_body, whitelisting_success) validate_and_sign"

text \<open>\<open>unwrapOrThrow\<close>: an \<open>Err\<close> is thrown.\<close>

definition unwrapOrThrow :: "raised + (guardian_error + 'a) \<Rightarrow> raised + 'a" where
  "unwrapOrThrow r = (case r of Inl x \<Rightarrow> Inl x | Inr (Inl e) \<Rightarrow> Inl (RaisedGuardian e) | Inr (Inr v) \<Rightarrow> Inr v)"

definition unwrapping :: "('w, raised + (guardian_error + 'a)) state \<Rightarrow> ('w, raised + 'a) state" where
  "unwrapping m = do { r \<leftarrow> m; ret (unwrapOrThrow r) }"

definition runSigning ::
    "('w, 'k) server_host \<Rightarrow> ('w, 'k, 'b, 's) validate_and_sign \<Rightarrow> int \<Rightarrow> 'b \<Rightarrow> string \<Rightarrow> token_info \<Rightarrow> ('w, raised + 's) state" where
  "runSigning host sign chainId body requestId tokenInfo =
     bindE (case sh_probeUpstream host of None \<Rightarrow> ret (Inr ()) | Some probe \<Rightarrow> unwrapping probe) (\<lambda>_.
     bindE (unwrapping (sh_getChainClient host chainId)) (\<lambda>client.
     unwrapping (withAbstractionDeadline (ah_expires (sh_auth host)) ''sign'' (rt_signMs (ah_timeouts (sh_auth host)))
       (do {
          now \<leftarrow> ah_now (sh_auth host);
          sign \<lparr>rc_chainId = chainId, rc_client = client, rc_requestId = requestId,
            rc_tokenId = ti_tokenId tokenInfo, rc_now = now\<rparr> body
        }))))"


section \<open>Routes\<close>

datatype route = HealthRoute | VersionRoute | RequestBindingRoute | FundBindingRoute | SwapRoute | WhitelistingRoute

definition find_route :: "string \<Rightarrow> string \<Rightarrow> route option" where
  "find_route method path =
     (if method = ''GET'' then
        (if path = ''/health'' then Some HealthRoute else if path = ''/version'' then Some VersionRoute else None)
      else if method = ''POST'' then
        (if path = ''/v1/facility/intent-request-bindings'' then Some RequestBindingRoute
         else if path = ''/v1/facility/intent-fund-bindings'' then Some FundBindingRoute
         else if path = ''/v1/facility/intent-swaps'' then Some SwapRoute
         else if path = ''/v1/whitelist-book/request-whitelistings'' then Some WhitelistingRoute
         else None)
      else None)"

text \<open>The statuses a route documents (\<open>pickErrorResponses\<close>); an unmatched route has 404 and 415.\<close>

fun pickErrorResponses :: "route option \<Rightarrow> int list" where
  "pickErrorResponses (Some HealthRoute) = [503]"
| "pickErrorResponses (Some VersionRoute) = []"
| "pickErrorResponses (Some FundBindingRoute) = [400, 401, 403, 404, 409, 413, 415, 422, 429, 500, 502, 503]"
| "pickErrorResponses (Some _) = [400, 401, 403, 404, 413, 415, 422, 429, 500, 502, 503]"
| "pickErrorResponses None = [404, 415]"

datatype response_body =
    SigningBody signing_success
  | WhitelistingBody whitelisting_success
  | HealthBody
  | VersionBody string string "int list"
  | ErrorBody error_envelope

record http_response =
  rs_status :: int
  rs_headers :: response_headers
  rs_body :: response_body

type_synonym ('w, 'a) step = "('w, response_headers \<times> (thrown_value + 'a)) state"

definition validation :: "('w, 'k) server_host \<Rightarrow> string \<Rightarrow> http_request \<Rightarrow> thrown_value" where
  "validation host part req = ThrownValidation \<lparr>ve_type = part, ve_message = sh_validation host part req\<rparr>"

definition zHealthResponse :: "response_body \<Rightarrow> response_body option" where
  "zHealthResponse b = (case b of HealthBody \<Rightarrow> Some HealthBody | _ \<Rightarrow> None)"

definition health_handler :: "('w, 'k) server_host \<Rightarrow> ('w, raised + response_body) state" where
  "health_handler host = do {
     r \<leftarrow> unwrapping (withAbstractionDeadline (ah_expires (sh_auth host)) ''liveness''
       (rt_livenessMs (ah_timeouts (sh_auth host))) (sh_liveness host));
     ret (map_sum (\<lambda>x. x) (\<lambda>_. HealthBody) r)
   }"

definition zVersionResponse :: "response_body \<Rightarrow> response_body option" where
  "zVersionResponse b =
     (case b of
        VersionBody build signer supported \<Rightarrow>
          if build \<noteq> [] \<and> ADDRESS_RE signer \<and> list_all (\<lambda>c. zChainId (JNum (num_of_int c)) \<noteq> None) supported
          then Some (VersionBody build (toLowerCase signer) supported) else None
      | _ \<Rightarrow> None)"

definition body_of :: "(json \<Rightarrow> 'b option) \<Rightarrow> parsed_body \<Rightarrow> 'b option" where
  "body_of parse b = (case b of JsonDocument j \<Rightarrow> parse j | _ \<Rightarrow> None)"

text \<open>A handler's outcome against the schema of its 200 response.\<close>

definition respond ::
    "('w, 'k) server_host \<Rightarrow> http_request \<Rightarrow> ('s \<Rightarrow> response_body option) \<Rightarrow> response_headers \<Rightarrow> raised + 's \<Rightarrow>
     response_headers \<times> (thrown_value + response_body)" where
  "respond host req schema rh r =
     (rh, case r of
        Inl x \<Rightarrow> Inl (thrown_of x)
      | Inr v \<Rightarrow> (case schema v of None \<Rightarrow> Inl (validation host ''response'' req) | Some b \<Rightarrow> Inr b))"

text \<open>
  A protected route after the request hooks: parse, derives, and, after the derive let a
  caller through, the validation of headers and body and the handler.
\<close>

definition validated_handler ::
    "('w, 'k) server_host \<Rightarrow> (json \<Rightarrow> 'b option) \<Rightarrow> ('b \<Rightarrow> int) \<Rightarrow> ('w, 'k, 'b, 's) validate_and_sign \<Rightarrow>
     ('s \<Rightarrow> response_body option) \<Rightarrow> http_request \<Rightarrow> parsed_body \<Rightarrow> string \<Rightarrow> response_headers \<Rightarrow> raised + token_info \<Rightarrow>
     ('w, response_body) step" where
  "validated_handler host parse chainId sign schema req parsed requestId rh auth =
     (case auth of
        Inl x \<Rightarrow> ret (rh, Inl (thrown_of x))
      | Inr token \<Rightarrow>
          if \<not> zProtectedRequestHeaders (rq_headers req) then ret (rh, Inl (validation host ''headers'' req))
          else (case body_of parse parsed of
             None \<Rightarrow> ret (rh, Inl (validation host ''body'' req))
           | Some body \<Rightarrow> do {
               r \<leftarrow> runSigning host sign (chainId body) body requestId token;
               ret (respond host req schema rh r)
             }))"

definition protected_route ::
    "('w, 'k) server_host \<Rightarrow> endpoint_scope \<Rightarrow> (json \<Rightarrow> 'b option) \<Rightarrow> ('b \<Rightarrow> int) \<Rightarrow> ('w, 'k, 'b, 's) validate_and_sign \<Rightarrow>
     ('s \<Rightarrow> response_body option) \<Rightarrow> http_request \<Rightarrow> response_headers \<Rightarrow> ('w, response_body) step" where
  "protected_route host scope parse chainId sign schema req rh =
     (case onParse (sh_decoder host) (sh_maxBodyBytes host) req of
        Inl c \<Rightarrow> ret (rh, Inl (ThrownParse c))
      | Inr (raw, parsed) \<Rightarrow> do {
          (rh1, requestId) \<leftarrow> request_id_derive (sh_randomUUID host) (rq_headers req) rh;
          (rh2, auth) \<leftarrow> auth_derive (sh_auth host) scope (rq_headers req) raw rh1;
          validated_handler host parse chainId sign schema req parsed requestId rh2 auth
        })"

text \<open>The two open routes.\<close>

definition open_route ::
    "('w, 'k) server_host \<Rightarrow> ('w, raised + response_body) state \<Rightarrow> (response_body \<Rightarrow> response_body option) \<Rightarrow>
     http_request \<Rightarrow> response_headers \<Rightarrow> ('w, response_body) step" where
  "open_route host handler schema req rh = do {
     (rh1, requestId) \<leftarrow> request_id_derive (sh_randomUUID host) (rq_headers req) rh;
     r \<leftarrow> handler;
     ret (respond host req schema rh1 r)
   }"

definition signing_body :: "signing_success \<Rightarrow> response_body option" where
  "signing_body s = map_option SigningBody (zSigningSuccess s)"

definition whitelisting_body :: "whitelisting_success \<Rightarrow> response_body option" where
  "whitelisting_body s = map_option WhitelistingBody (zRequestWhitelistingResponse s)"

fun run_route :: "('w, 'k) server_host \<Rightarrow> route \<Rightarrow> http_request \<Rightarrow> response_headers \<Rightarrow> ('w, response_body) step" where
  "run_route host HealthRoute req rh = open_route host (health_handler host) zHealthResponse req rh"
| "run_route host VersionRoute req rh =
     open_route host (ret (Inr (VersionBody (sh_build host) (sh_guardianSigner host) (sh_supportedChains host))))
       zVersionResponse req rh"
| "run_route host RequestBindingRoute req rh =
     protected_route host IntentRequestBindings zIntentRequestBindingBody rb_chainId (sh_signIntentRequestBinding host)
       signing_body req rh"
| "run_route host FundBindingRoute req rh =
     protected_route host IntentFundBindings zIntentFundBindingBody fb_chainId (sh_signIntentFundBinding host)
       signing_body req rh"
| "run_route host SwapRoute req rh =
     protected_route host IntentSwaps zIntentSwapBody sw_chainId (sh_signIntentSwap host) signing_body req rh"
| "run_route host WhitelistingRoute req rh =
     protected_route host RequestWhitelistings zRequestWhitelistingBody wl_chainId (sh_signRequestWhitelisting host)
       whitelisting_body req rh"

definition version_header :: "('w, 'k) server_host \<Rightarrow> response_headers" where
  "version_header host = [(VERSION_HEADER, sh_build host)]"

definition dispatch :: "('w, 'k) server_host \<Rightarrow> http_request \<Rightarrow> ('w, response_body) step" where
  "dispatch host req =
     (let rh = version_header host in
      case contentTypePlugin req of
        Some e \<Rightarrow> ret (rh, Inl (ThrownGuardianError e))
      | None \<Rightarrow>
          (case find_route (rq_method req) (rq_path req) of
             None \<Rightarrow> ret (rh, Inl ThrownNotFound)
           | Some r \<Rightarrow> run_route host r req rh))"

definition serve :: "('w, 'k) server_host \<Rightarrow> http_request \<Rightarrow> ('w, http_response) state" where
  "serve host req = do {
     (rh, out) \<leftarrow> dispatch host req;
     case out of
       Inr b \<Rightarrow> ret \<lparr>rs_status = 200, rs_headers = rh, rs_body = b\<rparr>
     | Inl t \<Rightarrow> do {
         e \<leftarrow> onError (sh_randomUUID host) (rq_headers req) rh t;
         ret \<lparr>rs_status = er_status e, rs_headers = er_headers e, rs_body = ErrorBody (er_envelope e)\<rparr>
       }
   }"


section \<open>Every answer\<close>

lemma re_status_documented:
  "re_status (resolveError e rid) \<in> set errorResponses \<and>
   env_error (re_envelope (resolveError e rid)) \<in> set (documented_codes (re_status (resolveError e rid))) \<and>
   env_requestId (re_envelope (resolveError e rid)) = rid \<and>
   (re_status (resolveError e rid) = 429 \<longrightarrow> re_retryAfterSeconds (resolveError e rid) \<noteq> None)"
proof (cases e)
  case (UpstreamUnavailableError m st ra)
  then show ?thesis by (cases st) (auto simp: envelope_defs errorResponses_def)
qed (auto simp: envelope_defs errorResponses_def)

lemma errorResponses_not_200: "200 \<notin> set errorResponses"
  by (simp add: errorResponses_def)

text \<open>The derive touches the rate-limit headers only.\<close>

definition rate_headers :: "string set" where
  "rate_headers = {RATELIMIT_LIMIT, RATELIMIT_REMAINING, RATELIMIT_RESET, RETRY_AFTER}"

definition keeps_headers :: "response_headers \<Rightarrow> response_headers \<Rightarrow> bool" where
  "keeps_headers rh rh' \<longleftrightarrow> (\<forall>k. k \<notin> rate_headers \<longrightarrow> map_of rh' k = map_of rh k)"

lemma keeps_headers_refl [simp]: "keeps_headers rh rh"
  by (simp add: keeps_headers_def)

lemma keeps_window: "keeps_headers rh (window_headers w rh)" "keeps_headers rh (omap_set RETRY_AFTER s rh)"
  by (auto simp: keeps_headers_def window_headers_def rate_headers_def)

lemma auth_keeps_headers: "pred_state (\<lambda>(rh', r). keeps_headers rh rh') (auth_derive host scope hs raw rh)"
proof -
  have limit: "pred_state (\<lambda>(rh', r). keeps_headers rh rh') (rate_limit_step host token rh)" for token
    unfolding rate_limit_step_def
    by (cases "ah_accountRateLimit host")
      (auto intro!: pred_state_bind_any simp: keeps_window split: sum.splits guardian_error.splits)
  show ?thesis
    unfolding auth_derive_def authorize_def
    by (auto intro!: pred_state_bind_any limit split: sum.splits)
qed

definition answer_headers :: "('w, 'k) server_host \<Rightarrow> http_request \<Rightarrow> string option \<Rightarrow> response_headers \<Rightarrow> bool" where
  "answer_headers host req rid rh \<longleftrightarrow>
     map_of rh VERSION_HEADER = Some (sh_build host) \<and> map_of rh REQUEST_ID_HEADER = rid \<and>
     map_of rh ''WWW-Authenticate'' = None \<and>
     (\<forall>r. rid = Some r \<and> isCanonicalUuid (map_of (rq_headers req) ''x-request-id'') \<longrightarrow> map_of (rq_headers req) ''x-request-id'' = Some r)"

lemma answer_headers_keep: "answer_headers host req rid rh \<Longrightarrow> keeps_headers rh rh' \<Longrightarrow> answer_headers host req rid rh'"
  by (auto simp: answer_headers_def keeps_headers_def rate_headers_def header_names)

lemma answer_headers_init: "answer_headers host req None (version_header host)"
  by (simp add: answer_headers_def version_header_def header_names)

lemma resolved_id:
  "pred_state (\<lambda>r. isCanonicalUuid hv \<longrightarrow> hv = Some r) (resolveRequestId randomUUID hv)"
  by (auto simp: resolveRequestId_def isCanonicalUuid_def split: option.splits)

lemma request_id_headers:
  "pred_state (\<lambda>(rh', rid). answer_headers host req (Some rid) rh')
     (request_id_derive u (rq_headers req) (version_header host))"
  unfolding request_id_derive_def
  by (rule pred_state_bindI [OF resolved_id]) (use answer_headers_init in \<open>auto simp: answer_headers_def header_names\<close>)

lemma respond_headers [simp]: "fst (respond host req schema rh r) = rh"
  by (simp add: respond_def)

definition answered :: "('w, 'k) server_host \<Rightarrow> http_request \<Rightarrow> response_headers \<times> (thrown_value + response_body) \<Rightarrow> bool" where
  "answered host req p \<longleftrightarrow> (\<exists>rid. answer_headers host req rid (fst p) \<and>
     (case snd p of Inl t \<Rightarrow> True | Inr b \<Rightarrow> rid \<noteq> None \<and> (\<forall>env. b \<noteq> ErrorBody env)))"

definition plain_schema :: "('s \<Rightarrow> response_body option) \<Rightarrow> bool" where
  "plain_schema schema \<longleftrightarrow> (\<forall>v env. schema v \<noteq> Some (ErrorBody env))"

lemma plain_schemas [simp]:
  "plain_schema zHealthResponse" "plain_schema zVersionResponse" "plain_schema signing_body" "plain_schema whitelisting_body"
  by (auto simp: plain_schema_def zHealthResponse_def zVersionResponse_def signing_body_def whitelisting_body_def
      split: response_body.splits if_splits)

lemma answered_error: "answer_headers host req rid rh \<Longrightarrow> answered host req (rh, Inl t)"
  by (auto simp: answered_def)

lemma answered_respond:
  "answer_headers host req (Some rid) rh \<Longrightarrow> plain_schema schema \<Longrightarrow> answered host req (respond host req schema rh r)"
  by (auto simp: respond_def answered_def plain_schema_def split: sum.splits option.splits)

lemma protected_answered:
  assumes "plain_schema schema"
  shows "pred_state (answered host req) (protected_route host scope parse chainId sign schema req (version_header host))"
proof (cases "onParse (sh_decoder host) (sh_maxBodyBytes host) req")
  case (Inl c)
  then show ?thesis using answered_error [OF answer_headers_init [of host req]] by (simp add: protected_route_def)
next
  case (Inr p)
  obtain raw parsed where p: "p = (raw, parsed)" by fastforce
  have handler: "pred_state (answered host req)
      (validated_handler host parse chainId sign schema req parsed requestId rh2 auth)"
    if "answer_headers host req (Some requestId) rh2" for requestId rh2 and auth :: "raised + token_info"
    unfolding validated_handler_def
    by (auto split: sum.splits option.splits
        intro!: pred_state_bind_any answered_error [OF that] answered_respond [OF that] assms)
  show ?thesis
    unfolding protected_route_def Inr p sum.case prod.case
    by (rule pred_state_bindI [OF request_id_headers], clarify, rule pred_state_bindI [OF auth_keeps_headers], clarify)
      (blast intro: handler answer_headers_keep)
qed

lemma open_answered: "plain_schema schema \<Longrightarrow> pred_state (answered host req) (open_route host handler schema req (version_header host))"
  unfolding open_route_def
  by (rule pred_state_bindI [OF request_id_headers], clarify, rule pred_state_bind_any) (simp add: answered_respond)

lemma dispatch_answered: "pred_state (answered host req) (dispatch host req)"
proof -
  have "pred_state (answered host req) (run_route host r req (version_header host))" for r
    by (cases r) (simp_all add: protected_answered open_answered)
  then show ?thesis
    using answered_error [OF answer_headers_init [of host req]] by (auto simp: dispatch_def Let_def split: option.splits)
qed


text \<open>What an answer says, whatever happened: the envelope, its code and the headers.\<close>

definition well_formed_answer :: "('w, 'k) server_host \<Rightarrow> http_request \<Rightarrow> http_response \<Rightarrow> bool" where
  "well_formed_answer host req resp \<longleftrightarrow>
     map_of (rs_headers resp) VERSION_HEADER = Some (sh_build host) \<and>
     (\<exists>rid. map_of (rs_headers resp) REQUEST_ID_HEADER = Some rid \<and>
        (isCanonicalUuid (map_of (rq_headers req) ''x-request-id'') \<longrightarrow> map_of (rq_headers req) ''x-request-id'' = Some rid) \<and>
        (case rs_body resp of
           ErrorBody env \<Rightarrow> rs_status resp \<in> set errorResponses \<and>
             env_error env \<in> set (documented_codes (rs_status resp)) \<and> env_requestId env = rid \<and>
             map_of (rs_headers resp) ''Content-Type'' = Some ''application/json; charset=utf-8''
         | _ \<Rightarrow> rs_status resp = 200)) \<and>
     (map_of (rs_headers resp) ''WWW-Authenticate'' \<noteq> None \<longleftrightarrow> rs_status resp = 401) \<and>
     (rs_status resp = 429 \<longrightarrow> map_of (rs_headers resp) RETRY_AFTER \<noteq> None)"

lemma error_headers_other:
  "k \<noteq> ''WWW-Authenticate'' \<Longrightarrow> k \<noteq> RETRY_AFTER \<Longrightarrow> map_of (error_headers r rh) k = map_of rh k"
  by (auto simp: error_headers_def Let_def split: option.splits)

lemma error_headers_auth:
  "map_of rh ''WWW-Authenticate'' = None \<Longrightarrow> map_of (error_headers r rh) ''WWW-Authenticate'' \<noteq> None \<longleftrightarrow> re_status r = 401"
  by (auto simp: error_headers_def Let_def RETRY_AFTER_def split: option.splits)

lemma error_headers_retry:
  "re_retryAfterSeconds r \<noteq> None \<Longrightarrow> map_of (error_headers r rh) RETRY_AFTER \<noteq> None"
  by (auto simp: error_headers_def Let_def split: option.splits)

lemma onError_answer:
  assumes "answer_headers host req rid rh"
  shows "pred_state (\<lambda>e. well_formed_answer host req
      \<lparr>rs_status = er_status e, rs_headers = er_headers e, rs_body = ErrorBody (er_envelope e)\<rparr>)
    (onError u (rq_headers req) rh t)"
proof -
  let ?hv = "map_of (rq_headers req) ''x-request-id''"
  have id: "pred_state (\<lambda>r. isCanonicalUuid ?hv \<longrightarrow> ?hv = Some r)
      (case map_of rh REQUEST_ID_HEADER of Some r \<Rightarrow> ret r | None \<Rightarrow> resolveRequestId u ?hv)"
  proof (cases rid)
    case None
    with assms show ?thesis by (simp add: answer_headers_def resolved_id)
  next
    case (Some r)
    with assms show ?thesis by (auto simp: answer_headers_def)
  qed
  show ?thesis
    unfolding onError_def Let_def
  proof (rule pred_state_bindI [OF id])
    fix r :: string
    assume r: "isCanonicalUuid ?hv \<longrightarrow> ?hv = Some r"
    let ?e = "resolveError (toGuardianError t) r"
    let ?rh = "omap_set ''Content-Type'' ''application/json; charset=utf-8'' (omap_set REQUEST_ID_HEADER r rh)"
    have n: "map_of ?rh ''WWW-Authenticate'' = None" using assms by (simp add: answer_headers_def REQUEST_ID_HEADER_def)
    have v: "map_of (error_headers ?e ?rh) VERSION_HEADER = Some (sh_build host)"
      using assms by (simp add: error_headers_other answer_headers_def header_names)
    have i: "map_of (error_headers ?e ?rh) REQUEST_ID_HEADER = Some r"
      by (simp add: error_headers_other header_names)
    have c: "map_of (error_headers ?e ?rh) ''Content-Type'' = Some ''application/json; charset=utf-8''"
      by (simp add: error_headers_other header_names)
    show "pred_state (\<lambda>e. well_formed_answer host req
        \<lparr>rs_status = er_status e, rs_headers = er_headers e, rs_body = ErrorBody (er_envelope e)\<rparr>)
        (ret \<lparr>er_status = re_status ?e, er_headers = error_headers ?e ?rh, er_envelope = re_envelope ?e\<rparr>)"
      using re_status_documented [of "toGuardianError t" r] v i c r error_headers_auth [OF n, of ?e] error_headers_retry [of ?e ?rh]
      by (simp add: well_formed_answer_def del: documented_codes.simps)
  qed
qed

text \<open>
  C33. Every answer is accounted for: for every host, request and world, the answer carries
  the build and a request id, the caller's own where it is a canonical UUID; an error is an
  envelope with a documented status, a code documented for it and the same request id, as
  JSON; \<open>WWW-Authenticate\<close> is there exactly for 401, \<open>Retry-After\<close> always for 429; and only a
  route's own body comes with 200.
\<close>

theorem every_answer: "pred_state (well_formed_answer host req) (serve host req)"
  unfolding serve_def
proof (rule pred_state_bindI [OF dispatch_answered], clarify)
  fix rh and out :: "thrown_value + response_body"
  assume "answered host req (rh, out)"
  then obtain rid where h: "answer_headers host req rid rh"
    and b: "case out of Inl t \<Rightarrow> True | Inr b \<Rightarrow> rid \<noteq> None \<and> (\<forall>env. b \<noteq> ErrorBody env)"
    by (auto simp: answered_def)
  show "pred_state (well_formed_answer host req) (case out of
       Inr b \<Rightarrow> ret \<lparr>rs_status = 200, rs_headers = rh, rs_body = b\<rparr>
     | Inl t \<Rightarrow> do {
         e \<leftarrow> onError (sh_randomUUID host) (rq_headers req) rh t;
         ret \<lparr>rs_status = er_status e, rs_headers = er_headers e, rs_body = ErrorBody (er_envelope e)\<rparr>
       })"
  proof (cases out)
    case (Inl t)
    then show ?thesis
      by (auto intro: pred_state_bindI [OF onError_answer [OF h]])
  next
    case (Inr v)
    with b h show ?thesis by (cases v) (auto simp: well_formed_answer_def answer_headers_def)
  qed
qed


section \<open>What a signature on the wire went through\<close>

text \<open>
  The gates in front of a handler: a JSON request whose body was kept whole and parses
  under the schema of the route, a caller the derive lets through for this scope on these very
  bytes, and well-formed client headers.
\<close>

definition admitted_call ::
    "('w, 'k) server_host \<Rightarrow> endpoint_scope \<Rightarrow> (json \<Rightarrow> 'b option) \<Rightarrow> http_request \<Rightarrow> 'w \<Rightarrow>
     'b \<Rightarrow> string \<Rightarrow> token_info \<Rightarrow> response_headers \<Rightarrow> 'w \<Rightarrow> bool" where
  "admitted_call host scope parse req w body requestId token rh w' \<longleftrightarrow>
     contentTypePlugin req = None \<and>
     (\<exists>raw j w1.
        onParse (sh_decoder host) (sh_maxBodyBytes host) req = Inr (raw, JsonDocument j) \<and> parse j = Some body \<and>
        run_state (resolveRequestId (sh_randomUUID host) (map_of (rq_headers req) ''x-request-id'')) w = (requestId, w1) \<and>
        run_state (auth_derive (sh_auth host) scope (rq_headers req) raw
          (omap_set REQUEST_ID_HEADER requestId (version_header host))) w1 = ((rh, Inr token), w')) \<and>
     zProtectedRequestHeaders (rq_headers req)"

text \<open>The preamble of the handler: no known outage, a client for the chain, the signature in time.\<close>

definition signed_call ::
    "('w, 'k) server_host \<Rightarrow> ('w, 'k, 'b, 's) validate_and_sign \<Rightarrow> int \<Rightarrow> 'b \<Rightarrow> string \<Rightarrow> token_info \<Rightarrow> 'w \<Rightarrow> 's \<Rightarrow> 'w \<Rightarrow> bool" where
  "signed_call host sign chainId body requestId token w s w' \<longleftrightarrow>
     (\<exists>w1 client w2 now w3 w4.
        (case sh_probeUpstream host of None \<Rightarrow> w1 = w | Some probe \<Rightarrow> run_state probe w = (Inr (Inr ()), w1)) \<and>
        run_state (sh_getChainClient host chainId) w1 = (Inr (Inr client), w2) \<and>
        run_state (ah_now (sh_auth host)) w2 = (now, w3) \<and>
        run_state (sign \<lparr>rc_chainId = chainId, rc_client = client, rc_requestId = requestId,
          rc_tokenId = ti_tokenId token, rc_now = now\<rparr> body) w3 = (Inr (Inr s), w4) \<and>
        run_state (ah_expires (sh_auth host) (rt_signMs (ah_timeouts (sh_auth host)))) w4 = (False, w'))"

lemma unwrapping_Inr: "run_state (unwrapping m) w = (Inr v, w') \<longleftrightarrow> run_state m w = (Inr (Inr v), w')"
  by (auto simp: unwrapping_def unwrapOrThrow_def split: prod.splits sum.splits)

lemma deadline_Inr:
  "run_state (withAbstractionDeadline e a ms m) w = (Inr v, w') \<longleftrightarrow>
     (\<exists>w1. run_state m w = (Inr v, w1) \<and> run_state (e ms) w1 = (False, w'))"
  by (auto simp: withAbstractionDeadline_def split: prod.splits)

lemma bindE_Inr: "run_state (bindE m f) w = (Inr v, w') \<longleftrightarrow> (\<exists>a w1. run_state m w = (Inr a, w1) \<and> run_state (f a) w1 = (Inr v, w'))"
  by (auto split: prod.splits sum.splits)

lemma bind_run: "run_state (State_Monad.bind m f) w = r \<longleftrightarrow> (\<exists>a w1. run_state m w = (a, w1) \<and> run_state (f a) w1 = r)"
  by (auto split: prod.splits)

lemma runSigning_Inr:
  "run_state (runSigning host sign chainId body requestId token) w = (Inr s, w') \<longleftrightarrow>
     signed_call host sign chainId body requestId token w s w'"
proof -
  have probe: "run_state (case sh_probeUpstream host of None \<Rightarrow> ret (Inr ()) | Some probe \<Rightarrow> unwrapping probe) w = (Inr u, w1) \<longleftrightarrow>
      (case sh_probeUpstream host of None \<Rightarrow> w1 = w | Some probe \<Rightarrow> run_state probe w = (Inr (Inr ()), w1))" for u w1
    by (cases "sh_probeUpstream host") (auto simp: unwrapping_Inr)
  show ?thesis
    unfolding runSigning_def bindE_Inr probe unwrapping_Inr deadline_Inr bind_run signed_call_def by blast
qed

lemma respond_Inr: "respond host req schema rh r = (rh', Inr b) \<longleftrightarrow> rh' = rh \<and> (\<exists>s. r = Inr s \<and> schema s = Some b)"
  by (auto simp: respond_def split: sum.splits option.splits)

lemma validated_handler_Inr:
  "run_state (validated_handler host parse chainId sign schema req parsed requestId rh auth) w = ((rh', Inr b), w') \<longleftrightarrow>
    (\<exists>token j body s. auth = Inr token \<and> rh' = rh \<and> zProtectedRequestHeaders (rq_headers req) \<and>
       parsed = JsonDocument j \<and> parse j = Some body \<and>
       signed_call host sign (chainId body) body requestId token w s w' \<and> schema s = Some b)"
proof -
  have body: "body_of parse parsed = Some body \<longleftrightarrow> (\<exists>j. parsed = JsonDocument j \<and> parse j = Some body)" for body
    by (cases parsed) (auto simp: body_of_def)
  have call: "run_state (do { r \<leftarrow> runSigning host sign (chainId body) body requestId token;
        ret (respond host req schema rh r) }) w = ((rh', Inr b), w') \<longleftrightarrow>
      (\<exists>s. rh' = rh \<and> signed_call host sign (chainId body) body requestId token w s w' \<and> schema s = Some b)" for token body
    unfolding bind_run run_state_return prod.inject respond_Inr runSigning_Inr [symmetric] by auto
  show ?thesis
  proof (cases "auth")
    case (Inr token)
    show ?thesis
    proof (cases "body_of parse parsed")
      case None
      then have "\<not> (\<exists>j body. parsed = JsonDocument j \<and> parse j = Some body)" using body by (metis option.distinct(1))
      moreover have "run_state (validated_handler host parse chainId sign schema req parsed requestId rh auth) w \<noteq> ((rh', Inr b), w')"
        by (simp add: validated_handler_def Inr None)
      ultimately show ?thesis by blast
    next
      case (Some bd)
      with body obtain j where "parsed = JsonDocument j" "parse j = Some bd" by auto
      with Inr Some show ?thesis by (auto simp: validated_handler_def call simp del: run_state_bind)
    qed
  qed (simp add: validated_handler_def)
qed

lemma protected_route_Inr:
  assumes "contentTypePlugin req = None"
  shows "run_state (protected_route host scope parse chainId sign schema req (version_header host)) w = ((rh, Inr b), w') \<longleftrightarrow>
    (\<exists>body requestId token w1 s.
       admitted_call host scope parse req w body requestId token rh w1 \<and>
       signed_call host sign (chainId body) body requestId token w1 s w' \<and> schema s = Some b)"
proof (cases "onParse (sh_decoder host) (sh_maxBodyBytes host) req")
  case (Inl c)
  then show ?thesis by (auto simp: protected_route_def admitted_call_def)
next
  case (Inr p)
  obtain raw parsed where p: "p = (raw, parsed)" by fastforce
  show ?thesis
    unfolding protected_route_def request_id_derive_def admitted_call_def Inr p sum.case prod.case
    by (auto simp: bind_run validated_handler_Inr assms simp del: run_state_bind) 
qed


lemma onError_not_200: "pred_state (\<lambda>e. er_status e \<noteq> 200) (onError u hs rh t)"
  unfolding onError_def Let_def
  by (rule pred_state_bind_any) (use re_status_documented errorResponses_not_200 in \<open>simp, metis\<close>)

lemma serve_200:
  "run_state (serve host req) w = (resp, w') \<and> rs_status resp = 200 \<longleftrightarrow>
     (\<exists>rh b. run_state (dispatch host req) w = ((rh, Inr b), w') \<and> resp = \<lparr>rs_status = 200, rs_headers = rh, rs_body = b\<rparr>)"
proof (cases "run_state (dispatch host req) w")
  case (Pair p w1)
  obtain rh out where p: "p = (rh, out)" by fastforce
  show ?thesis
  proof (cases out)
    case (Inl t)
    obtain e w2 where e: "run_state (onError (sh_randomUUID host) (rq_headers req) rh t) w1 = (e, w2)" by fastforce
    with onError_not_200 [of "sh_randomUUID host" "rq_headers req" rh t, THEN pred_stateD', of w1] have "er_status e \<noteq> 200"
      by simp
    with Pair p Inl e show ?thesis by (auto simp: serve_def)
  qed (use Pair p in \<open>auto simp: serve_def\<close>)
qed

lemma dispatch_protected:
  assumes "find_route (rq_method req) (rq_path req) = Some r"
    and "\<And>rh. run_route host r req rh = protected_route host scope parse chainId sign schema req rh"
  shows "run_state (serve host req) w = (resp, w') \<and> rs_status resp = 200 \<longleftrightarrow>
    (\<exists>body requestId token w1 s rh b.
       admitted_call host scope parse req w body requestId token rh w1 \<and>
       signed_call host sign (chainId body) body requestId token w1 s w' \<and> schema s = Some b \<and>
       resp = \<lparr>rs_status = 200, rs_headers = rh, rs_body = b\<rparr>)"
proof (cases "contentTypePlugin req")
  case None
  have d: "dispatch host req = protected_route host scope parse chainId sign schema req (version_header host)"
    using assms None by (simp add: dispatch_def)
  show ?thesis unfolding serve_200 d protected_route_Inr [OF None] by blast
next
  case (Some e)
  then show ?thesis unfolding serve_200 by (auto simp: dispatch_def admitted_call_def)
qed

text \<open>A route's 200, as one predicate over its scope, schema, sign function and response.\<close>

definition answers_signed ::
    "('w, 'k) server_host \<Rightarrow> endpoint_scope \<Rightarrow> (json \<Rightarrow> 'b option) \<Rightarrow> ('b \<Rightarrow> int) \<Rightarrow> ('w, 'k, 'b, 's) validate_and_sign \<Rightarrow>
     ('s \<Rightarrow> response_body option) \<Rightarrow> http_request \<Rightarrow> 'w \<Rightarrow> http_response \<Rightarrow> 'w \<Rightarrow> bool" where
  "answers_signed host scope parse chainId sign schema req w resp w' \<longleftrightarrow>
     (\<exists>body requestId token w1 s rh b.
       admitted_call host scope parse req w body requestId token rh w1 \<and>
       signed_call host sign (chainId body) body requestId token w1 s w' \<and> schema s = Some b \<and>
       resp = \<lparr>rs_status = 200, rs_headers = rh, rs_body = b\<rparr>)"

text \<open>
  C34. A signature leaves the server exactly through its gates. On each of the four signing
  routes a request is answered 200, in this world and with this effect, if and only if it is JSON
  within the cap, the derive admitted the caller for that route's scope on these bytes, the
  client headers and the body pass their schemas, the upstream probe and the chain client
  answered, the route's own sign function signed this body in time, and the response passed
  its schema, in this order of effects.
\<close>

theorem signed_iff_gated:
  "(find_route (rq_method req) (rq_path req) = Some RequestBindingRoute \<longrightarrow>
      (run_state (serve host req) w = (resp, w') \<and> rs_status resp = 200 \<longleftrightarrow>
       answers_signed host IntentRequestBindings zIntentRequestBindingBody rb_chainId (sh_signIntentRequestBinding host)
         signing_body req w resp w')) \<and>
   (find_route (rq_method req) (rq_path req) = Some FundBindingRoute \<longrightarrow>
      (run_state (serve host req) w = (resp, w') \<and> rs_status resp = 200 \<longleftrightarrow>
       answers_signed host IntentFundBindings zIntentFundBindingBody fb_chainId (sh_signIntentFundBinding host)
         signing_body req w resp w')) \<and>
   (find_route (rq_method req) (rq_path req) = Some SwapRoute \<longrightarrow>
      (run_state (serve host req) w = (resp, w') \<and> rs_status resp = 200 \<longleftrightarrow>
       answers_signed host IntentSwaps zIntentSwapBody sw_chainId (sh_signIntentSwap host) signing_body req w resp w')) \<and>
   (find_route (rq_method req) (rq_path req) = Some WhitelistingRoute \<longrightarrow>
      (run_state (serve host req) w = (resp, w') \<and> rs_status resp = 200 \<longleftrightarrow>
       answers_signed host RequestWhitelistings zRequestWhitelistingBody wl_chainId (sh_signRequestWhitelisting host)
         whitelisting_body req w resp w'))"
  unfolding answers_signed_def by (intro conjI impI dispatch_protected) (assumption | rule run_route.simps)+


text \<open>A small host and a request for it.\<close>

definition ex_address :: "char \<Rightarrow> string" where
  "ex_address c = ''0x'' @ replicate 39 (CHR ''0'') @ [c]"

definition ex_success :: signing_success where
  "ex_success =
     \<lparr>ss_guardian = ex_address (CHR ''A''), ss_signature = ''0x'' @ replicate 130 (CHR ''b''),
      ss_payloadHash = ''0x'' @ replicate 64 (CHR ''c''), ss_signedAt = ''2024-01-02T03:04:05.678Z'', ss_checks = [passed ''ok'']\<rparr>"

definition ex_body_json :: json where
  "ex_body_json = json_of_request_binding \<lparr>rb_chainId = 1, rb_facility = ex_address (CHR ''f''), rb_intent = \<lparr>ir_id = ''7''\<rparr>,
     rb_requestContract = ex_address (CHR ''a''), rb_deadline = 100\<rparr>"

definition ex_server_host :: "(unit, unit) server_host" where
  "ex_server_host =
     \<lparr>sh_auth =
        \<lparr>ah_authenticate = \<lambda>b. ret (Inr (if b = ''t'' then Inr \<lparr>ti_tokenId = ''t1'', ti_scopes = [IntentRequestBindings],
           ti_requiresHmac = False, ti_hmacSecret = None\<rparr> else Inl (unauthenticated ''unknown''))),
         ah_accountRateLimit = None, ah_now = ret 5000, ah_hmacHex = \<lambda>k m. [],
         ah_expires = \<lambda>_. ret False, ah_timeouts = DEFAULT_GUARDIAN_TIMEOUTS\<rparr>,
      sh_randomUUID = ret ''generated'', sh_maxBodyBytes = 1000,
      sh_decoder = \<lparr>bd_json = \<lambda>_. Inr ex_body_json, bd_text = \<lambda>_. []\<rparr>, sh_validation = \<lambda>_ _. None,
      sh_build = ''1.0.0'', sh_guardianSigner = ex_address (CHR ''9''), sh_supportedChains = [1],
      sh_liveness = ret (Inr (Inr ())), sh_probeUpstream = None, sh_getChainClient = \<lambda>_. ret (Inr (Inr ())),
      sh_signIntentRequestBinding = \<lambda>_ _. ret (Inr (Inr ex_success)),
      sh_signIntentFundBinding = \<lambda>_ _. ret (Inr (Inl (upstream503 ''down''))),
      sh_signIntentSwap = \<lambda>_ _. ret (Inr (Inl (upstream503 ''down''))),
      sh_signRequestWhitelisting = \<lambda>_ _. ret (Inr (Inl (upstream503 ''down'')))\<rparr>"

definition ex_server_request :: http_request where
  "ex_server_request =
     \<lparr>rq_method = ''POST'', rq_path = ''/v1/facility/intent-request-bindings'',
      rq_headers = [(''authorization'', ''Bearer t''), (''content-type'', ''application/json''),
        (''x-client-name'', ''c''), (''x-client-version'', ''1.0.0'')],
      rq_stream = Some [Inr [1, 2, 3]]\<rparr>"

theorem signed_iff_gated_witness:
  "\<exists>resp. run_state (serve ex_server_host ex_server_request) () = (resp, ()) \<and> rs_status resp = 200 \<and>
     answers_signed ex_server_host IntentRequestBindings zIntentRequestBindingBody rb_chainId
       (sh_signIntentRequestBinding ex_server_host) signing_body ex_server_request () resp ()"
proof -
  have "rs_status (fst (run_state (serve ex_server_host ex_server_request) ())) = 200"
    by code_simp
  moreover obtain resp u where "run_state (serve ex_server_host ex_server_request) () = (resp, u)"
    by (meson surj_pair)
  ultimately have r: "run_state (serve ex_server_host ex_server_request) () = (resp, ()) \<and> rs_status resp = 200" by simp
  have route: "find_route (rq_method ex_server_request) (rq_path ex_server_request) = Some RequestBindingRoute"
    by code_simp
  note iff = signed_iff_gated [where host = ex_server_host and w = "()" and resp = resp and w' = "()", THEN conjunct1, THEN mp, OF route]
  from r have "answers_signed ex_server_host IntentRequestBindings zIntentRequestBindingBody rb_chainId
       (sh_signIntentRequestBinding ex_server_host) signing_body ex_server_request () resp ()"
    by (rule iff [THEN iffD1])
  with r show ?thesis by (intro exI [of _ resp] conjI) (elim conjE, assumption)+
qed

end
