(* ===== verification/Shipped.thy ===== *)
theory Shipped
  imports Server
begin

text \<open>
  The server with the sign functions and check runners of the packages: the contract of a
  signing endpoint, met by the four shipped ones, and what it gives on the wire.
\<close>

section \<open>The signing context of a request\<close>

definition sign_context ::
    "('k run_context \<Rightarrow> 'c) \<Rightarrow> ('k \<Rightarrow> string \<Rightarrow> ('w, thrown + domain_name_version) state) \<Rightarrow>
     (typed_data \<Rightarrow> ('w, guardian_error + string) state) \<Rightarrow> 'k run_context \<Rightarrow> ('w, 'c) signing_context" where
  "sign_context view readDomain signTypedData ctx =
     \<lparr>sg_chainId = rc_chainId ctx, sg_client = view ctx, sg_readDomain = readDomain (rc_client ctx),
      sg_now = Some (rc_now ctx), sg_signTypedData = signTypedData\<rparr>"

definition a1_sign_deps ::
    "'w a1_deps \<Rightarrow> string \<Rightarrow> ('w, domain_name_version) async_cache option \<Rightarrow> jsnum option \<Rightarrow>
     ('w, 'w a1_ctx, intent_request_binding_body) sign_deps" where
  "a1_sign_deps deps guardianSigner cache ttl =
     \<lparr>sd_checks = \<lambda>ctx body. runA1 ctx deps (rb_chainId body) (rb_requestContract body) (rb_deadline body),
      sd_guardianSigner = guardianSigner, sd_cache = cache, sd_cacheTtlMs = ttl\<rparr>"

definition a2_sign_deps ::
    "a2_policy \<Rightarrow> string \<Rightarrow> ('w, domain_name_version) async_cache option \<Rightarrow> jsnum option \<Rightarrow>
     ('w, 'w a2_ctx, intent_fund_binding_body) sign_deps" where
  "a2_sign_deps policy guardianSigner cache ttl =
     \<lparr>sd_checks = runA2 policy, sd_guardianSigner = guardianSigner, sd_cache = cache, sd_cacheTtlMs = ttl\<rparr>"

definition a3_sign_deps ::
    "a3_policy \<Rightarrow> string \<Rightarrow> ('w, domain_name_version) async_cache option \<Rightarrow> jsnum option \<Rightarrow>
     ('w, 'w a3_ctx, intent_swap_body) sign_deps" where
  "a3_sign_deps policy guardianSigner cache ttl =
     \<lparr>sd_checks = runA3 policy, sd_guardianSigner = guardianSigner, sd_cache = cache, sd_cacheTtlMs = ttl\<rparr>"

definition a4_sign_deps ::
    "'w a4_deps \<Rightarrow> string \<Rightarrow> ('w, domain_name_version) async_cache option \<Rightarrow> jsnum option \<Rightarrow>
     ('w, 'w a4_ctx, request_whitelisting_body) sign_deps" where
  "a4_sign_deps deps guardianSigner cache ttl =
     \<lparr>sd_checks = runA4 deps, sd_guardianSigner = guardianSigner, sd_cache = cache, sd_cacheTtlMs = ttl\<rparr>"


section \<open>The contract of a signing endpoint\<close>

locale signing_endpoint =
  fixes parse :: "json \<Rightarrow> 'b option" and sign :: "('w, 'k, 'b, 's signing_success_scheme) validate_and_sign"
    and conflict :: bool
  assumes contract: "parse j = Some body \<Longrightarrow> pred_state (sign_outcome conflict) (sign ctx body)"

definition is_conflict :: "guardian_error \<Rightarrow> bool" where
  "is_conflict e \<longleftrightarrow> (\<exists>m cs. e = StateConflictError m cs)"

definition quiet :: "raised + (guardian_error + 'a) \<Rightarrow> bool" where
  "quiet r \<longleftrightarrow> (case r of
      Inl x \<Rightarrow> (case x of RaisedGuardian e \<Rightarrow> \<not> is_conflict e | _ \<Rightarrow> True)
    | Inr (Inl e) \<Rightarrow> \<not> is_conflict e
    | Inr (Inr _) \<Rightarrow> True)"

text \<open>A host none of whose own calls reports a state conflict.\<close>

definition host_quiet :: "('w, 'k) server_host \<Rightarrow> bool" where
  "host_quiet host \<longleftrightarrow>
     (\<forall>b. pred_state quiet (ah_authenticate (sh_auth host) b)) \<and>
     (case ah_accountRateLimit (sh_auth host) of None \<Rightarrow> True | Some account \<Rightarrow> \<forall>t. pred_state quiet (account t)) \<and>
     (case sh_probeUpstream host of None \<Rightarrow> True | Some probe \<Rightarrow> pred_state quiet probe) \<and>
     (\<forall>c. pred_state quiet (sh_getChainClient host c))"

definition calm :: "thrown_value \<Rightarrow> bool" where
  "calm t \<longleftrightarrow> \<not> is_conflict (toGuardianError t)"

definition raised_calm :: "raised \<Rightarrow> bool" where
  "raised_calm x \<longleftrightarrow> (case x of RaisedGuardian e \<Rightarrow> \<not> is_conflict e | _ \<Rightarrow> True)"

lemma calm_simps [simp]:
  "calm (validation host part req)" "calm ThrownNotFound" "calm (ThrownGuardianError e) \<longleftrightarrow> \<not> is_conflict e"
  "calm (thrown_of x) \<longleftrightarrow> raised_calm x"
  by (auto simp: calm_def validation_def is_conflict_def raised_calm_def split: raised.splits)

lemma is_conflict_simps [simp]:
  "\<not> is_conflict (UnauthenticatedError m)" "\<not> is_conflict (ForbiddenError m)" "\<not> is_conflict (upstream503 m)"
  "\<not> is_conflict (payloadTooLarge n)" "is_conflict (StateConflictError m cs)" "\<not> is_conflict (RateLimitedError m i)"
  "\<not> is_conflict (UnsupportedMediaTypeError m)"
  by (simp_all add: is_conflict_def upstream503_def payloadTooLarge_def)

lemma timeout_calm [simp]: "raised_calm (timeout_error a ms)"
  by (simp add: raised_calm_def timeout_error_def)

lemma quiet_Inl: "quiet (Inl x) \<longleftrightarrow> raised_calm x"
  by (simp add: quiet_def raised_calm_def)

lemma deadline_quiet: "pred_state quiet m \<Longrightarrow> pred_state quiet (withAbstractionDeadline e a ms m)"
  unfolding withAbstractionDeadline_def
  by (erule pred_state_bindI, rule pred_state_bind_any) (simp add: quiet_Inl)

lemma unwrapping_quiet: "pred_state quiet m \<Longrightarrow> pred_state (case_sum raised_calm (\<lambda>_. True)) (unwrapping m)"
  unfolding unwrapping_def
  by (erule pred_state_bindI) (auto simp: unwrapOrThrow_def quiet_def raised_calm_def split: sum.splits raised.splits)

lemma check_hmac_calm: "pred_state (case_sum (\<lambda>e. \<not> is_conflict e) (\<lambda>_. True)) (check_hmac host hs raw token)"
  by (auto simp: check_hmac_def requireSecret_def verifyHmac_def hmac_headers_def hmac_verdict_def unauthenticated_def
      split: option.splits sum.splits prod.splits intro!: pred_state_bind_any)

lemma auth_calm:
  assumes "\<And>b. pred_state quiet (ah_authenticate host b)"
    and "\<And>account t. ah_accountRateLimit host = Some account \<Longrightarrow> pred_state quiet (account t)"
  shows "pred_state (\<lambda>(rh', r). case_sum raised_calm (\<lambda>_. True) r) (auth_derive host scope hs raw rh)"
    (is "pred_state ?P _")
proof -
  have limit: "pred_state ?P (rate_limit_step host token rh)" for token
  proof (cases "ah_accountRateLimit host")
    case (Some account)
    show ?thesis
      unfolding rate_limit_step_def Some option.case
      by (rule pred_state_bindI [OF deadline_quiet [OF assms(2) [OF Some]]])
        (auto simp: quiet_def raised_calm_def split: sum.splits raised.splits guardian_error.splits)
  qed (simp add: rate_limit_step_def)
  have rest: "pred_state ?P (authorize host scope hs raw rh tokenInfo)" for tokenInfo
    unfolding authorize_def
    by (rule pred_state_bindI [OF check_hmac_calm]) (auto simp: raised_calm_def limit split: sum.splits)
  show ?thesis
  proof (cases "bearer_token hs")
    case (Inl e)
    then have "\<not> is_conflict e"
      by (auto simp: bearer_token_def unauthenticated_def Let_def split: option.splits if_splits)
    with Inl show ?thesis by (simp add: auth_derive_def raised_calm_def)
  next
    case (Inr token)
    show ?thesis
      unfolding auth_derive_def Inr sum.case
      by (rule pred_state_bindI [OF deadline_quiet [OF assms(1)]])
        (auto simp: quiet_def raised_calm_def rest split: sum.splits raised.splits)
  qed
qed


lemma sign_outcome_quiet: "sign_outcome False r \<Longrightarrow> quiet r"
  by (auto simp: sign_outcome_def quiet_def is_conflict_def envelope_defs split: sum.splits)

definition step_calm :: "response_headers \<times> (thrown_value + response_body) \<Rightarrow> bool" where
  "step_calm p \<longleftrightarrow> (case snd p of Inl t \<Rightarrow> calm t | Inr _ \<Rightarrow> True)"

lemma step_calm_Inl [simp]: "step_calm (rh, Inl t) \<longleftrightarrow> calm t"
  by (simp add: step_calm_def)

lemma respond_calm: "case_sum raised_calm (\<lambda>_. True) r \<Longrightarrow> step_calm (respond host req schema rh r)"
  by (auto simp: step_calm_def respond_def split: sum.splits option.splits)

lemma read_loop_error: "read_loop m r cs reads = Inl (CauseGuardian e) \<Longrightarrow> e = payloadTooLarge m"
  by (induction m r cs reads rule: read_loop.induct) (auto simp: Let_def split: if_splits)

context signing_endpoint
begin

lemma run_calm:
  assumes "host_quiet host" and "\<not> conflict" and "parse j = Some body"
  shows "pred_state (case_sum raised_calm (\<lambda>_. True)) (runSigning host sign chainId body requestId token)"
proof -
  have probe: "pred_state (case_sum raised_calm (\<lambda>_. True))
      (case sh_probeUpstream host of None \<Rightarrow> ret (Inr ()) | Some p \<Rightarrow> unwrapping p)"
    using assms(1) by (auto simp: host_quiet_def intro: unwrapping_quiet split: option.splits)
  have client: "pred_state (case_sum raised_calm (\<lambda>_. True)) (unwrapping (sh_getChainClient host chainId))"
    using assms(1) by (simp add: host_quiet_def unwrapping_quiet)
  have "pred_state quiet (sign ctx body)" for ctx
    using contract [OF assms(3), of ctx] assms(2) by (auto elim!: pred_state_mono intro: sign_outcome_quiet)
  then have "pred_state (case_sum raised_calm (\<lambda>_. True)) (unwrapping (withAbstractionDeadline (ah_expires (sh_auth host))
      ''sign'' (rt_signMs (ah_timeouts (sh_auth host))) (do {
        now \<leftarrow> ah_now (sh_auth host);
        sign \<lparr>rc_chainId = chainId, rc_client = c, rc_requestId = requestId,
          rc_tokenId = ti_tokenId token, rc_now = now\<rparr> body })))" for c
    by (intro unwrapping_quiet deadline_quiet pred_state_bind_any)
  then show ?thesis
    unfolding runSigning_def
    by (intro pred_state_bindE_sum [OF probe] pred_state_bindE_sum [OF client])
qed

lemma protected_calm:
  assumes "host_quiet host" and "\<not> conflict"
  shows "pred_state step_calm (protected_route host scope parse chainId sign schema req rh)"
proof (cases "onParse (sh_decoder host) (sh_maxBodyBytes host) req")
  case (Inl c)
  then have "calm (ThrownParse c)"
    by (auto simp: calm_def onParse_def parse_json_body_def Let_def is_conflict_def readBodyCapped_def payloadTooLarge_def
        split: if_splits sum.splits option.splits parse_cause.splits dest!: read_loop_error)
  with Inl show ?thesis by (simp add: protected_route_def)
next
  case (Inr p)
  obtain raw parsed where p: "p = (raw, parsed)" by fastforce
  have body: "\<exists>j. parse j = Some b" if "body_of parse parsed = Some b" for b
    using that by (cases parsed) (auto simp: body_of_def)
  have handler: "pred_state step_calm (validated_handler host parse chainId sign schema req parsed requestId rh2 auth)"
    if "case_sum raised_calm (\<lambda>_. True) auth" for requestId rh2 auth
  proof (cases auth)
    case (Inr token)
    show ?thesis
    proof (cases "body_of parse parsed")
      case (Some b)
      with body obtain j where "parse j = Some b" by blast
      note run = run_calm [OF assms this]
      show ?thesis
        unfolding validated_handler_def Inr Some sum.case option.case
        by (auto intro!: pred_state_bindI [OF run] respond_calm)
    qed (simp add: validated_handler_def Inr)
  qed (use that in \<open>simp add: validated_handler_def\<close>)
  have auth: "pred_state (\<lambda>(rh', r). case_sum raised_calm (\<lambda>_. True) r) (auth_derive (sh_auth host) scope (rq_headers req) raw rh1)"
    for rh1
    by (rule auth_calm) (use assms(1) in \<open>simp_all add: host_quiet_def\<close>)
  show ?thesis
    unfolding protected_route_def Inr p sum.case prod.case
    by (rule pred_state_bind_any, clarify, rule pred_state_bindI [OF auth])
      (use assms(1) handler in \<open>auto simp: host_quiet_def\<close>)
qed

end


section \<open>The shipped endpoints\<close>

text \<open>The configuration of the shipped sign functions; \<open>sa_view1\<close> to \<open>sa_view4\<close> are the client as each runner uses it.\<close>

record ('w, 'k) shipped =
  sa_hashTypedData :: "typed_data \<Rightarrow> string"
  sa_guardianSigner :: string
  sa_domainCache :: "('w, domain_name_version) async_cache option"
  sa_domainCacheTtlMs :: "jsnum option"
  sa_readDomain :: "'k \<Rightarrow> string \<Rightarrow> ('w, thrown + domain_name_version) state"
  sa_signTypedData :: "typed_data \<Rightarrow> ('w, guardian_error + string) state"
  sa_view1 :: "'k run_context \<Rightarrow> 'w a1_ctx"
  sa_view2 :: "'k run_context \<Rightarrow> 'w a2_ctx"
  sa_view3 :: "'k run_context \<Rightarrow> 'w a3_ctx"
  sa_view4 :: "'k run_context \<Rightarrow> 'w a4_ctx"
  sa_a1 :: "'w a1_deps"
  sa_a2 :: a2_policy
  sa_a3 :: a3_policy
  sa_a4 :: "'w a4_deps"

definition shipped_a1 :: "('w, 'k) shipped \<Rightarrow> ('w, 'k, intent_request_binding_body, signing_success) validate_and_sign" where
  "shipped_a1 sa ctx =
     makeSignIntentRequestBinding (sa_hashTypedData sa)
       (a1_sign_deps (sa_a1 sa) (sa_guardianSigner sa) (sa_domainCache sa) (sa_domainCacheTtlMs sa))
       (sign_context (sa_view1 sa) (sa_readDomain sa) (sa_signTypedData sa) ctx)"

definition shipped_a2 :: "('w, 'k) shipped \<Rightarrow> ('w, 'k, intent_fund_binding_body, signing_success) validate_and_sign" where
  "shipped_a2 sa ctx =
     makeSignIntentFundBinding (sa_hashTypedData sa)
       (a2_sign_deps (sa_a2 sa) (sa_guardianSigner sa) (sa_domainCache sa) (sa_domainCacheTtlMs sa))
       (sign_context (sa_view2 sa) (sa_readDomain sa) (sa_signTypedData sa) ctx)"

definition shipped_a3 :: "('w, 'k) shipped \<Rightarrow> ('w, 'k, intent_swap_body, signing_success) validate_and_sign" where
  "shipped_a3 sa ctx =
     makeSignIntentSwap (sa_hashTypedData sa)
       (a3_sign_deps (sa_a3 sa) (sa_guardianSigner sa) (sa_domainCache sa) (sa_domainCacheTtlMs sa))
       (sign_context (sa_view3 sa) (sa_readDomain sa) (sa_signTypedData sa) ctx)"

definition shipped_a4 ::
    "('w, 'k) shipped \<Rightarrow> ('w, 'k, request_whitelisting_body, whitelisting_success) validate_and_sign" where
  "shipped_a4 sa ctx =
     makeSignRequestWhitelisting (sa_hashTypedData sa)
       (a4_sign_deps (sa_a4 sa) (sa_guardianSigner sa) (sa_domainCache sa) (sa_domainCacheTtlMs sa))
       (sign_context (sa_view4 sa) (sa_readDomain sa) (sa_signTypedData sa) ctx)"

text \<open>A host with the shipped sign functions, and one whose signer fails with its two errors only.\<close>

definition install :: "('w, 'k) shipped \<Rightarrow> ('w, 'k) server_host \<Rightarrow> ('w, 'k) server_host" where
  "install sa host = host
     \<lparr>sh_signIntentRequestBinding := shipped_a1 sa, sh_signIntentFundBinding := shipped_a2 sa,
      sh_signIntentSwap := shipped_a3 sa, sh_signRequestWhitelisting := shipped_a4 sa\<rparr>"

definition sound_signer :: "('w, 'k) shipped \<Rightarrow> bool" where
  "sound_signer sa \<longleftrightarrow> (\<forall>td. pred_state (case_sum is_signer_error (\<lambda>_. True)) (sa_signTypedData sa td))"

lemma signer_ok_context:
  "sound_signer sa \<Longrightarrow> signer_ok (sign_context view rd (sa_signTypedData sa) ctx)"
  by (simp add: sound_signer_def signer_ok_def sign_context_def)


text \<open>\<open>privateKeyToSignTypedData\<close>: whatever viem's signer throws is one \<open>InternalError\<close>.\<close>

definition privateKeyToSignTypedData ::
    "(typed_data \<Rightarrow> ('w, thrown + string) state) \<Rightarrow> typed_data \<Rightarrow> ('w, guardian_error + string) state" where
  "privateKeyToSignTypedData signTypedData parameters = do {
     r \<leftarrow> signTypedData parameters;
     ret (case r of Inl cause \<Rightarrow> Inl (InternalError ''Local signTypedData failed'') | Inr s \<Rightarrow> Inr s)
   }"

definition with_private_key :: "(typed_data \<Rightarrow> ('w, thrown + string) state) \<Rightarrow> ('w, 'k) shipped \<Rightarrow> ('w, 'k) shipped" where
  "with_private_key sign sa = sa\<lparr>sa_signTypedData := privateKeyToSignTypedData sign\<rparr>"

lemma private_key_sound: "sound_signer (with_private_key sign sa)"
  unfolding sound_signer_def with_private_key_def privateKeyToSignTypedData_def
  by (auto intro!: pred_state_bind_any split: sum.splits)

lemma success_checks [simp]: "ss_checks (success_of deps ctx sig ph cs) = cs"
  by (simp add: success_of_def)

lemma whitelisting_success_checks [simp]: "ss_checks (whitelisting_success_of deps ctx body sig ph cs) = cs"
  by (simp add: whitelisting_success_of_def)

lemma endpoint_a1: "sound_signer sa \<Longrightarrow> signing_endpoint zIntentRequestBindingBody (shipped_a1 sa) False"
  unfolding signing_endpoint_def shipped_a1_def makeSignIntentRequestBinding_def
  by (intro allI impI, rule a1_runner.sign_with_outcome)
    (simp_all add: a1_sign_deps_def signer_ok_context build_request_binding)

lemma endpoint_a2: "sound_signer sa \<Longrightarrow> signing_endpoint zIntentFundBindingBody (shipped_a2 sa) True"
  unfolding signing_endpoint_def shipped_a2_def makeSignIntentFundBinding_def
  by (intro allI impI, rule a2_runner.sign_with_outcome)
    (simp_all add: a2_sign_deps_def signer_ok_context build_fund_binding)

lemma endpoint_a3: "sound_signer sa \<Longrightarrow> signing_endpoint zIntentSwapBody (shipped_a3 sa) False"
  unfolding signing_endpoint_def shipped_a3_def makeSignIntentSwap_def
  by (intro allI impI, rule a3_runner.sign_with_outcome)
    (simp_all add: a3_sign_deps_def signer_ok_context payload_swap_total zIntentSwapBody_wf)

lemma endpoint_a4: "sound_signer sa \<Longrightarrow> signing_endpoint zRequestWhitelistingBody (shipped_a4 sa) False"
  unfolding signing_endpoint_def shipped_a4_def makeSignRequestWhitelisting_def
  by (intro allI impI, rule a4_runner.sign_with_outcome)
    (simp_all add: a4_sign_deps_def signer_ok_context build_whitelisting [unfolded buildRequestWhitelistingTypedData_def])


text \<open>The shipped endpoints over a local key, for every configuration of the rest.\<close>

interpretation key_a1: signing_endpoint zIntentRequestBindingBody "shipped_a1 (with_private_key sign sa)" False for sign sa
  by (rule endpoint_a1 [OF private_key_sound])

interpretation key_a2: signing_endpoint zIntentFundBindingBody "shipped_a2 (with_private_key sign sa)" True for sign sa
  by (rule endpoint_a2 [OF private_key_sound])

interpretation key_a3: signing_endpoint zIntentSwapBody "shipped_a3 (with_private_key sign sa)" False for sign sa
  by (rule endpoint_a3 [OF private_key_sound])

interpretation key_a4: signing_endpoint zRequestWhitelistingBody "shipped_a4 (with_private_key sign sa)" False for sign sa
  by (rule endpoint_a4 [OF private_key_sound])

lemma host_quiet_install: "host_quiet (install sa host) \<longleftrightarrow> host_quiet host"
  by (simp add: host_quiet_def install_def)

lemma documented_if_calm:
  "\<not> is_conflict e \<Longrightarrow> re_status (resolveError e rid) \<in> set (pickErrorResponses (Some r)) \<or> r \<in> {HealthRoute, VersionRoute}"
proof (cases e)
  case (UpstreamUnavailableError m st ra)
  then show ?thesis by (cases r; cases st) (auto simp: envelope_defs)
qed (cases r; auto simp: envelope_defs is_conflict_def)+

lemma onError_status:
  "pred_state (\<lambda>e. \<exists>rid. er_status e = re_status (resolveError (toGuardianError t) rid)) (onError u hs rh t)"
  unfolding onError_def Let_def by (rule pred_state_bind_any) auto

lemma serve_status:
  assumes "pred_state (\<lambda>(rh, out). case out of Inl t \<Rightarrow> P t | Inr b \<Rightarrow> Q 200) (dispatch host req)"
    and "\<And>t rid. P t \<Longrightarrow> Q (re_status (resolveError (toGuardianError t) rid))"
  shows "pred_state (\<lambda>resp. Q (rs_status resp)) (serve host req)"
  unfolding serve_def
proof (rule pred_state_bindI [OF assms(1)], clarify)
  fix rh and out :: "thrown_value + response_body"
  assume h: "case out of Inl t \<Rightarrow> P t | Inr b \<Rightarrow> Q 200"
  show "pred_state (\<lambda>resp. Q (rs_status resp)) (case out of
       Inr b \<Rightarrow> ret \<lparr>rs_status = 200, rs_headers = rh, rs_body = b\<rparr>
     | Inl t \<Rightarrow> do {
         e \<leftarrow> onError (sh_randomUUID host) (rq_headers req) rh t;
         ret \<lparr>rs_status = er_status e, rs_headers = er_headers e, rs_body = ErrorBody (er_envelope e)\<rparr>
       })"
  proof (cases out)
    case (Inl t)
    with h have "P t" by simp
    note ok = assms(2) [OF this]
    show ?thesis
      unfolding Inl sum.case by (rule pred_state_bindI [OF onError_status]) (use ok in auto)
  qed (use h in simp)
qed

lemma unsupported_media: "contentTypePlugin req = Some e \<Longrightarrow> \<exists>m. e = UnsupportedMediaTypeError m"
  by (auto simp: contentTypePlugin_def split: if_splits)

lemma pred_state_True_sum: "pred_state (\<lambda>(rh, out). case out of Inl t \<Rightarrow> True | Inr b \<Rightarrow> True) m"
  by (auto simp: pred_state_iff split: prod.splits sum.splits)

lemma run_route_calm:
  assumes "host_quiet host" and "r \<notin> {HealthRoute, VersionRoute, FundBindingRoute}"
  shows "pred_state step_calm (run_route (install (with_private_key sign sa) host) r req rh)"
proof -
  have q: "host_quiet (install (with_private_key sign sa) host)" by (simp add: host_quiet_install assms(1))
  have sel: "sh_signIntentRequestBinding (install sa' host) = shipped_a1 sa'"
    "sh_signIntentSwap (install sa' host) = shipped_a3 sa'"
    "sh_signRequestWhitelisting (install sa' host) = shipped_a4 sa'" for sa'
    by (simp_all add: install_def)
  from assms(2) show ?thesis
    by (cases r) (simp_all add: sel key_a1.protected_calm [OF q] key_a3.protected_calm [OF q] key_a4.protected_calm [OF q])
qed

text \<open>
  C35. Every status is the route's own. With the shipped sign functions over a local key and a
  host none of whose own calls reports a state conflict, each signing route answers 200 or
  a status its \<open>response\<close> map lists, so 409 only on the fund bindings; a request that matches
  no route is answered 404, or 415 where it is not JSON.
\<close>

theorem statuses_documented:
  assumes "host_quiet host"
  shows "pred_state (\<lambda>resp.
      case find_route (rq_method req) (rq_path req) of
        None \<Rightarrow> rs_status resp \<in> {404, 415}
      | Some r \<Rightarrow> r \<in> {HealthRoute, VersionRoute} \<or> rs_status resp \<in> insert 200 (set (pickErrorResponses (Some r))))
    (serve (install (with_private_key sign sa) host) req)"
proof (cases "find_route (rq_method req) (rq_path req)")
  case None
  show ?thesis
    unfolding None option.case
  proof (rule serve_status [where P = "\<lambda>t. t = ThrownNotFound \<or> (\<exists>m. t = ThrownGuardianError (UnsupportedMediaTypeError m))"])
    show "pred_state (\<lambda>(rh, out). case out of
        Inl t \<Rightarrow> t = ThrownNotFound \<or> (\<exists>m. t = ThrownGuardianError (UnsupportedMediaTypeError m))
      | Inr b \<Rightarrow> 200 \<in> {404, 415}) (dispatch (install (with_private_key sign sa) host) req)"
      using unsupported_media [of req] by (auto simp: dispatch_def None Let_def split: option.splits)
  qed (auto simp: envelope_defs)
next
  case (Some r)
  show ?thesis
  proof (cases "r \<in> {HealthRoute, VersionRoute, FundBindingRoute}")
    case True
    then show ?thesis
    proof (cases "r = FundBindingRoute")
      case fund: True
      have "set (pickErrorResponses (Some r)) = set errorResponses" by (simp add: fund errorResponses_def)
      then have "re_status (resolveError e rid) \<in> insert 200 (set (pickErrorResponses (Some r)))" for e rid
        using re_status_documented [of e rid] by auto
      then show ?thesis
        unfolding Some option.case
        by (intro serve_status [where P = "\<lambda>_. True"] pred_state_mono [OF pred_state_True_sum])
          (auto split: sum.splits)
    qed (auto simp: Some)
  next
    case False
    have calm: "pred_state step_calm (dispatch (install (with_private_key sign sa) host) req)"
      using run_route_calm [OF assms False] unsupported_media [of req]
      by (auto simp: dispatch_def Some Let_def split: option.splits)
    show ?thesis
      unfolding Some option.case
    proof (rule serve_status [where P = calm])
      show "pred_state (\<lambda>(rh, out). case out of Inl t \<Rightarrow> calm t
          | Inr b \<Rightarrow> r \<in> {HealthRoute, VersionRoute} \<or> 200 \<in> insert 200 (set (pickErrorResponses (Some r))))
        (dispatch (install (with_private_key sign sa) host) req)"
        using calm by (rule pred_state_mono) (auto simp: step_calm_def split: sum.splits)
    qed (use documented_if_calm in \<open>auto simp: calm_def\<close>)
  qed
qed


definition ex_lost_request :: http_request where
  "ex_lost_request = \<lparr>rq_method = ''GET'', rq_path = ''/nope'', rq_headers = [], rq_stream = None\<rparr>"

lemma ex_server_quiet: "host_quiet ex_server_host"
  by (simp add: host_quiet_def ex_server_host_def quiet_def unauthenticated_def)

theorem statuses_documented_witness:
  "\<forall>sign sa. rs_status (result_of (serve (install (with_private_key sign sa) ex_server_host) ex_lost_request) ()) = 404"
proof (intro allI)
  fix sign :: "typed_data \<Rightarrow> (unit, thrown + string) state" and sa :: "(unit, unit) shipped"
  have route: "find_route (rq_method ex_lost_request) (rq_path ex_lost_request) = None" by code_simp
  have post: "contentTypePlugin ex_lost_request = None" by code_simp
  have "rs_status (result_of (serve (install (with_private_key sign sa) ex_server_host) ex_lost_request) ()) \<in> {404, 415}"
    using statuses_documented [OF ex_server_quiet, of ex_lost_request sign sa, unfolded route option.case, THEN pred_stateD']
    by (simp add: result_of_def)
  moreover have "rs_status (result_of (serve host ex_lost_request) ()) \<noteq> 415" for host :: "(unit, 'k) server_host"
    by (simp add: serve_def dispatch_def post route Let_def result_of_def onError_def envelope_defs split: option.splits prod.splits)
  ultimately show "rs_status (result_of (serve (install (with_private_key sign sa) ex_server_host) ex_lost_request) ()) = 404" by auto
qed


section \<open>The open routes\<close>

text \<open>
  The open routes. \<open>GET /health\<close> is 200 exactly if the probe answered \<open>Ok\<close> in time, and 503
  when it did not answer in time; a probe that throws a plain error is 500. \<open>GET /version\<close> is
  200 exactly if the metadata meet the schema, then showing the signer in lower case; otherwise 500.
\<close>

theorem open_routes:
  assumes "rq_method req = ''GET''" and "run_state (resolveRequestId (sh_randomUUID host) (map_of (rq_headers req) ''x-request-id'')) w = (rid, w1)"
    and "run_state (sh_liveness host) w1 = (live, w2)"
    and "run_state (ah_expires (sh_auth host) (rt_livenessMs (ah_timeouts (sh_auth host)))) w2 = (late, w3)"
  shows "(rq_path req = ''/health'' \<longrightarrow>
      rs_status (result_of (serve host req) w) =
        (if late then 503
         else case live of
           Inr (Inr _) \<Rightarrow> 200
         | Inr (Inl e) \<Rightarrow> re_status (resolveError e rid)
         | Inl (RaisedGuardian e) \<Rightarrow> re_status (resolveError e rid)
         | Inl (RaisedSyntax m) \<Rightarrow> 400
         | Inl (RaisedError m) \<Rightarrow> 500)) \<and>
    (rq_path req = ''/version'' \<longrightarrow>
      (let ok = sh_build host \<noteq> [] \<and> ADDRESS_RE (sh_guardianSigner host) \<and>
         list_all (\<lambda>c. 0 < c \<and> c \<le> MAX_SAFE_INTEGER) (sh_supportedChains host);
           resp = result_of (serve host req) w
       in if ok
          then rs_status resp = 200 \<and>
            rs_body resp = VersionBody (sh_build host) (toLowerCase (sh_guardianSigner host)) (sh_supportedChains host)
          else rs_status resp = 500))"
proof -
  have ct: "contentTypePlugin req = None" using assms(1) by (simp add: contentTypePlugin_def)
  have err: "rs_status (result_of (serve host req) w) = re_status (resolveError (toGuardianError t) rid)"
    if "run_state (dispatch host req) w = ((omap_set REQUEST_ID_HEADER rid rh, Inl t), w')" for rh t w'
    using that by (simp add: serve_def onError_def result_of_def Let_def)
  have ok: "rs_status (result_of (serve host req) w) = 200 \<and> rs_body (result_of (serve host req) w) = b"
    if "run_state (dispatch host req) w = ((rh, Inr b), w')" for rh b w'
    using that by (simp add: serve_def result_of_def)
  have health: "run_state (dispatch host req) w =
      (respond host req zHealthResponse (omap_set REQUEST_ID_HEADER rid (version_header host))
        (map_sum (\<lambda>x. x) (\<lambda>_. HealthBody) (unwrapOrThrow (if late then Inl (timeout_error ''liveness'' (rt_livenessMs (ah_timeouts (sh_auth host)))) else live))), w3)"
    if "rq_path req = ''/health''"
    using assms that
    by (simp add: dispatch_def ct find_route_def Let_def open_route_def request_id_derive_def health_handler_def
        unwrapping_def withAbstractionDeadline_def)
  have version: "run_state (dispatch host req) w =
      (respond host req zVersionResponse (omap_set REQUEST_ID_HEADER rid (version_header host))
        (Inr (VersionBody (sh_build host) (sh_guardianSigner host) (sh_supportedChains host))), w1)"
    if "rq_path req = ''/version''"
    using assms that
    by (simp add: dispatch_def ct find_route_def Let_def open_route_def request_id_derive_def)
  let ?ok = "sh_build host \<noteq> [] \<and> ADDRESS_RE (sh_guardianSigner host) \<and>
     list_all (\<lambda>c. 0 < c \<and> c \<le> MAX_SAFE_INTEGER) (sh_supportedChains host)"
  have "zChainId (JNum (num_of_int c)) \<noteq> None \<longleftrightarrow> 0 < c \<and> c \<le> MAX_SAFE_INTEGER" for c
    by (auto simp: zChainId_def num_isSafeInteger_def MAX_SAFE_INTEGER_def)
  then have schema: "zVersionResponse (VersionBody (sh_build host) (sh_guardianSigner host) (sh_supportedChains host)) =
      (if ?ok then Some (VersionBody (sh_build host) (toLowerCase (sh_guardianSigner host)) (sh_supportedChains host)) else None)"
    unfolding zVersionResponse_def response_body.case by presburger
  show ?thesis
  proof (intro conjI impI, goal_cases)
    case 1
    note d = health [OF 1]
    show ?case
    proof (cases "\<exists>u. \<not> late \<and> live = Inr (Inr u)")
      case True
      then show ?thesis using ok [of _ HealthBody] d by (auto simp: unwrapOrThrow_def respond_def zHealthResponse_def)
    next
      case False
      then show ?thesis
        using err d
        by (auto simp: unwrapOrThrow_def respond_def timeout_error_def upstream503_def envelope_defs
            split: sum.splits raised.splits)
    qed
  next
    case 2
    show ?case
    proof (cases ?ok)
      case True
      with ok version [OF 2] show ?thesis by (simp add: Let_def respond_def schema)
    next
      case False
      with err version [OF 2] have "rs_status (result_of (serve host req) w) = 500"
        by (simp add: respond_def schema validation_def envelope_defs)
      with False show ?thesis by (simp only: Let_def if_False)
    qed
  qed
qed


definition ex_probe_request :: http_request where
  "ex_probe_request = \<lparr>rq_method = ''GET'', rq_path = ''/health'', rq_headers = [], rq_stream = None\<rparr>"

theorem open_routes_witness:
  "rs_status (result_of (serve ex_server_host ex_probe_request) ()) = 200"
proof -
  have "rq_method ex_probe_request = ''GET''" by (simp add: ex_probe_request_def)
  moreover have "run_state (resolveRequestId (sh_randomUUID ex_server_host) (map_of (rq_headers ex_probe_request) ''x-request-id'')) () =
      (''generated'', ())"
    by (simp add: ex_probe_request_def ex_server_host_def resolveRequestId_def isCanonicalUuid_def)
  moreover have "run_state (sh_liveness ex_server_host) () = (Inr (Inr ()), ())" by (simp add: ex_server_host_def)
  moreover have "run_state (ah_expires (sh_auth ex_server_host) (rt_livenessMs (ah_timeouts (sh_auth ex_server_host)))) () = (False, ())"
    by (simp add: ex_server_host_def)
  ultimately have "rq_path ex_probe_request = ''/health'' \<longrightarrow> rs_status (result_of (serve ex_server_host ex_probe_request) ()) = 200"
    using open_routes [of ex_probe_request ex_server_host "()" "''generated''" "()" "Inr (Inr ())" "()" False "()"] by simp
  then show ?thesis by (simp add: ex_probe_request_def)
qed

end
