(* ===== verification/Chain_Approval.thy ===== *)
theory Chain_Approval
  imports Shipped
begin

text \<open>
  What an answer of the shipped sign functions means on the chain, for all four kinds of
  request at once: the state of the chains as the checks see it, a policy's approval of a
  request in that state, and that every success was approved first and carries the signer's
  answer to the payload of its own request.
\<close>

section \<open>The state the checks look at\<close>

text \<open>
  One chain: the request contracts, what the fund, its owner and the facility's intent say of
  a fund binding, the position managers, and for a whitelist book, a validator and a nonce the
  floor and whether it is consumed.
\<close>

record chain_state =
  ch_request :: "string \<Rightarrow> a1_facts"
  ch_fund :: "string \<Rightarrow> string \<Rightarrow> int \<Rightarrow> string \<times> intent_properties \<times> string"
  ch_isPositionManager :: "string \<times> string \<Rightarrow> bool"
  ch_positionManager :: "string \<Rightarrow> pm_views"
  ch_nonce :: "string \<Rightarrow> string \<Rightarrow> int \<Rightarrow> int \<times> bool"

fun request_chainId :: "sign_request \<Rightarrow> int" where
  "request_chainId (RequestBinding b) = rb_chainId b"
| "request_chainId (FundBinding b) = fb_chainId b"
| "request_chainId (Swap b) = sw_chainId b"
| "request_chainId (Whitelisting b) = wl_chainId b"

text \<open>A context \<open>runSigning\<close> may build: the host's client for the chain, and a reading of its clock.\<close>

definition guardian_context :: "('w, 'k) server_host \<Rightarrow> 'k run_context \<Rightarrow> bool" where
  "guardian_context host ctx \<longleftrightarrow>
     (\<exists>w w'. run_state (sh_getChainClient host (rc_chainId ctx)) w = (Inr (Inr (rc_client ctx)), w')) \<and>
     (\<exists>w w'. run_state (ah_now (sh_auth host)) w = (rc_now ctx, w'))"

text \<open>The client of the context serves one chain: every read may fail, but what it answers is the state.\<close>

definition serves_chain :: "('w, 'k) shipped \<Rightarrow> 'k run_context \<Rightarrow> chain_state \<Rightarrow> bool" where
  "serves_chain sa ctx ch \<longleftrightarrow>
     (\<forall>q. serves (sa_view1 sa ctx) (ad_policy (sa_a1 sa)) q (ch_request ch q) \<and>
        deployed_first (ad_policy (sa_a1 sa)) (rc_chainId ctx) q (ch_request ch q)) \<and>
     (\<forall>fund facility n. pred_state (\<lambda>r. \<forall>reads. r = Inr reads \<longrightarrow> reads = ch_fund ch fund facility n)
        (a2_stage1 (sa_view2 sa ctx) fund facility n)) \<and>
     serves_pm (sa_view3 sa ctx) (ch_isPositionManager ch) (ch_positionManager ch) \<and>
     (\<forall>q. serves (a1_ctx.truncate (sa_view4 sa ctx)) (a1_policy.truncate (wd_policy (sa_a4 sa))) q (ch_request ch q) \<and>
        deployed_first (a1_policy.truncate (wd_policy (sa_a4 sa))) (rc_chainId ctx) q (ch_request ch q)) \<and>
     (\<forall>book validator n. pred_state (\<lambda>r. \<forall>p. r = Inr p \<longrightarrow> p = ch_nonce ch book validator n)
        (a4_nonce_state (sa_view4 sa ctx) book validator n))"

definition clocked :: "('w, 'k) shipped \<Rightarrow> 'k run_context \<Rightarrow> bool" where
  "clocked sa ctx \<longleftrightarrow> a1_now (sa_view1 sa ctx) = rc_now ctx \<and> a2_now (sa_view2 sa ctx) = rc_now ctx \<and>
     a3_now (sa_view3 sa ctx) = rc_now ctx \<and> a1_now (sa_view4 sa ctx) = rc_now ctx"

definition serves_chains :: "('w, 'k) shipped \<Rightarrow> ('w, 'k) server_host \<Rightarrow> (int \<Rightarrow> chain_state) \<Rightarrow> bool" where
  "serves_chains sa host net \<longleftrightarrow>
     (\<forall>ctx. guardian_context host ctx \<longrightarrow> clocked sa ctx \<and> serves_chain sa ctx (net (rc_chainId ctx)))"

text \<open>Runners without a cache, and a price tolerance the builder of A.3 accepts.\<close>

definition plain_runners :: "('w, 'k) shipped \<Rightarrow> bool" where
  "plain_runners sa \<longleftrightarrow>
     ad_cache (sa_a1 sa) = None \<and> wd_cache (sa_a4 sa) = None \<and>
     num_isInteger (sp_swapPriceToleranceBps (sa_a3 sa)) \<and> \<not> num_lt_int (sp_swapPriceToleranceBps (sa_a3 sa)) 0"


section \<open>Approval of a request\<close>

fun policy_approves :: "('w, 'k) shipped \<Rightarrow> chain_state \<Rightarrow> int \<Rightarrow> sign_request \<Rightarrow> check_entry list \<Rightarrow> bool" where
  "policy_approves sa ch nowMs (RequestBinding b) cs \<longleftrightarrow>
     a1_approved (ad_policy (sa_a1 sa)) (rb_chainId b) (rb_requestContract b) (ch_request ch (rb_requestContract b))
       nowMs (rb_deadline b) cs"
| "policy_approves sa ch nowMs (FundBinding b) cs \<longleftrightarrow>
     (let state = ch_fund ch (fb_fundContract b) (fb_facility b) (intent_number (fb_intent b)) in
      a2_policy_ok (sa_a2 sa) nowMs b state \<and> snd (snd state) = zeroAddress)"
| "policy_approves sa ch nowMs (Swap b) cs \<longleftrightarrow>
     swap_approved (sa_a3 sa) (ch_isPositionManager ch) (ch_positionManager ch) nowMs b"
| "policy_approves sa ch nowMs (Whitelisting b) cs \<longleftrightarrow>
     batch_approved (sa_a4 sa) (ch_request ch)
       (ch_nonce ch (wl_whitelistBook b) (wd_guardianSigner (sa_a4 sa)) (nonce_number b)) nowMs b cs"

text \<open>The check runner of the request's kind let it pass with these entries.\<close>

definition checks_passed :: "('w, 'k) shipped \<Rightarrow> 'k run_context \<Rightarrow> sign_request \<Rightarrow> check_entry list \<Rightarrow> bool" where
  "checks_passed sa ctx request cs \<longleftrightarrow>
     (\<exists>w w'. case request of
        RequestBinding b \<Rightarrow> run_state (runA1 (sa_view1 sa ctx) (sa_a1 sa) (rb_chainId b) (rb_requestContract b) (rb_deadline b)) w = (Inr cs, w')
      | FundBinding b \<Rightarrow> run_state (runA2 (sa_a2 sa) (sa_view2 sa ctx) b) w = (Inr cs, w')
      | Swap b \<Rightarrow> run_state (runA3 (sa_a3 sa) (sa_view3 sa ctx) b) w = (Inr cs, w')
      | Whitelisting b \<Rightarrow> run_state (runA4 (sa_a4 sa) (sa_view4 sa ctx) b) w = (Inr cs, w'))"

lemma runner_approved:
  "pred_state (\<lambda>r. \<forall>cs. r = Inr cs \<longrightarrow> P cs) m \<Longrightarrow> run_state m w = (Inr cs, w') \<Longrightarrow> P cs"
  using pred_stateD' [of _ m w] by fastforce

lemma tolerance_nonneg: "num_isInteger x \<Longrightarrow> \<not> num_lt_int x 0 \<Longrightarrow> 0 \<le> num_to_int x"
  by (auto simp: num_isInteger_iff)

lemma checks_approved:
  assumes "serves_chain sa ctx ch" and "clocked sa ctx" and "plain_runners sa"
    and "rc_chainId ctx = request_chainId request" and "\<And>b. request = Swap b \<Longrightarrow> wf_swap b"
    and "checks_passed sa ctx request cs"
  shows "policy_approves sa ch (rc_now ctx) request cs"
proof (cases request)
  case (RequestBinding b)
  note a1_approval [of "sa_view1 sa ctx" "sa_a1 sa" "rb_requestContract b" "ch_request ch (rb_requestContract b)" "rb_chainId b" "rb_deadline b"]
  from runner_approved [OF this] show ?thesis
    using assms RequestBinding by (auto simp: serves_chain_def clocked_def plain_runners_def checks_passed_def)
next
  case (FundBinding b)
  note a2_approval [of "ch_fund ch (fb_fundContract b) (fb_facility b) (intent_number (fb_intent b))" "sa_view2 sa ctx" b "sa_a2 sa"]
  from runner_approved [OF this] show ?thesis
    using assms FundBinding by (auto simp: serves_chain_def clocked_def checks_passed_def Let_def)
next
  case (Swap b)
  note a3_approval [of "sa_a3 sa" b "sa_view3 sa ctx" "ch_isPositionManager ch" "ch_positionManager ch"]
  from runner_approved [OF this] show ?thesis
    using assms Swap by (auto simp: serves_chain_def clocked_def plain_runners_def checks_passed_def tolerance_nonneg)
next
  case (Whitelisting b)
  let ?state = "ch_nonce ch (wl_whitelistBook b) (wd_guardianSigner (sa_a4 sa)) (nonce_number b)"
  have "pred_state (\<lambda>r. \<forall>f c. r = Inr (f, c) \<longrightarrow> f = fst ?state \<and> c = snd ?state)
      (a4_nonce_state (sa_view4 sa ctx) (wl_whitelistBook b) (wd_guardianSigner (sa_a4 sa)) (nonce_number b))"
  proof (rule pred_state_mono)
    show "pred_state (\<lambda>r. \<forall>p. r = Inr p \<longrightarrow> p = ?state)
        (a4_nonce_state (sa_view4 sa ctx) (wl_whitelistBook b) (wd_guardianSigner (sa_a4 sa)) (nonce_number b))"
      using assms(1) by (simp add: serves_chain_def del: split_paired_All)
  qed (metis fst_conv snd_conv)
  note runner_approved [OF a4_approval [where facts = "ch_request ch", OF _ _ this]]
  then show ?thesis
    using assms Whitelisting by (auto simp: serves_chain_def clocked_def plain_runners_def checks_passed_def simp del: split_paired_All)
qed


section \<open>Signed answers\<close>

text \<open>The signer's answer to the payload of this request.\<close>

definition payload_signed :: "('w, 'k) shipped \<Rightarrow> sign_request \<Rightarrow> guardian_typed_data \<Rightarrow> string \<Rightarrow> bool" where
  "payload_signed sa req td sig \<longleftrightarrow>
     (\<exists>nv w w'. payload (sa_hashTypedData sa) (sa_guardianSigner sa) nv req = Inr td \<and>
        run_state (sa_signTypedData sa (gt_typedData td)) w = (Inr sig, w'))"

text \<open>A success of a sign function of \<open>sa\<close>: checked first, then signed over the payload of this request.\<close>

definition signed_answer :: "('w, 'k) shipped \<Rightarrow> 'k run_context \<Rightarrow> sign_request \<Rightarrow> 's signing_success_scheme \<Rightarrow> bool" where
  "signed_answer sa ctx request s \<longleftrightarrow>
     checks_passed sa ctx request (ss_checks s) \<and> ss_guardian s = sa_guardianSigner sa \<and>
     (\<exists>td. payload_signed sa request td (ss_signature s) \<and> ss_payloadHash s = gt_payloadHash td)"

lemma payload_signedI:
  "run_state (sign_with deps ctx body v build success) w = (Inr (Inr s), w') \<Longrightarrow>
   (\<And>nv. build nv = payload (sa_hashTypedData sa) (sa_guardianSigner sa) nv req) \<Longrightarrow>
   sg_signTypedData ctx = sa_signTypedData sa \<Longrightarrow>
   \<exists>td sig cs w1. payload_signed sa req td sig \<and> s = success sig (gt_payloadHash td) cs \<and>
     run_state (sd_checks deps (sg_client ctx) body) w = (Inr cs, w1)"
  unfolding sign_with_success payload_signed_def by auto

lemmas sign_deps_defs = a1_sign_deps_def a2_sign_deps_def a3_sign_deps_def a4_sign_deps_def sign_context_def success_of_def
  whitelisting_success_of_def buildRequestWhitelistingTypedData_def

lemma shipped_signs:
  "run_state (shipped_a1 sa ctx b1) w = (Inr (Inr s), w') \<Longrightarrow> signed_answer sa ctx (RequestBinding b1) s"
  "run_state (shipped_a2 sa ctx b2) w = (Inr (Inr s), w') \<Longrightarrow> signed_answer sa ctx (FundBinding b2) s"
  "run_state (shipped_a3 sa ctx b3) w = (Inr (Inr s), w') \<Longrightarrow> signed_answer sa ctx (Swap b3) s"
  "run_state (shipped_a4 sa ctx b4) w = (Inr (Inr t), w') \<Longrightarrow> signed_answer sa ctx (Whitelisting b4) t"
  unfolding shipped_a1_def shipped_a2_def shipped_a3_def shipped_a4_def make_defs signed_answer_def checks_passed_def
  by (drule payload_signedI [where sa = sa]; force simp: sign_deps_defs)+

text \<open>The response schemas rewrite the hexadecimal strings to lower case and leave the entries.\<close>

definition lowered :: "'s signing_success_scheme \<Rightarrow> 't signing_success_scheme \<Rightarrow> bool" where
  "lowered v s \<longleftrightarrow> ss_signature s = toLowerCase (ss_signature v) \<and> ss_payloadHash s = toLowerCase (ss_payloadHash v) \<and>
     ss_guardian s = toLowerCase (ss_guardian v) \<and> ss_checks s = ss_checks v"

lemma truncate_sel [simp]: "ss_signature (signing_success.truncate s) = ss_signature s"
  "ss_payloadHash (signing_success.truncate s) = ss_payloadHash s" "ss_checks (signing_success.truncate s) = ss_checks s"
  "ss_guardian (signing_success.truncate s) = ss_guardian s"
  by (simp_all add: signing_success.defs)

lemma zSigningSuccess_lowered: "zSigningSuccess v = Some s \<Longrightarrow> lowered v s"
  by (auto simp: zSigningSuccess_def zAddressResponse_def zSignatureResponse_def zHash32Response_def lowered_def
      lower_hex_response_def bind_eq_Some_conv split: if_splits)

lemma zRequestWhitelistingResponse_lowered: "zRequestWhitelistingResponse v = Some s \<Longrightarrow> lowered v s"
  by (auto simp: zRequestWhitelistingResponse_def bind_eq_Some_conv lowered_def signing_success.defs
      dest!: zSigningSuccess_lowered)

text \<open>
  What the shells hand out: the lower-case form of a signature over the payload of this request, after
  the policy approved the request in the state of its chain, at the time the host's clock showed.
\<close>

definition approved_signature ::
    "('w, 'k) shipped \<Rightarrow> ('w, 'k) server_host \<Rightarrow> (int \<Rightarrow> chain_state) \<Rightarrow> sign_request \<Rightarrow> signing_success \<Rightarrow>
     guardian_typed_data \<Rightarrow> string \<Rightarrow> bool" where
  "approved_signature sa host net request s td sig \<longleftrightarrow>
     (\<exists>ctx. guardian_context host ctx \<and> rc_chainId ctx = request_chainId request \<and>
        policy_approves sa (net (request_chainId request)) (rc_now ctx) request (ss_checks s)) \<and>
     payload_signed sa request td sig \<and>
     ss_signature s = toLowerCase sig \<and> ss_payloadHash s = toLowerCase (gt_payloadHash td) \<and>
     ss_guardian s = toLowerCase (sa_guardianSigner sa)"

lemma signed_approved:
  assumes "serves_chains sa host net" and "plain_runners sa" and "guardian_context host ctx"
    and "rc_chainId ctx = request_chainId request" and "\<And>b. request = Swap b \<Longrightarrow> wf_swap b"
    and "signed_answer sa ctx request v" and "lowered v s"
  shows "\<exists>td sig. approved_signature sa host net request s td sig"
proof -
  have "policy_approves sa (net (rc_chainId ctx)) (rc_now ctx) request (ss_checks v)"
    using assms by (intro checks_approved) (auto simp: serves_chains_def signed_answer_def)
  with assms(3-) show ?thesis
    unfolding approved_signature_def signed_answer_def lowered_def by metis
qed

lemma signed_call_context:
  assumes "signed_call host sign chainId body requestId token w s w'"
  shows "\<exists>ctx w1 w2. guardian_context host ctx \<and> rc_chainId ctx = chainId \<and> run_state (sign ctx body) w1 = (Inr (Inr s), w2)"
proof -
  from assms obtain w1 client w2 now w3 w4 where
    "run_state (sh_getChainClient host chainId) w1 = (Inr (Inr client), w2)" "run_state (ah_now (sh_auth host)) w2 = (now, w3)" and
    run: "run_state (sign \<lparr>rc_chainId = chainId, rc_client = client, rc_requestId = requestId, rc_tokenId = ti_tokenId token,
      rc_now = now\<rparr> body) w3 = (Inr (Inr s), w4)"
    unfolding signed_call_def by blast
  then have "guardian_context host \<lparr>rc_chainId = chainId, rc_client = client, rc_requestId = requestId, rc_tokenId = ti_tokenId token,
      rc_now = now\<rparr>"
    by (auto simp: guardian_context_def)
  with run show ?thesis by (intro exI conjI) (assumption, simp, assumption)
qed

end
