(* ===== verification/Coordinator_Config.thy ===== *)
theory Coordinator_Config
  imports Js_Text Schemas Request_Binding Deadline
begin

text \<open>
  The configuration of the coordinator (\<open>guardian-coordinator/src/index.ts\<close> and \<open>cli.ts\<close>): the readers
  of environment variables. The environment is a partial map; what a reader throws is a
  \<open>raised\<close> value. URL parsing (WHATWG), viem's \<open>isAddress\<close> and its client constructor are
  parameters. A JavaScript \<open>Set\<close> is the list of its elements in insertion order.
\<close>

section \<open>Sequencing\<close>

type_synonym env = "string \<Rightarrow> string option"

definition andThen :: "'e + 'a \<Rightarrow> ('a \<Rightarrow> 'e + 'b) \<Rightarrow> 'e + 'b" where
  "andThen r f = (case r of Inl e \<Rightarrow> Inl e | Inr a \<Rightarrow> f a)"

lemma andThen_simps [simp]: "andThen (Inl e) f = Inl e" "andThen (Inr a) f = f a"
  by (simp_all add: andThen_def)

lemma andThen_Inr: "andThen r f = Inr b \<longleftrightarrow> (\<exists>a. r = Inr a \<and> f a = Inr b)"
  by (cases r) simp_all

fun map_until :: "('a \<Rightarrow> 'e + 'b) \<Rightarrow> 'a list \<Rightarrow> 'e + 'b list" where
  "map_until f [] = Inr []"
| "map_until f (x # xs) = andThen (f x) (\<lambda>y. andThen (map_until f xs) (\<lambda>ys. Inr (y # ys)))"

definition set_add :: "'a \<Rightarrow> 'a list \<Rightarrow> 'a list" where
  "set_add x xs = (if x \<in> set xs then xs else xs @ [x])"

definition js_set :: "'a list \<Rightarrow> 'a list" where
  "js_set xs = fold set_add xs []"

lemma set_add_simps [simp]: "set (set_add x xs) = insert x (set xs)" "distinct (set_add x xs) \<longleftrightarrow> distinct xs"
  by (auto simp: set_add_def)

lemma fold_set_add: "set (fold set_add xs acc) = set xs \<union> set acc" "distinct acc \<Longrightarrow> distinct (fold set_add xs acc)"
  by (induction xs arbitrary: acc) auto

lemma js_set_simps [simp]: "set (js_set xs) = set xs" "distinct (js_set xs)"
  by (simp_all add: js_set_def fold_set_add)


section \<open>Scalars\<close>

definition nonempty_trim :: "string option \<Rightarrow> string option" where
  "nonempty_trim value = (case value of None \<Rightarrow> None | Some v \<Rightarrow> if trim v = [] then None else Some (trim v))"

definition required :: "env \<Rightarrow> string \<Rightarrow> raised + string" where
  "required env key =
     (case nonempty_trim (env key) of None \<Rightarrow> Inl (RaisedError (key @ '' is required'')) | Some v \<Rightarrow> Inr v)"

definition raw_or :: "string option \<Rightarrow> int \<Rightarrow> string" where
  "raw_or value fallback = (case nonempty_trim value of None \<Rightarrow> show_int fallback | Some v \<Rightarrow> v)"

definition positiveInt :: "string option \<Rightarrow> int \<Rightarrow> raised + int" where
  "positiveInt value fallback =
     (let raw = raw_or value fallback; parsed = Number raw in
      if \<not> num_isInteger parsed \<or> num_le_int parsed 0 then Inl (RaisedError (''expected positive integer: '' @ raw))
      else Inr (num_to_int parsed))"

definition nonNegativeInt :: "string option \<Rightarrow> int \<Rightarrow> raised + int" where
  "nonNegativeInt value fallback =
     (let raw = raw_or value fallback; parsed = Number raw in
      if \<not> num_isInteger parsed \<or> num_lt_int parsed 0 then Inl (RaisedError (''expected non-negative integer: '' @ raw))
      else Inr (num_to_int parsed))"

definition bigint_syntax :: "string \<Rightarrow> raised" where
  "bigint_syntax v = RaisedSyntax (''Cannot convert '' @ v @ '' to a BigInt'')"

text \<open>The value is not trimmed here, unlike below: spaces alone convert to \<open>0n\<close> and are refused.\<close>

definition positiveBigInt :: "string option \<Rightarrow> int \<Rightarrow> raised + int" where
  "positiveBigInt value fallback =
     (case value of None \<Rightarrow> Inr fallback
      | Some v \<Rightarrow>
          if v = [] then Inr fallback
          else (case BigInt v of None \<Rightarrow> Inl (bigint_syntax v)
            | Some n \<Rightarrow> if n \<le> 0 then Inl (RaisedError (''expected positive bigint: '' @ v)) else Inr n))"

definition nonNegativeBigInt :: "string option \<Rightarrow> int \<Rightarrow> raised + int" where
  "nonNegativeBigInt value fallback =
     (case nonempty_trim value of None \<Rightarrow> Inr fallback
      | Some raw \<Rightarrow>
          (case BigInt raw of None \<Rightarrow> Inl (bigint_syntax raw)
           | Some n \<Rightarrow> if n < 0 then Inl (RaisedError (''expected non-negative bigint: '' @ raw)) else Inr n))"

definition lookbackExhaustedDisposition :: "string option \<Rightarrow> raised + disposition" where
  "lookbackExhaustedDisposition value =
     (case nonempty_trim value of None \<Rightarrow> Inr Fail
      | Some raw \<Rightarrow>
          if raw = ''skip'' then Inr Skip else if raw = ''fail'' then Inr Fail
          else Inl (RaisedError (''GUARDIAN_ON_LOOKBACK_EXHAUSTED must be skip or fail, got '' @ raw)))"

definition requiredAddress :: "(string \<Rightarrow> bool) \<Rightarrow> env \<Rightarrow> string \<Rightarrow> raised + string" where
  "requiredAddress isAddress env key =
     andThen (required env key) (\<lambda>v. if isAddress v then Inr v else Inl (RaisedError (key @ '' must be a valid address'')))"

definition numberSet :: "string option \<Rightarrow> raised + int list option" where
  "numberSet value =
     (case nonempty_trim value of None \<Rightarrow> Inr None
      | Some _ \<Rightarrow>
          andThen (map_until (\<lambda>part. positiveInt (Some (trim part)) 0)
              (filter (\<lambda>p. p \<noteq> []) (map trim (split_on (CHR '','') (the value)))))
            (\<lambda>parsed. Inr (if parsed = [] then None else Some (js_set parsed))))"

definition stringSet :: "string option \<Rightarrow> string list option" where
  "stringSet value =
     (case nonempty_trim value of None \<Rightarrow> None
      | Some _ \<Rightarrow>
          (let parsed = filter (\<lambda>p. p \<noteq> []) (map (\<lambda>p. toLowerCase (trim p)) (split_on (CHR '','') (the value)))
           in if parsed = [] then None else Some (js_set parsed)))"


section \<open>URLs\<close>

text \<open>What the WHATWG parser gives; \<open>None\<close> is its \<open>TypeError\<close>.\<close>

record url =
  url_protocol :: string
  url_hostname :: string
  url_pathname :: string
  url_toString :: string

type_synonym url_parser = "string \<Rightarrow> url option"

definition endsWith :: "string \<Rightarrow> string \<Rightarrow> bool" where
  "endsWith s p = startsWith (rev s) (rev p)"

definition strip_brackets :: "string \<Rightarrow> string" where
  "strip_brackets s =
     (let t = (if take 1 s = ''['' then drop 1 s else s) in if endsWith t '']'' then butlast t else t)"

definition isLoopback :: "string \<Rightarrow> bool" where
  "isLoopback hostname =
     (let host = strip_brackets (toLowerCase hostname); ipv4 = split_on (CHR ''.'') host in
      host = ''localhost'' \<or> endsWith host ''.localhost'' \<or> host = ''::1'' \<or>
      (length ipv4 = 4 \<and> hd ipv4 = ''127'' \<and>
       list_all (\<lambda>part. part \<noteq> [] \<and> list_all is_digit part \<and> \<not> num_lt_int (Number part) 0 \<and> \<not> num_gt_int (Number part) 255) ipv4))"

definition secure_url :: "url \<Rightarrow> bool" where
  "secure_url u \<longleftrightarrow> url_protocol u = ''https:'' \<or> (url_protocol u = ''http:'' \<and> isLoopback (url_hostname u))"

definition new_URL :: "url_parser \<Rightarrow> string \<Rightarrow> raised + url" where
  "new_URL parseUrl v = (case parseUrl v of None \<Rightarrow> Inl (RaisedError ''Invalid URL'') | Some u \<Rightarrow> Inr u)"

definition strip_slashes :: "string \<Rightarrow> string" where
  "strip_slashes s = rev (dropWhile (\<lambda>c. c = CHR ''/'') (rev s))"

definition baseUrl :: "url_parser \<Rightarrow> string \<Rightarrow> raised + string" where
  "baseUrl parseUrl v =
     andThen (new_URL parseUrl v) (\<lambda>u.
       if \<not> secure_url u then Inl (RaisedError ''COORDINATOR_BASE_URL must use https unless it points at localhost'')
       else Inr (strip_slashes (url_toString u)))"

definition remoteSignerUrl :: "url_parser \<Rightarrow> string \<Rightarrow> raised + string" where
  "remoteSignerUrl parseUrl v =
     andThen (new_URL parseUrl v) (\<lambda>u.
       if \<not> secure_url u then Inl (RaisedError ''GUARDIAN_REMOTE_SIGNER_URL must use https unless it points at localhost'')
       else Inr (url_toString u))"

definition apiRoot :: "url_parser \<Rightarrow> string \<Rightarrow> raised + string" where
  "apiRoot parseUrl base =
     andThen (new_URL parseUrl base) (\<lambda>u. Inr (if url_pathname u = ''/'' then base @ ''/v1'' else base))"


section \<open>The connection\<close>

record connection_config =
  cc_coordinatorBaseUrl :: string
  cc_coordinatorApiKey :: string
  cc_pollIntervalMs :: int
  cc_pageSize :: int
  cc_chainIds :: "int list option"
  cc_facilities :: "string list option"
  cc_requestTimeoutMs :: "int option"

definition DEFAULT_POLL_INTERVAL_MS :: int where "DEFAULT_POLL_INTERVAL_MS = 5000"
definition DEFAULT_PAGE_SIZE :: int where "DEFAULT_PAGE_SIZE = 100"
definition DEFAULT_REQUEST_TIMEOUT_MS :: int where "DEFAULT_REQUEST_TIMEOUT_MS = 10000"

definition loadCoordinatorConfig :: "url_parser \<Rightarrow> env \<Rightarrow> raised + connection_config" where
  "loadCoordinatorConfig parseUrl env =
     andThen (required env ''COORDINATOR_BASE_URL'') (\<lambda>rawUrl.
     andThen (baseUrl parseUrl rawUrl) (\<lambda>base.
     andThen (required env ''COORDINATOR_API_KEY'') (\<lambda>key.
     andThen (positiveInt (env ''POLL_INTERVAL_MS'') DEFAULT_POLL_INTERVAL_MS) (\<lambda>poll.
     andThen (positiveInt (env ''PAGE_SIZE'') DEFAULT_PAGE_SIZE) (\<lambda>pageSize.
     andThen (positiveInt (env ''REQUEST_TIMEOUT_MS'') DEFAULT_REQUEST_TIMEOUT_MS) (\<lambda>timeout.
     andThen (numberSet (env ''CHAIN_IDS'')) (\<lambda>chainIds.
     Inr \<lparr>cc_coordinatorBaseUrl = base, cc_coordinatorApiKey = key, cc_pollIntervalMs = poll, cc_pageSize = pageSize,
       cc_chainIds = chainIds, cc_facilities = stringSet (env ''FACILITIES''), cc_requestTimeoutMs = Some timeout\<rparr>)))))))"


section \<open>Chains and address maps\<close>

record chain_definition =
  cd_id :: int
  cd_name :: string
  cd_rpcUrl :: string
  cd_multicall3 :: string

definition MULTICALL3_ADDRESS :: string where
  "MULTICALL3_ADDRESS = ''0xca11bde05977b3631167028862be2a173976ca11''"

definition defineCoordinatorChain :: "int \<Rightarrow> string \<Rightarrow> chain_definition" where
  "defineCoordinatorChain chainId rpcUrl =
     \<lparr>cd_id = chainId, cd_name = ''Chain '' @ show_int chainId, cd_rpcUrl = rpcUrl, cd_multicall3 = MULTICALL3_ADDRESS\<rparr>"

fun rpc_entries :: "(chain_definition \<Rightarrow> string \<Rightarrow> 'k) \<Rightarrow> string list \<Rightarrow> (int, 'k) omap \<Rightarrow> raised + (int, 'k) omap" where
  "rpc_entries client [] entries = Inr entries"
| "rpc_entries client (item # rest) entries =
     (let parts = split_on (CHR ''='') item in
      andThen (positiveInt (Some (trim (hd parts))) 0) (\<lambda>chainId.
        let url = trim (join_with ''='' (tl parts)) in
        if url = [] then Inl (RaisedError (''invalid GUARDIAN_CHAIN_RPC_URLS entry: '' @ item))
        else rpc_entries client rest (omap_set chainId (client (defineCoordinatorChain chainId url) url) entries)))"

definition parseRpcClients :: "(chain_definition \<Rightarrow> string \<Rightarrow> 'k) \<Rightarrow> string \<Rightarrow> raised + (int, 'k) omap" where
  "parseRpcClients client v =
     andThen (rpc_entries client (split_on (CHR '','') v) []) (\<lambda>entries.
       if entries = [] then Inl (RaisedError ''GUARDIAN_CHAIN_RPC_URLS must not be empty'') else Inr entries)"

fun add_addresses :: "(string \<Rightarrow> bool) \<Rightarrow> string \<Rightarrow> string list \<Rightarrow> string list \<Rightarrow> raised + string list" where
  "add_addresses isAddress name [] acc = Inr acc"
| "add_addresses isAddress name (raw # raws) acc =
     (let address = trim raw in
      if address = [] then add_addresses isAddress name raws acc
      else if \<not> isAddress address then Inl (RaisedError (name @ '' contains invalid address '' @ address))
      else add_addresses isAddress name raws (set_add (toLowerCase address) acc))"

fun address_entries :: "(string \<Rightarrow> bool) \<Rightarrow> string \<Rightarrow> string list \<Rightarrow> chain_sets \<Rightarrow> raised + chain_sets" where
  "address_entries isAddress name [] m = Inr m"
| "address_entries isAddress name (item # rest) m =
     (if trim item = [] then address_entries isAddress name rest m
      else
        let parts = split_on (CHR ''='') item; rawAddresses = (case tl parts of [] \<Rightarrow> [] | r # _ \<Rightarrow> r) in
        andThen (positiveInt (Some (trim (hd parts))) 0) (\<lambda>chainId.
        andThen (add_addresses isAddress name (split_on (CHR '','') rawAddresses) []) (\<lambda>addresses.
          if addresses = [] then Inl (RaisedError (name @ '' has no addresses for chain '' @ show_int chainId))
          else address_entries isAddress name rest (omap_set chainId addresses m))))"

definition parseAddressMap :: "(string \<Rightarrow> bool) \<Rightarrow> string \<Rightarrow> string \<Rightarrow> raised + chain_sets" where
  "parseAddressMap isAddress v name =
     andThen (address_entries isAddress name (split_on (CHR '';'') v) []) (\<lambda>m.
       if m = [] then Inl (RaisedError (name @ '' must not be empty'')) else Inr m)"

lemma config_examples:
  "positiveInt (Some '' 7 '') 0 = Inr 7" "positiveInt (Some ''  '') 12 = Inr 12" "numberSet (Some '' 1, 10,,1'') = Inr (Some [1, 10])"
  "numberSet (Some '','') = Inr None" "stringSet (Some ''0xAB, '') = Some [''0xab'']"
  "positiveInt (Some ''1.5'') 3 = Inl (RaisedError ''expected positive integer: 1.5'')"
  "isLoopback ''127.0.0.1''" "isLoopback ''[::1]''" "\<not> isLoopback ''127.0.0.300''" "\<not> isLoopback ''localhost.example''"
  by code_simp+


section \<open>What a parsed map holds\<close>

definition wf_address_map :: "chain_sets \<Rightarrow> bool" where
  "wf_address_map m \<longleftrightarrow> m \<noteq> [] \<and> omap_wf m \<and>
     list_all (\<lambda>(c, addresses). 0 < c \<and> is_double c \<and> addresses \<noteq> [] \<and> distinct addresses \<and> list_all is_address addresses) m"

definition address_item :: "int \<times> string list \<Rightarrow> string" where
  "address_item p = show_int (fst p) @ ''='' @ join_with '','' (snd p)"

definition render_address_map :: "chain_sets \<Rightarrow> string" where
  "render_address_map m = join_with '';'' (map address_item m)"

lemma split_on_append: "c \<notin> set x \<Longrightarrow> split_on c (x @ c # s) = x # split_on c s"
  by (induction x) auto

lemma split_on_single: "c \<notin> set x \<Longrightarrow> split_on c x = [x]"
  by (induction x) auto

lemma split_on_join: "xs \<noteq> [] \<Longrightarrow> \<forall>x \<in> set xs. c \<notin> set x \<Longrightarrow> split_on c (join_with [c] xs) = xs"
proof (induction "[c]" xs rule: join_with.induct)
  case (3 x y ys)
  then show ?case using split_on_append [of c x] by simp
qed (simp_all add: split_on_single)

lemma Number_show_nat: "is_double (int n) \<Longrightarrow> Number (show_nat n) = num_of_int (int n)"
  by (simp add: Number_digits [OF show_nat_digits] is_double_def)

lemma positiveInt_show:
  assumes "0 < c" and "is_double c"
  shows "positiveInt (Some (show_int c)) d = Inr c"
proof -
  have "trim (show_nat (nat c)) = show_nat (nat c)" by (rule trim_digits [OF show_nat_digits])
  with assms show ?thesis
    by (simp add: positiveInt_def raw_or_def nonempty_trim_def show_int_def Number_show_nat)
qed

lemma positiveInt_pos: "positiveInt v d = Inr c \<Longrightarrow> 0 < c"
  by (auto simp: positiveInt_def Let_def num_isInteger_iff split: if_splits)


lemma positiveInt_bounds: "positiveInt v d = Inr c \<Longrightarrow> 0 < c \<and> is_double c"
  by (auto simp: positiveInt_def Let_def num_isInteger_iff intro: Number_is_double split: if_splits)

lemma address_of: "(\<And>a. isAddress a \<Longrightarrow> ADDRESS_RE a) \<Longrightarrow> isAddress a \<Longrightarrow> is_address (toLowerCase a)"
  by (simp add: is_address_def ADDRESS_RE_def hex0x_toLowerCase)

lemma add_addresses_wf:
  assumes "\<And>a. isAddress a \<Longrightarrow> ADDRESS_RE a"
  shows "add_addresses isAddress name raws acc = Inr r \<Longrightarrow> distinct acc \<Longrightarrow> list_all is_address acc \<Longrightarrow>
    distinct r \<and> list_all is_address r"
proof (induction raws arbitrary: acc)
  case (Cons raw raws)
  have "list_all is_address (set_add (toLowerCase (trim raw)) acc)" if "isAddress (trim raw)"
    using address_of [of isAddress, OF assms that] Cons.prems(3) by (auto simp: list_all_iff)
  with Cons.prems Cons.IH show ?case by (auto simp: Let_def split: if_splits)
qed simp

definition wf_entry_of :: "int \<times> string list \<Rightarrow> bool" where
  "wf_entry_of = (\<lambda>(c, addresses). 0 < c \<and> is_double c \<and> addresses \<noteq> [] \<and> distinct addresses \<and> list_all is_address addresses)"

lemma set_omap_set: "set (omap_set k v m) \<subseteq> insert (k, v) (set m)"
  by (induction m) auto

lemma address_entries_wf:
  assumes "\<And>a. isAddress a \<Longrightarrow> ADDRESS_RE a"
  shows "address_entries isAddress name items m = Inr r \<Longrightarrow> omap_wf m \<Longrightarrow> list_all wf_entry_of m \<Longrightarrow>
    omap_wf r \<and> list_all wf_entry_of r"
proof (induction items arbitrary: m)
  case (Cons item items)
  show ?case
  proof (cases "trim item = []")
    case False
    let ?raw = "case tl (split_on (CHR ''='') item) of [] \<Rightarrow> [] | r # _ \<Rightarrow> r"
    from Cons.prems(1) False obtain c addresses where
      c: "positiveInt (Some (trim (hd (split_on (CHR ''='') item)))) 0 = Inr c" and
      a: "add_addresses isAddress name (split_on (CHR '','') ?raw) [] = Inr addresses" and
      ne: "addresses \<noteq> []" and rest: "address_entries isAddress name items (omap_set c addresses m) = Inr r"
      by (auto simp: Let_def andThen_Inr split: if_splits)
    have "wf_entry_of (c, addresses)"
      using positiveInt_bounds [OF c] add_addresses_wf [OF assms a] ne by (simp add: wf_entry_of_def)
    with Cons.prems(3) have "list_all wf_entry_of (omap_set c addresses m)"
      using set_omap_set [of c addresses m] by (auto simp: list_all_iff)
    with Cons.IH [OF rest] Cons.prems(2) show ?thesis by simp
  qed (use Cons in simp)
qed simp

lemma address_chars: "is_address a \<Longrightarrow> a \<noteq> [] \<and> trim a = a \<and> (\<forall>c \<in> set a. is_alnum c)"
proof -
  assume "is_address a"
  then have t: "take 2 a = ''0x''" and h: "list_all is_lower_hex (drop 2 a)"
    by (simp_all add: is_address_def hex0x_lower_def)
  have a: "a = ''0x'' @ drop 2 a" by (metis append_take_drop_id t)
  have "is_alnum c" if "c \<in> set a" for c
  proof -
    from that a have "c \<in> set ''0x'' \<union> set (drop 2 a)" by (metis set_append)
    with h show ?thesis
      by (auto simp: list_all_iff is_alnum_def is_lower_hex_def is_digit_def Let_def code_of_def)
  qed
  moreover have "\<not> is_js_space c" if "is_alnum c" for c
    using that by (auto simp: is_alnum_def is_js_space_def is_digit_def Let_def)
  moreover have "a \<noteq> []" using t by auto
  ultimately show ?thesis by (simp add: trim_id list_all_iff)
qed

lemma add_addresses_render:
  "list_all is_address as \<Longrightarrow> \<forall>a \<in> set as. isAddress a \<Longrightarrow> distinct (acc @ as) \<Longrightarrow>
   add_addresses isAddress name as acc = Inr (acc @ as)"
proof (induction as arbitrary: acc)
  case (Cons a as)
  then show ?case using address_chars [of a] by (simp add: set_add_def Let_def)
qed simp

lemma punctuation: "\<not> is_alnum (CHR '','')" "\<not> is_alnum (CHR '';'')" "\<not> is_alnum (CHR ''='')"
  by (simp_all add: is_alnum_def is_digit_def Let_def code_of_def)

lemma set_join_with: "set (join_with sep xs) \<subseteq> set sep \<union> \<Union> (set ` set xs)"
  by (induction sep xs rule: join_with.induct) auto

lemma trim_Nil_iff: "trim s = [] \<longleftrightarrow> (\<forall>c \<in> set s. is_js_space c)"
proof
  assume "trim s = []"
  then have "\<forall>c \<in> set (dropWhile is_js_space s). is_js_space c" by (simp add: trim_def dropWhile_eq_Nil_conv)
  then show "\<forall>c \<in> set s. is_js_space c"
    by (metis Un_iff set_append set_takeWhileD takeWhile_dropWhile_id)
qed (auto simp: trim_def dest: set_dropWhileD)

lemma address_item_split:
  assumes "wf_entry_of p"
  shows "trim (address_item p) \<noteq> []" "split_on (CHR ''='') (address_item p) = [show_int (fst p), join_with '','' (snd p)]"
    "CHR '';'' \<notin> set (address_item p)" "split_on (CHR '','') (join_with '','' (snd p)) = snd p"
    "trim (show_int (fst p)) = show_int (fst p)"
proof -
  have i: "show_int (fst p) = show_nat (nat (fst p))" using assms by (auto simp: wf_entry_of_def show_int_def)
  note d = show_nat_digits [of "nat (fst p)"]
  have num: "is_alnum c" if "c \<in> set (show_int (fst p))" for c
    using d that by (auto simp: i list_all_iff is_alnum_def)
  have addr: "is_alnum c" if "a \<in> set (snd p)" "c \<in> set a" for a c
    using assms that address_chars [of a] by (auto simp: wf_entry_of_def list_all_iff)
  have chars: "is_alnum c \<or> c = CHR '',''" if "c \<in> set (join_with '','' (snd p))" for c
    using set_join_with [of "'',''" "snd p"] that addr by fastforce
  show "trim (show_int (fst p)) = show_int (fst p)" unfolding i by (rule trim_digits [OF d])
  show "split_on (CHR ''='') (address_item p) = [show_int (fst p), join_with '','' (snd p)]"
  proof -
    have "CHR ''='' \<notin> set (show_int (fst p))" "CHR ''='' \<notin> set (join_with '','' (snd p))"
      using num chars punctuation by auto
    then show ?thesis by (simp add: address_item_def split_on_append split_on_single)
  qed
  show "CHR '';'' \<notin> set (address_item p)"
    using num chars punctuation by (auto simp: address_item_def)
  show "split_on (CHR '','') (join_with '','' (snd p)) = snd p"
    using assms addr punctuation by (intro split_on_join) (auto simp: wf_entry_of_def)
  have "CHR ''='' \<in> set (address_item p)" by (simp add: address_item_def)
  moreover have "\<not> is_js_space (CHR ''='')" by (simp add: is_js_space_def code_of_def)
  ultimately show "trim (address_item p) \<noteq> []" by (auto simp: trim_Nil_iff)
qed


lemma address_entries_render:
  "list_all wf_entry_of ps \<Longrightarrow> \<forall>p \<in> set ps. \<forall>a \<in> set (snd p). isAddress a \<Longrightarrow> omap_wf (m @ ps) \<Longrightarrow>
   address_entries isAddress name (map address_item ps) m = Inr (m @ ps)"
proof (induction ps arbitrary: m)
  case (Cons p ps)
  then have w: "wf_entry_of p" by simp
  note split = address_item_split [OF w]
  have "fst p \<notin> fst ` set m" using Cons.prems(3) by (auto simp: omap_wf_def)
  then have new: "omap_set (fst p) (snd p) m = m @ [p]" by (simp add: omap_set_new)
  have addrs: "add_addresses isAddress name (snd p) [] = Inr (snd p)"
    using w Cons.prems(2) add_addresses_render [of "snd p" isAddress "[]" name] by (auto simp: wf_entry_of_def)
  have "positiveInt (Some (show_int (fst p))) 0 = Inr (fst p)"
    using w by (auto simp: wf_entry_of_def intro: positiveInt_show)
  moreover have "snd p \<noteq> []" using w by (auto simp: wf_entry_of_def)
  moreover have "address_entries isAddress name (map address_item ps) (m @ [p]) = Inr (m @ p # ps)"
    using Cons.IH [of "m @ [p]"] Cons.prems by simp
  ultimately show ?case using split addrs by (simp add: new Let_def)
qed simp

lemma wf_address_map_entries: "wf_address_map m \<longleftrightarrow> m \<noteq> [] \<and> omap_wf m \<and> list_all wf_entry_of m"
  by (simp add: wf_address_map_def wf_entry_of_def)

lemma parseAddressMap_wf:
  assumes "\<And>a. isAddress a \<Longrightarrow> ADDRESS_RE a" and "parseAddressMap isAddress v name = Inr m"
  shows "wf_address_map m"
proof -
  from assms(2) obtain r where "address_entries isAddress name (split_on (CHR '';'') v) [] = Inr r" "m = r" "r \<noteq> []"
    by (auto simp: parseAddressMap_def andThen_Inr split: if_splits)
  with address_entries_wf [OF assms(1) this(1)] show ?thesis by (simp add: wf_address_map_entries)
qed

text \<open>
  C36. Address maps, and with them every allow-list of the policies: whatever \<open>parseAddressMap\<close>
  accepts has at least one chain, each with a positive id that is a double, and per chain a non-empty
  set of distinct lower-case addresses; and the documented format \<open>chainId=addr,addr;chainId=addr\<close> of
  such a map is read back as that map. An id that is not a double (\<open>2 ^ 53 + 1\<close> is the least) is read as
  the double next to it, as \<open>Number\<close> does.
\<close>

theorem address_map_roundtrip_wf:
  assumes "\<And>a. isAddress a \<Longrightarrow> ADDRESS_RE a"
  shows "(\<forall>v m. parseAddressMap isAddress v name = Inr m \<longrightarrow> wf_address_map m) \<and>
    (\<forall>m. wf_address_map m \<and> (\<forall>p \<in> set m. \<forall>a \<in> set (snd p). isAddress a) \<longrightarrow>
       parseAddressMap isAddress (render_address_map m) name = Inr m)"
proof (intro conjI allI impI, goal_cases)
  case (1 v m)
  with parseAddressMap_wf [OF assms] show ?case by blast
next
  case (2 m)
  then have "split_on (CHR '';'') (render_address_map m) = map address_item m"
    unfolding render_address_map_def
    by (intro split_on_join) (auto simp: wf_address_map_entries list_all_iff address_item_split(3))
  with 2 show ?case
    using address_entries_render [of m isAddress "[]" name] by (simp add: parseAddressMap_def wf_address_map_entries)
qed

theorem address_map_roundtrip_wf_witness:
  "parseAddressMap ADDRESS_RE (render_address_map [(1, [''0x'' @ replicate 40 (CHR ''a'')]), (10, [''0x'' @ replicate 40 (CHR ''b'')])]) ''X'' =
     Inr [(1, [''0x'' @ replicate 40 (CHR ''a'')]), (10, [''0x'' @ replicate 40 (CHR ''b'')])]"
proof -
  let ?m = "[(1, [''0x'' @ replicate 40 (CHR ''a'')]), (10, [''0x'' @ replicate 40 (CHR ''b'')])] :: chain_sets"
  have "wf_address_map ?m" by code_simp
  moreover have "\<forall>p \<in> set ?m. \<forall>a \<in> set (snd p). ADDRESS_RE a" by code_simp
  ultimately show ?thesis
    using address_map_roundtrip_wf [of ADDRESS_RE "''X''"] by blast
qed

end
