(* ===== verification/Coordinator.thy ===== *)
theory Coordinator
  imports Coordinator_Config Server
begin

text \<open>
  The polling coordinator (\<open>guardian-coordinator/src/index.ts\<close>): one poll lists the open signing
  requests page by page, signs each in-process through \<open>runSigning\<close> and submits the signature.
  The \<open>fetch\<close> of the host is a parameter on the world; what is logged is left out, except the
  heartbeat. The percent-encoding of a query is not modelled.
\<close>

section \<open>Signing requests\<close>

datatype signing_kind = SetRequest | SetFund | SwapLegs | RequestWhitelisting

definition zSigningKind :: "json \<Rightarrow> signing_kind option" where
  "zSigningKind j =
     (case json_string j of None \<Rightarrow> None
      | Some s \<Rightarrow>
          if s = ''set_request'' then Some SetRequest else if s = ''set_fund'' then Some SetFund
          else if s = ''swap'' then Some SwapLegs else if s = ''request_whitelisting'' then Some RequestWhitelisting
          else None)"

record signing_request =
  sr_id :: string
  sr_kind :: signing_kind
  sr_chainId :: jsnum
  sr_facility :: string
  sr_payloadHash :: string
  sr_body :: "json option"
  sr_mySubmission :: json

definition zNumber :: "json \<Rightarrow> jsnum option" where
  "zNumber j = (case j of JNum x \<Rightarrow> if num_isFinite x then Some x else None | _ \<Rightarrow> None)"

text \<open>An absent \<open>body\<close> is \<open>undefined\<close>; an absent \<open>mySubmission\<close> becomes \<open>null\<close>.\<close>

definition zSigningRequest :: "json \<Rightarrow> signing_request option" where
  "zSigningRequest j = do {
     i \<leftarrow> json_parse_field json_string j ''id'';
     k \<leftarrow> json_parse_field zSigningKind j ''kind'';
     c \<leftarrow> json_parse_field zNumber j ''chainId'';
     f \<leftarrow> json_parse_field json_string j ''facility'';
     h \<leftarrow> json_parse_field json_string j ''payloadHash'';
     Some \<lparr>sr_id = i, sr_kind = k, sr_chainId = c, sr_facility = f, sr_payloadHash = h, sr_body = json_field j ''body'',
       sr_mySubmission = (case json_field j ''mySubmission'' of None \<Rightarrow> JNull | Some s \<Rightarrow> s)\<rparr>
   }"

record request_page =
  pg_total :: jsnum
  pg_page :: jsnum
  pg_pageSize :: jsnum
  pg_items :: "json list"

definition zSigningRequestPage :: "json \<Rightarrow> request_page option" where
  "zSigningRequestPage j = do {
     t \<leftarrow> json_parse_field zNumber j ''total'';
     p \<leftarrow> json_parse_field zNumber j ''page'';
     s \<leftarrow> json_parse_field zNumber j ''pageSize'';
     items \<leftarrow> json_parse_field (json_list Some) j ''items'';
     Some \<lparr>pg_total = t, pg_page = p, pg_pageSize = s, pg_items = items\<rparr>
   }"

datatype parsed_signing_body =
    ParsedSetRequest intent_request_binding_body
  | ParsedSetFund intent_fund_binding_body
  | ParsedSwap intent_swap_body
  | ParsedWhitelisting request_whitelisting_body

text \<open>Without a nonce of its own a whitelisting body is parsed with nonce \<open>"0"\<close>, to be replaced by a reserved one.\<close>

fun with_nonce :: "json \<Rightarrow> json" where
  "with_nonce (JObj kvs) = (if map_of kvs ''nonce'' = None then JObj (kvs @ [(''nonce'', JStr ''0'')]) else JObj kvs)"
| "with_nonce (JArr js) = JObj (zip (map show_nat [0..<length js]) js @ [(''nonce'', JStr ''0'')])"
| "with_nonce j = j"

definition parseSigningBody :: "signing_request \<Rightarrow> parsed_signing_body option" where
  "parseSigningBody request = do {
     body \<leftarrow> sr_body request;
     case sr_kind request of
       SetRequest \<Rightarrow> map_option ParsedSetRequest (zIntentRequestBindingBody body)
     | SetFund \<Rightarrow> map_option ParsedSetFund (zIntentFundBindingBody body)
     | SwapLegs \<Rightarrow> map_option ParsedSwap (zIntentSwapBody body)
     | RequestWhitelisting \<Rightarrow> map_option ParsedWhitelisting (zRequestWhitelistingBody (with_nonce body))
   }"

fun parsed_chainId :: "parsed_signing_body \<Rightarrow> int" where
  "parsed_chainId (ParsedSetRequest b) = rb_chainId b"
| "parsed_chainId (ParsedSetFund b) = fb_chainId b"
| "parsed_chainId (ParsedSwap b) = sw_chainId b"
| "parsed_chainId (ParsedWhitelisting b) = wl_chainId b"

fun requestTarget :: "parsed_signing_body \<Rightarrow> string \<times> string" where
  "requestTarget (ParsedSetRequest b) = (''facility'', rb_facility b)"
| "requestTarget (ParsedSetFund b) = (''facility'', fb_facility b)"
| "requestTarget (ParsedSwap b) = (''facility'', sw_facility b)"
| "requestTarget (ParsedWhitelisting b) = (''whitelistBook'', wl_whitelistBook b)"


section \<open>The coordinator API\<close>

record api_call =
  ac_method :: string
  ac_url :: string
  ac_query :: "(string \<times> string) list"
  ac_headers :: "(string \<times> string) list"
  ac_body :: "json option"
  ac_timeoutMs :: int

record api_response =
  ar_status :: int
  ar_text :: "raised + string"

text \<open>The guardian in-process: the members \<open>runSigning\<close> reads are those of a server host.\<close>

record ('w, 'k) coordinator_guardian =
  cg_host :: "('w, 'k) server_host"
  cg_timeouts :: "guardian_timeouts option"
  cg_signRequestWhitelisting :: "('w, 'k, request_whitelisting_body, whitelisting_success) validate_and_sign option"
  cg_whitelistNonceCandidates :: "(request_whitelisting_body \<Rightarrow> ('w, raised + string list) state) option"

record ('w, 'k) coordinator_options =
  co_config :: connection_config
  co_guardian :: "('w, 'k) coordinator_guardian"
  co_fetcher :: "api_call \<Rightarrow> ('w, raised + api_response) state"
  co_parseJson :: "string \<Rightarrow> json option"
  co_parseUrl :: url_parser
  co_sleep :: "int \<Rightarrow> ('w, unit) state"

definition zod_error :: raised where
  "zod_error = RaisedError ''ZodError''"

definition zod_parse :: "('a \<Rightarrow> 'b option) \<Rightarrow> 'a \<Rightarrow> raised + 'b" where
  "zod_parse schema v = (case schema v of None \<Rightarrow> Inl zod_error | Some x \<Rightarrow> Inr x)"

definition shown_url :: "api_call \<Rightarrow> string" where
  "shown_url call = ac_url call @
     (if ac_query call = [] then [] else ''?'' @ join_with ''&'' (map (\<lambda>(k, v). k @ ''='' @ v) (ac_query call)))"

definition response_json :: "(string \<Rightarrow> json option) \<Rightarrow> api_call \<Rightarrow> raised + api_response \<Rightarrow> raised + json" where
  "response_json parse call r =
     andThen r (\<lambda>response. andThen (ar_text response) (\<lambda>text.
       let body = (if text = [] then JNull else case parse text of Some j \<Rightarrow> j | None \<Rightarrow> JStr text) in
       if 200 \<le> ar_status response \<and> ar_status response \<le> 299 then Inr body
       else Inl (RaisedError (ac_method call @ '' '' @ shown_url call @ '' failed with '' @ show_int (ar_status response) @
         '': '' @ JSON_stringify body))))"

definition requestJson :: "('w, 'k) coordinator_options \<Rightarrow> api_call \<Rightarrow> ('w, raised + json) state" where
  "requestJson opts call = do { r \<leftarrow> co_fetcher opts call; ret (response_json (co_parseJson opts) call r) }"

definition request_timeout :: "('w, 'k) coordinator_options \<Rightarrow> int" where
  "request_timeout opts =
     (case cc_requestTimeoutMs (co_config opts) of None \<Rightarrow> DEFAULT_REQUEST_TIMEOUT_MS | Some ms \<Rightarrow> ms)"

definition api_root :: "('w, 'k) coordinator_options \<Rightarrow> raised + string" where
  "api_root opts = apiRoot (co_parseUrl opts) (cc_coordinatorBaseUrl (co_config opts))"

type_synonym poll_filter = "int option \<times> string option"

definition list_call :: "('w, 'k) coordinator_options \<Rightarrow> poll_filter \<Rightarrow> nat \<Rightarrow> string \<Rightarrow> api_call" where
  "list_call opts flt page base =
     \<lparr>ac_method = ''GET'', ac_url = base @ ''/guardian/signing-requests'',
      ac_query = [(''status'', ''open''), (''page'', show_nat page), (''pageSize'', show_int (cc_pageSize (co_config opts)))] @
        (case fst flt of None \<Rightarrow> [] | Some c \<Rightarrow> [(''chainId'', show_int c)]) @
        (case snd flt of None \<Rightarrow> [] | Some f \<Rightarrow> [(''facility'', f)]),
      ac_headers = [(''x-api-key'', cc_coordinatorApiKey (co_config opts))], ac_body = None,
      ac_timeoutMs = request_timeout opts\<rparr>"

definition put_call :: "('w, 'k) coordinator_options \<Rightarrow> string \<Rightarrow> string \<Rightarrow> json \<Rightarrow> string \<Rightarrow> api_call" where
  "put_call opts i what body base =
     \<lparr>ac_method = ''PUT'', ac_url = base @ ''/guardian/signing-requests/'' @ i @ ''/'' @ what, ac_query = [],
      ac_headers = [(''content-type'', ''application/json''), (''x-api-key'', cc_coordinatorApiKey (co_config opts))],
      ac_body = Some body, ac_timeoutMs = request_timeout opts\<rparr>"

definition api_request :: "('w, 'k) coordinator_options \<Rightarrow> (string \<Rightarrow> api_call) \<Rightarrow> ('w, raised + json) state" where
  "api_request opts call = (case api_root opts of Inl e \<Rightarrow> ret (Inl e) | Inr base \<Rightarrow> requestJson opts (call base))"


section \<open>Signing\<close>

definition TOKEN_INFO :: token_info where
  "TOKEN_INFO = \<lparr>ti_tokenId = ''guardian-coordinator'', ti_scopes = [], ti_requiresHmac = False, ti_hmacSecret = None\<rparr>"

text \<open>
  \<open>runSigning\<close> resolves the timeouts on every call, after the probe and the client lookup: an
  unusable budget is a \<open>TypeError\<close> there.
\<close>

definition run_signing ::
    "('w, 'k) coordinator_guardian \<Rightarrow> ('w, 'k, 'b, 's) validate_and_sign \<Rightarrow> int \<Rightarrow> 'b \<Rightarrow> string \<Rightarrow> ('w, raised + 's) state" where
  "run_signing g sign chainId body requestId =
     (let host = cg_host g in
      case resolveGuardianTimeouts (cg_timeouts g) of
        Some t \<Rightarrow> runSigning (host\<lparr>sh_auth := (sh_auth host)\<lparr>ah_timeouts := t\<rparr>\<rparr>) sign chainId body requestId TOKEN_INFO
      | None \<Rightarrow>
          bindE (case sh_probeUpstream host of None \<Rightarrow> ret (Inr ()) | Some probe \<Rightarrow> unwrapping probe) (\<lambda>_.
          bindE (unwrapping (sh_getChainClient host chainId)) (\<lambda>_.
          ret (Inl (RaisedError ''guardian: timeouts must be a positive number'')))))"

text \<open>The sign function of the kind, and the response schema.\<close>

definition sign_parsed ::
    "('w, 'k) coordinator_guardian \<Rightarrow> string \<Rightarrow> parsed_signing_body \<Rightarrow> ('w, raised + signing_success) state" where
  "sign_parsed g requestId parsed =
     (case parsed of
        ParsedSetRequest b \<Rightarrow>
          bindE (run_signing g (sh_signIntentRequestBinding (cg_host g)) (rb_chainId b) b requestId)
            (\<lambda>s. ret (zod_parse zSigningSuccess s))
      | ParsedSetFund b \<Rightarrow>
          bindE (run_signing g (sh_signIntentFundBinding (cg_host g)) (fb_chainId b) b requestId)
            (\<lambda>s. ret (zod_parse zSigningSuccess s))
      | ParsedSwap b \<Rightarrow>
          bindE (run_signing g (sh_signIntentSwap (cg_host g)) (sw_chainId b) b requestId)
            (\<lambda>s. ret (zod_parse zSigningSuccess s))
      | ParsedWhitelisting b \<Rightarrow>
          (case cg_signRequestWhitelisting g of
             None \<Rightarrow> ret (Inl (RaisedError ''request_whitelisting signing requires signRequestWhitelisting support''))
           | Some sign \<Rightarrow>
               bindE (run_signing g sign (wl_chainId b) b requestId)
                 (\<lambda>s. ret (map_sum id signing_success.truncate (zod_parse zRequestWhitelistingResponse s)))))"

definition signWithGuardian ::
    "('w, 'k) coordinator_guardian \<Rightarrow> signing_request \<Rightarrow> parsed_signing_body \<Rightarrow> ('w, raised + signing_success) state" where
  "signWithGuardian g request parsed = do {
     requestId \<leftarrow> sh_randomUUID (cg_host g);
     bindE (sign_parsed g requestId parsed) (\<lambda>checked. ret
       (if toLowerCase (ss_payloadHash checked) \<noteq> toLowerCase (sr_payloadHash request) then
          Inl (RaisedError (''payloadHash mismatch: signer returned '' @ ss_payloadHash checked @
            '', coordinator expected '' @ sr_payloadHash request))
        else if toLowerCase (ss_guardian checked) \<noteq> toLowerCase (sh_guardianSigner (cg_host g)) then
          Inl (RaisedError (''guardian mismatch: signer returned '' @ ss_guardian checked @ '', expected '' @
            sh_guardianSigner (cg_host g)))
        else Inr checked))
   }"


section \<open>One signing request\<close>

definition RESERVED_NONCE_RE :: "string \<Rightarrow> bool" where
  "RESERVED_NONCE_RE v \<longleftrightarrow> UINT_DECIMAL_RE v \<and> length v \<le> 78"

definition zReservation :: "json \<Rightarrow> (string \<times> string) option" where
  "zReservation j = do {
     n \<leftarrow> json_parse_field json_string j ''nonce'';
     h \<leftarrow> json_parse_field json_string j ''payloadHash'';
     if RESERVED_NONCE_RE n \<and> HASH32_RE h then Some (n, h) else None
   }"

definition independent_nonce :: "signing_request \<Rightarrow> parsed_signing_body \<Rightarrow> bool" where
  "independent_nonce request parsed \<longleftrightarrow>
     (case parsed of
        ParsedWhitelisting b \<Rightarrow> (case sr_body request of None \<Rightarrow> True | Some j \<Rightarrow> json_field j ''nonce'' = None)
      | _ \<Rightarrow> False)"

definition reserved_pair ::
    "signing_request \<Rightarrow> request_whitelisting_body \<Rightarrow> string list \<Rightarrow> string \<times> string \<Rightarrow> raised + (signing_request \<times> parsed_signing_body)" where
  "reserved_pair request b candidates = (\<lambda>(nonce, hash).
     if nonce \<notin> set candidates
     then Inl (RaisedError ''Reserved whitelist nonce is no longer available in this validator's window'')
     else Inr (request\<lparr>sr_payloadHash := hash\<rparr>, ParsedWhitelisting (b\<lparr>wl_nonce := nonce\<rparr>)))"

text \<open>\<open>None\<close>: no candidate nonce, the request waits for the next poll.\<close>

definition reserve_nonce ::
    "('w, 'k) coordinator_options \<Rightarrow> signing_request \<Rightarrow> request_whitelisting_body \<Rightarrow>
     ('w, raised + (signing_request \<times> parsed_signing_body) option) state" where
  "reserve_nonce opts request b =
     (case cg_whitelistNonceCandidates (co_guardian opts) of
        None \<Rightarrow> ret (Inl (RaisedError ''Independent whitelist nonces are not configured''))
      | Some candidatesOf \<Rightarrow>
          bindE (candidatesOf b) (\<lambda>candidates.
            if candidates = [] then ret (Inr None)
            else bindE (api_request opts (put_call opts (sr_id request) ''nonce'' (JObj [(''candidates'', JArr (map JStr candidates))])))
              (\<lambda>j. ret (map_sum id Some (andThen (zod_parse zReservation j) (reserved_pair request b candidates))))))"

definition settle_nonce ::
    "('w, 'k) coordinator_options \<Rightarrow> signing_request \<Rightarrow> parsed_signing_body \<Rightarrow>
     ('w, raised + (signing_request \<times> parsed_signing_body) option) state" where
  "settle_nonce opts request parsed =
     (case parsed of
        ParsedWhitelisting b \<Rightarrow>
          if independent_nonce request parsed then reserve_nonce opts request b else ret (Inr (Some (request, parsed)))
      | _ \<Rightarrow> ret (Inr (Some (request, parsed))))"

definition submission_body :: "bool \<Rightarrow> parsed_signing_body \<Rightarrow> signing_success \<Rightarrow> json" where
  "submission_body own parsed success =
     JObj ([(''chainId'', JNum (num_of_int (parsed_chainId parsed))), (''signature'', JStr (ss_signature success))] @
       (case parsed of ParsedWhitelisting b \<Rightarrow> if own then [(''nonce'', JStr (wl_nonce b))] else [] | _ \<Rightarrow> []))"

datatype disposal = Skipped | Submitted

definition filtered_out :: "connection_config \<Rightarrow> parsed_signing_body \<Rightarrow> bool" where
  "filtered_out cfg parsed \<longleftrightarrow>
     (case cc_chainIds cfg of None \<Rightarrow> False | Some ids \<Rightarrow> parsed_chainId parsed \<notin> set ids) \<or>
     (case cc_facilities cfg of None \<Rightarrow> False | Some fs \<Rightarrow> toLowerCase (snd (requestTarget parsed)) \<notin> set fs)"

definition sign_and_submit ::
    "('w, 'k) coordinator_options \<Rightarrow> bool \<Rightarrow> signing_request \<Rightarrow> parsed_signing_body \<Rightarrow> ('w, raised + disposal) state" where
  "sign_and_submit opts own request parsed =
     bindE (signWithGuardian (co_guardian opts) request parsed) (\<lambda>success.
     bindE (api_request opts (put_call opts (sr_id request) ''submission'' (submission_body own parsed success)))
       (\<lambda>_. ret (Inr Submitted)))"

text \<open>The \<open>try\<close> block.\<close>

definition sign_request :: "('w, 'k) coordinator_options \<Rightarrow> signing_request \<Rightarrow> ('w, raised + disposal) state" where
  "sign_request opts request =
     (case parseSigningBody request of None \<Rightarrow> ret (Inl zod_error)
      | Some parsed \<Rightarrow>
          if sr_chainId request \<noteq> num_of_int (parsed_chainId parsed) then
            ret (Inl (RaisedError (''chainId mismatch: request '' @ show_num (sr_chainId request) @ '', body '' @
              show_int (parsed_chainId parsed))))
          else if toLowerCase (sr_facility request) \<noteq> toLowerCase (snd (requestTarget parsed)) then
            ret (Inl (RaisedError (fst (requestTarget parsed) @ '' mismatch: request '' @ sr_facility request @ '', body '' @
              snd (requestTarget parsed))))
          else if filtered_out (co_config opts) parsed then ret (Inr Skipped)
          else bindE (settle_nonce opts request parsed) (\<lambda>r.
            case r of None \<Rightarrow> ret (Inr Skipped)
            | Some (request', parsed') \<Rightarrow> sign_and_submit opts (independent_nonce request parsed) request' parsed'))"


section \<open>The poll\<close>

record poll_stats =
  ps_fetched :: nat
  ps_signed :: nat
  ps_skipped :: nat
  ps_failed :: nat

record poll_state = poll_stats +
  ps_timeouts :: "(string, nat) omap"

definition SIGN_TIMEOUT :: "string \<Rightarrow> bool" where
  "SIGN_TIMEOUT m \<longleftrightarrow>
     (let p = ''sign did not complete within ''; r = drop (length p) m; d = take (length r - 2) r in
      startsWith m p \<and> endsWith r ''ms'' \<and> d \<noteq> [] \<and> list_all is_digit d)"

definition SIGN_TIMEOUTS_BEFORE_GIVING_UP :: nat where
  "SIGN_TIMEOUTS_BEFORE_GIVING_UP = 2"

definition is_sign_timeout :: "raised \<Rightarrow> bool" where
  "is_sign_timeout e \<longleftrightarrow> (case e of RaisedGuardian (UpstreamUnavailableError m _ _) \<Rightarrow> SIGN_TIMEOUT m | _ \<Rightarrow> False)"

definition timeout_hits :: "poll_state \<Rightarrow> string \<Rightarrow> nat" where
  "timeout_hits st i = (case map_of (ps_timeouts st) i of None \<Rightarrow> 0 | Some n \<Rightarrow> n)"

definition record_outcome :: "string \<Rightarrow> raised + disposal \<Rightarrow> poll_state \<Rightarrow> poll_state" where
  "record_outcome i r st =
     (case r of
        Inr Skipped \<Rightarrow> st\<lparr>ps_skipped := ps_skipped st + 1\<rparr>
      | Inr Submitted \<Rightarrow> st\<lparr>ps_signed := ps_signed st + 1\<rparr>
      | Inl e \<Rightarrow> st\<lparr>ps_failed := ps_failed st + 1,
          ps_timeouts := (if is_sign_timeout e then omap_set i (timeout_hits st i + 1) (ps_timeouts st) else ps_timeouts st)\<rparr>)"

definition process_item :: "('w, 'k) coordinator_options \<Rightarrow> json \<Rightarrow> poll_state \<Rightarrow> ('w, poll_state) state" where
  "process_item opts item st =
     (case zSigningRequest item of
        None \<Rightarrow> ret (st\<lparr>ps_failed := ps_failed st + 1\<rparr>)
      | Some request \<Rightarrow>
          if sr_mySubmission request \<noteq> JNull \<or> timeout_hits st (sr_id request) \<ge> SIGN_TIMEOUTS_BEFORE_GIVING_UP
          then ret (st\<lparr>ps_skipped := ps_skipped st + 1\<rparr>)
          else do { r \<leftarrow> sign_request opts request; ret (record_outcome (sr_id request) r st) })"

fun process_items :: "('w, 'k) coordinator_options \<Rightarrow> json list \<Rightarrow> poll_state \<Rightarrow> ('w, poll_state) state" where
  "process_items opts [] st = ret st"
| "process_items opts (item # items) st = do { st' \<leftarrow> process_item opts item st; process_items opts items st' }"

definition last_page :: "nat \<Rightarrow> request_page \<Rightarrow> bool" where
  "last_page page pg \<longleftrightarrow> pg_items pg = [] \<or>
     (case (pg_pageSize pg, pg_total pg) of (JFin s, JFin t) \<Rightarrow> of_nat page * s \<ge> t | _ \<Rightarrow> False)"

definition get_page :: "('w, 'k) coordinator_options \<Rightarrow> poll_filter \<Rightarrow> nat \<Rightarrow> ('w, raised + request_page) state" where
  "get_page opts flt page =
     bindE (api_request opts (list_call opts flt page)) (\<lambda>j. ret (zod_parse zSigningRequestPage j))"

text \<open>The page loop has no bound of its own: \<open>PollRunning\<close> is a loop that outlived its fuel.\<close>

datatype poll_outcome = PollDone | PollThrew raised | PollRunning

fun poll_pages :: "nat \<Rightarrow> ('w, 'k) coordinator_options \<Rightarrow> poll_filter \<Rightarrow> nat \<Rightarrow> poll_state \<Rightarrow> ('w, poll_state \<times> poll_outcome) state" where
  "poll_pages 0 opts flt page st = ret (st, PollRunning)"
| "poll_pages (Suc fuel) opts flt page st = do {
     r \<leftarrow> get_page opts flt page;
     case r of
       Inl e \<Rightarrow> ret (st, PollThrew e)
     | Inr pg \<Rightarrow> do {
         st' \<leftarrow> process_items opts (pg_items pg) (st\<lparr>ps_fetched := ps_fetched st + length (pg_items pg)\<rparr>);
         if last_page page pg then ret (st', PollDone) else poll_pages fuel opts flt (page + 1) st'
       }
   }"

definition pollFilters :: "connection_config \<Rightarrow> poll_filter list" where
  "pollFilters cfg =
     (let chainIds = (case cc_chainIds cfg of None \<Rightarrow> [None] | Some ids \<Rightarrow> if ids = [] then [None] else map Some ids);
          facilities = (case cc_facilities cfg of None \<Rightarrow> [None] | Some fs \<Rightarrow> if fs = [] then [None] else map Some fs)
      in concat (map (\<lambda>c. map (\<lambda>f. (c, f)) facilities) chainIds))"

fun poll_filters :: "nat \<Rightarrow> ('w, 'k) coordinator_options \<Rightarrow> poll_filter list \<Rightarrow> poll_state \<Rightarrow> ('w, poll_state \<times> poll_outcome) state" where
  "poll_filters fuel opts [] st = ret (st, PollDone)"
| "poll_filters fuel opts (flt # flts) st = do {
     (st', out) \<leftarrow> poll_pages fuel opts flt 1 st;
     case out of PollDone \<Rightarrow> poll_filters fuel opts flts st' | _ \<Rightarrow> ret (st', out)
   }"

definition runGuardianCoordinatorOnce ::
    "nat \<Rightarrow> ('w, 'k) coordinator_options \<Rightarrow> poll_state \<Rightarrow> ('w, poll_state \<times> poll_outcome) state" where
  "runGuardianCoordinatorOnce fuel opts st = poll_filters fuel opts (pollFilters (co_config opts)) st"

definition initial_state :: "(string, nat) omap \<Rightarrow> poll_state" where
  "initial_state timeouts = \<lparr>ps_fetched = 0, ps_signed = 0, ps_skipped = 0, ps_failed = 0, ps_timeouts = timeouts\<rparr>"

definition heartbeat :: "bool \<Rightarrow> poll_state \<Rightarrow> int \<Rightarrow> json" where
  "heartbeat ok st durationMs =
     (let n = (\<lambda>k. JNum (num_of_int (int k))) in
      JObj [(''level'', JStr ''info''), (''event'', JStr ''guardian.heartbeat''), (''ok'', JBool ok),
        (''fetched'', n (ps_fetched st)), (''signed'', n (ps_signed st)), (''skipped'', n (ps_skipped st)),
        (''failed'', n (ps_failed st)), (''durationMs'', JNum (num_of_int durationMs))])"

text \<open>A cycle: fresh statistics, the give-up map of the process; no heartbeat if the poll never ends.\<close>

definition runGuardianCoordinatorCycle ::
    "nat \<Rightarrow> ('w, 'k) coordinator_options \<Rightarrow> (string, nat) omap \<Rightarrow> ('w, poll_state \<times> json option) state" where
  "runGuardianCoordinatorCycle fuel opts timeouts = do {
     startedAt \<leftarrow> ah_now (sh_auth (cg_host (co_guardian opts)));
     (st, out) \<leftarrow> runGuardianCoordinatorOnce fuel opts (initial_state timeouts);
     now \<leftarrow> ah_now (sh_auth (cg_host (co_guardian opts)));
     ret (st, case out of
         PollRunning \<Rightarrow> None
       | PollDone \<Rightarrow> Some (heartbeat True st (now - startedAt))
       | PollThrew e \<Rightarrow> Some (heartbeat False st (now - startedAt)))
   }"

text \<open>The process, for its first \<open>n\<close> cycles.\<close>

fun runGuardianCoordinator ::
    "nat \<Rightarrow> nat \<Rightarrow> ('w, 'k) coordinator_options \<Rightarrow> (string, nat) omap \<Rightarrow> ('w, (poll_state \<times> json option) list) state" where
  "runGuardianCoordinator fuel 0 opts timeouts = ret []"
| "runGuardianCoordinator fuel (Suc n) opts timeouts = do {
     (st, line) \<leftarrow> runGuardianCoordinatorCycle fuel opts timeouts;
     co_sleep opts (cc_pollIntervalMs (co_config opts));
     rest \<leftarrow> runGuardianCoordinator fuel n opts (ps_timeouts st);
     ret ((st, line) # rest)
   }"


section \<open>What a poll does to its counters\<close>

definition handled :: "poll_state \<Rightarrow> nat" where
  "handled st = ps_signed st + ps_skipped st + ps_failed st"

definition balanced :: "poll_state \<Rightarrow> bool" where
  "balanced st \<longleftrightarrow> ps_fetched st = handled st"

text \<open>\<open>n\<close> items later: each counted once, no timeout forgotten, none counted past the limit.\<close>

definition evolves :: "nat \<Rightarrow> poll_state \<Rightarrow> poll_state \<Rightarrow> bool" where
  "evolves n st st' \<longleftrightarrow> handled st' = handled st + n \<and> ps_fetched st' = ps_fetched st \<and>
     (\<forall>i. timeout_hits st i \<le> timeout_hits st' i \<and>
       (timeout_hits st i \<le> SIGN_TIMEOUTS_BEFORE_GIVING_UP \<longrightarrow> timeout_hits st' i \<le> SIGN_TIMEOUTS_BEFORE_GIVING_UP))"

lemma evolves_trans: "evolves m st st' \<Longrightarrow> evolves n st' st'' \<Longrightarrow> evolves (m + n) st st''"
  by (auto simp: evolves_def intro: order_trans)

lemma evolves_refl [simp]: "evolves 0 st st"
  by (simp add: evolves_def)

lemma timeout_hits_simps [simp]:
  "timeout_hits (st\<lparr>ps_skipped := k\<rparr>) i = timeout_hits st i" "timeout_hits (st\<lparr>ps_failed := k\<rparr>) i = timeout_hits st i"
  "timeout_hits (st\<lparr>ps_signed := k\<rparr>) i = timeout_hits st i" "timeout_hits (st\<lparr>ps_fetched := k\<rparr>) i = timeout_hits st i"
  by (simp_all add: timeout_hits_def)

lemma record_outcome_evolves:
  "timeout_hits st i < SIGN_TIMEOUTS_BEFORE_GIVING_UP \<Longrightarrow> evolves 1 st (record_outcome i r st)"
  by (auto simp: evolves_def record_outcome_def handled_def timeout_hits_def split: sum.splits disposal.splits option.splits)

lemma process_item_evolves: "pred_state (evolves 1 st) (process_item opts item st)"
proof -
  have "evolves 1 st (st\<lparr>ps_failed := ps_failed st + 1\<rparr>)" "evolves 1 st (st\<lparr>ps_skipped := ps_skipped st + 1\<rparr>)"
    by (simp_all add: evolves_def handled_def)
  then show ?thesis
    by (auto simp: process_item_def not_le intro!: pred_state_bind_any record_outcome_evolves [unfolded One_nat_def]
        split: option.splits)
qed

lemma process_items_evolves: "pred_state (evolves (length items) st) (process_items opts items st)"
proof (induction items arbitrary: st)
  case (Cons item items)
  show ?case
    unfolding process_items.simps
  proof (rule pred_state_bindI [OF process_item_evolves])
    fix st' assume s: "evolves 1 st st'"
    show "pred_state (evolves (length (item # items)) st) (process_items opts items st')"
      by (rule pred_state_mono [OF Cons.IH]) (use evolves_trans [OF s] in simp)
  qed
qed simp

definition poll_grows :: "poll_state \<Rightarrow> poll_state \<Rightarrow> bool" where
  "poll_grows st st' \<longleftrightarrow> (balanced st \<longrightarrow> balanced st') \<and>
     (\<forall>i. timeout_hits st i \<le> timeout_hits st' i \<and>
       (timeout_hits st i \<le> SIGN_TIMEOUTS_BEFORE_GIVING_UP \<longrightarrow> timeout_hits st' i \<le> SIGN_TIMEOUTS_BEFORE_GIVING_UP))"

lemma poll_grows_trans: "poll_grows st st' \<Longrightarrow> poll_grows st' st'' \<Longrightarrow> poll_grows st st''"
  by (auto simp: poll_grows_def intro: order_trans)

lemma poll_grows_refl [simp]: "poll_grows st st"
  by (simp add: poll_grows_def)

lemma page_grows: "evolves n (st\<lparr>ps_fetched := ps_fetched st + n\<rparr>) st' \<Longrightarrow> poll_grows st st'"
  by (auto simp: evolves_def poll_grows_def balanced_def handled_def)

lemma grows_after:
  "poll_grows st st' \<Longrightarrow> pred_state (\<lambda>(s, out). poll_grows st' s) m \<Longrightarrow> pred_state (\<lambda>(s, out). poll_grows st s) m"
  by (erule pred_state_mono) (auto intro: poll_grows_trans)

lemma poll_pages_grows: "pred_state (\<lambda>(st', out). poll_grows st st') (poll_pages fuel opts flt page st)"
proof (induction fuel arbitrary: page st)
  case (Suc fuel)
  have "pred_state (\<lambda>(st'', out). poll_grows st st'') (do {
      st' \<leftarrow> process_items opts (pg_items pg) (st\<lparr>ps_fetched := ps_fetched st + length (pg_items pg)\<rparr>);
      if last_page page pg then ret (st', PollDone) else poll_pages fuel opts flt (page + 1) st' })" for pg
  proof (rule pred_state_bindI [OF process_items_evolves])
    fix st' assume "evolves (length (pg_items pg)) (st\<lparr>ps_fetched := ps_fetched st + length (pg_items pg)\<rparr>) st'"
    then have g: "poll_grows st st'" by (rule page_grows)
    then show "pred_state (\<lambda>(st'', out). poll_grows st st'')
        (if last_page page pg then ret (st', PollDone) else poll_pages fuel opts flt (page + 1) st')"
      using grows_after [OF g Suc.IH [of st' "page + 1"]] by simp
  qed
  then show ?case
    unfolding poll_pages.simps by (intro pred_state_bind_any) (auto split: sum.splits)
qed simp

lemma poll_filters_grows: "pred_state (\<lambda>(st', out). poll_grows st st') (poll_filters fuel opts flts st)"
proof (induction flts arbitrary: st)
  case (Cons flt flts)
  show ?case
    unfolding poll_filters.simps
    by (rule pred_state_bindI [OF poll_pages_grows])
      (auto split: poll_outcome.splits intro: grows_after [OF _ Cons.IH])
qed simp

text \<open>One cycle, from the give-up map \<open>timeouts\<close>.\<close>

definition cycle_ok :: "(string, nat) omap \<Rightarrow> poll_state \<times> json option \<Rightarrow> bool" where
  "cycle_ok timeouts r \<longleftrightarrow>
     (case r of (st, line) \<Rightarrow> poll_grows (initial_state timeouts) st \<and>
        (case line of None \<Rightarrow> True | Some j \<Rightarrow> \<exists>ok d. j = heartbeat ok st d))"

lemma cycle_grows: "pred_state (cycle_ok timeouts) (runGuardianCoordinatorCycle fuel opts timeouts)"
proof -
  have "pred_state (cycle_ok timeouts)
      (do { (st, out) \<leftarrow> poll_filters fuel opts (pollFilters (co_config opts)) (initial_state timeouts);
            now \<leftarrow> ah_now (sh_auth (cg_host (co_guardian opts)));
            ret (st, case out of PollRunning \<Rightarrow> None | PollDone \<Rightarrow> Some (heartbeat True st (now - t))
              | PollThrew e \<Rightarrow> Some (heartbeat False st (now - t))) })" for t
    by (rule pred_state_bindI [OF poll_filters_grows], clarify, rule pred_state_bind_any)
      (auto simp: cycle_ok_def split: poll_outcome.splits)
  then show ?thesis
    unfolding runGuardianCoordinatorCycle_def runGuardianCoordinatorOnce_def by (rule pred_state_bind_any)
qed

fun process_ok :: "(string, nat) omap \<Rightarrow> (poll_state \<times> json option) list \<Rightarrow> bool" where
  "process_ok timeouts [] \<longleftrightarrow> True"
| "process_ok timeouts (r # rs) \<longleftrightarrow> cycle_ok timeouts r \<and> process_ok (ps_timeouts (fst r)) rs"

lemma process_grows: "pred_state (process_ok timeouts) (runGuardianCoordinator fuel n opts timeouts)"
proof (induction n arbitrary: timeouts)
  case (Suc n)
  show ?case
    unfolding runGuardianCoordinator.simps
  proof (rule pred_state_bindI [OF cycle_grows], clarify, rule pred_state_bind_any)
    fix st line assume c: "cycle_ok timeouts (st, line)"
    show "pred_state (process_ok timeouts)
        (do { rest \<leftarrow> runGuardianCoordinator fuel n opts (ps_timeouts st); ret ((st, line) # rest) })"
      by (rule pred_state_bindI [OF Suc.IH]) (simp add: c)
  qed
qed simp


lemma process_ok_all:
  "process_ok timeouts rs \<Longrightarrow>
   (\<forall>i. timeout_hits (initial_state timeouts) i \<le> SIGN_TIMEOUTS_BEFORE_GIVING_UP) \<Longrightarrow>
   r \<in> set rs \<Longrightarrow> balanced (fst r) \<and>
     (\<forall>i. timeout_hits (initial_state timeouts) i \<le> timeout_hits (fst r) i \<and> timeout_hits (fst r) i \<le> SIGN_TIMEOUTS_BEFORE_GIVING_UP) \<and>
     (\<forall>j. snd r = Some j \<longrightarrow> (\<exists>ok d. j = heartbeat ok (fst r) d))"
proof (induction rs arbitrary: timeouts)
  case (Cons x rs)
  have b: "balanced (initial_state timeouts)" by (simp add: balanced_def handled_def initial_state_def)
  have hits: "timeout_hits (initial_state (ps_timeouts (fst x))) = timeout_hits (fst x)"
    by (simp add: timeout_hits_def initial_state_def fun_eq_iff)
  have x: "poll_grows (initial_state timeouts) (fst x)" "\<forall>j. snd x = Some j \<longrightarrow> (\<exists>ok d. j = heartbeat ok (fst x) d)"
    using Cons.prems(1) by (auto simp: cycle_ok_def split: prod.splits)
  show ?case
  proof (cases "r = x")
    case True
    with x b Cons.prems(2) show ?thesis by (auto simp: poll_grows_def)
  next
    case False
    with Cons.prems x b have "process_ok (ps_timeouts (fst x)) rs" "r \<in> set rs"
      "\<forall>i. timeout_hits (initial_state (ps_timeouts (fst x))) i \<le> SIGN_TIMEOUTS_BEFORE_GIVING_UP"
      by (auto simp: hits poll_grows_def)
    from Cons.IH [OF this(1,3,2)] x show ?thesis by (auto simp: hits poll_grows_def intro: order_trans)
  qed
qed simp

lemma process_ok_sorted:
  "process_ok timeouts rs \<Longrightarrow>
   sorted (timeout_hits (initial_state timeouts) i # map (\<lambda>r. timeout_hits (fst r) i) rs)"
proof (induction rs arbitrary: timeouts)
  case (Cons r rs)
  have "timeout_hits (initial_state (ps_timeouts (fst r))) i = timeout_hits (fst r) i"
    by (simp add: timeout_hits_def initial_state_def)
  with Cons.IH [of "ps_timeouts (fst r)"] Cons.prems
  have "sorted (timeout_hits (fst r) i # map (\<lambda>r. timeout_hits (fst r) i) rs)"
    and "timeout_hits (initial_state timeouts) i \<le> timeout_hits (fst r) i"
    by (auto simp: cycle_ok_def poll_grows_def split: prod.splits)
  then show ?case by auto
qed simp

text \<open>
  C13. The books of the process. In every cycle, also one that a failed call cuts short, each
  fetched request is counted exactly once, as signed, skipped or failed, and the heartbeat
  reports these very numbers; the sign-deadline hits of every request never fall from one cycle
  to the next, so nothing the process does forgets them, and never pass the limit of two.
\<close>

theorem coordinator_books:
  "pred_state (\<lambda>cycles.
      list_all (\<lambda>(st, line).
        ps_fetched st = ps_signed st + ps_skipped st + ps_failed st \<and> (\<forall>i. timeout_hits st i \<le> 2) \<and>
        (case line of None \<Rightarrow> True | Some j \<Rightarrow> \<exists>ok d. j = heartbeat ok st d)) cycles \<and>
      (\<forall>i. sorted (map (\<lambda>cycle. timeout_hits (fst cycle) i) cycles)))
    (runGuardianCoordinator fuel n opts [])"
proof (rule pred_state_mono [OF process_grows], intro conjI allI)
  fix rs assume ok: "process_ok [] rs"
  have zero: "\<forall>i. timeout_hits (initial_state []) i \<le> SIGN_TIMEOUTS_BEFORE_GIVING_UP"
    by (simp add: timeout_hits_def initial_state_def)
  show "list_all (\<lambda>(st, line). ps_fetched st = ps_signed st + ps_skipped st + ps_failed st \<and> (\<forall>i. timeout_hits st i \<le> 2) \<and>
      (case line of None \<Rightarrow> True | Some j \<Rightarrow> \<exists>ok d. j = heartbeat ok st d)) rs"
    unfolding list_all_iff
    using process_ok_all [OF ok zero]
    by (fastforce simp: balanced_def handled_def SIGN_TIMEOUTS_BEFORE_GIVING_UP_def split: option.split)
  show "sorted (map (\<lambda>cycle. timeout_hits (fst cycle) i) rs)" for i
    using process_ok_sorted [OF ok, of i] by simp
qed




end
