(* ===== verification/Coordinator_Calls.thy ===== *)
theory Coordinator_Calls
  imports Coordinator
begin

text \<open>
  What a poll does to the world: the page loop ends against a server whose answers are
  consistent, and what the coordinator puts on the wire.
\<close>

section \<open>The page loop ends\<close>

text \<open>A page of a list of at most \<open>T\<close> requests: it is empty, or says so and has a positive page size.\<close>

definition page_bounded :: "nat \<Rightarrow> request_page \<Rightarrow> bool" where
  "page_bounded T pg \<longleftrightarrow> pg_items pg = [] \<or>
     (case (pg_pageSize pg, pg_total pg) of (JFin s, JFin t) \<Rightarrow> 1 \<le> s \<and> t \<le> of_nat T | _ \<Rightarrow> False)"

definition bounded_server :: "nat \<Rightarrow> ('w, 'k) coordinator_options \<Rightarrow> bool" where
  "bounded_server T opts \<longleftrightarrow>
     (\<forall>call. pred_state (\<lambda>r. \<forall>j pg. response_json (co_parseJson opts) call r = Inr j \<and> zSigningRequestPage j = Some pg \<longrightarrow>
        page_bounded T pg) (co_fetcher opts call))"

lemma last_page_bounded: "page_bounded T pg \<Longrightarrow> T \<le> page \<Longrightarrow> last_page page pg"
proof (cases "pg_items pg = []")
  case False
  assume "page_bounded T pg" "T \<le> page"
  with False obtain s t where p: "pg_pageSize pg = JFin s" "pg_total pg = JFin t" "1 \<le> s" "t \<le> of_nat T"
    by (auto simp: page_bounded_def split: jsnum.splits)
  have "t \<le> of_nat page" using p(4) \<open>T \<le> page\<close> by (meson of_nat_le_iff order_trans)
  also have "\<dots> \<le> of_nat page * s" using p(3) by (simp add: mult_le_cancel_left1)
  finally show ?thesis using p by (simp add: last_page_def)
qed (simp add: last_page_def)

lemma request_bounded:
  assumes "bounded_server T opts"
  shows "pred_state (case_sum (\<lambda>_. True) (\<lambda>j. \<forall>pg. zSigningRequestPage j = Some pg \<longrightarrow> page_bounded T pg)) (api_request opts call)"
proof (cases "api_root opts")
  case (Inr base)
  have "pred_state (\<lambda>r. \<forall>j pg. response_json (co_parseJson opts) (call base) r = Inr j \<and> zSigningRequestPage j = Some pg \<longrightarrow>
      page_bounded T pg) (co_fetcher opts (call base))"
    using assms by (simp add: bounded_server_def)
  then show ?thesis
    unfolding api_request_def requestJson_def Inr sum.case
    by (rule pred_state_bindI) (auto split: sum.splits)
qed (simp add: api_request_def)

lemma get_page_bounded:
  "bounded_server T opts \<Longrightarrow> pred_state (case_sum (\<lambda>_. True) (page_bounded T)) (get_page opts flt page)"
  unfolding get_page_def
  by (rule pred_state_bindE_sum [OF request_bounded]) (auto simp: zod_parse_def split: option.splits)

lemma poll_pages_done:
  "bounded_server T opts \<Longrightarrow> T < page + fuel \<Longrightarrow> 0 < fuel \<Longrightarrow>
   pred_state (\<lambda>(st', out). out \<noteq> PollRunning) (poll_pages fuel opts flt page st)"
proof (induction fuel arbitrary: page st)
  case (Suc fuel)
  show ?case
    unfolding poll_pages.simps
  proof (rule pred_state_bindI [OF get_page_bounded [OF Suc.prems(1)]])
    fix r :: "raised + request_page"
    assume r: "case_sum (\<lambda>_. True) (page_bounded T) r"
    have "pred_state (\<lambda>(st', out). out \<noteq> PollRunning)
        (if last_page page pg then ret (st', PollDone) else poll_pages fuel opts flt (page + 1) st')"
      if "r = Inr pg" for pg st'
    proof (cases "last_page page pg")
      case False
      with r that have "page < T" using last_page_bounded [of T pg page] by force
      with Suc.prems False show ?thesis by (auto intro: Suc.IH)
    qed simp
    then show "pred_state (\<lambda>(st', out). out \<noteq> PollRunning) (case r of
        Inl e \<Rightarrow> ret (st, PollThrew e)
      | Inr pg \<Rightarrow> do {
          st' \<leftarrow> process_items opts (pg_items pg) (st\<lparr>ps_fetched := ps_fetched st + length (pg_items pg)\<rparr>);
          if last_page page pg then ret (st', PollDone) else poll_pages fuel opts flt (page + 1) st' })"
      by (auto split: sum.splits intro!: pred_state_bind_any)
  qed
qed simp

lemma poll_filters_done:
  assumes "bounded_server T opts" and "T < fuel"
  shows "pred_state (\<lambda>(st', out). out \<noteq> PollRunning) (poll_filters fuel opts flts st)"
proof (induction flts arbitrary: st)
  case (Cons flt flts)
  show ?case
    unfolding poll_filters.simps
    by (rule pred_state_bindI [OF poll_pages_done [OF assms(1)]])
      (use assms(2) Cons.IH in \<open>auto split: poll_outcome.splits\<close>)
qed simp

text \<open>More fuel changes nothing once the loop has ended.\<close>

lemma poll_pages_more:
  "run_state (poll_pages fuel opts flt page st) w = ((st', out), w') \<Longrightarrow> out \<noteq> PollRunning \<Longrightarrow> fuel \<le> fuel' \<Longrightarrow>
   run_state (poll_pages fuel' opts flt page st) w = ((st', out), w')"
proof (induction fuel arbitrary: page st w fuel')
  case (Suc fuel)
  then obtain f where f: "fuel' = Suc f" "fuel \<le> f" by (cases fuel') auto
  show ?case
    using Suc.prems(1,2) Suc.IH [OF _ Suc.prems(2) f(2)]
    by (auto simp: f(1) split: prod.splits sum.splits if_splits)
qed simp

lemma poll_filters_more:
  "run_state (poll_filters fuel opts flts st) w = ((st', out), w') \<Longrightarrow> out \<noteq> PollRunning \<Longrightarrow> fuel \<le> fuel' \<Longrightarrow>
   run_state (poll_filters fuel' opts flts st) w = ((st', out), w')"
proof (induction flts arbitrary: st w)
  case (Cons flt flts)
  obtain s1 o1 w1 where p: "run_state (poll_pages fuel opts flt 1 st) w = ((s1, o1), w1)"
    by (metis surj_pair)
  with Cons.prems(1,2) have ne: "o1 \<noteq> PollRunning" by (auto split: poll_outcome.splits)
  from poll_pages_more [OF p ne Cons.prems(3)] p Cons.prems Cons.IH [of s1 w1] show ?case
    by (auto split: poll_outcome.splits)
qed simp

text \<open>
  C16. A poll ends. Against a server whose pages are of a list of at most \<open>T\<close> open requests (each
  page is empty, or has a page size of at least one and a total of at most \<open>T\<close>), the page loop
  of every filter stops, whatever the server answers otherwise and whatever the requests hold:
  \<open>T + 1\<close> rounds are enough, and more fuel does not change the poll. The loop itself has no bound:
  this is what it needs of the server.
\<close>

theorem poll_terminates:
  assumes "bounded_server T opts" and "T < fuel"
  shows "snd (result_of (runGuardianCoordinatorOnce fuel opts st) w) \<noteq> PollRunning \<and>
    run_state (runGuardianCoordinatorOnce fuel opts st) w = run_state (runGuardianCoordinatorOnce (Suc T) opts st) w"
proof -
  obtain st' out w' where r: "run_state (runGuardianCoordinatorOnce (Suc T) opts st) w = ((st', out), w')"
    by (metis surj_pair)
  have "out \<noteq> PollRunning"
    using pred_stateD' [OF poll_filters_done [OF assms(1), of "Suc T" "pollFilters (co_config opts)" st], of w] r
    by (auto simp: runGuardianCoordinatorOnce_def)
  moreover from poll_filters_more [OF r [unfolded runGuardianCoordinatorOnce_def] this, of fuel] assms(2)
  have "run_state (runGuardianCoordinatorOnce fuel opts st) w = ((st', out), w')"
    by (simp add: runGuardianCoordinatorOnce_def)
  ultimately show ?thesis by (simp add: r result_of_def)
qed


section \<open>What is put on the wire\<close>

text \<open>
  The exchanges with the API so far, each call with what the \<open>fetch\<close> gave for it. \<open>listed\<close>: the
  request is an item of a page the coordinator received in one of them.
\<close>

type_synonym exchange = "api_call \<times> (raised + api_response)"

definition listing :: "('w, 'k) coordinator_options \<Rightarrow> api_call \<Rightarrow> bool" where
  "listing opts call \<longleftrightarrow> (\<exists>flt \<in> set (pollFilters (co_config opts)). \<exists>page base. call = list_call opts flt page base)"

definition listed_item :: "('w, 'k) coordinator_options \<Rightarrow> exchange list \<Rightarrow> json \<Rightarrow> bool" where
  "listed_item opts before item \<longleftrightarrow>
     (\<exists>call answer j pg. (call, answer) \<in> set before \<and> listing opts call \<and>
        response_json (co_parseJson opts) call answer = Inr j \<and> zSigningRequestPage j = Some pg \<and> item \<in> set (pg_items pg))"

definition listed :: "('w, 'k) coordinator_options \<Rightarrow> exchange list \<Rightarrow> signing_request \<Rightarrow> bool" where
  "listed opts before request \<longleftrightarrow> (\<exists>item. listed_item opts before item \<and> zSigningRequest item = Some request)"

text \<open>The requests the coordinator goes on with.\<close>

definition admissible :: "('w, 'k) coordinator_options \<Rightarrow> signing_request \<Rightarrow> parsed_signing_body \<Rightarrow> bool" where
  "admissible opts request parsed \<longleftrightarrow>
     parseSigningBody request = Some parsed \<and> sr_mySubmission request = JNull \<and>
     sr_chainId request = num_of_int (parsed_chainId parsed) \<and>
     toLowerCase (sr_facility request) = toLowerCase (snd (requestTarget parsed)) \<and>
     \<not> filtered_out (co_config opts) parsed"

text \<open>
  \<open>sent\<close> reads the exchanges off the world. \<open>offered_nonces\<close> and \<open>vouched\<close>: the search for nonces and
  the in-process signing, run when the exchanges were exactly \<open>past\<close>.
\<close>

definition offered_nonces ::
    "('w \<Rightarrow> exchange list) \<Rightarrow> ('w, 'k) coordinator_options \<Rightarrow> exchange list \<Rightarrow> request_whitelisting_body \<Rightarrow> string list \<Rightarrow> bool" where
  "offered_nonces sent opts past b candidates \<longleftrightarrow>
     (\<exists>f w w'. cg_whitelistNonceCandidates (co_guardian opts) = Some f \<and> sent w = past \<and> run_state (f b) w = (Inr candidates, w'))"

definition nonce_call :: "('w, 'k) coordinator_options \<Rightarrow> signing_request \<Rightarrow> string list \<Rightarrow> string \<Rightarrow> api_call" where
  "nonce_call opts request candidates base =
     put_call opts (sr_id request) ''nonce'' (JObj [(''candidates'', JArr (map JStr candidates))]) base"

text \<open>The server reserved nonce \<open>n\<close> with digest \<open>h\<close>, among the nonces offered to it in an earlier call.\<close>

definition reserved ::
    "('w \<Rightarrow> exchange list) \<Rightarrow> ('w, 'k) coordinator_options \<Rightarrow> exchange list \<Rightarrow> exchange list \<Rightarrow> signing_request \<Rightarrow>
     request_whitelisting_body \<Rightarrow> string \<Rightarrow> string \<Rightarrow> bool" where
  "reserved sent opts L before request b n h \<longleftrightarrow>
     (\<exists>earlier candidates base answer later j.
        before = earlier @ (nonce_call opts request candidates base, answer) # later \<and>
        offered_nonces sent opts (L @ earlier) b candidates \<and> n \<in> set candidates \<and>
        response_json (co_parseJson opts) (nonce_call opts request candidates base) answer = Inr j \<and> zReservation j = Some (n, h))"

definition settled ::
    "('w \<Rightarrow> exchange list) \<Rightarrow> ('w, 'k) coordinator_options \<Rightarrow> exchange list \<Rightarrow> exchange list \<Rightarrow>
     signing_request \<Rightarrow> parsed_signing_body \<Rightarrow> signing_request \<Rightarrow> parsed_signing_body \<Rightarrow> bool" where
  "settled sent opts L before request parsed request' parsed' \<longleftrightarrow>
     (if independent_nonce request parsed
      then \<exists>b n h. parsed = ParsedWhitelisting b \<and> reserved sent opts L before request b n h \<and>
        request' = request\<lparr>sr_payloadHash := h\<rparr> \<and> parsed' = ParsedWhitelisting (b\<lparr>wl_nonce := n\<rparr>)
      else request' = request \<and> parsed' = parsed)"

text \<open>The success the in-process guardian gave for this body, matching what the coordinator expects.\<close>

definition vouched ::
    "('w \<Rightarrow> exchange list) \<Rightarrow> ('w, 'k) coordinator_guardian \<Rightarrow> exchange list \<Rightarrow> signing_request \<Rightarrow> parsed_signing_body \<Rightarrow> signing_success \<Rightarrow> bool" where
  "vouched sent g past request parsed success \<longleftrightarrow>
     (\<exists>requestId w w'. sent w = past \<and> run_state (sign_parsed g requestId parsed) w = (Inr success, w')) \<and>
     toLowerCase (ss_payloadHash success) = toLowerCase (sr_payloadHash request) \<and>
     toLowerCase (ss_guardian success) = toLowerCase (sh_guardianSigner (cg_host g))"

definition submission_justified ::
    "('w \<Rightarrow> exchange list) \<Rightarrow> ('w, 'k) coordinator_options \<Rightarrow> exchange list \<Rightarrow> exchange list \<Rightarrow> api_call \<Rightarrow> bool" where
  "submission_justified sent opts L before call \<longleftrightarrow>
     (\<exists>request parsed request' parsed' success base.
        listed opts before request \<and> admissible opts request parsed \<and>
        settled sent opts L before request parsed request' parsed' \<and>
        vouched sent (co_guardian opts) (L @ before) request' parsed' success \<and>
        call = put_call opts (sr_id request) ''submission''
          (submission_body (independent_nonce request parsed) parsed' success) base)"

definition reservation_justified ::
    "('w \<Rightarrow> exchange list) \<Rightarrow> ('w, 'k) coordinator_options \<Rightarrow> exchange list \<Rightarrow> exchange list \<Rightarrow> api_call \<Rightarrow> bool" where
  "reservation_justified sent opts L before call \<longleftrightarrow>
     (\<exists>request b candidates base.
        listed opts before request \<and> admissible opts request (ParsedWhitelisting b) \<and>
        independent_nonce request (ParsedWhitelisting b) \<and>
        offered_nonces sent opts (L @ before) b candidates \<and> candidates \<noteq> [] \<and>
        call = nonce_call opts request candidates base)"

definition allowed_call ::
    "('w \<Rightarrow> exchange list) \<Rightarrow> ('w, 'k) coordinator_options \<Rightarrow> exchange list \<Rightarrow> exchange list \<Rightarrow> api_call \<Rightarrow> bool" where
  "allowed_call sent opts L before call \<longleftrightarrow>
     listing opts call \<or> reservation_justified sent opts L before call \<or> submission_justified sent opts L before call"

text \<open>Every call of \<open>new\<close> was allowed after what came before it.\<close>

definition in_order :: "(exchange list \<Rightarrow> api_call \<Rightarrow> bool) \<Rightarrow> exchange list \<Rightarrow> bool" where
  "in_order ok new \<longleftrightarrow> (\<forall>before call answer after. new = before @ (call, answer) # after \<longrightarrow> ok before call)"

lemma in_order_Nil [simp]: "in_order ok []"
  by (simp add: in_order_def)

lemma in_order_snoc: "in_order ok new \<Longrightarrow> ok new (fst x) \<Longrightarrow> in_order ok (new @ [x])"
proof (cases x)
  case (Pair c a)
  assume new: "in_order ok new" "ok new (fst x)"
  show "in_order ok (new @ [x])"
    unfolding in_order_def
  proof (intro allI impI)
    fix before call answer after assume e: "new @ [x] = before @ (call, answer) # after"
    show "ok before call"
    proof (cases after rule: rev_cases)
      case Nil
      with e new Pair show ?thesis by simp
    next
      case (snoc after' y)
      with e have "new = before @ (call, answer) # after'" by simp
      with new show ?thesis unfolding in_order_def by blast
    qed
  qed
qed

text \<open>
  The fetcher appends its call and its answer to the exchanges, nothing else the coordinator uses
  touches them.
\<close>

definition records_calls :: "('w \<Rightarrow> exchange list) \<Rightarrow> ('w, 'k) coordinator_options \<Rightarrow> bool" where
  "records_calls sent opts \<longleftrightarrow>
     (let g = co_guardian opts; host = cg_host g in \<forall>L.
        (\<forall>call. hoare (\<lambda>w. sent w = L) (co_fetcher opts call) (\<lambda>r w. sent w = L @ [(call, r)])) \<and>
        keeps (\<lambda>w. sent w = L) (sh_randomUUID host) \<and>
        (case sh_probeUpstream host of None \<Rightarrow> True | Some probe \<Rightarrow> keeps (\<lambda>w. sent w = L) probe) \<and>
        (\<forall>c. keeps (\<lambda>w. sent w = L) (sh_getChainClient host c)) \<and>
        keeps (\<lambda>w. sent w = L) (ah_now (sh_auth host)) \<and> (\<forall>ms. keeps (\<lambda>w. sent w = L) (ah_expires (sh_auth host) ms)) \<and>
        (\<forall>ctx b. keeps (\<lambda>w. sent w = L) (sh_signIntentRequestBinding host ctx b)) \<and>
        (\<forall>ctx b. keeps (\<lambda>w. sent w = L) (sh_signIntentFundBinding host ctx b)) \<and>
        (\<forall>ctx b. keeps (\<lambda>w. sent w = L) (sh_signIntentSwap host ctx b)) \<and>
        (case cg_signRequestWhitelisting g of None \<Rightarrow> True | Some sign \<Rightarrow> \<forall>ctx b. keeps (\<lambda>w. sent w = L) (sign ctx b)) \<and>
        (case cg_whitelistNonceCandidates g of None \<Rightarrow> True | Some f \<Rightarrow> \<forall>b. keeps (\<lambda>w. sent w = L) (f b)))"

definition silent :: "('w \<Rightarrow> exchange list) \<Rightarrow> ('w, 'a) state \<Rightarrow> bool" where
  "silent sent m \<longleftrightarrow> (\<forall>L. keeps (\<lambda>w. sent w = L) m)"

lemma silentD: "silent sent m \<Longrightarrow> run_state m w = (a, w') \<Longrightarrow> sent w' = sent w"
  by (auto simp: silent_def keeps_def dest: hoareD)

lemma keeps_observed: "(\<And>L. keeps (\<lambda>w. sent w = L) m) \<Longrightarrow> keeps (\<lambda>w. P (sent w)) m"
proof -
  assume k: "\<And>L. keeps (\<lambda>w. sent w = L) m"
  have "sent w' = sent w" if "run_state m w = (a, w')" for w a w'
    using k [of "sent w"] that by (auto simp: keeps_def dest: hoareD)
  then show ?thesis by (auto simp: keeps_def intro!: hoareI)
qed

text \<open>A step that keeps the invariant and says something of its result, and the continuation that needs it.\<close>

lemma hoare_bindE_fact:
  assumes "keeps I m" and "pred_state (case_sum (\<lambda>_. True) R) m" and "\<And>a. R a \<Longrightarrow> hoare I (f a) (\<lambda>_. J)" and "\<And>w. I w \<Longrightarrow> J w"
  shows "hoare I (bindE m f) (\<lambda>_. J)"
proof (rule hoareI)
  fix w a w' assume I: "I w" and run: "run_state (bindE m f) w = (a, w')"
  obtain r w1 where m: "run_state m w = (r, w1)" by (metis surj_pair)
  have I1: "I w1" using assms(1) I m by (auto simp: keeps_def dest: hoareD)
  show "J w'"
  proof (cases r)
    case (Inr x)
    with pred_stateD' [OF assms(2), of w] m have "R x" by simp
    from assms(3) [OF this] I1 run m Inr show ?thesis by (auto dest: hoareD)
  qed (use run m I1 assms(4) in simp)
qed

lemma keeps_unwrapping [keeps_rules]: "keeps I m \<Longrightarrow> keeps I (unwrapping m)"
  unfolding unwrapping_def by (intro keeps_rules)

lemma keeps_deadline [keeps_rules]:
  "keeps I (e ms) \<Longrightarrow> keeps I m \<Longrightarrow> keeps I (withAbstractionDeadline e a ms m)"
  unfolding withAbstractionDeadline_def by (intro keeps_rules)

text \<open>Since \<open>L\<close> every call was allowed in its turn, and of the exchanges since \<open>L\<close> holds \<open>K\<close>.\<close>

definition proper ::
    "('w \<Rightarrow> exchange list) \<Rightarrow> ('w, 'k) coordinator_options \<Rightarrow> exchange list \<Rightarrow> (exchange list \<Rightarrow> bool) \<Rightarrow> 'w \<Rightarrow> bool" where
  "proper sent opts L K w \<longleftrightarrow> (\<exists>new. sent w = L @ new \<and> in_order (allowed_call sent opts L) new \<and> K new)"

definition lasting :: "(exchange list \<Rightarrow> bool) \<Rightarrow> bool" where
  "lasting K \<longleftrightarrow> (\<forall>new x. K new \<longrightarrow> K (new @ [x]))"

lemma lasting_rules [simp, intro]:
  "lasting (\<lambda>_. P)" "lasting K \<Longrightarrow> lasting K' \<Longrightarrow> lasting (\<lambda>new. K new \<and> K' new)" "lasting (\<lambda>new. listed_item opts new item)"
  "lasting (\<lambda>new. listed opts new request)" "lasting (\<lambda>new. reserved sent opts L new request b n h)"
  "(\<And>a. lasting (M a)) \<Longrightarrow> lasting (\<lambda>new. \<forall>a \<in> A. M a new)"
proof -
  show "lasting (\<lambda>new. reserved sent opts L new request b n h)"
    unfolding lasting_def reserved_def by (metis append.assoc append_Cons)
qed (fastforce simp: lasting_def listed_def listed_item_def)+

lemma lasting_settled [simp, intro]: "lasting (\<lambda>new. settled sent opts L new request parsed request' parsed')"
proof (cases "independent_nonce request parsed")
  case True
  have "reserved sent opts L (new @ [x]) request b n h" if "reserved sent opts L new request b n h" for new x b n h
    using lasting_rules(5) [of sent opts L request b n h, unfolded lasting_def] that by blast
  with True show ?thesis unfolding lasting_def settled_def by simp blast
qed (simp add: settled_def)

lemma proper_weaken: "proper sent opts L K w \<Longrightarrow> (\<And>new. K new \<Longrightarrow> K' new) \<Longrightarrow> proper sent opts L K' w"
  by (auto simp: proper_def)

lemma keeps_proper: "silent sent m \<Longrightarrow> keeps (proper sent opts L K) m"
  unfolding keeps_def by (rule hoareI) (auto simp: proper_def dest: silentD)

text \<open>A silent step whose result depends on the exchanges at that moment only.\<close>

lemma hoare_silent:
  assumes "silent sent m" and "\<And>w a w'. run_state m w = (Inr a, w') \<Longrightarrow> F (sent w) a"
  shows "hoare (proper sent opts L K) m
    (\<lambda>r. case r of Inl e \<Rightarrow> proper sent opts L K | Inr a \<Rightarrow> proper sent opts L (\<lambda>new. K new \<and> F (L @ new) a))"
proof (rule hoareI)
  fix w r w' assume p: "proper sent opts L K w" and m: "run_state m w = (r, w')"
  from p obtain new where new: "sent w = L @ new" "in_order (allowed_call sent opts L) new" "K new"
    by (auto simp: proper_def)
  with silentD [OF assms(1) m] assms(2) [of w _ w'] m
  show "(case r of Inl e \<Rightarrow> proper sent opts L K | Inr a \<Rightarrow> proper sent opts L (\<lambda>new. K new \<and> F (L @ new) a)) w'"
    by (cases r) (auto simp: proper_def)
qed

lemma silent_rules:
  assumes "records_calls sent opts"
  shows "silent sent (sh_randomUUID (cg_host (co_guardian opts)))"
    "sh_probeUpstream (cg_host (co_guardian opts)) = Some probe \<Longrightarrow> silent sent probe"
    "silent sent (sh_getChainClient (cg_host (co_guardian opts)) c)"
    "silent sent (ah_now (sh_auth (cg_host (co_guardian opts))))" "silent sent (ah_expires (sh_auth (cg_host (co_guardian opts))) ms)"
    "silent sent (sh_signIntentRequestBinding (cg_host (co_guardian opts)) ctx b1)"
    "silent sent (sh_signIntentFundBinding (cg_host (co_guardian opts)) ctx b2)"
    "silent sent (sh_signIntentSwap (cg_host (co_guardian opts)) ctx b3)"
    "cg_signRequestWhitelisting (co_guardian opts) = Some sign \<Longrightarrow> silent sent (sign ctx b4)"
    "cg_whitelistNonceCandidates (co_guardian opts) = Some f \<Longrightarrow> silent sent (f b4)"
  using assms by (simp_all add: silent_def records_calls_def Let_def)

lemma runSigning_keeps:
  assumes "\<And>probe. sh_probeUpstream host = Some probe \<Longrightarrow> keeps I probe" and "\<And>c. keeps I (sh_getChainClient host c)"
    and "keeps I (ah_now (sh_auth host))" and "\<And>ms. keeps I (ah_expires (sh_auth host) ms)" and "\<And>ctx. keeps I (sign ctx body)"
  shows "keeps I (runSigning host sign chainId body requestId token)"
  unfolding runSigning_def
  by (auto intro!: keeps_rules assms split: option.split)

lemma run_signing_keeps:
  assumes "\<And>probe. sh_probeUpstream (cg_host g) = Some probe \<Longrightarrow> keeps I probe" and "\<And>c. keeps I (sh_getChainClient (cg_host g) c)"
    and "keeps I (ah_now (sh_auth (cg_host g)))" and "\<And>ms. keeps I (ah_expires (sh_auth (cg_host g)) ms)"
    and "\<And>ctx. keeps I (sign ctx body)"
  shows "keeps I (run_signing g sign chainId body requestId)"
  unfolding run_signing_def Let_def
  by (auto intro!: runSigning_keeps keeps_rules assms split: option.split)

lemma sign_parsed_silent:
  assumes "records_calls sent opts"
  shows "silent sent (sign_parsed (co_guardian opts) requestId parsed)"
  using silent_rules [OF assms] unfolding silent_def sign_parsed_def
  by (auto intro!: keeps_rules run_signing_keeps split: option.split parsed_signing_body.split)

lemma signWithGuardian_silent:
  assumes "records_calls sent opts"
  shows "silent sent (signWithGuardian (co_guardian opts) request parsed)"
  using silent_rules(1) [OF assms] sign_parsed_silent [OF assms] unfolding silent_def signWithGuardian_def
  by (auto intro!: keeps_rules)

lemma signWithGuardian_vouched:
  assumes "records_calls sent opts"
    and "run_state (signWithGuardian (co_guardian opts) request parsed) w = (Inr s, w')"
  shows "vouched sent (co_guardian opts) (sent w) request parsed s"
proof -
  obtain rid w1 where u: "run_state (sh_randomUUID (cg_host (co_guardian opts))) w = (rid, w1)" by (metis surj_pair)
  obtain r w2 where p: "run_state (sign_parsed (co_guardian opts) rid parsed) w1 = (r, w2)" by (metis surj_pair)
  with assms(2) u silentD [OF silent_rules(1) [OF assms(1)] u] show ?thesis
    by (cases r) (auto simp: signWithGuardian_def vouched_def split: if_splits)
qed

text \<open>An API call that was due, and what is known once it is answered.\<close>

definition asked ::
    "('w, 'k) coordinator_options \<Rightarrow> (exchange list \<Rightarrow> bool) \<Rightarrow> (string \<Rightarrow> api_call) \<Rightarrow> json \<Rightarrow> exchange list \<Rightarrow> bool" where
  "asked opts K call j new \<longleftrightarrow>
     (\<exists>before base answer. new = before @ [(call base, answer)] \<and> K before \<and>
        response_json (co_parseJson opts) (call base) answer = Inr j)"

lemma api_request_proper:
  assumes records: "records_calls sent opts" and due: "\<And>base new. K new \<Longrightarrow> allowed_call sent opts L new (call base)"
    and J: "\<And>new. K new \<Longrightarrow> J new" "lasting J"
  shows "hoare (proper sent opts L K) (api_request opts call)
    (\<lambda>r. case r of Inl e \<Rightarrow> proper sent opts L J | Inr j \<Rightarrow> proper sent opts L (\<lambda>new. J new \<and> asked opts K call j new))"
proof (rule hoareI)
  fix w r w' assume "proper sent opts L K w" and run: "run_state (api_request opts call) w = (r, w')"
  then obtain new where new: "sent w = L @ new" "in_order (allowed_call sent opts L) new" "K new"
    by (auto simp: proper_def)
  show "(case r of Inl e \<Rightarrow> proper sent opts L J | Inr j \<Rightarrow> proper sent opts L (\<lambda>new. J new \<and> asked opts K call j new)) w'"
  proof (cases "api_root opts")
    case (Inl e)
    with run new J(1) show ?thesis by (auto simp: api_request_def proper_def)
  next
    case (Inr base)
    obtain a w1 where a: "run_state (co_fetcher opts (call base)) w = (a, w1)" by (metis surj_pair)
    have "hoare (\<lambda>w. sent w = sent u) (co_fetcher opts (call base)) (\<lambda>r w. sent w = sent u @ [(call base, r)])" for u
      using records by (simp add: records_calls_def Let_def)
    from hoareD [OF this refl a] have sent: "sent w1 = L @ (new @ [(call base, a)])" by (simp add: new(1))
    have "in_order (allowed_call sent opts L) (new @ [(call base, a)])" "J (new @ [(call base, a)])"
      using in_order_snoc [OF new(2), of "(call base, a)"] due [OF new(3)] J new(3) by (auto simp: lasting_def)
    with sent new(3) a run Inr show ?thesis
      by (auto simp: api_request_def requestJson_def proper_def asked_def split: sum.splits)
  qed
qed

lemma hoare_proper_weaken:
  "hoare (proper sent opts L K) m (\<lambda>_. proper sent opts L K') \<Longrightarrow> (\<And>new. K' new \<Longrightarrow> J new) \<Longrightarrow>
   hoare (proper sent opts L K) m (\<lambda>_. proper sent opts L J)"
  by (erule hoare_weaken) (auto elim: proper_weaken)

lemma sign_and_submit_keeps:
  assumes records: "records_calls sent opts" and J: "lasting J" "\<And>new. J new \<Longrightarrow> listed opts new request"
    and adm: "admissible opts request parsed"
  shows "hoare (proper sent opts L (\<lambda>new. J new \<and> settled sent opts L new request parsed request' parsed'))
    (sign_and_submit opts (independent_nonce request parsed) request' parsed') (\<lambda>_. proper sent opts L J)"
proof -
  let ?K = "\<lambda>new. J new \<and> settled sent opts L new request parsed request' parsed'"
  let ?call = "\<lambda>s. put_call opts (sr_id request') ''submission'' (submission_body (independent_nonce request parsed) parsed' s)"
  have post: "hoare (proper sent opts L (\<lambda>new. ?K new \<and> vouched sent (co_guardian opts) (L @ new) request' parsed' s))
      (bindE (api_request opts (?call s)) (\<lambda>_. ret (Inr Submitted))) (\<lambda>_. proper sent opts L J)" for s
  proof (rule hoare_bindE [where R = "\<lambda>_. proper sent opts L J"])
    have "hoare (proper sent opts L (\<lambda>new. ?K new \<and> vouched sent (co_guardian opts) (L @ new) request' parsed' s))
        (api_request opts (?call s))
        (\<lambda>r. case r of Inl e \<Rightarrow> proper sent opts L J | Inr j \<Rightarrow> proper sent opts L (\<lambda>new. J new \<and> asked opts
          (\<lambda>new. ?K new \<and> vouched sent (co_guardian opts) (L @ new) request' parsed' s) (?call s) j new))"
    proof (rule api_request_proper [OF records _ _ J(1)])
      fix base new assume k: "?K new \<and> vouched sent (co_guardian opts) (L @ new) request' parsed' s"
      then have "sr_id request' = sr_id request" by (auto simp: settled_def split: if_splits)
      with k J(2) adm show "allowed_call sent opts L new (?call s base)"
        unfolding allowed_call_def submission_justified_def by metis
    qed simp
    then show "hoare (proper sent opts L (\<lambda>new. ?K new \<and> vouched sent (co_guardian opts) (L @ new) request' parsed' s))
        (api_request opts (?call s)) (\<lambda>r w. case r of Inl e \<Rightarrow> proper sent opts L J w | Inr a \<Rightarrow> proper sent opts L J w)"
      by (rule hoare_weaken) (auto elim: proper_weaken split: sum.splits)
  qed (simp add: hoare_ret)
  show ?thesis
    unfolding sign_and_submit_def
  proof (rule hoare_bindE [OF _ post])
    show "hoare (proper sent opts L ?K) (signWithGuardian (co_guardian opts) request' parsed')
        (\<lambda>r w. case r of Inl e \<Rightarrow> proper sent opts L J w
         | Inr s \<Rightarrow> proper sent opts L (\<lambda>new. ?K new \<and> vouched sent (co_guardian opts) (L @ new) request' parsed' s) w)"
      by (rule hoare_weaken [OF hoare_silent [OF signWithGuardian_silent [OF records], where K = ?K and
            F = "\<lambda>past s. vouched sent (co_guardian opts) past request' parsed' s"]])
        (auto elim: proper_weaken split: sum.splits dest: signWithGuardian_vouched [OF records])
  qed
qed

lemma nonce_call_eq: "put_call opts (sr_id request) ''nonce'' (JObj [(''candidates'', JArr (map JStr cs))]) = nonce_call opts request cs"
  by (simp add: nonce_call_def fun_eq_iff)

definition settles ::
    "('w \<Rightarrow> exchange list) \<Rightarrow> ('w, 'k) coordinator_options \<Rightarrow> exchange list \<Rightarrow> (exchange list \<Rightarrow> bool) \<Rightarrow>
     signing_request \<Rightarrow> parsed_signing_body \<Rightarrow> raised + (signing_request \<times> parsed_signing_body) option \<Rightarrow> 'w \<Rightarrow> bool" where
  "settles sent opts L J request parsed r =
     (case r of Inr (Some (request', parsed')) \<Rightarrow>
        proper sent opts L (\<lambda>new. J new \<and> settled sent opts L new request parsed request' parsed')
      | _ \<Rightarrow> proper sent opts L J)"

lemma reserve_nonce_settles:
  assumes records: "records_calls sent opts" and J: "lasting J" "\<And>new. J new \<Longrightarrow> listed opts new request"
    and adm: "admissible opts request (ParsedWhitelisting b)" and own: "independent_nonce request (ParsedWhitelisting b)"
    and f: "cg_whitelistNonceCandidates (co_guardian opts) = Some f"
  shows "hoare (proper sent opts L J) (reserve_nonce opts request b) (settles sent opts L J request (ParsedWhitelisting b))"
  unfolding reserve_nonce_def f option.case nonce_call_eq
proof (rule hoare_bindE)
  show "hoare (proper sent opts L J) (f b) (\<lambda>r w. case r of
      Inl e \<Rightarrow> settles sent opts L J request (ParsedWhitelisting b) (Inl e) w
    | Inr cs \<Rightarrow> proper sent opts L (\<lambda>new. J new \<and> offered_nonces sent opts (L @ new) b cs) w)"
    by (rule hoare_weaken [OF hoare_silent [OF silent_rules(10) [OF records f], where F = "\<lambda>past cs. offered_nonces sent opts past b cs"]])
      (auto simp: settles_def offered_nonces_def f split: sum.splits)
next
  fix cs
  let ?K = "\<lambda>new. J new \<and> offered_nonces sent opts (L @ new) b cs"
  show "hoare (proper sent opts L ?K)
      (if cs = [] then ret (Inr None)
       else bindE (api_request opts (nonce_call opts request cs))
         (\<lambda>j. ret (map_sum id Some (andThen (zod_parse zReservation j) (reserved_pair request b cs)))))
      (settles sent opts L J request (ParsedWhitelisting b))"
  proof (cases "cs = []")
    case True
    then show ?thesis by (auto simp: settles_def intro!: hoare_ret elim: proper_weaken)
  next
    case False
    have "hoare (proper sent opts L ?K) (api_request opts (nonce_call opts request cs))
        (\<lambda>r. case r of Inl e \<Rightarrow> proper sent opts L J
         | Inr j \<Rightarrow> proper sent opts L (\<lambda>new. J new \<and> asked opts ?K (nonce_call opts request cs) j new))"
      using adm own False J
      by (intro api_request_proper [OF records]) (auto simp: allowed_call_def reservation_justified_def)
    then have put: "hoare (proper sent opts L ?K) (api_request opts (nonce_call opts request cs))
        (\<lambda>r w. case r of Inl e \<Rightarrow> settles sent opts L J request (ParsedWhitelisting b) (Inl e) w
         | Inr j \<Rightarrow> proper sent opts L (\<lambda>new. J new \<and> asked opts ?K (nonce_call opts request cs) j new) w)"
      by (rule hoare_weaken) (auto simp: settles_def split: sum.splits)
    have "hoare (proper sent opts L (\<lambda>new. J new \<and> asked opts ?K (nonce_call opts request cs) j new))
        (ret (map_sum id Some (andThen (zod_parse zReservation j) (reserved_pair request b cs))))
        (settles sent opts L J request (ParsedWhitelisting b))" for j
    proof (rule hoare_ret)
      fix w assume w: "proper sent opts L (\<lambda>new. J new \<and> asked opts ?K (nonce_call opts request cs) j new) w"
      have res: "reserved sent opts L new request b n h"
        if "asked opts ?K (nonce_call opts request cs) j new" "zReservation j = Some (n, h)" "n \<in> set cs" for new n h
        using that unfolding asked_def reserved_def by blast
      show "settles sent opts L J request (ParsedWhitelisting b)
          (map_sum id Some (andThen (zod_parse zReservation j) (reserved_pair request b cs))) w"
        using w own
        by (cases "zReservation j")
          (auto simp: settles_def zod_parse_def reserved_pair_def settled_def elim!: proper_weaken intro: res split: prod.splits)
    qed
    from hoare_bindE [OF put this] False show ?thesis by simp
  qed
qed

lemma settle_nonce_settles:
  assumes records: "records_calls sent opts" and J: "lasting J" "\<And>new. J new \<Longrightarrow> listed opts new request"
    and adm: "admissible opts request parsed"
  shows "hoare (proper sent opts L J) (settle_nonce opts request parsed) (settles sent opts L J request parsed)"
proof (cases "independent_nonce request parsed")
  case True
  then obtain b where b: "parsed = ParsedWhitelisting b"
    by (auto simp: independent_nonce_def split: parsed_signing_body.splits)
  show ?thesis
  proof (cases "cg_whitelistNonceCandidates (co_guardian opts)")
    case None
    with True b show ?thesis by (auto simp: settle_nonce_def reserve_nonce_def settles_def intro!: hoare_ret)
  next
    case (Some f)
    from reserve_nonce_settles [OF records J _ _ Some] adm True b show ?thesis by (simp add: settle_nonce_def)
  qed
next
  case False
  then show ?thesis
    by (cases parsed) (auto simp: settle_nonce_def settles_def settled_def intro!: hoare_ret)
qed

lemma sign_request_keeps:
  assumes records: "records_calls sent opts" and J: "lasting J" "\<And>new. J new \<Longrightarrow> listed opts new request"
    and mine: "sr_mySubmission request = JNull"
  shows "keeps (proper sent opts L J) (sign_request opts request)"
proof (cases "\<exists>parsed. admissible opts request parsed")
  case True
  then obtain parsed where a: "admissible opts request parsed" by blast
  let ?go = "\<lambda>r. case r of None \<Rightarrow> ret (Inr Skipped)
    | Some (request', parsed') \<Rightarrow> sign_and_submit opts (independent_nonce request parsed) request' parsed'"
  have "hoare (settles sent opts L J request parsed (Inr r)) (?go r) (\<lambda>_. proper sent opts L J)" for r
    using sign_and_submit_keeps [OF records J a]
    by (auto simp: settles_def intro!: hoare_ret split: option.split)
  then have "keeps (proper sent opts L J) (bindE (settle_nonce opts request parsed) ?go)"
    unfolding keeps_def
    by (intro hoare_bindE [where R = "\<lambda>r. settles sent opts L J request parsed (Inr r)"])
      (rule hoare_weaken [OF settle_nonce_settles [OF records J a]], auto simp: settles_def split: sum.splits)
  with a show ?thesis
    by (simp add: sign_request_def admissible_def)
next
  case False
  show ?thesis
  proof (cases "parseSigningBody request")
    case (Some parsed)
    with False mine have no: "\<not> admissible opts request parsed" by blast
    show ?thesis
      unfolding sign_request_def Some option.case
      using no Some mine by (simp add: admissible_def keeps_ret)
  qed (simp add: sign_request_def keeps_ret)
qed

lemma process_items_keeps:
  assumes records: "records_calls sent opts" and J: "lasting J" "\<And>new item. J new \<Longrightarrow> item \<in> set items \<Longrightarrow> listed_item opts new item"
  shows "keeps (proper sent opts L J) (process_items opts items st)"
  using J(2)
proof (induction items arbitrary: st)
  case (Cons item items)
  have "keeps (proper sent opts L J) (sign_request opts request)"
    if "zSigningRequest item = Some request" "sr_mySubmission request = JNull" for request
    using that Cons.prems by (intro sign_request_keeps [OF records J(1)]) (auto simp: listed_def)
  then have "keeps (proper sent opts L J) (process_item opts item st)" for st
    by (auto simp: process_item_def intro!: keeps_rules split: option.split)
  then show ?case using Cons unfolding process_items.simps by (intro keeps_bind Cons.IH) auto
qed (simp add: keeps_ret)

lemma get_page_listed:
  assumes records: "records_calls sent opts" and "flt \<in> set (pollFilters (co_config opts))"
  shows "hoare (proper sent opts L (\<lambda>_. True)) (get_page opts flt page)
    (\<lambda>r. case r of Inl e \<Rightarrow> proper sent opts L (\<lambda>_. True)
     | Inr pg \<Rightarrow> proper sent opts L (\<lambda>new. \<forall>item \<in> set (pg_items pg). listed_item opts new item))"
  unfolding get_page_def
proof (rule hoare_bindE)
  have l: "listing opts (list_call opts flt page base)" for base using assms(2) by (auto simp: listing_def)
  have "hoare (proper sent opts L (\<lambda>_. True)) (api_request opts (list_call opts flt page))
      (\<lambda>r. case r of Inl e \<Rightarrow> proper sent opts L (\<lambda>_. True)
       | Inr j \<Rightarrow> proper sent opts L (\<lambda>new. True \<and> asked opts (\<lambda>_. True) (list_call opts flt page) j new))"
    using l by (intro api_request_proper [OF records]) (auto simp: allowed_call_def)
  then show "hoare (proper sent opts L (\<lambda>_. True)) (api_request opts (list_call opts flt page))
      (\<lambda>r w. case r of Inl e \<Rightarrow> (case Inl e of Inl e \<Rightarrow> proper sent opts L (\<lambda>_. True)
         | Inr pg \<Rightarrow> proper sent opts L (\<lambda>new. \<forall>item \<in> set (pg_items pg). listed_item opts new item)) w
       | Inr j \<Rightarrow> proper sent opts L (asked opts (\<lambda>_. True) (list_call opts flt page) j) w)"
    by (rule hoare_weaken) (auto split: sum.splits)
  show "hoare (proper sent opts L (asked opts (\<lambda>_. True) (list_call opts flt page) j)) (ret (zod_parse zSigningRequestPage j))
      (\<lambda>r. case r of Inl e \<Rightarrow> proper sent opts L (\<lambda>_. True)
       | Inr pg \<Rightarrow> proper sent opts L (\<lambda>new. \<forall>item \<in> set (pg_items pg). listed_item opts new item))" for j
    using l by (intro hoare_ret)
      (fastforce simp: zod_parse_def asked_def listed_item_def elim!: proper_weaken split: option.splits)
qed

lemma poll_pages_keeps:
  assumes records: "records_calls sent opts" and "flt \<in> set (pollFilters (co_config opts))"
  shows "keeps (proper sent opts L (\<lambda>_. True)) (poll_pages fuel opts flt page st)"
proof (induction fuel arbitrary: page st)
  case (Suc fuel)
  let ?I = "proper sent opts L (\<lambda>_. True)"
  have "hoare (proper sent opts L (\<lambda>new. \<forall>item \<in> set (pg_items pg). listed_item opts new item))
      (do { st' \<leftarrow> process_items opts (pg_items pg) st0;
            if last_page page pg then ret (st', PollDone) else poll_pages fuel opts flt (page + 1) st' }) (\<lambda>_. ?I)" for pg st0
  proof (rule hoare_bind)
    show "hoare (proper sent opts L (\<lambda>new. \<forall>item \<in> set (pg_items pg). listed_item opts new item))
        (process_items opts (pg_items pg) st0) (\<lambda>_. ?I)"
      by (rule hoare_proper_weaken [OF process_items_keeps [OF records, unfolded keeps_def]]) auto
    show "hoare ?I (if last_page page pg then ret (st', PollDone) else poll_pages fuel opts flt (page + 1) st') (\<lambda>_. ?I)" for st'
      using Suc.IH by (auto simp: keeps_def intro: hoare_ret)
  qed
  then show ?case
    unfolding poll_pages.simps keeps_def
    by (intro hoare_bind [OF get_page_listed [OF assms]]) (auto intro!: hoare_ret split: sum.split)
qed (simp add: keeps_ret)

lemma poll_filters_keeps:
  "records_calls sent opts \<Longrightarrow> set flts \<subseteq> set (pollFilters (co_config opts)) \<Longrightarrow>
   keeps (proper sent opts L (\<lambda>_. True)) (poll_filters fuel opts flts st)"
proof (induction flts arbitrary: st)
  case (Cons flt flts)
  then show ?case
    unfolding poll_filters.simps
    by (auto intro!: keeps_bind keeps_ret poll_pages_keeps split: poll_outcome.split)
qed (simp add: keeps_ret)

lemma poll_calls:
  assumes "records_calls sent opts"
    and "run_state (runGuardianCoordinatorOnce fuel opts st) w = ((st', out), w')"
  shows "\<exists>new. sent w' = sent w @ new \<and> in_order (allowed_call sent opts (sent w)) new"
proof -
  let ?I = "proper sent opts (sent w) (\<lambda>_. True)"
  have "hoare ?I (runGuardianCoordinatorOnce fuel opts st) (\<lambda>_. ?I)"
    using poll_filters_keeps [OF assms(1) order_refl] by (simp add: runGuardianCoordinatorOnce_def keeps_def)
  moreover have "?I w" by (simp add: proper_def)
  ultimately have "?I w'" using assms(2) by (rule hoareD)
  then show ?thesis by (simp add: proper_def)
qed

text \<open>The same over the cycles of the process.\<close>

lemma process_calls:
  assumes "records_calls sent opts" and "\<And>ms L. keeps (\<lambda>w. sent w = L) (co_sleep opts ms)"
    and "run_state (runGuardianCoordinator fuel n opts timeouts) w = (stats, w')"
  shows "\<exists>new. sent w' = sent w @ new \<and> in_order (allowed_call sent opts (sent w)) new"
proof -
  let ?I = "proper sent opts (sent w) (\<lambda>_. True)"
  have sleep: "keeps ?I (co_sleep opts ms)" for ms using assms(2) by (intro keeps_proper) (simp add: silent_def)
  have poll: "keeps ?I (runGuardianCoordinatorOnce fuel opts st)" for st
    using poll_filters_keeps [OF assms(1) order_refl] by (simp add: runGuardianCoordinatorOnce_def)
  have clock: "keeps ?I (ah_now (sh_auth (cg_host (co_guardian opts))))"
    by (rule keeps_proper [OF silent_rules(4) [OF assms(1)]])
  have cycle: "keeps ?I (runGuardianCoordinatorCycle fuel opts timeouts)" for timeouts
    unfolding runGuardianCoordinatorCycle_def
    by (auto intro!: keeps_rules poll clock split: prod.split)
  have "keeps ?I (runGuardianCoordinator fuel n opts timeouts)"
  proof (induction n arbitrary: timeouts)
    case (Suc n)
    show ?case
      by (auto intro!: keeps_rules cycle Suc.IH sleep split: prod.split)
  qed (simp add: keeps_ret)
  moreover have "?I w" by (simp add: proper_def)
  ultimately have "?I w'" using assms(3) by (auto simp: keeps_def dest: hoareD)
  then show ?thesis by (simp add: proper_def)
qed

text \<open>
  C8. What leaves the process. Every call a poll makes, in whatever order pages, items and failures
  come, is one of three: a listing for one of the configured filters; a nonce reservation, for a
  whitelisting request without a nonce that an earlier listing of this poll returned as an item and
  that is admissible, offering exactly the nonces just found for it; or a submission for an
  admissible request that an earlier listing of this poll returned (not answered before, for the
  chain and the target it names, within the filters), carrying the chain id and the signature of a
  success the in-process guardian gave for the body of that item, just before, whose digest is the
  one of the item, and whose signer is this guardian. For a body without a nonce the nonce and the
  digest are the ones the server reserved, in its answer to an earlier reservation for this
  request, out of the nonces offered in it.
\<close>

theorem poll_calls_justified:
  assumes "records_calls sent opts"
    and "run_state (runGuardianCoordinatorOnce fuel opts st) w = ((st', out), w')"
  shows "\<exists>new. sent w' = sent w @ new \<and>
    (\<forall>before call answer after. new = before @ (call, answer) # after \<longrightarrow>
       listing opts call \<or> reservation_justified sent opts (sent w) before call \<or> submission_justified sent opts (sent w) before call)"
  using poll_calls [OF assms] unfolding in_order_def allowed_call_def .


section \<open>A small coordinator\<close>

text \<open>The world is the list of exchanges. Two open requests, one of them answered before.\<close>

definition ex_coord_host :: "(exchange list, unit) server_host" where
  "ex_coord_host =
     \<lparr>sh_auth =
        \<lparr>ah_authenticate = \<lambda>b. ret (Inr (Inl (unauthenticated ''unknown''))),
         ah_accountRateLimit = None, ah_now = ret 5000, ah_hmacHex = \<lambda>k m. [],
         ah_expires = \<lambda>_. ret False, ah_timeouts = DEFAULT_GUARDIAN_TIMEOUTS\<rparr>,
      sh_randomUUID = ret ''generated'', sh_maxBodyBytes = 1000,
      sh_decoder = \<lparr>bd_json = \<lambda>_. Inr JNull, bd_text = \<lambda>_. []\<rparr>, sh_validation = \<lambda>_ _. None,
      sh_build = ''1.0.0'', sh_guardianSigner = ex_address (CHR ''A''), sh_supportedChains = [1],
      sh_liveness = ret (Inr (Inr ())), sh_probeUpstream = None, sh_getChainClient = \<lambda>_. ret (Inr (Inr ())),
      sh_signIntentRequestBinding = \<lambda>_ _. ret (Inr (Inr ex_success)),
      sh_signIntentFundBinding = \<lambda>_ _. ret (Inr (Inl (upstream503 ''down''))),
      sh_signIntentSwap = \<lambda>_ _. ret (Inr (Inl (upstream503 ''down''))),
      sh_signRequestWhitelisting = \<lambda>_ _. ret (Inr (Inl (upstream503 ''down'')))\<rparr>"

definition ex_open_request :: "json \<Rightarrow> json" where
  "ex_open_request mine =
     JObj [(''id'', JStr ''r1''), (''kind'', JStr ''set_request''), (''chainId'', JNum (num_of_int 1)),
       (''facility'', JStr (ex_address (CHR ''F''))), (''payloadHash'', JStr (''0x'' @ replicate 64 (CHR ''C''))),
       (''body'', ex_body_json), (''mySubmission'', mine)]"

definition ex_page :: json where
  "ex_page = JObj [(''total'', JNum (num_of_int 2)), (''page'', JNum (num_of_int 1)), (''pageSize'', JNum (num_of_int 2)),
     (''items'', JArr [ex_open_request (JStr ''done''), ex_open_request JNull])]"

definition ex_options :: "(exchange list, unit) coordinator_options" where
  "ex_options =
     \<lparr>co_config = \<lparr>cc_coordinatorBaseUrl = ''http://localhost'', cc_coordinatorApiKey = ''k'', cc_pollIntervalMs = 5000,
        cc_pageSize = 2, cc_chainIds = Some [1], cc_facilities = None, cc_requestTimeoutMs = None\<rparr>,
      co_guardian = \<lparr>cg_host = ex_coord_host, cg_timeouts = None, cg_signRequestWhitelisting = None,
        cg_whitelistNonceCandidates = None\<rparr>,
      co_fetcher = \<lambda>call. State (\<lambda>sent.
        (let r = Inr \<lparr>ar_status = 200, ar_text = Inr (if ac_method call = ''GET'' then ''page'' else [])\<rparr>
         in (r, sent @ [(call, r)]))),
      co_parseJson = \<lambda>s. if s = ''page'' then Some ex_page else None,
      co_parseUrl = \<lambda>s. Some \<lparr>url_protocol = ''http:'', url_hostname = ''localhost'', url_pathname = ''/'', url_toString = s\<rparr>,
      co_sleep = \<lambda>_. ret ()\<rparr>"

lemma ex_records_calls: "records_calls (\<lambda>sent. sent) ex_options"
  by (simp add: records_calls_def ex_options_def ex_coord_host_def Let_def keeps_ret hoare_def)

lemma ex_bounded_server: "bounded_server 2 ex_options"
proof -
  have "page_bounded 2 pg" if "zSigningRequestPage j = Some pg" "j = ex_page \<or> j = JNull" for j pg
    using that by (auto simp: zSigningRequestPage_def ex_page_def json_parse_field_def zNumber_def page_bounded_def num_of_int_def)
  then show ?thesis
    by (auto simp: bounded_server_def ex_options_def response_json_def pred_state_iff Let_def split: if_splits)
qed

theorem poll_terminates_witness:
  "snd (result_of (runGuardianCoordinatorOnce 5 ex_options (initial_state [])) []) \<noteq> PollRunning"
  using poll_terminates [OF ex_bounded_server, of 5 "initial_state []" "[]"] by simp

lemma not_reserving: "last (ac_url call) = CHR ''n'' \<Longrightarrow> \<not> reservation_justified sent opts L before call"
  by (auto simp: reservation_justified_def nonce_call_def put_call_def)

lemma not_listing: "ac_method call = ''PUT'' \<Longrightarrow> \<not> listing opts call"
  by (auto simp: listing_def list_call_def)

theorem poll_calls_justified_witness:
  "\<exists>get page put answer.
     snd (run_state (runGuardianCoordinatorOnce 5 ex_options (initial_state [])) []) = [(get, page), (put, answer)] \<and>
     submission_justified (\<lambda>sent. sent) ex_options [] [(get, page)] put"
proof -
  obtain st' out sent' where run: "run_state (runGuardianCoordinatorOnce 5 ex_options (initial_state [])) [] = ((st', out), sent')"
    by (metis surj_pair)
  have "map (\<lambda>c. (ac_method (fst c), last (ac_url (fst c))))
      (snd (run_state (runGuardianCoordinatorOnce 5 ex_options (initial_state [])) [])) = [(''GET'', CHR ''s''), (''PUT'', CHR ''n'')]"
    by code_simp
  with run have "map (\<lambda>c. (ac_method (fst c), last (ac_url (fst c)))) sent' = [(''GET'', CHR ''s''), (''PUT'', CHR ''n'')]" by simp
  then obtain get page put answer where s: "sent' = [(get, page), (put, answer)]" "ac_method put = ''PUT''" "last (ac_url put) = CHR ''n''"
    by auto
  from poll_calls_justified [OF ex_records_calls run]
  have "\<forall>before call answer after. sent' = before @ (call, answer) # after \<longrightarrow>
      listing ex_options call \<or> reservation_justified (\<lambda>sent. sent) ex_options [] before call \<or>
      submission_justified (\<lambda>sent. sent) ex_options [] before call" by simp
  from this [rule_format, of "[(get, page)]" put answer "[]"]
  have "submission_justified (\<lambda>sent. sent) ex_options [] [(get, page)] put"
    using s not_reserving [OF s(3)] not_listing [OF s(2)] by (simp only: s append.simps) blast
  then show ?thesis using run s(1) by auto
qed

end
