(* ===== verification/Whitelist_Nonces.thy ===== *)
theory Whitelist_Nonces
  imports Coordinator_Calls
begin

text \<open>
  The nonces a validator offers for whitelisting requests without one, and the advance of its
  on-chain nonce floor (\<open>guardian-coordinator/src/whitelist-nonces.ts\<close>). The chain client and the
  transaction signer are parameters; a call that rejects is a \<open>raised\<close> value.
\<close>

section \<open>The client\<close>

record 'w nonce_client =
  nc_getChainId :: "('w, raised + int) state"
  nc_getBlock :: "('w, raised + int) state"
  nc_getFinalizedBlock :: "('w, raised + int) state"
  nc_isValidator :: "string \<Rightarrow> string \<Rightarrow> int \<Rightarrow> ('w, raised + bool) state"
  nc_validatorNonceFloor :: "string \<Rightarrow> string \<Rightarrow> int \<Rightarrow> ('w, raised + int) state"
  nc_isNonceConsumed :: "string \<Rightarrow> string \<Rightarrow> int list \<Rightarrow> int \<Rightarrow> ('w, raised + bool list) state"
  nc_latestCount :: "string \<Rightarrow> ('w, raised + int) state"
  nc_pendingCount :: "string \<Rightarrow> ('w, raised + int) state"
  nc_setValidatorNonceFloor :: "string \<Rightarrow> int \<Rightarrow> int \<Rightarrow> ('w, raised + string) state"
  nc_receiptSuccess :: "string \<Rightarrow> ('w, raised + bool) state"

text \<open>\<open>np_account\<close> says whether a transaction signer is configured; the client writes with it.\<close>

record 'w nonce_options =
  np_clients :: "(int, 'w nonce_client) omap"
  np_guardianSigner :: string
  np_account :: bool
  np_acceptedBooks :: "chain_sets option"
  np_maxNonceAboveFloor :: int

section \<open>Candidates\<close>

definition nonce_count :: "int \<Rightarrow> nat" where
  "nonce_count maxAbove = nat (if maxAbove < 255 then maxAbove + 1 else 256)"

definition nonce_window :: "int \<Rightarrow> int \<Rightarrow> int list" where
  "nonce_window nonceFloor maxAbove = filter (\<lambda>n. n < MAX_UINT256) (map (\<lambda>i. nonceFloor + int i) [0..<nonce_count maxAbove])"

definition available_nonces :: "int list \<Rightarrow> bool list \<Rightarrow> int list" where
  "available_nonces nonces consumed =
     map snd (filter (\<lambda>(i, n). \<not> (i < length consumed \<and> consumed ! i)) (enumerate 0 nonces))"

definition error :: "string \<Rightarrow> ('w, raised + 'a) state" where
  "error m = ret (Inl (RaisedError m))"

definition require :: "bool \<Rightarrow> string \<Rightarrow> ('w, raised + unit) state" where
  "require c m = (if c then ret (Inr ()) else error m)"

text \<open>The floor moves only past a window whose consumption is final, and only when nothing of the account is pending.\<close>

definition advance_floor ::
    "'w nonce_options \<Rightarrow> 'w nonce_client \<Rightarrow> string \<Rightarrow> int \<Rightarrow> int list \<Rightarrow> ('w, raised + string list) state" where
  "advance_floor opts client address nonceFloor nonces =
     (let validator = np_guardianSigner opts; newFloor = nonceFloor + int (length nonces) in
      bindE (nc_getFinalizedBlock client) (\<lambda>finalized.
      bindE (nc_isNonceConsumed client address validator nonces finalized) (\<lambda>confirmed.
      bindE (require (list_all (\<lambda>b. b) confirmed) ''Whitelist window consumed; waiting for finality before advancing floor'') (\<lambda>_.
      bindE (require (newFloor < MAX_UINT256) ''Whitelist nonce space exhausted'') (\<lambda>_.
      bindE (require (np_account opts)
        ''Automatic nonce floor advancement requires a private-key, AWS KMS or GCP KMS transaction signer'') (\<lambda>_.
      bindE (nc_latestCount client validator) (\<lambda>latest.
      bindE (nc_pendingCount client validator) (\<lambda>pending.
      bindE (require (latest = pending) ''Guardian has a pending transaction; waiting before nonce floor advancement'') (\<lambda>_.
      bindE (nc_setValidatorNonceFloor client address newFloor latest) (\<lambda>hash.
      bindE (nc_receiptSuccess client hash) (\<lambda>success.
      bindE (require success ''Whitelist nonce floor transaction reverted'') (\<lambda>_.
      ret (Inr [])))))))))))))"

definition accepted_book :: "'w nonce_options \<Rightarrow> int \<Rightarrow> string \<Rightarrow> bool" where
  "accepted_book opts chainId address \<longleftrightarrow>
     (case np_acceptedBooks opts of None \<Rightarrow> False
      | Some books \<Rightarrow> (case map_of books chainId of None \<Rightarrow> False | Some s \<Rightarrow> toLowerCase address \<in> set s))"

definition candidates_at ::
    "'w nonce_options \<Rightarrow> 'w nonce_client \<Rightarrow> string \<Rightarrow> int \<Rightarrow> ('w, raised + string list) state" where
  "candidates_at opts client address block =
     (let validator = np_guardianSigner opts in
      bindE (nc_isValidator client address validator block) (\<lambda>ok.
      bindE (require ok ''Guardian is not a whitelist validator'') (\<lambda>_.
      bindE (nc_validatorNonceFloor client address validator block) (\<lambda>nonceFloor.
      let nonces = nonce_window nonceFloor (np_maxNonceAboveFloor opts) in
      bindE (require (nonces \<noteq> []) ''Whitelist nonce space exhausted'') (\<lambda>_.
      bindE (nc_isNonceConsumed client address validator nonces block) (\<lambda>consumed.
      let available = available_nonces nonces consumed in
      if available \<noteq> [] then ret (Inr (map show_int available))
      else advance_floor opts client address nonceFloor nonces))))))"

definition makeWhitelistNonceCandidates ::
    "'w nonce_options \<Rightarrow> request_whitelisting_body \<Rightarrow> ('w, raised + string list) state" where
  "makeWhitelistNonceCandidates opts body =
     (case map_of (np_clients opts) (wl_chainId body) of
        None \<Rightarrow> error ''Whitelist nonce chain mismatch''
      | Some client \<Rightarrow>
          bindE (nc_getChainId client) (\<lambda>chainId.
          bindE (require (chainId = wl_chainId body) ''Whitelist nonce chain mismatch'') (\<lambda>_.
          bindE (require (accepted_book opts (wl_chainId body) (wl_whitelistBook body))
            ''Independent whitelist nonces require an explicitly accepted whitelist book'') (\<lambda>_.
          bindE (nc_getBlock client) (\<lambda>block.
          candidates_at opts client (wl_whitelistBook body) block)))))"


section \<open>The chain the client serves\<close>

record nonce_facts =
  nf_head :: int
  nf_finalized :: int
  nf_floor :: "int \<Rightarrow> int"
  nf_consumed :: "int \<Rightarrow> int \<Rightarrow> bool"

text \<open>Each read fails or gives the value of its block.\<close>

definition serves_nonces :: "'w nonce_client \<Rightarrow> string \<Rightarrow> string \<Rightarrow> nonce_facts \<Rightarrow> bool" where
  "serves_nonces client address validator facts \<longleftrightarrow>
     pred_state (case_sum (\<lambda>_. True) (\<lambda>b. b = nf_head facts)) (nc_getBlock client) \<and>
     pred_state (case_sum (\<lambda>_. True) (\<lambda>b. b = nf_finalized facts)) (nc_getFinalizedBlock client) \<and>
     (\<forall>b. pred_state (case_sum (\<lambda>_. True) (\<lambda>f. f = nf_floor facts b)) (nc_validatorNonceFloor client address validator b)) \<and>
     (\<forall>ns b. pred_state (case_sum (\<lambda>_. True) (\<lambda>cs. cs = map (nf_consumed facts b) ns))
        (nc_isNonceConsumed client address validator ns b))"

lemma nonce_window_mem:
  "n \<in> set (nonce_window nonceFloor maxAbove) \<longleftrightarrow> nonceFloor \<le> n \<and> n \<le> nonceFloor + min maxAbove 255 \<and> n < MAX_UINT256"
proof -
  have "n \<in> set (nonce_window nonceFloor maxAbove) \<longleftrightarrow> (\<exists>i < nonce_count maxAbove. n = nonceFloor + int i) \<and> n < MAX_UINT256"
    by (auto simp: nonce_window_def)
  also have "(\<exists>i < nonce_count maxAbove. n = nonceFloor + int i) \<longleftrightarrow> nonceFloor \<le> n \<and> n \<le> nonceFloor + min maxAbove 255"
  proof
    assume h: "nonceFloor \<le> n \<and> n \<le> nonceFloor + min maxAbove 255"
    then have "nat (n - nonceFloor) < nonce_count maxAbove" "n = nonceFloor + int (nat (n - nonceFloor))"
      by (auto simp: nonce_count_def)
    then show "\<exists>i < nonce_count maxAbove. n = nonceFloor + int i" by blast
  qed (auto simp: nonce_count_def split: if_splits)
  finally show ?thesis by blast
qed

lemma available_nonces_mem:
  "n \<in> set (available_nonces nonces (map P nonces)) \<longleftrightarrow> n \<in> set nonces \<and> \<not> P n"
proof -
  have "n \<in> set (available_nonces nonces (map P nonces)) \<longleftrightarrow> (\<exists>i < length nonces. n = nonces ! i \<and> \<not> P (nonces ! i))"
    by (force simp: available_nonces_def in_set_enumerate_eq image_iff)
  then show ?thesis by (auto simp: in_set_conv_nth)
qed

lemma require_Inr: "pred_state (case_sum (\<lambda>_. True) (\<lambda>_. c)) (require c m)"
  by (simp add: require_def error_def)

text \<open>The window without its gaps above \<open>MAX_UINT256\<close>: the advance skips nothing.\<close>

lemma window_covers:
  "nonceFloor \<le> n \<Longrightarrow> n < nonceFloor + int (length (nonce_window nonceFloor maxAbove)) \<Longrightarrow> n \<in> set (nonce_window nonceFloor maxAbove)"
proof -
  assume n: "nonceFloor \<le> n" "n < nonceFloor + int (length (nonce_window nonceFloor maxAbove))"
  have len: "length (nonce_window nonceFloor maxAbove) = card {i. i < nonce_count maxAbove \<and> nonceFloor + int i < MAX_UINT256}"
  proof -
    have "nonce_window nonceFloor maxAbove = map (\<lambda>i. nonceFloor + int i) (filter (\<lambda>i. nonceFloor + int i < MAX_UINT256) [0..<nonce_count maxAbove])"
      by (simp add: nonce_window_def filter_map comp_def)
    then show ?thesis by (auto simp: length_filter_conv_card intro!: arg_cong [of _ _ card])
  qed
  have low: "{i. i < nonce_count maxAbove \<and> nonceFloor + int i < MAX_UINT256} =
      {..<min (nonce_count maxAbove) (nat (MAX_UINT256 - nonceFloor))}"
    by auto
  have "length (nonce_window nonceFloor maxAbove) = min (nonce_count maxAbove) (nat (MAX_UINT256 - nonceFloor))"
    unfolding len low by simp
  with n show ?thesis
    by (auto simp: nonce_window_def image_iff intro!: bexI [of _ "nat (n - nonceFloor)"])
qed


section \<open>Candidates are in the window the A.4 checks accept\<close>

definition good_candidate :: "'w nonce_options \<Rightarrow> nonce_facts \<Rightarrow> string \<Rightarrow> bool" where
  "good_candidate opts facts c \<longleftrightarrow>
     (\<exists>n. c = show_int n \<and> zUintStringBelowMax (JStr c) = Some c \<and>
        all_passed (checkNonceWindow n (nf_consumed facts (nf_head facts) n) (nf_floor facts (nf_head facts)) (np_maxNonceAboveFloor opts)))"

lemma available_good:
  assumes "0 \<le> nf_floor facts (nf_head facts)"
    and "n \<in> set (available_nonces nonces (map (nf_consumed facts (nf_head facts)) nonces))"
    and "nonces = nonce_window (nf_floor facts (nf_head facts)) (np_maxNonceAboveFloor opts)"
  shows "good_candidate opts facts (show_int n)"
proof -
  from assms(2,3) have n: "nf_floor facts (nf_head facts) \<le> n" "n \<le> nf_floor facts (nf_head facts) + min (np_maxNonceAboveFloor opts) 255"
      "n < MAX_UINT256" "\<not> nf_consumed facts (nf_head facts) n"
    by (auto simp: available_nonces_mem nonce_window_mem)
  have "zUintStringBelowMax (JStr (show_int n)) = Some (show_int n)"
    using assms(1) n(1,3) by (auto simp: zUintStringBelowMax_iff show_int_def MAX_UINT256_def intro!: exI [of _ "nat n"])
  with n show ?thesis
    unfolding good_candidate_def checkNonceWindow_passed by (intro exI [of _ n]) auto
qed

lemma advance_floor_empty: "pred_state (case_sum (\<lambda>_. True) (\<lambda>cs. cs = [])) (advance_floor opts client address nonceFloor nonces)"
  unfolding advance_floor_def Let_def bindE_def
  by (intro pred_state_bind_any pred_state_bindI [OF pred_state_True]) (auto intro!: pred_state_bind_any split: sum.split)

text \<open>The list itself, in closed form.\<close>

lemma upto_shift: "map (\<lambda>i. lo + int i) [0..<k] = [lo..lo + int k - 1]"
proof (induction k)
  case (Suc k)
  have "[lo..lo + int (Suc k) - 1] = [lo..lo + int k - 1] @ [lo + int k]"
    using upto_rec2 [of lo "lo + int k"] by simp
  with Suc show ?case by simp
qed simp

lemma nonce_window_eq: "nonce_window lo maxAbove = filter (\<lambda>n. n < MAX_UINT256) [lo..lo + min maxAbove 255]"
proof (cases "maxAbove < 0")
  case False
  then have "int (nonce_count maxAbove) - 1 = min maxAbove 255" by (auto simp: nonce_count_def)
  then have "lo + int (nonce_count maxAbove) - 1 = lo + min maxAbove 255" by linarith
  then show ?thesis unfolding nonce_window_def upto_shift by (simp only:)
qed (simp add: nonce_window_def nonce_count_def)

lemma available_nonces_eq: "available_nonces nonces (map P nonces) = filter (\<lambda>n. \<not> P n) nonces"
proof -
  have "filter (\<lambda>(i, n). \<not> (i < length (map P nonces) \<and> map P nonces ! i)) (enumerate 0 nonces) =
      filter ((\<lambda>n. \<not> P n) \<circ> snd) (enumerate 0 nonces)"
    by (rule filter_cong) (auto simp: in_set_enumerate_eq)
  then show ?thesis by (simp add: available_nonces_def flip: filter_map)
qed

definition fresh_nonces :: "nonce_facts \<Rightarrow> int \<Rightarrow> int list" where
  "fresh_nonces facts maxAbove =
     (let lo = nf_floor facts (nf_head facts) in
      filter (\<lambda>n. n < MAX_UINT256 \<and> \<not> nf_consumed facts (nf_head facts) n) [lo..lo + min maxAbove 255])"

lemma available_fresh:
  "available_nonces (nonce_window (nf_floor facts (nf_head facts)) maxAbove)
     (map (nf_consumed facts (nf_head facts)) (nonce_window (nf_floor facts (nf_head facts)) maxAbove)) = fresh_nonces facts maxAbove"
  by (simp add: available_nonces_eq nonce_window_eq fresh_nonces_def Let_def)

text \<open>What the search answers, if it answers: the fresh nonces; none only after an advance over a window final in the past.\<close>

definition right_candidates :: "'w nonce_options \<Rightarrow> nonce_facts \<Rightarrow> string list \<Rightarrow> bool" where
  "right_candidates opts facts cs \<longleftrightarrow>
     cs = map show_int (fresh_nonces facts (np_maxNonceAboveFloor opts)) \<and>
     (cs = [] \<longrightarrow> list_all (nf_consumed facts (nf_finalized facts))
        (nonce_window (nf_floor facts (nf_head facts)) (np_maxNonceAboveFloor opts)) \<and> np_account opts)"

lemma advance_floor_final:
  assumes "serves_nonces client address (np_guardianSigner opts) facts"
  shows "pred_state (case_sum (\<lambda>_. True) (\<lambda>cs. cs = [] \<and> list_all (nf_consumed facts (nf_finalized facts)) nonces \<and> np_account opts))
    (advance_floor opts client address lo nonces)"
proof -
  let ?R = "\<lambda>cs. cs = [] \<and> list_all (nf_consumed facts (nf_finalized facts)) nonces \<and> np_account opts"
  have fin: "pred_state (case_sum (\<lambda>_. True) (\<lambda>b. b = nf_finalized facts)) (nc_getFinalizedBlock client)"
    and conf: "pred_state (case_sum (\<lambda>_. True) (\<lambda>cs. cs = map (nf_consumed facts (nf_finalized facts)) nonces))
      (nc_isNonceConsumed client address (np_guardianSigner opts) nonces (nf_finalized facts))"
    using assms by (auto simp: serves_nonces_def)
  have req: "pred_state (case_sum (\<lambda>_. True) ?R) (bindE (require c m) f)"
    if "c \<Longrightarrow> pred_state (case_sum (\<lambda>_. True) ?R) (f ())" for c m f
    using that by (cases c) (simp_all add: require_def error_def bindE_def)
  show ?thesis
    unfolding advance_floor_def Let_def
    by (rule pred_state_bindE_sum [OF fin], simp only:, rule pred_state_bindE_sum [OF conf], simp only:, rule req, rule req, rule req,
        rule pred_state_bindE_sum [OF step_any], rule pred_state_bindE_sum [OF step_any], rule req,
        rule pred_state_bindE_sum [OF step_any], rule pred_state_bindE_sum [OF step_any], rule req)
      (simp add: list_all_iff)
qed

lemma candidates_at_right:
  assumes "serves_nonces client address (np_guardianSigner opts) facts"
  shows "pred_state (case_sum (\<lambda>_. True) (right_candidates opts facts)) (candidates_at opts client address (nf_head facts))"
proof -
  let ?nonces = "nonce_window (nf_floor facts (nf_head facts)) (np_maxNonceAboveFloor opts)"
  have nf: "pred_state (case_sum (\<lambda>_. True) (\<lambda>f. f = nf_floor facts (nf_head facts)))
      (nc_validatorNonceFloor client address (np_guardianSigner opts) (nf_head facts))"
    and consumed: "pred_state (case_sum (\<lambda>_. True) (\<lambda>cs. cs = map (nf_consumed facts (nf_head facts)) ?nonces))
      (nc_isNonceConsumed client address (np_guardianSigner opts) ?nonces (nf_head facts))"
    using assms(1) by (auto simp: serves_nonces_def)
  have adv: "pred_state (case_sum (\<lambda>_. True) (right_candidates opts facts)) (advance_floor opts client address f ?nonces)"
    if "fresh_nonces facts (np_maxNonceAboveFloor opts) = []" for f
    by (rule pred_state_mono [OF advance_floor_final [OF assms]]) (auto simp: right_candidates_def that split: sum.splits)
  show ?thesis
    unfolding candidates_at_def Let_def
    by (rule pred_state_bindE_sum [OF step_any], rule pred_state_bindE_sum [OF step_any], rule pred_state_bindE_sum [OF nf],
        rule pred_state_bindE_sum [OF step_any], simp only:, rule pred_state_bindE_sum [OF consumed])
      (use adv in \<open>auto simp: available_fresh right_candidates_def\<close>)
qed

lemma fresh_good:
  assumes "0 \<le> nf_floor facts (nf_head facts)"
  shows "list_all (good_candidate opts facts) (map show_int (fresh_nonces facts (np_maxNonceAboveFloor opts)))"
  unfolding available_fresh [symmetric] using available_good [OF assms _ refl] by (auto simp: list_all_iff)

text \<open>
  C14. The nonces offered, exactly. If the chain client serves the book, the list the coordinator
  offers for a whitelisting request holds, in increasing order, every nonce of the window that is
  not consumed at the block read and below the sentinel, and no other; the window begins at the
  floor of that block and ends at the configured distance above it, or 255 above it if that is
  less. The list is empty only where every nonce of the window is consumed at the finalized block
  too and a transaction signer is configured to move the floor. Each nonce offered passes the A.4
  nonce-window checks of that block and the schema of the request takes it; and nonces are offered
  only for a book on the accepted list.
\<close>

theorem candidates_in_window:
  assumes "map_of (np_clients opts) (wl_chainId body) = Some client"
    and "serves_nonces client (wl_whitelistBook body) (np_guardianSigner opts) facts" and "0 \<le> nf_floor facts (nf_head facts)"
  shows "pred_state (case_sum (\<lambda>_. True) (\<lambda>candidates.
      let lo = nf_floor facts (nf_head facts); window = [lo..lo + min (np_maxNonceAboveFloor opts) 255] in
      accepted_book opts (wl_chainId body) (wl_whitelistBook body) \<and>
      candidates = map show_int (filter (\<lambda>n. n < MAX_UINT256 \<and> \<not> nf_consumed facts (nf_head facts) n) window) \<and>
      (candidates = [] \<longrightarrow> np_account opts \<and>
         list_all (\<lambda>n. n < MAX_UINT256 \<longrightarrow> nf_consumed facts (nf_finalized facts) n) window) \<and>
      list_all (\<lambda>c. \<exists>n. c = show_int n \<and> zUintStringBelowMax (JStr c) = Some c \<and>
        all_passed (checkNonceWindow n (nf_consumed facts (nf_head facts) n) (nf_floor facts (nf_head facts))
          (np_maxNonceAboveFloor opts))) candidates))
    (makeWhitelistNonceCandidates opts body)"
proof -
  have block: "pred_state (case_sum (\<lambda>_. True) (\<lambda>b. b = nf_head facts)) (nc_getBlock client)"
    using assms(2) by (simp add: serves_nonces_def)
  have "pred_state (case_sum (\<lambda>_. True) (\<lambda>cs. accepted_book opts (wl_chainId body) (wl_whitelistBook body) \<and> right_candidates opts facts cs))
      (makeWhitelistNonceCandidates opts body)"
    unfolding makeWhitelistNonceCandidates_def assms(1) option.case
    by (rule pred_state_bindE_sum [OF step_any], rule pred_state_bindE_sum [OF step_any],
        rule pred_state_bindE_sum [OF require_Inr], rule pred_state_bindE_sum [OF block]) (simp add: candidates_at_right [OF assms(2)])
  then show ?thesis
  proof (rule pred_state_mono, goal_cases)
    case (1 r)
    then show ?case
      using fresh_good [OF assms(3), of opts]
      by (cases r) (simp_all add: right_candidates_def nonce_window_eq Let_def list_all_iff good_candidate_def fresh_nonces_def)
  qed
qed


section \<open>The floor never skips an open nonce\<close>

text \<open>
  \<open>writes\<close> reads the floor transactions sent so far off the world: a write may fail before it is
  sent, and nothing else the client does sends one.
\<close>

definition records_writes :: "('w \<Rightarrow> (string \<times> int \<times> int) list) \<Rightarrow> 'w nonce_client \<Rightarrow> bool" where
  "records_writes writes client \<longleftrightarrow> (\<forall>L.
     (\<forall>a n k. hoare (\<lambda>w. writes w = L) (nc_setValidatorNonceFloor client a n k) (\<lambda>_ w. writes w = L \<or> writes w = L @ [(a, n, k)])) \<and>
     keeps (\<lambda>w. writes w = L) (nc_getChainId client) \<and> keeps (\<lambda>w. writes w = L) (nc_getBlock client) \<and>
     keeps (\<lambda>w. writes w = L) (nc_getFinalizedBlock client) \<and>
     (\<forall>a v b. keeps (\<lambda>w. writes w = L) (nc_isValidator client a v b)) \<and>
     (\<forall>a v b. keeps (\<lambda>w. writes w = L) (nc_validatorNonceFloor client a v b)) \<and>
     (\<forall>a v ns b. keeps (\<lambda>w. writes w = L) (nc_isNonceConsumed client a v ns b)) \<and>
     (\<forall>v. keeps (\<lambda>w. writes w = L) (nc_latestCount client v)) \<and> (\<forall>v. keeps (\<lambda>w. writes w = L) (nc_pendingCount client v)) \<and>
     (\<forall>h. keeps (\<lambda>w. writes w = L) (nc_receiptSuccess client h)))"

definition reads_as :: "('w, raised + 'a) state \<Rightarrow> 'a \<Rightarrow> bool" where
  "reads_as m v \<longleftrightarrow> (\<exists>w w'. run_state m w = (Inr v, w'))"

definition safe_advance :: "'w nonce_options \<Rightarrow> 'w nonce_client \<Rightarrow> nonce_facts \<Rightarrow> request_whitelisting_body \<Rightarrow> string \<times> int \<times> int \<Rightarrow> bool" where
  "safe_advance opts client facts body = (\<lambda>(address, newFloor, txNonce).
     address = wl_whitelistBook body \<and> accepted_book opts (wl_chainId body) address \<and> np_account opts \<and>
     nf_floor facts (nf_head facts) < newFloor \<and> newFloor < MAX_UINT256 \<and>
     (\<forall>n. nf_floor facts (nf_head facts) \<le> n \<and> n < newFloor \<longrightarrow> nf_consumed facts (nf_finalized facts) n) \<and>
     reads_as (nc_latestCount client (np_guardianSigner opts)) txNonce \<and>
     reads_as (nc_pendingCount client (np_guardianSigner opts)) txNonce)"

lemma reads_as_fact: "pred_state (case_sum (\<lambda>_. True) (reads_as m)) m"
  by (auto simp: pred_state_iff reads_as_def split: sum.split) (metis prod.collapse)

lemma keeps_require [keeps_rules]: "keeps I (require c m)"
  by (simp add: require_def error_def keeps_ret)

lemma advance_floor_safe:
  assumes rec: "records_writes writes client"
    and "serves_nonces client (wl_whitelistBook body) (np_guardianSigner opts) facts"
    and "accepted_book opts (wl_chainId body) (wl_whitelistBook body)"
    and ne: "nonce_window (nf_floor facts (nf_head facts)) (np_maxNonceAboveFloor opts) \<noteq> []"
  shows "hoare (\<lambda>w. writes w = L)
    (advance_floor opts client (wl_whitelistBook body) (nf_floor facts (nf_head facts))
      (nonce_window (nf_floor facts (nf_head facts)) (np_maxNonceAboveFloor opts)))
    (\<lambda>_ w. writes w = L \<or> (\<exists>x. writes w = L @ [x] \<and> safe_advance opts client facts body x))"
    (is "hoare ?I _ (\<lambda>_. ?J)")
proof -
  let ?F = "nf_floor facts (nf_head facts)" and ?v = "np_guardianSigner opts" and ?a = "wl_whitelistBook body"
  let ?ns = "nonce_window ?F (np_maxNonceAboveFloor opts)"
  let ?new = "?F + int (length ?ns)"
  have fin: "pred_state (case_sum (\<lambda>_. True) (\<lambda>b. b = nf_finalized facts)) (nc_getFinalizedBlock client)"
    and conf: "pred_state (case_sum (\<lambda>_. True) (\<lambda>cs. cs = map (nf_consumed facts (nf_finalized facts)) ?ns))
      (nc_isNonceConsumed client ?a ?v ?ns (nf_finalized facts))"
    using assms(2) by (auto simp: serves_nonces_def)
  have keep: "keeps ?I (nc_getFinalizedBlock client)" "keeps ?I (nc_isNonceConsumed client ?a ?v ?ns b)"
      "keeps ?I (nc_latestCount client ?v)" "keeps ?I (nc_pendingCount client ?v)" for b
    using rec by (simp_all add: records_writes_def)
  have receipt: "keeps ?J (nc_receiptSuccess client h)" for h
    using rec keeps_observed [of writes "nc_receiptSuccess client h" "\<lambda>s. s = L \<or> (\<exists>x. s = L @ [x] \<and> safe_advance opts client facts body x)"]
    by (simp add: records_writes_def)
  have sends: "hoare ?I (bindE (nc_setValidatorNonceFloor client ?a ?new k) (\<lambda>hash.
      bindE (nc_receiptSuccess client hash) (\<lambda>success.
      bindE (require success ''Whitelist nonce floor transaction reverted'') (\<lambda>_. ret (Inr []))))) (\<lambda>_. ?J)"
    if safe: "safe_advance opts client facts body (?a, ?new, k)" for k
  proof (rule hoare_bindE [where R = "\<lambda>_. ?J"])
    have "hoare ?I (nc_setValidatorNonceFloor client ?a ?new k) (\<lambda>_ w. writes w = L \<or> writes w = L @ [(?a, ?new, k)])"
      using rec by (simp add: records_writes_def)
    then show "hoare ?I (nc_setValidatorNonceFloor client ?a ?new k) (\<lambda>r w. case r of Inl e \<Rightarrow> ?J w | Inr _ \<Rightarrow> ?J w)"
      by (rule hoare_weaken) (use safe in \<open>auto split: sum.split\<close>)
    show "hoare ?J (bindE (nc_receiptSuccess client h) (\<lambda>success.
      bindE (require success ''Whitelist nonce floor transaction reverted'') (\<lambda>_. ret (Inr [])))) (\<lambda>_. ?J)" for h
      unfolding keeps_def [symmetric] by (intro keeps_rules receipt)
  qed
  have safe: "safe_advance opts client facts body (?a, ?new, k)"
    if "list_all (\<lambda>b. b) (map (nf_consumed facts (nf_finalized facts)) ?ns)" "?new < MAX_UINT256" "np_account opts"
      "reads_as (nc_latestCount client ?v) k" "reads_as (nc_pendingCount client ?v) k" for k
    using that assms(3) ne window_covers [of ?F _ "np_maxNonceAboveFloor opts"]
    by (auto simp: safe_advance_def list_all_iff)
  show ?thesis
    unfolding advance_floor_def Let_def
    by (rule hoare_bindE_fact [OF keep(1) fin], simp only:, rule hoare_bindE_fact [OF keep(2) conf], simp only:,
        (rule hoare_bindE_fact [OF keeps_require require_Inr])+, rule hoare_bindE_fact [OF keep(3) reads_as_fact],
        rule hoare_bindE_fact [OF keep(4) reads_as_fact], rule hoare_bindE_fact [OF keeps_require require_Inr], simp only:, rule sends)
      (auto intro: safe)
qed


text \<open>
  C9. The floor never skips an open nonce. Looking for candidates sends at most one floor
  transaction, and only one that is safe: for the accepted book of the request, to a floor below the
  sentinel all of whose nonces from the present floor on are consumed at the finalized block (so no
  later reorganisation can reopen one), with the account's next transaction nonce, when none of
  its transactions is pending.
\<close>

theorem floor_advance_safe:
  assumes "map_of (np_clients opts) (wl_chainId body) = Some client" and rec: "records_writes writes client"
    and "serves_nonces client (wl_whitelistBook body) (np_guardianSigner opts) facts"
    and "run_state (makeWhitelistNonceCandidates opts body) w = (r, w')"
  shows "writes w' = writes w \<or> (\<exists>newFloor txNonce. writes w' = writes w @ [(wl_whitelistBook body, newFloor, txNonce)] \<and>
    newFloor < MAX_UINT256 \<and> accepted_book opts (wl_chainId body) (wl_whitelistBook body) \<and> np_account opts \<and>
    (\<forall>n. nf_floor facts (nf_head facts) \<le> n \<and> n < newFloor \<longrightarrow> nf_consumed facts (nf_finalized facts) n) \<and>
    reads_as (nc_latestCount client (np_guardianSigner opts)) txNonce \<and>
    reads_as (nc_pendingCount client (np_guardianSigner opts)) txNonce)"
proof -
  let ?I = "\<lambda>v. writes v = writes w" and ?a = "wl_whitelistBook body" and ?v = "np_guardianSigner opts"
  let ?J = "\<lambda>v. writes v = writes w \<or> (\<exists>x. writes v = writes w @ [x] \<and> safe_advance opts client facts body x)"
  have block: "pred_state (case_sum (\<lambda>_. True) (\<lambda>b. b = nf_head facts)) (nc_getBlock client)"
    and nf: "pred_state (case_sum (\<lambda>_. True) (\<lambda>f. f = nf_floor facts (nf_head facts)))
      (nc_validatorNonceFloor client ?a ?v (nf_head facts))"
    using assms(3) by (auto simp: serves_nonces_def)
  have keep: "keeps ?I (nc_getChainId client)" "keeps ?I (nc_getBlock client)" "keeps ?I (nc_isValidator client ?a ?v b)"
      "keeps ?I (nc_validatorNonceFloor client ?a ?v b)" "keeps ?I (nc_isNonceConsumed client ?a ?v ns b)" for b ns
    using rec by (simp_all add: records_writes_def)
  have at_head: "hoare ?I (candidates_at opts client ?a (nf_head facts)) (\<lambda>_. ?J)"
    if "accepted_book opts (wl_chainId body) ?a"
    unfolding candidates_at_def Let_def
    by (rule hoare_bindE_fact [OF keep(3) step_any], rule hoare_bindE_fact [OF keeps_require require_Inr],
        rule hoare_bindE_fact [OF keep(4) nf], simp only:, rule hoare_bindE_fact [OF keeps_require require_Inr],
        rule hoare_bindE_fact [OF keep(5) step_any])
      (auto simp del: split_paired_Ex intro!: advance_floor_safe [OF rec assms(3) that] hoare_ret)
  have "hoare ?I (makeWhitelistNonceCandidates opts body) (\<lambda>_. ?J)"
    unfolding makeWhitelistNonceCandidates_def assms(1) option.case
    by (rule hoare_bindE_fact [OF keep(1) step_any], rule hoare_bindE_fact [OF keeps_require require_Inr],
        rule hoare_bindE_fact [OF keeps_require require_Inr], rule hoare_bindE_fact [OF keep(2) block], simp only:, rule at_head)
      auto
  from hoareD [OF this refl assms(4)] show ?thesis
    by (auto simp: safe_advance_def)
qed

text \<open>A book whose validator has used its first two nonces: the world is the list of floor transactions.\<close>

definition ex_nonce_client :: "(int \<Rightarrow> bool) \<Rightarrow> (string \<times> int \<times> int) list nonce_client" where
  "ex_nonce_client consumed =
     \<lparr>nc_getChainId = ret (Inr 1), nc_getBlock = ret (Inr 100), nc_getFinalizedBlock = ret (Inr 90),
      nc_isValidator = \<lambda>_ _ _. ret (Inr True), nc_validatorNonceFloor = \<lambda>_ _ _. ret (Inr 5),
      nc_isNonceConsumed = \<lambda>_ _ ns _. ret (Inr (map consumed ns)), nc_latestCount = \<lambda>_. ret (Inr 3), nc_pendingCount = \<lambda>_. ret (Inr 3),
      nc_setValidatorNonceFloor = \<lambda>a n k. State (\<lambda>ws. (Inr ''0xhash'', ws @ [(a, n, k)])), nc_receiptSuccess = \<lambda>_. ret (Inr True)\<rparr>"

definition ex_nonce_facts :: "(int \<Rightarrow> bool) \<Rightarrow> nonce_facts" where
  "ex_nonce_facts consumed = \<lparr>nf_head = 100, nf_finalized = 90, nf_floor = \<lambda>_. 5, nf_consumed = \<lambda>_. consumed\<rparr>"

definition ex_nonce_options :: "(int \<Rightarrow> bool) \<Rightarrow> (string \<times> int \<times> int) list nonce_options" where
  "ex_nonce_options consumed =
     \<lparr>np_clients = [(1, ex_nonce_client consumed)], np_guardianSigner = ''0x9'', np_account = True,
      np_acceptedBooks = Some [(1, [''0xb''])], np_maxNonceAboveFloor = 2\<rparr>"

definition ex_nonce_body :: request_whitelisting_body where
  "ex_nonce_body = \<lparr>wl_chainId = 1, wl_whitelistBook = ''0xb'', wl_operation = Whitelist, wl_requestContracts = [''0xc''],
     wl_nonce = ''0'', wl_deadline = 100\<rparr>"

lemma ex_serves_nonces:
  "map_of (np_clients (ex_nonce_options consumed)) (wl_chainId ex_nonce_body) = Some (ex_nonce_client consumed)"
  "serves_nonces (ex_nonce_client consumed) (wl_whitelistBook ex_nonce_body) (np_guardianSigner (ex_nonce_options consumed))
     (ex_nonce_facts consumed)"
  "records_writes (\<lambda>ws. ws) (ex_nonce_client consumed)" "0 \<le> nf_floor (ex_nonce_facts consumed) (nf_head (ex_nonce_facts consumed))"
  by (simp_all add: ex_nonce_options_def ex_nonce_body_def ex_nonce_client_def ex_nonce_facts_def serves_nonces_def
      records_writes_def keeps_ret hoare_def)

theorem candidates_in_window_witness:
  "result_of (makeWhitelistNonceCandidates (ex_nonce_options (\<lambda>n. n < 6)) ex_nonce_body) [] = Inr [''6'', ''7''] \<and>
   (\<exists>n. ''6'' = show_int n \<and> all_passed (checkNonceWindow n (n < 6) 5 2))"
proof -
  let ?c = "\<lambda>n :: int. n < 6"
  have run: "result_of (makeWhitelistNonceCandidates (ex_nonce_options ?c) ex_nonce_body) [] = Inr [''6'', ''7'']"
    by code_simp
  with pred_stateD' [OF candidates_in_window [OF ex_serves_nonces(1,2,4), of ?c], of "[]"]
  show ?thesis by (auto simp: result_of_def ex_nonce_facts_def ex_nonce_options_def)
qed

theorem floor_advance_safe_witness:
  "snd (run_state (makeWhitelistNonceCandidates (ex_nonce_options (\<lambda>n. n < 8)) ex_nonce_body) []) = [(''0xb'', 8, 3)] \<and>
   accepted_book (ex_nonce_options (\<lambda>n. n < 8)) (wl_chainId ex_nonce_body) (wl_whitelistBook ex_nonce_body)"
proof -
  let ?c = "\<lambda>n :: int. n < 8"
  obtain r ws where run: "run_state (makeWhitelistNonceCandidates (ex_nonce_options ?c) ex_nonce_body) [] = (r, ws)"
    by (metis surj_pair)
  have "snd (run_state (makeWhitelistNonceCandidates (ex_nonce_options ?c) ex_nonce_body) []) = [(''0xb'', 8, 3)]"
    by code_simp
  with run floor_advance_safe [OF ex_serves_nonces(1,3,2) run] show ?thesis
    by (auto simp: ex_nonce_facts_def)
qed

end
