(* ===== verification/Key_Signers.thy ===== *)
theory Key_Signers
  imports Coordinator
begin

text \<open>
  The signers of the coordinator that hold no key themselves: AWS KMS and GCP KMS
  (\<open>kms-signers.ts\<close>) and a remote HTTP signer (\<open>cli.ts\<close>). viem and noble (digest, DER decoding,
  public-key recovery, transaction serialisation), the KMS clients, \<open>fetch\<close> and base64 are
  parameters. \<open>verified_signer\<close> is the contract all of them meet.
\<close>

section \<open>Libraries\<close>

type_synonym ('w, 's) typed_data_signer = "typed_data \<Rightarrow> ('w, guardian_error + 's) state"

datatype bytes_like = Bytes bytes | Base64 string

record signer_lib =
  sl_hashTypedData :: "typed_data \<Rightarrow> string"
  sl_compactHex :: "bytes \<Rightarrow> string option"
  sl_recoverAddress :: "string \<Rightarrow> string \<Rightarrow> raised + string"
  sl_base64 :: "string \<Rightarrow> bytes"
  sl_hexToBytes :: "string \<Rightarrow> bytes"
  sl_isHex :: "string \<Rightarrow> bool"

text \<open>The signature recovers to the guardian's address for the digest of this very document.\<close>

definition recovers_to :: "signer_lib \<Rightarrow> string \<Rightarrow> string \<Rightarrow> string \<Rightarrow> bool" where
  "recovers_to lib digest signature guardianSigner \<longleftrightarrow>
     (\<exists>a. sl_recoverAddress lib digest signature = Inr a \<and> toLowerCase a = toLowerCase guardianSigner)"


section \<open>KMS\<close>

fun bytesLikeToUint8Array :: "signer_lib \<Rightarrow> bytes_like \<Rightarrow> bytes" where
  "bytesLikeToUint8Array lib (Bytes b) = b"
| "bytesLikeToUint8Array lib (Base64 s) = sl_base64 lib s"

fun try_parities :: "signer_lib \<Rightarrow> string \<Rightarrow> string \<Rightarrow> string \<Rightarrow> string list \<Rightarrow> raised + string" where
  "try_parities lib digest compactHex guardianSigner [] =
     Inl (RaisedError ''KMS signature did not recover to GUARDIAN_SIGNER_ADDRESS'')"
| "try_parities lib digest compactHex guardianSigner (v # vs) =
     (let signature = ''0x'' @ compactHex @ v in
      andThen (sl_recoverAddress lib digest signature) (\<lambda>recovered.
        if toLowerCase recovered = toLowerCase guardianSigner then Inr signature
        else try_parities lib digest compactHex guardianSigner vs))"

definition ethereumSignatureFromDer :: "signer_lib \<Rightarrow> string \<Rightarrow> bytes \<Rightarrow> string \<Rightarrow> raised + string" where
  "ethereumSignatureFromDer lib digest derSignature guardianSigner =
     (case sl_compactHex lib derSignature of
        None \<Rightarrow> Inl (RaisedError ''invalid signature'')
      | Some compactHex \<Rightarrow> try_parities lib digest compactHex guardianSigner [''1b'', ''1c''])"

definition kmsSignTypedData ::
    "signer_lib \<Rightarrow> string \<Rightarrow> string \<Rightarrow> (string \<Rightarrow> ('w, raised + bytes_like) state) \<Rightarrow> ('w, string) typed_data_signer" where
  "kmsSignTypedData lib label guardianSigner signDigest parameters =
     (let digest = sl_hashTypedData lib parameters in do {
        r \<leftarrow> signDigest digest;
        ret (case r of
            Inl cause \<Rightarrow> Inl (upstream503 (label @ '' sign request failed''))
          | Inr b \<Rightarrow>
              (case ethereumSignatureFromDer lib digest (bytesLikeToUint8Array lib b) guardianSigner of
                 Inl cause \<Rightarrow> Inl (InternalError (label @ '' signature was not usable''))
               | Inr signature \<Rightarrow> Inr signature))
      })"

text \<open>The clients: one request each, whose answer may lack the signature.\<close>

record aws_sign_input =
  aws_KeyId :: string
  aws_Message :: bytes
  aws_MessageType :: string
  aws_SigningAlgorithm :: string

definition awsSignDigest ::
    "signer_lib \<Rightarrow> (aws_sign_input \<Rightarrow> ('w, raised + bytes_like option) state) \<Rightarrow> string \<Rightarrow> string \<Rightarrow> ('w, raised + bytes_like) state" where
  "awsSignDigest lib send keyId digest =
     bindE (send \<lparr>aws_KeyId = keyId, aws_Message = sl_hexToBytes lib digest, aws_MessageType = ''DIGEST'',
         aws_SigningAlgorithm = ''ECDSA_SHA_256''\<rparr>)
       (\<lambda>r. ret (case r of None \<Rightarrow> Inl (RaisedError ''AWS KMS Sign response missing Signature'') | Some s \<Rightarrow> Inr s))"

definition gcpSignDigest ::
    "signer_lib \<Rightarrow> (string \<Rightarrow> bytes \<Rightarrow> ('w, raised + bytes_like option) state) \<Rightarrow> string \<Rightarrow> string \<Rightarrow> ('w, raised + bytes_like) state" where
  "gcpSignDigest lib asymmetricSign keyVersionName digest =
     bindE (asymmetricSign keyVersionName (sl_hexToBytes lib digest))
       (\<lambda>r. ret (case r of None \<Rightarrow> Inl (RaisedError ''GCP KMS Sign response missing signature'') | Some s \<Rightarrow> Inr s))"

definition awsKmsSignTypedData ::
    "signer_lib \<Rightarrow> (aws_sign_input \<Rightarrow> ('w, raised + bytes_like option) state) \<Rightarrow> string \<Rightarrow> string \<Rightarrow> ('w, string) typed_data_signer" where
  "awsKmsSignTypedData lib send keyId guardianSigner =
     kmsSignTypedData lib ''AWS KMS'' guardianSigner (awsSignDigest lib send keyId)"

definition gcpKmsSignTypedData ::
    "signer_lib \<Rightarrow> (string \<Rightarrow> bytes \<Rightarrow> ('w, raised + bytes_like option) state) \<Rightarrow> string \<Rightarrow> string \<Rightarrow> ('w, string) typed_data_signer" where
  "gcpKmsSignTypedData lib asymmetricSign keyVersionName guardianSigner =
     kmsSignTypedData lib ''GCP KMS'' guardianSigner (gcpSignDigest lib asymmetricSign keyVersionName)"

text \<open>
  The transaction account over a KMS key: it signs typed data and transactions (serialised,
  hashed and parsed by viem), and refuses arbitrary messages.
\<close>

record ('w, 'tx) local_account =
  la_address :: string
  la_signMessage :: "string \<Rightarrow> ('w, raised + string) state"
  la_signTypedData :: "typed_data \<Rightarrow> ('w, raised + string) state"
  la_signTransaction :: "'tx \<Rightarrow> ('w, raised + string) state"

record ('tx, 'sg) transaction_lib =
  tl_serialize :: "'tx \<Rightarrow> 'sg option \<Rightarrow> string"
  tl_keccak256 :: "string \<Rightarrow> string"
  tl_parseSignature :: "string \<Rightarrow> 'sg"

definition kms_sign ::
    "signer_lib \<Rightarrow> string \<Rightarrow> (string \<Rightarrow> ('w, raised + bytes_like) state) \<Rightarrow> string \<Rightarrow> ('w, raised + string) state" where
  "kms_sign lib guardianSigner signDigest digest =
     bindE (signDigest digest) (\<lambda>b. ret (ethereumSignatureFromDer lib digest (bytesLikeToUint8Array lib b) guardianSigner))"

definition kmsAccount ::
    "signer_lib \<Rightarrow> ('tx, 'sg) transaction_lib \<Rightarrow> string \<Rightarrow> (string \<Rightarrow> ('w, raised + bytes_like) state) \<Rightarrow> ('w, 'tx) local_account" where
  "kmsAccount lib txl guardianSigner signDigest =
     \<lparr>la_address = guardianSigner,
      la_signMessage = \<lambda>_. ret (Inl (RaisedError ''Guardian does not sign arbitrary messages'')),
      la_signTypedData = \<lambda>data. kms_sign lib guardianSigner signDigest (sl_hashTypedData lib data),
      la_signTransaction = \<lambda>tx.
        bindE (kms_sign lib guardianSigner signDigest (tl_keccak256 txl (tl_serialize txl tx None)))
          (\<lambda>s. ret (Inr (tl_serialize txl tx (Some (tl_parseSignature txl s)))))\<rparr>"

definition awsKmsAccount ::
    "signer_lib \<Rightarrow> ('tx, 'sg) transaction_lib \<Rightarrow> (aws_sign_input \<Rightarrow> ('w, raised + bytes_like option) state) \<Rightarrow> string \<Rightarrow> string \<Rightarrow>
     ('w, 'tx) local_account" where
  "awsKmsAccount lib txl send keyId guardianSigner = kmsAccount lib txl guardianSigner (awsSignDigest lib send keyId)"

definition gcpKmsAccount ::
    "signer_lib \<Rightarrow> ('tx, 'sg) transaction_lib \<Rightarrow> (string \<Rightarrow> bytes \<Rightarrow> ('w, raised + bytes_like option) state) \<Rightarrow> string \<Rightarrow> string \<Rightarrow>
     ('w, 'tx) local_account" where
  "gcpKmsAccount lib txl asymmetricSign keyVersionName guardianSigner =
     kmsAccount lib txl guardianSigner (gcpSignDigest lib asymmetricSign keyVersionName)"


section \<open>The remote signer\<close>

record remote_request =
  rm_url :: string
  rm_headers :: "(string \<times> string) list"
  rm_typedData :: typed_data

record remote_response =
  rm_status :: int
  rm_json :: "raised + json"

record 'w remote_host =
  rh_fetch :: "remote_request \<Rightarrow> ('w, raised + remote_response) state"
  rh_aborted :: "('w, bool) state"

definition isSignatureHex :: "signer_lib \<Rightarrow> string \<Rightarrow> bool" where
  "isSignatureHex lib v \<longleftrightarrow> sl_isHex lib v \<and> length v = 132"

definition signature_string :: "signer_lib \<Rightarrow> json \<Rightarrow> string option" where
  "signature_string lib j = (case j of JStr s \<Rightarrow> if isSignatureHex lib s then Some s else None | _ \<Rightarrow> None)"

definition signatureFromRemotePayload :: "signer_lib \<Rightarrow> json \<Rightarrow> string option" where
  "signatureFromRemotePayload lib answer =
     (case signature_string lib answer of
        Some s \<Rightarrow> Some s
      | None \<Rightarrow> (case json_field answer ''signature'' of None \<Rightarrow> None | Some j \<Rightarrow> signature_string lib j))"

definition remoteSignerRequestError :: "bool \<Rightarrow> int \<Rightarrow> guardian_error" where
  "remoteSignerRequestError aborted timeoutMs =
     upstream503 (if aborted then ''Remote signer request timed out after '' @ show_int timeoutMs @ ''ms''
                  else ''Remote signer request failed'')"

definition unreadable_error :: "bool \<Rightarrow> int \<Rightarrow> guardian_error" where
  "unreadable_error aborted timeoutMs =
     (if aborted then remoteSignerRequestError True timeoutMs else InternalError ''Remote signer response was not JSON'')"

definition checked_remote :: "signer_lib \<Rightarrow> string \<Rightarrow> typed_data \<Rightarrow> json \<Rightarrow> guardian_error + string" where
  "checked_remote lib guardianSigner parameters answer =
     (case signatureFromRemotePayload lib answer of
        None \<Rightarrow> Inl (InternalError ''Remote signer response missing signature'')
      | Some signature \<Rightarrow>
          (case sl_recoverAddress lib (sl_hashTypedData lib parameters) signature of
             Inl cause \<Rightarrow> Inl (InternalError ''Remote signer signature was not recoverable'')
           | Inr recovered \<Rightarrow>
               if toLowerCase recovered \<noteq> toLowerCase guardianSigner
               then Inl (InternalError ''Remote signer signature did not recover to GUARDIAN_SIGNER_ADDRESS'')
               else Inr signature))"

definition remoteHttpSignTypedData ::
    "signer_lib \<Rightarrow> 'w remote_host \<Rightarrow> string \<Rightarrow> string \<Rightarrow> int \<Rightarrow> string option \<Rightarrow> ('w, string) typed_data_signer" where
  "remoteHttpSignTypedData lib host url guardianSigner timeoutMs bearerToken parameters = do {
     r \<leftarrow> rh_fetch host \<lparr>rm_url = url,
       rm_headers = [(''content-type'', ''application/json'')] @
         (case bearerToken of None \<Rightarrow> [] | Some t \<Rightarrow> if t = [] then [] else [(''authorization'', ''Bearer '' @ t)]),
       rm_typedData = parameters\<rparr>;
     case r of
       Inl cause \<Rightarrow> do { aborted \<leftarrow> rh_aborted host; ret (Inl (remoteSignerRequestError aborted timeoutMs)) }
     | Inr response \<Rightarrow>
         if \<not> (200 \<le> rm_status response \<and> rm_status response \<le> 299) then
           ret (Inl (UpstreamUnavailableError (''Remote signer returned HTTP '' @ show_int (rm_status response))
             (if rm_status response \<ge> 500 then HTTP503 else HTTP502) None))
         else (case rm_json response of
             Inl cause \<Rightarrow> do { aborted \<leftarrow> rh_aborted host; ret (Inl (unreadable_error aborted timeoutMs)) }
           | Inr answer \<Rightarrow> ret (checked_remote lib guardianSigner parameters answer))
   }"


section \<open>The contract\<close>

locale verified_signer =
  fixes lib :: signer_lib and guardianSigner :: string and sign :: "('w, string) typed_data_signer"
  assumes checked: "pred_state (case_sum is_signer_error
    (\<lambda>s. recovers_to lib (sl_hashTypedData lib td) s guardianSigner)) (sign td)"
begin

lemma signed_recovers: "run_state (sign td) w = (Inr s, w') \<Longrightarrow> recovers_to lib (sl_hashTypedData lib td) s guardianSigner"
  using pred_stateD' [OF checked, of td w] by simp

lemma refused: "run_state (sign td) w = (Inl e, w') \<Longrightarrow> is_signer_error e"
  using pred_stateD' [OF checked, of td w] by simp

end

lemma try_parities_Inr:
  "try_parities lib digest compactHex guardianSigner vs = Inr s \<Longrightarrow> recovers_to lib digest s guardianSigner \<and> (\<exists>v \<in> set vs. s = ''0x'' @ compactHex @ v)"
  by (induction vs) (auto simp: Let_def andThen_Inr recovers_to_def split: if_splits)

lemma ethereumSignatureFromDer_Inr:
  "ethereumSignatureFromDer lib digest der guardianSigner = Inr s \<Longrightarrow> recovers_to lib digest s guardianSigner"
  by (auto simp: ethereumSignatureFromDer_def simp del: try_parities.simps dest: try_parities_Inr split: option.splits)

lemma kms_verified: "verified_signer lib guardianSigner (kmsSignTypedData lib label guardianSigner signDigest)"
  by unfold_locales
    (auto simp: kmsSignTypedData_def Let_def upstream503_def dest: ethereumSignatureFromDer_Inr
      intro!: pred_state_bind_any split: sum.split)

lemma remote_verified: "verified_signer lib guardianSigner (remoteHttpSignTypedData lib host url guardianSigner timeoutMs bearerToken)"
  by unfold_locales
    (auto simp: remoteHttpSignTypedData_def checked_remote_def upstream503_def remoteSignerRequestError_def
      unreadable_error_def recovers_to_def intro!: pred_state_bind_any split: sum.split option.split)

interpretation aws: verified_signer lib guardianSigner "awsKmsSignTypedData lib send keyId guardianSigner"
  for lib guardianSigner send keyId
  unfolding awsKmsSignTypedData_def by (rule kms_verified)

interpretation gcp: verified_signer lib guardianSigner "gcpKmsSignTypedData lib asymmetricSign keyVersionName guardianSigner"
  for lib guardianSigner asymmetricSign keyVersionName
  unfolding gcpKmsSignTypedData_def by (rule kms_verified)

interpretation remote: verified_signer lib guardianSigner "remoteHttpSignTypedData lib host url guardianSigner timeoutMs bearerToken"
  for lib guardianSigner host url timeoutMs bearerToken
  by (rule remote_verified)


lemma try_parities_complete:
  "v \<in> set vs \<Longrightarrow> recovers_to lib digest (''0x'' @ compactHex @ v) guardianSigner \<Longrightarrow>
   list_all (\<lambda>v. \<exists>a. sl_recoverAddress lib digest (''0x'' @ compactHex @ v) = Inr a) vs \<Longrightarrow>
   \<exists>s. try_parities lib digest compactHex guardianSigner vs = Inr s"
  by (induction vs) (auto simp: Let_def recovers_to_def)

text \<open>What KMS returned is usable: one of its two forms recovers to the guardian, and both recover to some address.\<close>

definition usable_der :: "signer_lib \<Rightarrow> string \<Rightarrow> bytes \<Rightarrow> string \<Rightarrow> bool" where
  "usable_der lib digest der guardianSigner \<longleftrightarrow>
     (case sl_compactHex lib der of None \<Rightarrow> False
      | Some c \<Rightarrow>
          list_ex (\<lambda>v. recovers_to lib digest (''0x'' @ c @ v) guardianSigner) [''1b'', ''1c''] \<and>
          list_all (\<lambda>v. isr (sl_recoverAddress lib digest (''0x'' @ c @ v))) [''1b'', ''1c''])"

definition compact_form :: "signer_lib \<Rightarrow> bytes \<Rightarrow> string \<Rightarrow> bool" where
  "compact_form lib der s \<longleftrightarrow>
     (case sl_compactHex lib der of None \<Rightarrow> False | Some c \<Rightarrow> s \<in> {''0x'' @ c @ ''1b'', ''0x'' @ c @ ''1c''})"

lemma der_Inr:
  assumes "ethereumSignatureFromDer lib digest der guardianSigner = Inr s"
  shows "recovers_to lib digest s guardianSigner \<and> compact_form lib der s"
proof -
  from assms obtain c where c: "sl_compactHex lib der = Some c" "try_parities lib digest c guardianSigner [''1b'', ''1c''] = Inr s"
    by (auto simp: ethereumSignatureFromDer_def simp del: try_parities.simps split: option.splits)
  from try_parities_Inr [OF c(2)] c(1) show ?thesis by (auto simp: compact_form_def)
qed

lemma der_Inl:
  assumes "ethereumSignatureFromDer lib digest der guardianSigner = Inl e"
  shows "\<not> usable_der lib digest der guardianSigner"
proof (cases "sl_compactHex lib der")
  case (Some c)
  have e: "\<not> (\<exists>s. try_parities lib digest c guardianSigner [''1b'', ''1c''] = Inr s)"
    using assms Some by (simp add: ethereumSignatureFromDer_def del: try_parities.simps)
  have isr: "isr r \<longleftrightarrow> (\<exists>a. r = Inr a)" for r :: "raised + string" by (cases r) simp_all
  show ?thesis
    using e try_parities_complete [of _ "[''1b'', ''1c'']" lib digest c guardianSigner]
    unfolding usable_der_def Some option.case isr list_ex_iff by metis
qed (simp add: usable_der_def)

text \<open>
  C15. A KMS signature that leaves the signer recovers to the guardian for the digest of this very
  document, and is the compact form of what KMS returned with one of the two recovery ids. It is
  refused with 503 exactly if the KMS request failed, and with 500 only if the answer is not
  usable; a signature of the guardian's key is never refused for its parity.
\<close>

theorem kms_outcome:
  "(case result_of (signDigest (sl_hashTypedData lib td)) w of
      Inl cause \<Rightarrow>
        result_of (kmsSignTypedData lib label guardianSigner signDigest td) w = Inl (upstream503 (label @ '' sign request failed''))
    | Inr b \<Rightarrow>
        (case result_of (kmsSignTypedData lib label guardianSigner signDigest td) w of
           Inl e \<Rightarrow> e = InternalError (label @ '' signature was not usable'') \<and>
             \<not> usable_der lib (sl_hashTypedData lib td) (bytesLikeToUint8Array lib b) guardianSigner
         | Inr s \<Rightarrow> recovers_to lib (sl_hashTypedData lib td) s guardianSigner \<and>
             compact_form lib (bytesLikeToUint8Array lib b) s))"
proof -
  let ?d = "sl_hashTypedData lib td"
  obtain r w1 where d: "run_state (signDigest ?d) w = (r, w1)" by (metis surj_pair)
  show ?thesis
  proof (cases r)
    case (Inr b)
    with d show ?thesis
      using der_Inr [of lib ?d "bytesLikeToUint8Array lib b" guardianSigner] der_Inl [of lib ?d "bytesLikeToUint8Array lib b" guardianSigner]
      by (cases "ethereumSignatureFromDer lib ?d (bytesLikeToUint8Array lib b) guardianSigner")
        (simp_all add: kmsSignTypedData_def result_of_def Let_def)
  qed (use d in \<open>simp add: kmsSignTypedData_def result_of_def Let_def\<close>)
qed

text \<open>
  What a transaction account makes of a digest: KMS signed it, one of the two forms of what KMS
  returned recovers to the guardian for it, and \<open>ok\<close> holds of that form and the result; or the call
  to KMS failed with this very error, or what it returned is not usable.
\<close>

definition kms_answered ::
    "signer_lib \<Rightarrow> string \<Rightarrow> (string \<Rightarrow> ('w, raised + bytes_like) state) \<Rightarrow> string \<Rightarrow> (string \<Rightarrow> 'a \<Rightarrow> bool) \<Rightarrow> 'w \<Rightarrow> raised + 'a \<Rightarrow> bool" where
  "kms_answered lib guardianSigner signDigest digest ok w r \<longleftrightarrow>
     (case r of
        Inr x \<Rightarrow> \<exists>b s. result_of (signDigest digest) w = Inr b \<and> recovers_to lib digest s guardianSigner \<and>
          compact_form lib (bytesLikeToUint8Array lib b) s \<and> ok s x
      | Inl e \<Rightarrow> (case result_of (signDigest digest) w of
            Inl cause \<Rightarrow> e = cause
          | Inr b \<Rightarrow> \<not> usable_der lib digest (bytesLikeToUint8Array lib b) guardianSigner))"

lemma kms_sign_answered:
  "kms_answered lib guardianSigner signDigest digest (\<lambda>s x. x = s) w (result_of (kms_sign lib guardianSigner signDigest digest) w)"
proof -
  obtain r w1 where d: "run_state (signDigest digest) w = (r, w1)" by (metis surj_pair)
  show ?thesis
  proof (cases r)
    case (Inr b)
    with d show ?thesis
      using der_Inr [of lib digest "bytesLikeToUint8Array lib b" guardianSigner] der_Inl [of lib digest "bytesLikeToUint8Array lib b" guardianSigner]
      by (cases "ethereumSignatureFromDer lib digest (bytesLikeToUint8Array lib b) guardianSigner")
        (simp_all add: kms_sign_def kms_answered_def result_of_def)
  qed (use d in \<open>simp add: kms_sign_def kms_answered_def result_of_def\<close>)
qed

lemma kms_account_answers:
  fixes lib :: signer_lib and txl :: "('tx, 'sg) transaction_lib" and guardianSigner :: string
    and signDigest :: "string \<Rightarrow> ('w, raised + bytes_like) state"
  defines "account \<equiv> kmsAccount lib txl guardianSigner signDigest"
  shows "kms_answered lib guardianSigner signDigest (sl_hashTypedData lib td) (\<lambda>s x. x = s) w (result_of (la_signTypedData account td) w)"
    and "kms_answered lib guardianSigner signDigest (tl_keccak256 txl (tl_serialize txl tx None))
      (\<lambda>s x. x = tl_serialize txl tx (Some (tl_parseSignature txl s))) w (result_of (la_signTransaction account tx) w)"
    and "run_state (la_signMessage account m) w = (Inl (RaisedError ''Guardian does not sign arbitrary messages''), w)"
proof -
  show "kms_answered lib guardianSigner signDigest (sl_hashTypedData lib td) (\<lambda>s x. x = s) w (result_of (la_signTypedData account td) w)"
    by (simp add: account_def kmsAccount_def kms_sign_answered)
  show "kms_answered lib guardianSigner signDigest (tl_keccak256 txl (tl_serialize txl tx None))
      (\<lambda>s x. x = tl_serialize txl tx (Some (tl_parseSignature txl s))) w (result_of (la_signTransaction account tx) w)"
    using kms_sign_answered [of lib guardianSigner signDigest "tl_keccak256 txl (tl_serialize txl tx None)" w]
    by (auto simp: account_def kmsAccount_def kms_answered_def result_of_def split: sum.splits prod.splits)
  show "run_state (la_signMessage account m) w = (Inl (RaisedError ''Guardian does not sign arbitrary messages''), w)"
    by (simp add: account_def kmsAccount_def)
qed

text \<open>
  C37. The keyless signers. Whatever AWS KMS, GCP KMS or the remote signer answer, what comes out of
  the three typed-data signers is a signature that recovers to the guardian's address for the digest
  of this very document, or an internal (500) or upstream (502, 503) error. The transaction account
  over either KMS key has the guardian's address; it signs a typed document, and a transaction, only
  with a form of what KMS returned for its digest (for a transaction the hash of its unsigned
  serialisation, which is then serialised again with that signature) that recovers to this address;
  it fails exactly with the error of the KMS call, or where no usable signature came back; and it
  signs no arbitrary message, without asking KMS.
\<close>

theorem keyless_signers_verified:
  "pred_state (case_sum is_signer_error (\<lambda>s. recovers_to lib (sl_hashTypedData lib td) s guardianSigner))
     (awsKmsSignTypedData lib send keyId guardianSigner td) \<and>
   pred_state (case_sum is_signer_error (\<lambda>s. recovers_to lib (sl_hashTypedData lib td) s guardianSigner))
     (gcpKmsSignTypedData lib asymmetricSign keyVersionName guardianSigner td) \<and>
   pred_state (case_sum is_signer_error (\<lambda>s. recovers_to lib (sl_hashTypedData lib td) s guardianSigner))
     (remoteHttpSignTypedData lib host url guardianSigner timeoutMs bearerToken td) \<and>
   list_all (\<lambda>(account, signDigest). la_address account = guardianSigner \<and>
       kms_answered lib guardianSigner signDigest (sl_hashTypedData lib td) (\<lambda>s signed. signed = s) w
         (result_of (la_signTypedData account td) w) \<and>
       kms_answered lib guardianSigner signDigest (tl_keccak256 txl (tl_serialize txl tx None))
         (\<lambda>s signed. signed = tl_serialize txl tx (Some (tl_parseSignature txl s))) w
         (result_of (la_signTransaction account tx) w) \<and>
       run_state (la_signMessage account m) w = (Inl (RaisedError ''Guardian does not sign arbitrary messages''), w))
     [(awsKmsAccount lib txl send keyId guardianSigner, awsSignDigest lib send keyId),
      (gcpKmsAccount lib txl asymmetricSign keyVersionName guardianSigner, gcpSignDigest lib asymmetricSign keyVersionName)]"
  by (intro conjI aws.checked gcp.checked remote.checked)
    (simp add: awsKmsAccount_def gcpKmsAccount_def kms_account_answers, simp add: kmsAccount_def)

end
