(* ===== verification/Assembly.thy ===== *)
theory Assembly
  imports Chain_Approval Key_Signers Whitelist_Nonces
begin

text \<open>
  The guardian as the coordinator's command line assembles it from the environment (\<open>cli.ts\<close>): the
  signer of the configured provider, the chain clients, the policies of the four runners and the
  nonce candidates. viem, the KMS clients and the process (clock, timer, random ids) are
  parameters.
\<close>

section \<open>Parameters\<close>

text \<open>\<open>al_host\<close> carries the clock, the timer and the random ids of the process.\<close>

record ('w, 'k) assembly_lib =
  al_parseUrl :: url_parser
  al_isAddress :: "string \<Rightarrow> bool"
  al_client :: "chain_definition \<Rightarrow> string \<Rightarrow> 'k"
  al_signerLib :: signer_lib
  al_privateKeyAddress :: "string \<Rightarrow> raised + string"
  al_localSign :: "string \<Rightarrow> typed_data \<Rightarrow> ('w, thrown + string) state"
  al_awsSend :: "string option \<Rightarrow> aws_sign_input \<Rightarrow> ('w, raised + bytes_like option) state"
  al_gcpSign :: "string \<Rightarrow> bytes \<Rightarrow> ('w, raised + bytes_like option) state"
  al_remoteHost :: "'w remote_host"
  al_host :: "('w, 'k) server_host"
  al_readDomain :: "'k \<Rightarrow> string \<Rightarrow> ('w, thrown + domain_name_version) state"
  al_view1 :: "'k run_context \<Rightarrow> 'w a1_ctx"
  al_view2 :: "'k run_context \<Rightarrow> 'w a2_ctx"
  al_view3 :: "'k run_context \<Rightarrow> 'w a3_ctx"
  al_view4 :: "'k run_context \<Rightarrow> 'w a4_ctx"
  al_nonceClient :: "'k \<Rightarrow> 'w nonce_client"


section \<open>The signer\<close>

record 'w loaded_signer =
  ls_guardianSigner :: string
  ls_signTypedData :: "typed_data \<Rightarrow> ('w, guardian_error + string) state"
  ls_account :: bool

definition aws_region :: "env \<Rightarrow> string option" where
  "aws_region env =
     (case nonempty_trim (env ''AWS_REGION'') of Some r \<Rightarrow> Some r | None \<Rightarrow> nonempty_trim (env ''AWS_DEFAULT_REGION''))"

definition DEFAULT_REMOTE_SIGNER_TIMEOUT_MS :: int where "DEFAULT_REMOTE_SIGNER_TIMEOUT_MS = 6000"

definition remote_signer :: "('w, 'k) assembly_lib \<Rightarrow> env \<Rightarrow> string \<Rightarrow> raised + 'w loaded_signer" where
  "remote_signer lib env guardianSigner =
     andThen (required env ''GUARDIAN_REMOTE_SIGNER_URL'') (\<lambda>raw.
     andThen (remoteSignerUrl (al_parseUrl lib) raw) (\<lambda>url.
     andThen (positiveInt (env ''GUARDIAN_REMOTE_SIGNER_TIMEOUT_MS'') DEFAULT_REMOTE_SIGNER_TIMEOUT_MS) (\<lambda>timeoutMs.
     Inr \<lparr>ls_guardianSigner = guardianSigner,
       ls_signTypedData = remoteHttpSignTypedData (al_signerLib lib) (al_remoteHost lib) url guardianSigner timeoutMs
         (nonempty_trim (env ''GUARDIAN_REMOTE_SIGNER_BEARER_TOKEN'')),
       ls_account = False\<rparr>)))"

definition loadGuardianSigner :: "('w, 'k) assembly_lib \<Rightarrow> env \<Rightarrow> raised + 'w loaded_signer" where
  "loadGuardianSigner lib env =
     (let provider = (case nonempty_trim (env ''GUARDIAN_SIGNER_PROVIDER'') of None \<Rightarrow> ''private_key'' | Some p \<Rightarrow> p) in
      if provider = ''private_key'' then
        andThen (required env ''GUARDIAN_SIGNER_KEY'') (\<lambda>privateKey.
        andThen (al_privateKeyAddress lib privateKey) (\<lambda>address.
        Inr \<lparr>ls_guardianSigner = address, ls_signTypedData = privateKeyToSignTypedData (al_localSign lib privateKey), ls_account = True\<rparr>))
      else if provider = ''remote_http'' then
        andThen (requiredAddress (al_isAddress lib) env ''GUARDIAN_SIGNER_ADDRESS'') (remote_signer lib env)
      else if provider = ''aws_kms'' then
        andThen (requiredAddress (al_isAddress lib) env ''GUARDIAN_SIGNER_ADDRESS'') (\<lambda>guardianSigner.
        andThen (required env ''GUARDIAN_AWS_KMS_KEY_ID'') (\<lambda>keyId.
        Inr \<lparr>ls_guardianSigner = guardianSigner,
          ls_signTypedData = awsKmsSignTypedData (al_signerLib lib) (al_awsSend lib (aws_region env)) keyId guardianSigner,
          ls_account = True\<rparr>))
      else if provider = ''gcp_kms'' then
        andThen (requiredAddress (al_isAddress lib) env ''GUARDIAN_SIGNER_ADDRESS'') (\<lambda>guardianSigner.
        andThen (required env ''GUARDIAN_GCP_KMS_KEY_VERSION'') (\<lambda>keyVersionName.
        Inr \<lparr>ls_guardianSigner = guardianSigner,
          ls_signTypedData = gcpKmsSignTypedData (al_signerLib lib) (al_gcpSign lib) keyVersionName guardianSigner,
          ls_account = True\<rparr>))
      else Inl (RaisedError (''unsupported GUARDIAN_SIGNER_PROVIDER '' @ provider @
        ''; expected private_key, remote_http, aws_kms, or gcp_kms'')))"


section \<open>The policies\<close>

definition requiredMap :: "('w, 'k) assembly_lib \<Rightarrow> env \<Rightarrow> string \<Rightarrow> raised + chain_sets" where
  "requiredMap lib env name = andThen (required env name) (\<lambda>v. parseAddressMap (al_isAddress lib) v name)"

definition optionalMap :: "('w, 'k) assembly_lib \<Rightarrow> env \<Rightarrow> string \<Rightarrow> raised + chain_sets option" where
  "optionalMap lib env name =
     (case nonempty_trim (env name) of None \<Rightarrow> Inr None
      | Some _ \<Rightarrow> andThen (parseAddressMap (al_isAddress lib) (the (env name)) name) (\<lambda>m. Inr (Some m)))"

definition DEFAULT_MAX_DEADLINE_SECONDS_AHEAD :: int where "DEFAULT_MAX_DEADLINE_SECONDS_AHEAD = 600"
definition DEFAULT_EVENT_SCAN_BLOCK_RANGE :: int where "DEFAULT_EVENT_SCAN_BLOCK_RANGE = 10000"
definition DEFAULT_EVENT_SCAN_MAX_LOOKBACK_BLOCKS :: int where "DEFAULT_EVENT_SCAN_MAX_LOOKBACK_BLOCKS = 1000000"
definition DEFAULT_MAX_NONCE_ABOVE_FLOOR :: int where "DEFAULT_MAX_NONCE_ABOVE_FLOOR = 100"
definition DEFAULT_SWAP_PRICE_TOLERANCE_BPS :: int where "DEFAULT_SWAP_PRICE_TOLERANCE_BPS = 1"

definition requestBindingPolicy :: "('w, 'k) assembly_lib \<Rightarrow> env \<Rightarrow> int \<Rightarrow> raised + a1_policy" where
  "requestBindingPolicy lib env maxDeadline =
     andThen (optionalMap lib env ''GUARDIAN_TRUSTED_REQUEST_CONTRACTS'') (\<lambda>trusted.
     andThen (optionalMap lib env ''GUARDIAN_ACCEPTED_RETARGETTERS'') (\<lambda>retargetters.
     andThen (nonNegativeInt (env ''GUARDIAN_MIN_RETARGETTER_REPAYMENT_BUFFER_SECONDS'')
       DEFAULT_MIN_RETARGETTER_REPAYMENT_BUFFER_SECONDS) (\<lambda>buffer.
     andThen (requiredMap lib env ''GUARDIAN_REQUEST_FACTORIES'') (\<lambda>factories.
     andThen (optionalMap lib env ''GUARDIAN_FLASH_LOAN_REQUEST_FACTORIES'') (\<lambda>flashFactories.
     andThen (optionalMap lib env ''GUARDIAN_FLASH_LOAN_REQUEST_EXECUTORS'') (\<lambda>flashExecutors.
     andThen (requiredMap lib env ''GUARDIAN_REQUEST_OWNERS'') (\<lambda>owners.
     andThen (requiredMap lib env ''GUARDIAN_REQUEST_PULLERS'') (\<lambda>pullers.
     andThen (requiredMap lib env ''GUARDIAN_REQUEST_CONSUMERS'') (\<lambda>consumers.
     andThen (positiveBigInt (env ''GUARDIAN_EVENT_SCAN_BLOCK_RANGE'') DEFAULT_EVENT_SCAN_BLOCK_RANGE) (\<lambda>blockRange.
     andThen (positiveBigInt (env ''GUARDIAN_EVENT_SCAN_MAX_LOOKBACK_BLOCKS'') DEFAULT_EVENT_SCAN_MAX_LOOKBACK_BLOCKS) (\<lambda>lookback.
     andThen (lookbackExhaustedDisposition (env ''GUARDIAN_ON_LOOKBACK_EXHAUSTED'')) (\<lambda>exhausted.
     Inr \<lparr>ap_maxDeadlineSecondsAhead = maxDeadline, ap_trustedRequestContracts = trusted, ap_acceptedRetargetters = retargetters,
       ap_minRetargetterRepaymentBufferSeconds = Some (num_of_int buffer), ap_acceptedRequestFactories = factories,
       ap_acceptedFlashLoanRequestFactories = flashFactories, ap_acceptedFlashLoanRequestExecutors = flashExecutors,
       ap_acceptedOwners = owners, ap_acceptedPullers = pullers, ap_acceptedConsumers = consumers,
       ap_eventScanBlockRange = blockRange, ap_eventScanMaxLookbackBlocks = lookback, ap_eventScanDeadlineMs = None,
       ap_onLookbackExhausted = Some exhausted\<rparr>))))))))))))"

definition fundPolicy :: "('w, 'k) assembly_lib \<Rightarrow> env \<Rightarrow> int \<Rightarrow> raised + a2_policy" where
  "fundPolicy lib env maxDeadline =
     andThen (requiredMap lib env ''GUARDIAN_ACCEPTED_FUNDS'') (\<lambda>funds.
     andThen (requiredMap lib env ''GUARDIAN_FUND_OWNERS'') (\<lambda>owners.
     Inr \<lparr>fp_maxDeadlineSecondsAhead = maxDeadline, fp_acceptedFunds = funds, fp_acceptedOwners = owners\<rparr>))"

definition swapPolicy :: "('w, 'k) assembly_lib \<Rightarrow> env \<Rightarrow> int \<Rightarrow> raised + a3_policy" where
  "swapPolicy lib env maxDeadline =
     andThen (requiredMap lib env ''GUARDIAN_PM_FACTORIES'') (\<lambda>factories.
     andThen (requiredMap lib env ''GUARDIAN_PM_OWNERS'') (\<lambda>owners.
     andThen (nonNegativeInt (env ''GUARDIAN_SWAP_PRICE_TOLERANCE_BPS'') DEFAULT_SWAP_PRICE_TOLERANCE_BPS) (\<lambda>bps.
     Inr \<lparr>sp_maxDeadlineSecondsAhead = maxDeadline, sp_acceptedPmFactories = factories, sp_acceptedPmOwners = owners,
       sp_swapPriceToleranceBps = num_of_int bps\<rparr>)))"

definition whitelistPolicy :: "a1_policy \<Rightarrow> int \<Rightarrow> chain_sets option \<Rightarrow> a4_policy" where
  "whitelistPolicy p maxNonceAboveFloor books =
     a1_policy.extend p \<lparr>wp_maxNonceAboveFloor = maxNonceAboveFloor, wp_acceptedWhitelistBooks = books, wp_maxRequestContracts = None\<rparr>"


section \<open>The guardian\<close>

record ('w, 'k) guardian_parts =
  gp_signer :: "'w loaded_signer"
  gp_clients :: "(int, 'k) omap"
  gp_a1 :: a1_policy
  gp_books :: "chain_sets option"
  gp_signMs :: int
  gp_maxNonceAboveFloor :: int
  gp_a2 :: a2_policy
  gp_a3 :: a3_policy

text \<open>Everything that can be refused at start-up, in the order of the source.\<close>

definition guardian_parts :: "('w, 'k) assembly_lib \<Rightarrow> env \<Rightarrow> raised + ('w, 'k) guardian_parts" where
  "guardian_parts lib env =
     andThen (loadGuardianSigner lib env) (\<lambda>signer.
     andThen (required env ''GUARDIAN_CHAIN_RPC_URLS'') (\<lambda>urls.
     andThen (parseRpcClients (al_client lib) urls) (\<lambda>clients.
     andThen (positiveInt (env ''GUARDIAN_MAX_DEADLINE_SECONDS_AHEAD'') DEFAULT_MAX_DEADLINE_SECONDS_AHEAD) (\<lambda>maxDeadline.
     andThen (requestBindingPolicy lib env maxDeadline) (\<lambda>a1.
     andThen (optionalMap lib env ''GUARDIAN_ACCEPTED_WHITELIST_BOOKS'') (\<lambda>books.
     andThen (positiveInt (env ''GUARDIAN_SIGN_TIMEOUT_MS'') 6000) (\<lambda>signMs.
     andThen (nonNegativeBigInt (env ''GUARDIAN_MAX_NONCE_ABOVE_FLOOR'') DEFAULT_MAX_NONCE_ABOVE_FLOOR) (\<lambda>maxNonce.
     andThen (fundPolicy lib env maxDeadline) (\<lambda>a2.
     andThen (swapPolicy lib env maxDeadline) (\<lambda>a3.
     Inr \<lparr>gp_signer = signer, gp_clients = clients, gp_a1 = a1, gp_books = books, gp_signMs = signMs,
       gp_maxNonceAboveFloor = maxNonce, gp_a2 = a2, gp_a3 = a3\<rparr>))))))))))"

definition shipped_of :: "('w, 'k) assembly_lib \<Rightarrow> ('w, 'k) guardian_parts \<Rightarrow> ('w, 'k) shipped" where
  "shipped_of lib p =
     \<lparr>sa_hashTypedData = sl_hashTypedData (al_signerLib lib), sa_guardianSigner = ls_guardianSigner (gp_signer p),
      sa_domainCache = None, sa_domainCacheTtlMs = None, sa_readDomain = al_readDomain lib,
      sa_signTypedData = ls_signTypedData (gp_signer p),
      sa_view1 = al_view1 lib, sa_view2 = al_view2 lib, sa_view3 = al_view3 lib, sa_view4 = al_view4 lib,
      sa_a1 = \<lparr>ad_policy = gp_a1 p, ad_cache = None, ad_cacheTtlMs = None\<rparr>, sa_a2 = gp_a2 p, sa_a3 = gp_a3 p,
      sa_a4 = \<lparr>wd_policy = whitelistPolicy (gp_a1 p) (gp_maxNonceAboveFloor p) (gp_books p),
        wd_guardianSigner = ls_guardianSigner (gp_signer p), wd_cache = None, wd_cacheTtlMs = None\<rparr>\<rparr>"

definition nonce_options_of :: "('w, 'k) assembly_lib \<Rightarrow> ('w, 'k) guardian_parts \<Rightarrow> 'w nonce_options" where
  "nonce_options_of lib p =
     \<lparr>np_clients = map (\<lambda>(c, k). (c, al_nonceClient lib k)) (gp_clients p),
      np_guardianSigner = ls_guardianSigner (gp_signer p), np_account = ls_account (gp_signer p),
      np_acceptedBooks = gp_books p, np_maxNonceAboveFloor = gp_maxNonceAboveFloor p\<rparr>"

definition chain_client :: "(int, 'k) omap \<Rightarrow> int \<Rightarrow> ('w, raised + (guardian_error + 'k)) state" where
  "chain_client clients chainId =
     ret (Inr (case map_of clients chainId of
         Some k \<Rightarrow> Inr k
       | None \<Rightarrow> Inl (UnsupportedChainError (''Unsupported chain '' @ show_int chainId) chainId)))"

definition guardian_of :: "('w, 'k) assembly_lib \<Rightarrow> env \<Rightarrow> ('w, 'k) guardian_parts \<Rightarrow> ('w, 'k) coordinator_guardian" where
  "guardian_of lib env p =
     (let sa = shipped_of lib p in
      \<lparr>cg_host = install sa ((al_host lib)
         \<lparr>sh_build := (case env ''BUILD_ID'' of None \<Rightarrow> ''0.1.0'' | Some b \<Rightarrow> b),
          sh_guardianSigner := ls_guardianSigner (gp_signer p),
          sh_supportedChains := sort (map fst (gp_clients p)),
          sh_probeUpstream := None,
          sh_getChainClient := chain_client (gp_clients p)\<rparr>),
       cg_timeouts = Some \<lparr>gt_authenticateMs = None, gt_rateLimitMs = None, gt_livenessMs = None,
         gt_signMs = Some (num_of_int (gp_signMs p))\<rparr>,
       cg_signRequestWhitelisting = Some (shipped_a4 sa),
       cg_whitelistNonceCandidates = Some (makeWhitelistNonceCandidates (nonce_options_of lib p))\<rparr>)"

definition buildGuardianFromEnv :: "('w, 'k) assembly_lib \<Rightarrow> env \<Rightarrow> raised + ('w, 'k) coordinator_guardian" where
  "buildGuardianFromEnv lib env = andThen (guardian_parts lib env) (\<lambda>p. Inr (guardian_of lib env p))"

text \<open>The lines of the process.\<close>

definition startupLine :: "('w, 'k) coordinator_guardian \<Rightarrow> json" where
  "startupLine g =
     JObj [(''level'', JStr ''info''), (''event'', JStr ''guardian.startup''), (''build'', JStr (sh_build (cg_host g))),
       (''chains'', JArr (map (\<lambda>c. JNum (num_of_int c)) (sh_supportedChains (cg_host g))))]"

definition fatalLine :: "string \<Rightarrow> string option \<Rightarrow> json" where
  "fatalLine err stack =
     JObj ([(''level'', JStr ''fatal''), (''event'', JStr ''guardian.fatal''), (''err'', JStr err)] @
       (case stack of None \<Rightarrow> [] | Some s \<Rightarrow> if s = [] then [] else [(''stack'', JStr s)]))"


text \<open>
  \<open>main\<close>, up to the loop: the line it logs and the options it runs the coordinator with. What it raises
  is logged as \<open>fatalLine\<close>. The fetcher, \<open>JSON.parse\<close> and the timer are the runtime's.
\<close>

definition main ::
    "('w, 'k) assembly_lib \<Rightarrow> (api_call \<Rightarrow> ('w, raised + api_response) state) \<Rightarrow> (string \<Rightarrow> json option) \<Rightarrow>
     (int \<Rightarrow> ('w, unit) state) \<Rightarrow> env \<Rightarrow> raised + json \<times> ('w, 'k) coordinator_options" where
  "main lib fetch parseJson sleep env =
     andThen (loadCoordinatorConfig (al_parseUrl lib) env) (\<lambda>config.
     andThen (buildGuardianFromEnv lib env) (\<lambda>guardian.
     Inr (startupLine guardian, \<lparr>co_config = config, co_guardian = guardian, co_fetcher = fetch, co_parseJson = parseJson,
       co_parseUrl = al_parseUrl lib, co_sleep = sleep\<rparr>)))"

lemma main_Inr:
  "main lib fetch parseJson sleep env = Inr (line, opts) \<Longrightarrow>
   \<exists>p. guardian_parts lib env = Inr p \<and> co_guardian opts = guardian_of lib env p \<and> co_fetcher opts = fetch \<and> co_sleep opts = sleep \<and>
     loadCoordinatorConfig (al_parseUrl lib) env = Inr (co_config opts)"
  by (auto simp: main_def buildGuardianFromEnv_def andThen_Inr)

section \<open>A small deployment\<close>

text \<open>
  One chain, a GCP key and one address per allow-list; the world is the list of exchanges with the
  coordinator API. \<open>ex_live_facts\<close> is the request contract on that chain.
\<close>

definition ex_env :: env where
  "ex_env = map_of
     [(''COORDINATOR_BASE_URL'', ''http://localhost/''), (''COORDINATOR_API_KEY'', ''k''), (''POLL_INTERVAL_MS'', ''50''),
      (''PAGE_SIZE'', ''2''), (''REQUEST_TIMEOUT_MS'', ''99''), (''CHAIN_IDS'', ''1, ''),
      (''GUARDIAN_SIGNER_PROVIDER'', '' gcp_kms ''), (''GUARDIAN_SIGNER_ADDRESS'', ex_address (CHR ''A'')),
      (''GUARDIAN_GCP_KMS_KEY_VERSION'', ''k/1''), (''GUARDIAN_CHAIN_RPC_URLS'', ''1=http://rpc''),
      (''GUARDIAN_SIGN_TIMEOUT_MS'', ''50''), (''GUARDIAN_MAX_DEADLINE_SECONDS_AHEAD'', ''600''),
      (''GUARDIAN_MIN_RETARGETTER_REPAYMENT_BUFFER_SECONDS'', ''30''),
      (''GUARDIAN_REQUEST_FACTORIES'', ''1='' @ ex_address (CHR ''F'')), (''GUARDIAN_REQUEST_OWNERS'', ''1='' @ ex_address (CHR ''e'')),
      (''GUARDIAN_REQUEST_PULLERS'', ''1='' @ ex_address (CHR ''b'')), (''GUARDIAN_REQUEST_CONSUMERS'', ''1='' @ ex_address (CHR ''c'') @ '';''),
      (''GUARDIAN_ACCEPTED_FUNDS'', ''1='' @ ex_address (CHR ''1'')), (''GUARDIAN_FUND_OWNERS'', ''1='' @ ex_address (CHR ''2'')),
      (''GUARDIAN_PM_FACTORIES'', ''1='' @ ex_address (CHR ''3'')), (''GUARDIAN_PM_OWNERS'', ''1='' @ ex_address (CHR ''4''))]"

definition ex_live_facts :: a1_facts where
  "ex_live_facts =
     \<lparr>af_owner = ex_address (CHR ''e''), af_provenance = (\<lambda>c. c = (ex_address (CHR ''f''), IsRequest)),
      af_operation = (ZERO_ADDRESS, 0), af_latest = 10,
      af_history =
       [\<lparr>log_address = ex_address (CHR ''F''), log_event = RequestCreated (Some (ex_address (CHR ''a''))), log_blockNumber = 5, log_logIndex = 0\<rparr>,
        \<lparr>log_address = ex_address (CHR ''a''), log_event = RolesUpdated (Some (ex_address (CHR ''b''))) (Some 1), log_blockNumber = 5, log_logIndex = 1\<rparr>,
        \<lparr>log_address = ex_address (CHR ''a''), log_event = RolesUpdated (Some (ex_address (CHR ''c''))) (Some 2), log_blockNumber = 8, log_logIndex = 0\<rparr>]\<rparr>"

definition ex_live_client :: "'w nonce_client" where
  "ex_live_client =
     \<lparr>nc_getChainId = ret (Inr 1), nc_getBlock = ret (Inr 10), nc_getFinalizedBlock = ret (Inr 9),
      nc_isValidator = \<lambda>_ _ _. ret (Inr True), nc_validatorNonceFloor = \<lambda>_ _ _. ret (Inr 0),
      nc_isNonceConsumed = \<lambda>_ _ ns _. ret (Inr (map (\<lambda>_. False) ns)), nc_latestCount = \<lambda>_. ret (Inr 0), nc_pendingCount = \<lambda>_. ret (Inr 0),
      nc_setValidatorNonceFloor = \<lambda>_ _ _. ret (Inr ''0x''), nc_receiptSuccess = \<lambda>_. ret (Inr True)\<rparr>"


definition ex_thrown :: thrown where
  "ex_thrown = \<lparr>th_isBaseError = False, th_chain = []\<rparr>"

definition ex_lib :: "(exchange list, unit) assembly_lib" where
  "ex_lib =
     \<lparr>al_parseUrl = co_parseUrl ex_options, al_isAddress = ADDRESS_RE, al_client = \<lambda>_ _. (),
      al_signerLib = \<lparr>sl_hashTypedData = \<lambda>_. ''0x'' @ replicate 64 (CHR ''C''), sl_compactHex = \<lambda>_. Some (replicate 128 (CHR ''B'')),
        sl_recoverAddress = \<lambda>_ _. Inr (ex_address (CHR ''a'')), sl_base64 = \<lambda>_. [], sl_hexToBytes = \<lambda>_. [], sl_isHex = \<lambda>_. True\<rparr>,
      al_privateKeyAddress = \<lambda>_. Inl (RaisedError []), al_localSign = \<lambda>_ _. ret (Inl (ex_thrown)),
      al_awsSend = \<lambda>_ _. ret (Inr None), al_gcpSign = \<lambda>_ _. ret (Inr (Some (Bytes []))),
      al_remoteHost = \<lparr>rh_fetch = \<lambda>_. ret (Inl (RaisedError [])), rh_aborted = ret False\<rparr>,
      al_host = ex_coord_host, al_readDomain = \<lambda>_ _. ret (Inr ex_nv),
      al_view1 = \<lambda>ctx. ctx_of ex_live_facts (rc_now ctx),
      al_view2 = \<lambda>ctx. \<lparr>a2_stage1 = \<lambda>_ _ _. ret (Inl (ex_thrown)), a2_now = rc_now ctx\<rparr>,
      al_view3 = \<lambda>ctx. \<lparr>a3_stage1 = \<lambda>_. ret (Inl (ex_thrown)), a3_stage2 = \<lambda>_. ret (Inl (ex_thrown)), a3_now = rc_now ctx\<rparr>,
      al_view4 = \<lambda>ctx. a1_ctx.extend (ctx_of ex_live_facts (rc_now ctx)) \<lparr>a4_nonce_state = \<lambda>_ _ _. ret (Inr (0, False))\<rparr>,
      al_nonceClient = \<lambda>_. ex_live_client\<rparr>"

section \<open>The configuration fails closed\<close>

definition optional_ok :: "(chain_sets option \<Rightarrow> bool)" where
  "optional_ok m \<longleftrightarrow> (case m of None \<Rightarrow> True | Some s \<Rightarrow> wf_address_map s)"

text \<open>viem accepts only the 40 hexadecimal digits of an address, after \<open>0x\<close>.\<close>

definition isAddress_strict :: "('w, 'k) assembly_lib \<Rightarrow> bool" where
  "isAddress_strict lib \<longleftrightarrow> (\<forall>a. al_isAddress lib a \<longrightarrow> ADDRESS_RE a)"

lemma requiredMap_wf: "isAddress_strict lib \<Longrightarrow> requiredMap lib env name = Inr m \<Longrightarrow> wf_address_map m"
  by (auto simp: requiredMap_def isAddress_strict_def andThen_Inr intro: parseAddressMap_wf)

lemma optionalMap_wf:
  "isAddress_strict lib \<Longrightarrow> optionalMap lib env name = Inr m \<Longrightarrow>
   optional_ok m \<and> (m = None \<longleftrightarrow> nonempty_trim (env name) = None)"
  by (auto simp: optionalMap_def isAddress_strict_def optional_ok_def andThen_Inr intro: parseAddressMap_wf split: option.splits)

lemma nonNegativeInt_range: "nonNegativeInt v d = Inr n \<Longrightarrow> 0 \<le> n"
  by (auto simp: nonNegativeInt_def Let_def num_isInteger_iff split: if_splits)

lemma positiveBigInt_range: "positiveBigInt v d = Inr n \<Longrightarrow> 0 < d \<Longrightarrow> 0 < n"
  by (auto simp: positiveBigInt_def split: option.splits if_splits)

lemma nonNegativeBigInt_range: "nonNegativeBigInt v d = Inr n \<Longrightarrow> 0 \<le> d \<Longrightarrow> 0 \<le> n"
  by (auto simp: nonNegativeBigInt_def split: option.splits if_splits)

lemma lookback_Skip: "lookbackExhaustedDisposition v = Inr d \<Longrightarrow> d = Skip \<longleftrightarrow> nonempty_trim v = Some ''skip''"
  by (auto simp: lookbackExhaustedDisposition_def split: option.splits if_splits)

lemma rpc_entries_keys:
  "rpc_entries client items m = Inr r \<Longrightarrow> omap_wf m \<Longrightarrow> list_all (\<lambda>p. 0 < fst p) m \<Longrightarrow> omap_wf r \<and> list_all (\<lambda>p. 0 < fst p) r"
proof (induction items arbitrary: m)
  case (Cons item items)
  have "list_all (\<lambda>p. 0 < fst p) (omap_set c k m)" if "0 < c" for c k
    using set_omap_set [of c k m] that Cons.prems(3) by (auto simp: list_all_iff)
  with Cons show ?case by (auto simp: Let_def andThen_Inr dest: positiveInt_pos split: if_splits)
qed simp

lemma parseRpcClients_keys:
  "parseRpcClients client v = Inr m \<Longrightarrow> m \<noteq> [] \<and> omap_wf m \<and> list_all (\<lambda>p. 0 < fst p) m"
  by (auto simp: parseRpcClients_def andThen_Inr dest!: rpc_entries_keys split: if_splits)

definition a1_maps :: "a1_policy \<Rightarrow> chain_sets list" where
  "a1_maps p = [ap_acceptedRequestFactories p, ap_acceptedOwners p, ap_acceptedPullers p, ap_acceptedConsumers p]"

lemma requestBindingPolicy_closed:
  assumes "isAddress_strict lib" and "requestBindingPolicy lib env d = Inr p"
  shows "list_all wf_address_map (a1_maps p) \<and>
    optional_ok (ap_trustedRequestContracts p) \<and> optional_ok (ap_acceptedRetargetters p) \<and>
    optional_ok (ap_acceptedFlashLoanRequestFactories p) \<and> optional_ok (ap_acceptedFlashLoanRequestExecutors p) \<and>
    (ap_trustedRequestContracts p = None \<longleftrightarrow> nonempty_trim (env ''GUARDIAN_TRUSTED_REQUEST_CONTRACTS'') = None) \<and>
    (ap_acceptedRetargetters p = None \<longleftrightarrow> nonempty_trim (env ''GUARDIAN_ACCEPTED_RETARGETTERS'') = None) \<and>
    0 < ap_eventScanBlockRange p \<and> 0 < ap_eventScanMaxLookbackBlocks p \<and>
    ap_maxDeadlineSecondsAhead p = d \<and> (\<exists>n \<ge> 0. ap_minRetargetterRepaymentBufferSeconds p = Some (num_of_int n)) \<and>
    (ap_onLookbackExhausted p = Some Skip \<longleftrightarrow> nonempty_trim (env ''GUARDIAN_ON_LOOKBACK_EXHAUSTED'') = Some ''skip'')"
proof -
  from assms(2) obtain t r f ff fe ow pu co br lb ex buf where
    maps: "optionalMap lib env ''GUARDIAN_TRUSTED_REQUEST_CONTRACTS'' = Inr t" "optionalMap lib env ''GUARDIAN_ACCEPTED_RETARGETTERS'' = Inr r"
      "optionalMap lib env ''GUARDIAN_FLASH_LOAN_REQUEST_FACTORIES'' = Inr ff"
      "optionalMap lib env ''GUARDIAN_FLASH_LOAN_REQUEST_EXECUTORS'' = Inr fe" and
    req: "requiredMap lib env ''GUARDIAN_REQUEST_FACTORIES'' = Inr f" "requiredMap lib env ''GUARDIAN_REQUEST_OWNERS'' = Inr ow"
      "requiredMap lib env ''GUARDIAN_REQUEST_PULLERS'' = Inr pu" "requiredMap lib env ''GUARDIAN_REQUEST_CONSUMERS'' = Inr co" and
    buf: "nonNegativeInt (env ''GUARDIAN_MIN_RETARGETTER_REPAYMENT_BUFFER_SECONDS'')
       DEFAULT_MIN_RETARGETTER_REPAYMENT_BUFFER_SECONDS = Inr buf" and
    num: "positiveBigInt (env ''GUARDIAN_EVENT_SCAN_BLOCK_RANGE'') DEFAULT_EVENT_SCAN_BLOCK_RANGE = Inr br"
      "positiveBigInt (env ''GUARDIAN_EVENT_SCAN_MAX_LOOKBACK_BLOCKS'') DEFAULT_EVENT_SCAN_MAX_LOOKBACK_BLOCKS = Inr lb" and
    ex: "lookbackExhaustedDisposition (env ''GUARDIAN_ON_LOOKBACK_EXHAUSTED'') = Inr ex" and
    p: "p = \<lparr>ap_maxDeadlineSecondsAhead = d, ap_trustedRequestContracts = t, ap_acceptedRetargetters = r,
       ap_minRetargetterRepaymentBufferSeconds = Some (num_of_int buf), ap_acceptedRequestFactories = f,
       ap_acceptedFlashLoanRequestFactories = ff, ap_acceptedFlashLoanRequestExecutors = fe,
       ap_acceptedOwners = ow, ap_acceptedPullers = pu, ap_acceptedConsumers = co,
       ap_eventScanBlockRange = br, ap_eventScanMaxLookbackBlocks = lb, ap_eventScanDeadlineMs = None,
       ap_onLookbackExhausted = Some ex\<rparr>"
    unfolding requestBindingPolicy_def andThen_Inr by (elim exE conjE) (rule that, (assumption | simp)+)
  note opt = optionalMap_wf [OF assms(1)] and need = requiredMap_wf [OF assms(1)]
  have "0 < br" "0 < lb"
    using positiveBigInt_range [OF num(1)] positiveBigInt_range [OF num(2)]
    by (simp_all add: DEFAULT_EVENT_SCAN_BLOCK_RANGE_def DEFAULT_EVENT_SCAN_MAX_LOOKBACK_BLOCKS_def)
  then show ?thesis
    using opt [OF maps(1)] opt [OF maps(2)] opt [OF maps(3)] opt [OF maps(4)] need [OF req(1)] need [OF req(2)] need [OF req(3)]
      need [OF req(4)] lookback_Skip [OF ex] nonNegativeInt_range [OF buf]
    by (auto simp: p a1_maps_def)
qed

lemma fundPolicy_closed:
  assumes "isAddress_strict lib" and "fundPolicy lib env d = Inr q"
  shows "wf_address_map (fp_acceptedFunds q) \<and> wf_address_map (fp_acceptedOwners q) \<and> fp_maxDeadlineSecondsAhead q = d"
  using assms(2) by (auto simp: fundPolicy_def andThen_Inr dest: requiredMap_wf [OF assms(1)])

lemma swapPolicy_closed:
  assumes "isAddress_strict lib" and "swapPolicy lib env d = Inr q"
  shows "wf_address_map (sp_acceptedPmFactories q) \<and> wf_address_map (sp_acceptedPmOwners q) \<and>
   (\<exists>n \<ge> 0. sp_swapPriceToleranceBps q = num_of_int n) \<and> sp_maxDeadlineSecondsAhead q = d"
  using assms(2) by (auto simp: swapPolicy_def andThen_Inr dest: requiredMap_wf [OF assms(1)] nonNegativeInt_range)

text \<open>None of the builders of the four runners refuses a policy that got this far.\<close>

lemma requestBindingPolicy_accepted: "requestBindingPolicy lib env d = Inr p \<Longrightarrow> assertRetargetterPolicy p"
  by (auto simp: requestBindingPolicy_def andThen_Inr assertRetargetterPolicy_def dest: nonNegativeInt_range)

lemma swapPolicy_accepted: "swapPolicy lib env d = Inr p \<Longrightarrow> buildIntentSwapChecks p \<noteq> None"
  by (auto simp: swapPolicy_def andThen_Inr buildIntentSwapChecks_def dest: nonNegativeInt_range)

lemma builders_accept:
  assumes "guardian_parts lib env = Inr p"
  shows "buildIntentRequestBindingChecks (sa_a1 (shipped_of lib p)) \<noteq> None"
    "buildIntentSwapChecks (gp_a3 p) \<noteq> None"
    "buildRequestWhitelistingChecks (sa_a4 (shipped_of lib p)) \<noteq> None"
proof -
  from assms obtain d where parts: "requestBindingPolicy lib env d = Inr (gp_a1 p)" "swapPolicy lib env d = Inr (gp_a3 p)"
    unfolding guardian_parts_def andThen_Inr by force
  show "buildIntentSwapChecks (gp_a3 p) \<noteq> None" by (rule swapPolicy_accepted [OF parts(2)])
  show "buildIntentRequestBindingChecks (sa_a1 (shipped_of lib p)) \<noteq> None"
    "buildRequestWhitelistingChecks (sa_a4 (shipped_of lib p)) \<noteq> None"
    using requestBindingPolicy_accepted [OF parts(1)]
    by (simp_all add: buildIntentRequestBindingChecks_def buildRequestWhitelistingChecks_def shipped_of_def whitelistPolicy_def
        max_request_contracts_def DEFAULT_MAX_REQUEST_CONTRACTS_def a1_policy.defs assertRetargetterPolicy_def)
qed

text \<open>
  C10. The configuration fails closed. If the guardian starts at all, every mandatory allow-list
  is there and well formed (no chain without addresses, no malformed address), and so is every
  optional one that is set; verification is bypassed for trusted contracts, retargetters and
  exhausted lookbacks only if the variable for it is set, and for the last only to exactly \<open>skip\<close>;
  every number read is in its range: one positive maximal deadline shared by the runners, a
  retargetter repayment buffer of at least zero, a positive scan range, lookback and sign budget,
  a nonce window and a price tolerance of at least zero; and at least one chain with a positive id
  is served.
\<close>

theorem config_fails_closed:
  assumes "isAddress_strict lib" and "guardian_parts lib env = Inr p"
  shows "list_all wf_address_map (a1_maps (gp_a1 p)) \<and>
    wf_address_map (fp_acceptedFunds (gp_a2 p)) \<and> wf_address_map (fp_acceptedOwners (gp_a2 p)) \<and>
    wf_address_map (sp_acceptedPmFactories (gp_a3 p)) \<and> wf_address_map (sp_acceptedPmOwners (gp_a3 p)) \<and>
    list_all optional_ok [gp_books p, ap_trustedRequestContracts (gp_a1 p), ap_acceptedRetargetters (gp_a1 p),
      ap_acceptedFlashLoanRequestFactories (gp_a1 p), ap_acceptedFlashLoanRequestExecutors (gp_a1 p)] \<and>
    (ap_trustedRequestContracts (gp_a1 p) = None \<longleftrightarrow> nonempty_trim (env ''GUARDIAN_TRUSTED_REQUEST_CONTRACTS'') = None) \<and>
    (ap_acceptedRetargetters (gp_a1 p) = None \<longleftrightarrow> nonempty_trim (env ''GUARDIAN_ACCEPTED_RETARGETTERS'') = None) \<and>
    (ap_onLookbackExhausted (gp_a1 p) = Some Skip \<longleftrightarrow> nonempty_trim (env ''GUARDIAN_ON_LOOKBACK_EXHAUSTED'') = Some ''skip'') \<and>
    0 < ap_maxDeadlineSecondsAhead (gp_a1 p) \<and>
    fp_maxDeadlineSecondsAhead (gp_a2 p) = ap_maxDeadlineSecondsAhead (gp_a1 p) \<and>
    sp_maxDeadlineSecondsAhead (gp_a3 p) = ap_maxDeadlineSecondsAhead (gp_a1 p) \<and>
    (\<exists>n \<ge> 0. ap_minRetargetterRepaymentBufferSeconds (gp_a1 p) = Some (num_of_int n)) \<and>
    0 < ap_eventScanBlockRange (gp_a1 p) \<and> 0 < ap_eventScanMaxLookbackBlocks (gp_a1 p) \<and>
    0 < gp_signMs p \<and> 0 \<le> gp_maxNonceAboveFloor p \<and> (\<exists>n \<ge> 0. sp_swapPriceToleranceBps (gp_a3 p) = num_of_int n) \<and>
    gp_clients p \<noteq> [] \<and> omap_wf (gp_clients p) \<and> list_all (\<lambda>c. 0 < fst c) (gp_clients p)"
proof -
  from assms(2) obtain urls d where parts: "parseRpcClients (al_client lib) urls = Inr (gp_clients p)"
      "requestBindingPolicy lib env d = Inr (gp_a1 p)" "optionalMap lib env ''GUARDIAN_ACCEPTED_WHITELIST_BOOKS'' = Inr (gp_books p)"
      "positiveInt (env ''GUARDIAN_SIGN_TIMEOUT_MS'') 6000 = Inr (gp_signMs p)"
      "nonNegativeBigInt (env ''GUARDIAN_MAX_NONCE_ABOVE_FLOOR'') DEFAULT_MAX_NONCE_ABOVE_FLOOR = Inr (gp_maxNonceAboveFloor p)"
      "fundPolicy lib env d = Inr (gp_a2 p)" "swapPolicy lib env d = Inr (gp_a3 p)"
      "positiveInt (env ''GUARDIAN_MAX_DEADLINE_SECONDS_AHEAD'') DEFAULT_MAX_DEADLINE_SECONDS_AHEAD = Inr d"
    unfolding guardian_parts_def andThen_Inr by force
  show ?thesis
    using requestBindingPolicy_closed [OF assms(1) parts(2)] fundPolicy_closed [OF assms(1) parts(6)]
      swapPolicy_closed [OF assms(1) parts(7)] optionalMap_wf [OF assms(1) parts(3)] positiveInt_pos [OF parts(4)]
      nonNegativeBigInt_range [OF parts(5)] parseRpcClients_keys [OF parts(1)] positiveInt_pos [OF parts(8)]
    by (simp add: DEFAULT_MAX_NONCE_ABOVE_FLOOR_def)
qed


definition ex_gp :: "(exchange list, unit) guardian_parts" where
  "ex_gp =
     \<lparr>gp_signer = \<lparr>ls_guardianSigner = ex_address (CHR ''A''),
        ls_signTypedData = gcpKmsSignTypedData (al_signerLib ex_lib) (al_gcpSign ex_lib) ''k/1'' (ex_address (CHR ''A'')), ls_account = True\<rparr>,
      gp_clients = [(1, ())],
      gp_a1 = \<lparr>ap_maxDeadlineSecondsAhead = 600, ap_trustedRequestContracts = None, ap_acceptedRetargetters = None,
        ap_minRetargetterRepaymentBufferSeconds = Some (num_of_int 30), ap_acceptedRequestFactories = [(1, [ex_address (CHR ''f'')])],
        ap_acceptedFlashLoanRequestFactories = None, ap_acceptedFlashLoanRequestExecutors = None,
        ap_acceptedOwners = [(1, [ex_address (CHR ''e'')])], ap_acceptedPullers = [(1, [ex_address (CHR ''b'')])],
        ap_acceptedConsumers = [(1, [ex_address (CHR ''c'')])], ap_eventScanBlockRange = 10000, ap_eventScanMaxLookbackBlocks = 1000000,
        ap_eventScanDeadlineMs = None, ap_onLookbackExhausted = Some Fail\<rparr>,
      gp_books = None, gp_signMs = 50, gp_maxNonceAboveFloor = 100,
      gp_a2 = \<lparr>fp_maxDeadlineSecondsAhead = 600, fp_acceptedFunds = [(1, [ex_address (CHR ''1'')])],
        fp_acceptedOwners = [(1, [ex_address (CHR ''2'')])]\<rparr>,
      gp_a3 = \<lparr>sp_maxDeadlineSecondsAhead = 600, sp_acceptedPmFactories = [(1, [ex_address (CHR ''3'')])],
        sp_acceptedPmOwners = [(1, [ex_address (CHR ''4'')])], sp_swapPriceToleranceBps = num_of_int 1\<rparr>\<rparr>"

lemma ex_maps:
  "requiredMap ex_lib ex_env ''GUARDIAN_REQUEST_FACTORIES'' = Inr [(1, [ex_address (CHR ''f'')])]"
  "requiredMap ex_lib ex_env ''GUARDIAN_REQUEST_OWNERS'' = Inr [(1, [ex_address (CHR ''e'')])]"
  "requiredMap ex_lib ex_env ''GUARDIAN_REQUEST_PULLERS'' = Inr [(1, [ex_address (CHR ''b'')])]"
  "requiredMap ex_lib ex_env ''GUARDIAN_REQUEST_CONSUMERS'' = Inr [(1, [ex_address (CHR ''c'')])]"
  "requiredMap ex_lib ex_env ''GUARDIAN_ACCEPTED_FUNDS'' = Inr [(1, [ex_address (CHR ''1'')])]"
  "requiredMap ex_lib ex_env ''GUARDIAN_FUND_OWNERS'' = Inr [(1, [ex_address (CHR ''2'')])]"
  "requiredMap ex_lib ex_env ''GUARDIAN_PM_FACTORIES'' = Inr [(1, [ex_address (CHR ''3'')])]"
  "requiredMap ex_lib ex_env ''GUARDIAN_PM_OWNERS'' = Inr [(1, [ex_address (CHR ''4'') ])]"
  by code_simp+

lemma ex_numbers:
  "positiveInt (ex_env ''GUARDIAN_MAX_DEADLINE_SECONDS_AHEAD'') DEFAULT_MAX_DEADLINE_SECONDS_AHEAD = Inr 600"
  "positiveInt (ex_env ''GUARDIAN_SIGN_TIMEOUT_MS'') 6000 = Inr 50"
  "nonNegativeInt (ex_env ''GUARDIAN_MIN_RETARGETTER_REPAYMENT_BUFFER_SECONDS'') DEFAULT_MIN_RETARGETTER_REPAYMENT_BUFFER_SECONDS = Inr 30"
  "nonNegativeInt (ex_env ''GUARDIAN_SWAP_PRICE_TOLERANCE_BPS'') DEFAULT_SWAP_PRICE_TOLERANCE_BPS = Inr 1"
  "positiveBigInt (ex_env ''GUARDIAN_EVENT_SCAN_BLOCK_RANGE'') DEFAULT_EVENT_SCAN_BLOCK_RANGE = Inr 10000"
  "positiveBigInt (ex_env ''GUARDIAN_EVENT_SCAN_MAX_LOOKBACK_BLOCKS'') DEFAULT_EVENT_SCAN_MAX_LOOKBACK_BLOCKS = Inr 1000000"
  "nonNegativeBigInt (ex_env ''GUARDIAN_MAX_NONCE_ABOVE_FLOOR'') DEFAULT_MAX_NONCE_ABOVE_FLOOR = Inr 100"
  "lookbackExhaustedDisposition (ex_env ''GUARDIAN_ON_LOOKBACK_EXHAUSTED'') = Inr Fail"
  "required ex_env ''GUARDIAN_CHAIN_RPC_URLS'' = Inr ''1=http://rpc''"
  "parseRpcClients (al_client ex_lib) ''1=http://rpc'' = Inr [(1, ())]"
  by code_simp+

lemma ex_unset:
  "optionalMap ex_lib ex_env ''GUARDIAN_TRUSTED_REQUEST_CONTRACTS'' = Inr None"
  "optionalMap ex_lib ex_env ''GUARDIAN_ACCEPTED_RETARGETTERS'' = Inr None"
  "optionalMap ex_lib ex_env ''GUARDIAN_FLASH_LOAN_REQUEST_FACTORIES'' = Inr None"
  "optionalMap ex_lib ex_env ''GUARDIAN_FLASH_LOAN_REQUEST_EXECUTORS'' = Inr None"
  "optionalMap ex_lib ex_env ''GUARDIAN_ACCEPTED_WHITELIST_BOOKS'' = Inr None"
  by code_simp+

lemma ex_signer: "loadGuardianSigner ex_lib ex_env = Inr (gp_signer ex_gp)"
proof -
  have "nonempty_trim (ex_env ''GUARDIAN_SIGNER_PROVIDER'') = Some ''gcp_kms''"
    and "requiredAddress (al_isAddress ex_lib) ex_env ''GUARDIAN_SIGNER_ADDRESS'' = Inr (ex_address (CHR ''A''))"
    and "required ex_env ''GUARDIAN_GCP_KMS_KEY_VERSION'' = Inr ''k/1''"
    by code_simp+
  then show ?thesis by (simp add: loadGuardianSigner_def ex_gp_def)
qed

lemma ex_parts: "guardian_parts ex_lib ex_env = Inr ex_gp"
  by (simp add: guardian_parts_def requestBindingPolicy_def fundPolicy_def swapPolicy_def ex_maps ex_numbers ex_unset ex_signer)
    (simp add: ex_gp_def)

theorem config_fails_closed_witness:
  "wf_address_map (ap_acceptedConsumers (gp_a1 ex_gp)) \<and> ap_onLookbackExhausted (gp_a1 ex_gp) \<noteq> Some Skip \<and> gp_clients ex_gp \<noteq> []"
proof -
  have "isAddress_strict ex_lib" by (simp add: isAddress_strict_def ex_lib_def)
  from config_fails_closed [OF this ex_parts] show ?thesis
    by (simp add: a1_maps_def ex_env_def nonempty_trim_def)
qed


section \<open>The signers of the assembled guardian\<close>

lemma verified_sound: "verified_signer slib g sign \<Longrightarrow> pred_state (case_sum is_signer_error (\<lambda>_. True)) (sign td)"
  by (rule pred_state_mono [OF verified_signer.checked]) (auto split: sum.splits)

definition keyless :: "env \<Rightarrow> bool" where
  "keyless env \<longleftrightarrow> (case nonempty_trim (env ''GUARDIAN_SIGNER_PROVIDER'') of None \<Rightarrow> False | Some v \<Rightarrow> v \<noteq> ''private_key'')"

lemma keyless_verified:
  assumes "loadGuardianSigner lib env = Inr s" and "keyless env"
  shows "verified_signer (al_signerLib lib) (ls_guardianSigner s) (ls_signTypedData s)"
  using assms
  by (auto simp: loadGuardianSigner_def keyless_def Let_def remote_signer_def andThen_Inr
      intro: aws.verified_signer_axioms gcp.verified_signer_axioms remote.verified_signer_axioms split: option.splits if_splits)

lemma loaded_signer_sound:
  assumes "loadGuardianSigner lib env = Inr s"
  shows "pred_state (case_sum is_signer_error (\<lambda>_. True)) (ls_signTypedData s td)"
proof (cases "keyless env")
  case True
  then show ?thesis by (rule verified_sound [OF keyless_verified [OF assms]])
next
  case False
  with assms obtain k where "ls_signTypedData s = privateKeyToSignTypedData (al_localSign lib k)"
    by (auto simp: loadGuardianSigner_def keyless_def Let_def andThen_Inr split: option.splits)
  then show ?thesis
    by (auto simp: privateKeyToSignTypedData_def intro!: pred_state_bind_any split: sum.splits)
qed

lemma guardian_parts_signer: "guardian_parts lib env = Inr p \<Longrightarrow> loadGuardianSigner lib env = Inr (gp_signer p)"
  unfolding guardian_parts_def andThen_Inr by force

lemma assembled_sound: "guardian_parts lib env = Inr p \<Longrightarrow> sound_signer (shipped_of lib p)"
  by (simp add: sound_signer_def shipped_of_def loaded_signer_sound [OF guardian_parts_signer])


section \<open>What the assembled guardian signs\<close>

fun request_of :: "parsed_signing_body \<Rightarrow> sign_request" where
  "request_of (ParsedSetRequest b) = RequestBinding b"
| "request_of (ParsedSetFund b) = FundBinding b"
| "request_of (ParsedSwap b) = Swap b"
| "request_of (ParsedWhitelisting b) = Whitelisting b"

lemma request_of_chainId [simp]: "request_chainId (request_of parsed) = parsed_chainId parsed"
  by (cases parsed) simp_all

lemma guardian_context_timeouts [simp]:
  "guardian_context (host\<lparr>sh_auth := (sh_auth host)\<lparr>ah_timeouts := t\<rparr>\<rparr>) ctx = guardian_context host ctx"
  by (simp add: guardian_context_def)

lemma run_signing_Inr:
  "run_state (run_signing g sign chainId body rid) w = (Inr s, w') \<Longrightarrow>
   \<exists>ctx w1 w2. guardian_context (cg_host g) ctx \<and> rc_chainId ctx = chainId \<and> run_state (sign ctx body) w1 = (Inr (Inr s), w2)"
  by (auto simp: run_signing_def Let_def runSigning_Inr bindE_Inr simp del: run_bindE split: option.splits dest!: signed_call_context) blast

lemma guardian_of_sel [simp]:
  "sh_signIntentRequestBinding (cg_host (guardian_of lib env p)) = shipped_a1 (shipped_of lib p)"
  "sh_signIntentFundBinding (cg_host (guardian_of lib env p)) = shipped_a2 (shipped_of lib p)"
  "sh_signIntentSwap (cg_host (guardian_of lib env p)) = shipped_a3 (shipped_of lib p)"
  "cg_signRequestWhitelisting (guardian_of lib env p) = Some (shipped_a4 (shipped_of lib p))"
  "sh_guardianSigner (cg_host (guardian_of lib env p)) = ls_guardianSigner (gp_signer p)"
  by (simp_all add: guardian_of_def install_def Let_def)

lemma zod_parse_Inr: "zod_parse schema v = Inr r \<longleftrightarrow> schema v = Some r"
  by (auto simp: zod_parse_def split: option.splits)

lemma map_sum_InrD: "map_sum f g r = Inr v \<Longrightarrow> \<exists>x. r = Inr x \<and> v = g x"
  by (cases r) auto

lemma shipped_plain:
  assumes "guardian_parts lib env = Inr p"
  shows "plain_runners (shipped_of lib p)"
  using builders_accept [OF assms]
  by (auto simp: plain_runners_def shipped_of_def buildIntentSwapChecks_def split: if_splits)

lemma run_signed_approved:
  assumes "serves_chains sa (cg_host g) net" and "plain_runners sa"
    and "run_state (run_signing g sign (request_chainId request) body rid) w = (Inr v, w')"
    and "\<And>ctx w w'. run_state (sign ctx body) w = (Inr (Inr v), w') \<Longrightarrow> signed_answer sa ctx request v"
    and "\<And>b. request = Swap b \<Longrightarrow> wf_swap b" and "lowered v s"
  shows "\<exists>td sig. approved_signature sa (cg_host g) net request s td sig"
  using run_signing_Inr [OF assms(3)] assms(4) signed_approved [OF assms(1,2) _ _ assms(5) _ assms(6)] by blast

lemma lowered_truncate: "lowered v s \<Longrightarrow> lowered v (signing_success.truncate s)"
  by (simp add: lowered_def)

text \<open>Every success the assembled guardian gives the coordinator is approved, and its signer's answer to the payload of that body.\<close>

lemma sign_parsed_approved:
  assumes "run_state (sign_parsed (guardian_of lib env p) rid parsed) w = (Inr success, w')"
    and "serves_chains (shipped_of lib p) (cg_host (guardian_of lib env p)) net" and "plain_runners (shipped_of lib p)"
    and "\<And>b. parsed = ParsedSwap b \<Longrightarrow> wf_swap b"
  shows "\<exists>td sig. approved_signature (shipped_of lib p) (cg_host (guardian_of lib env p)) net (request_of parsed) success td sig"
proof -
  note ok = run_signed_approved [OF assms(2,3)]
  from assms(1,4) show ?thesis
    by (cases parsed)
      (auto simp: sign_parsed_def bindE_Inr zod_parse_Inr simp del: run_bindE dest!: map_sum_InrD
        intro!: ok shipped_signs zSigningSuccess_lowered lowered_truncate zRequestWhitelistingResponse_lowered)
qed

lemma payload_digest: "payload hash validator nv req = Inr td \<Longrightarrow> gt_payloadHash td = hash (gt_typedData td)"
  by (cases req)
    (auto simp: hashed_def buildIntentRequestBindingTypedData_def buildIntentFundBindingTypedData_def buildIntentSwapTypedData_def
      buildRequestWhitelistingTypedData_def buildWhitelistRequestTypedData_def
      buildUnwhitelistRequestTypedData_def Let_def split: sum.splits if_splits option.splits)

text \<open>Without a local key the answer has been checked against the guardian's address.\<close>

lemma keyless_recovers:
  assumes "guardian_parts lib env = Inr p" and "keyless env" and "payload_signed (shipped_of lib p) req td sig"
  shows "recovers_to (al_signerLib lib) (gt_payloadHash td) sig (ls_guardianSigner (gp_signer p))"
proof -
  from assms(3) obtain nv w w' where
    "payload (sl_hashTypedData (al_signerLib lib)) (ls_guardianSigner (gp_signer p)) nv req = Inr td" and
    run: "run_state (ls_signTypedData (gp_signer p) (gt_typedData td)) w = (Inr sig, w')"
    by (auto simp: payload_signed_def shipped_of_def)
  with verified_signer.signed_recovers [OF keyless_verified [OF guardian_parts_signer [OF assms(1)] assms(2)] run]
  show ?thesis by (simp add: payload_digest)
qed

section \<open>A sign budget the timer cannot hold\<close>

text \<open>
  Start-up accepts every positive sign budget; the limit of \<open>setTimeout\<close> is only looked at inside
  \<open>runSigning\<close>.
\<close>

lemma fails_first: "pred_state (\<lambda>r. \<not> isr r) m \<Longrightarrow> pred_state (\<lambda>r. \<not> isr r) (bindE m f)"
  by (rule pred_state_bindE [where Q = "\<lambda>_. False"]) (auto elim!: pred_state_mono simp: isr_case split: sum.splits)

lemma fails_later: "(\<And>a. pred_state (\<lambda>r. \<not> isr r) (f a)) \<Longrightarrow> pred_state (\<lambda>r. \<not> isr r) (bindE m f)"
  by (rule pred_state_bindE [where Q = "\<lambda>_. True"]) (auto simp: pred_state_iff split: sum.split)

lemma oversized_unresolved:
  "MAX_TIMEOUT_MS < gp_signMs p \<Longrightarrow> resolveGuardianTimeouts (cg_timeouts (guardian_of lib env p)) = None"
  by (simp add: guardian_of_def Let_def resolveGuardianTimeouts_def resolve_timeout_def num_of_int_def DEFAULT_GUARDIAN_TIMEOUTS_def
      bind_eq_None_conv)

lemma oversized_run_signing:
  assumes "MAX_TIMEOUT_MS < gp_signMs p"
  shows "pred_state (\<lambda>r. \<not> isr r) (run_signing (guardian_of lib env p) sign chainId body rid)"
  unfolding run_signing_def Let_def oversized_unresolved [OF assms] option.case
  by (intro fails_later) simp

lemma oversized_signing:
  "MAX_TIMEOUT_MS < gp_signMs p \<Longrightarrow> pred_state (\<lambda>r. \<not> isr r) (signWithGuardian (guardian_of lib env p) request parsed)"
  unfolding signWithGuardian_def sign_parsed_def
  by (auto intro!: pred_state_bind_any fails_first oversized_run_signing split: parsed_signing_body.split)

text \<open>The same environment with another sign budget.\<close>

lemma required_upd: "name \<noteq> k \<Longrightarrow> required (env(k := v)) name = required env name"
  by (simp add: required_def)

lemma requiredMap_upd: "name \<noteq> k \<Longrightarrow> requiredMap lib (env(k := v)) name = requiredMap lib env name"
  by (simp add: requiredMap_def required_upd)

lemma optionalMap_upd: "name \<noteq> k \<Longrightarrow> optionalMap lib (env(k := v)) name = optionalMap lib env name"
  by (simp add: optionalMap_def split: option.split)

lemma loadGuardianSigner_upd:
  "loadGuardianSigner lib (env(''GUARDIAN_SIGN_TIMEOUT_MS'' := v)) = loadGuardianSigner lib env"
proof -
  have "remote_signer lib (env(''GUARDIAN_SIGN_TIMEOUT_MS'' := v)) = remote_signer lib env"
    by (simp add: fun_eq_iff remote_signer_def required_upd)
  moreover have "aws_region (env(''GUARDIAN_SIGN_TIMEOUT_MS'' := v)) = aws_region env"
    by (simp add: aws_region_def split: option.split)
  ultimately show ?thesis
    by (simp add: loadGuardianSigner_def requiredAddress_def required_upd Let_def cong: if_cong)
qed

lemma sign_budget_upd:
  assumes "guardian_parts lib env = Inr p" and "positiveInt (Some v) 6000 = Inr n"
  shows "guardian_parts lib (env(''GUARDIAN_SIGN_TIMEOUT_MS'' := Some v)) = Inr (p\<lparr>gp_signMs := n\<rparr>)"
proof -
  have bind: "requestBindingPolicy lib (env(''GUARDIAN_SIGN_TIMEOUT_MS'' := Some v)) d = requestBindingPolicy lib env d"
      "fundPolicy lib (env(''GUARDIAN_SIGN_TIMEOUT_MS'' := Some v)) d = fundPolicy lib env d"
      "swapPolicy lib (env(''GUARDIAN_SIGN_TIMEOUT_MS'' := Some v)) d = swapPolicy lib env d"
      "required (env(''GUARDIAN_SIGN_TIMEOUT_MS'' := Some v)) ''GUARDIAN_CHAIN_RPC_URLS'' = required env ''GUARDIAN_CHAIN_RPC_URLS''" for d
    by (simp_all add: requestBindingPolicy_def fundPolicy_def swapPolicy_def optionalMap_upd requiredMap_upd required_upd)
  show ?thesis
    using assms by (auto simp: guardian_parts_def andThen_Inr bind loadGuardianSigner_upd optionalMap_upd)
qed

lemma config_upd: "loadCoordinatorConfig parseUrl (env(''GUARDIAN_SIGN_TIMEOUT_MS'' := v)) = loadCoordinatorConfig parseUrl env"
  by (simp add: loadCoordinatorConfig_def required_upd)

lemma guardian_of_upd: "guardian_of lib (env(''GUARDIAN_SIGN_TIMEOUT_MS'' := v)) p = guardian_of lib env p"
  by (simp add: guardian_of_def)

text \<open>
  C17. A sign budget that only fails later. Where the process starts, it also starts when
  \<open>GUARDIAN_SIGN_TIMEOUT_MS\<close> is replaced by any number above the limit of \<open>setTimeout\<close>: the same
  start-up line, the same coordinator configuration. But that process never signs: every
  signing attempt of its guardian fails, whatever the request is.
\<close>

theorem oversized_budget_never_signs:
  assumes "main lib fetch parseJson sleep env = Inr (line, opts)"
    and "positiveInt (Some v) 6000 = Inr n" and "MAX_TIMEOUT_MS < n"
  shows "\<exists>opts'. main lib fetch parseJson sleep (env(''GUARDIAN_SIGN_TIMEOUT_MS'' := Some v)) = Inr (line, opts') \<and>
    co_config opts' = co_config opts \<and>
    (\<forall>request parsed. pred_state (\<lambda>r. \<not> isr r) (signWithGuardian (co_guardian opts') request parsed))"
proof -
  let ?env = "env(''GUARDIAN_SIGN_TIMEOUT_MS'' := Some v)"
  from assms(1) obtain p config where p: "guardian_parts lib env = Inr p" "loadCoordinatorConfig (al_parseUrl lib) env = Inr config" and
    line: "line = startupLine (guardian_of lib env p)" "co_config opts = config"
    by (auto simp: main_def buildGuardianFromEnv_def andThen_Inr)
  let ?p = "p\<lparr>gp_signMs := n\<rparr>"
  have parts: "guardian_parts lib ?env = Inr ?p" by (rule sign_budget_upd [OF p(1) assms(2)])
  have "startupLine (guardian_of lib env ?p) = line"
    by (simp add: line(1) startupLine_def guardian_of_def install_def Let_def)
  moreover have "pred_state (\<lambda>r. \<not> isr r) (signWithGuardian (guardian_of lib env ?p) request parsed)" for request parsed
    using assms(3) by (intro oversized_signing) simp
  ultimately show ?thesis
    by (simp add: main_def buildGuardianFromEnv_def parts config_upd p(2) guardian_of_upd line(2))
qed

text \<open>The process of \<open>ex_env\<close>.\<close>

definition ex_live_options :: "(exchange list, unit) coordinator_options" where
  "ex_live_options = ex_options
     \<lparr>co_config := \<lparr>cc_coordinatorBaseUrl = ''http://localhost'', cc_coordinatorApiKey = ''k'', cc_pollIntervalMs = 50,
        cc_pageSize = 2, cc_chainIds = Some [1], cc_facilities = None, cc_requestTimeoutMs = Some 99\<rparr>,
      co_guardian := guardian_of ex_lib ex_env ex_gp\<rparr>"

lemma ex_main:
  "main ex_lib (co_fetcher ex_options) (co_parseJson ex_options) (co_sleep ex_options) ex_env =
     Inr (startupLine (guardian_of ex_lib ex_env ex_gp), ex_live_options)"
proof -
  have "loadCoordinatorConfig (al_parseUrl ex_lib) ex_env = Inr (co_config ex_live_options)" by code_simp
  then show ?thesis
    by (simp add: main_def buildGuardianFromEnv_def ex_parts) (simp add: ex_live_options_def ex_lib_def ex_options_def)
qed

theorem oversized_budget_never_signs_witness:
  "\<exists>line opts. main ex_lib (co_fetcher ex_options) (co_parseJson ex_options) (co_sleep ex_options)
       (ex_env(''GUARDIAN_SIGN_TIMEOUT_MS'' := Some (show_int 3000000000))) = Inr (line, opts) \<and>
     cc_pollIntervalMs (co_config opts) = 50 \<and>
     (\<forall>request parsed. \<not> isr (result_of (signWithGuardian (co_guardian opts) request parsed) []))"
proof -
  have n: "positiveInt (Some (show_int 3000000000)) 6000 = Inr 3000000000"
    by (rule positiveInt_show) (simp_all add: is_double_upto)
  show ?thesis
    using oversized_budget_never_signs [OF ex_main n]
    by (auto simp: MAX_TIMEOUT_MS_def ex_live_options_def pred_state_result)
qed

end
