(* ===== verification/Assembly_Frame.thy ===== *)
theory Assembly_Frame
  imports Assembly
begin

text \<open>
  What a guardian assembled from its environment leaves alone: an invariant of the world that every
  call into the libraries and the process keeps is kept by its signer, its four sign functions and
  its nonce candidates. With the calls to the coordinator API as the invariant, the only
  caller of the API is the coordinator itself.
\<close>

definition nonce_client_keeps :: "('w \<Rightarrow> bool) \<Rightarrow> 'w nonce_client \<Rightarrow> bool" where
  "nonce_client_keeps I client \<longleftrightarrow>
     keeps I (nc_getChainId client) \<and> keeps I (nc_getBlock client) \<and> keeps I (nc_getFinalizedBlock client) \<and>
     (\<forall>a v b. keeps I (nc_isValidator client a v b)) \<and> (\<forall>a v b. keeps I (nc_validatorNonceFloor client a v b)) \<and>
     (\<forall>a v ns b. keeps I (nc_isNonceConsumed client a v ns b)) \<and> (\<forall>v. keeps I (nc_latestCount client v)) \<and>
     (\<forall>v. keeps I (nc_pendingCount client v)) \<and> (\<forall>a f n. keeps I (nc_setValidatorNonceFloor client a f n)) \<and>
     (\<forall>h. keeps I (nc_receiptSuccess client h))"

definition signing_keeps :: "('w \<Rightarrow> bool) \<Rightarrow> ('w, 'k) assembly_lib \<Rightarrow> bool" where
  "signing_keeps I lib \<longleftrightarrow>
     (\<forall>key td. keeps I (al_localSign lib key td)) \<and> (\<forall>r i. keeps I (al_awsSend lib r i)) \<and>
     (\<forall>k d. keeps I (al_gcpSign lib k d)) \<and> (\<forall>r. keeps I (rh_fetch (al_remoteHost lib) r)) \<and>
     keeps I (rh_aborted (al_remoteHost lib)) \<and> (\<forall>k c. keeps I (al_readDomain lib k c))"

definition views_keep :: "('w \<Rightarrow> bool) \<Rightarrow> ('w, 'k) assembly_lib \<Rightarrow> bool" where
  "views_keep I lib \<longleftrightarrow>
     (\<forall>ctx. client_keeps I (al_view1 lib ctx)) \<and> (\<forall>ctx f c i. keeps I (a2_stage1 (al_view2 lib ctx) f c i)) \<and>
     (\<forall>ctx calls. keeps I (a3_stage1 (al_view3 lib ctx) calls)) \<and> (\<forall>ctx pm. keeps I (a3_stage2 (al_view3 lib ctx) pm)) \<and>
     (\<forall>ctx. client_keeps I (a1_ctx.truncate (al_view4 lib ctx))) \<and>
     (\<forall>ctx b v n. keeps I (a4_nonce_state (al_view4 lib ctx) b v n)) \<and> (\<forall>k. nonce_client_keeps I (al_nonceClient lib k))"

text \<open>The clock, the timer and the random ids of the process.\<close>

definition process_keeps :: "('w \<Rightarrow> bool) \<Rightarrow> ('w, 'k) server_host \<Rightarrow> bool" where
  "process_keeps I host \<longleftrightarrow>
     keeps I (sh_randomUUID host) \<and> keeps I (ah_now (sh_auth host)) \<and> (\<forall>ms. keeps I (ah_expires (sh_auth host) ms))"

definition lib_keeps :: "('w \<Rightarrow> bool) \<Rightarrow> ('w, 'k) assembly_lib \<Rightarrow> bool" where
  "lib_keeps I lib \<longleftrightarrow> signing_keeps I lib \<and> views_keep I lib \<and> process_keeps I (al_host lib)"


section \<open>The signer\<close>

lemma kms_keeps: "(\<And>d. keeps I (sign d)) \<Longrightarrow> keeps I (kmsSignTypedData slib label g sign td)"
  by (auto simp: kmsSignTypedData_def Let_def intro!: keeps_rules)

lemma remote_keeps:
  "(\<And>r. keeps I (rh_fetch host r)) \<Longrightarrow> keeps I (rh_aborted host) \<Longrightarrow> keeps I (remoteHttpSignTypedData slib host url g ms tok td)"
  by (auto simp: remoteHttpSignTypedData_def intro!: keeps_rules split: sum.split)

lemma loaded_signer_keeps:
  assumes "signing_keeps I lib" and "loadGuardianSigner lib env = Inr s"
  shows "keeps I (ls_signTypedData s td)"
proof -
  have local: "keeps I (privateKeyToSignTypedData (al_localSign lib k) td)" for k
    using assms(1) by (auto simp: privateKeyToSignTypedData_def signing_keeps_def intro!: keeps_rules split: sum.split)
  have remote: "keeps I (remoteHttpSignTypedData slib (al_remoteHost lib) url g ms tok td)" for slib url g ms tok
    using assms(1) by (intro remote_keeps) (simp_all add: signing_keeps_def)
  have aws: "keeps I (awsKmsSignTypedData slib (al_awsSend lib r) k g td)" for slib r k g
    using assms(1) unfolding awsKmsSignTypedData_def
    by (intro kms_keeps) (auto simp: awsSignDigest_def signing_keeps_def intro!: keeps_rules)
  have gcp: "keeps I (gcpKmsSignTypedData slib (al_gcpSign lib) k g td)" for slib k g
    using assms(1) unfolding gcpKmsSignTypedData_def
    by (intro kms_keeps) (auto simp: gcpSignDigest_def signing_keeps_def intro!: keeps_rules)
  show ?thesis
    using assms(2)
    by (auto simp: loadGuardianSigner_def remote_signer_def Let_def andThen_Inr local remote aws gcp split: option.splits if_splits)
qed


section \<open>The runners and the sign functions\<close>

lemma runA1_keeps: "client_keeps I ctx \<Longrightarrow> ad_cache deps = None \<Longrightarrow> keeps I (runA1 ctx deps chainId q deadline)"
  unfolding runA1_def Let_def a1_cache_lookup_def a1_cache_store_def
  by (auto intro!: keeps_rules fetchA1OnChain_keeps split: option.split a1_fetched.split)

lemma runA2_keeps: "(\<And>f c i. keeps I (a2_stage1 ctx f c i)) \<Longrightarrow> keeps I (runA2 policy ctx body)"
  unfolding runA2_def Let_def by (auto intro!: keeps_rules)

lemma runA3_keeps:
  "(\<And>calls. keeps I (a3_stage1 ctx calls)) \<Longrightarrow> (\<And>pm. keeps I (a3_stage2 ctx pm)) \<Longrightarrow> keeps I (runA3 policy ctx body)"
  unfolding runA3_def decide_legs_def run_pm_leg_def Let_def
  by (auto intro!: keeps_rules split: list.split option.split sum.split)

lemma run_contracts_keeps:
  "client_keeps I ctx \<Longrightarrow> ad_cache deps = None \<Longrightarrow> keeps I (run_contracts ctx deps chainId deadline qs checks)"
  by (induction qs arbitrary: checks)
    (auto intro!: keeps_rules runA1_keeps split: sum.split guardian_error.split)

lemma runA4_keeps:
  assumes "client_keeps I (a1_ctx.truncate ctx)" and "wd_cache deps = None" and "\<And>b v n. keeps I (a4_nonce_state ctx b v n)"
  shows "keeps I (runA4 deps ctx body)"
  unfolding runA4_def Let_def finish_nonce_def
  by (auto intro!: keeps_rules run_contracts_keeps assms simp: a1_deps_of_def assms(2))

lemma sign_with_keeps:
  assumes "\<And>b. keeps I (sd_checks deps (sg_client ctx) b)" and "\<And>c. keeps I (sg_readDomain ctx c)"
    and "sd_cache deps = None" and "\<And>td. keeps I (sg_signTypedData ctx td)"
  shows "keeps I (sign_with deps ctx body v build success)"
proof -
  have "keeps I (resolveDomain ctx deps c)" for c
    by (auto simp: resolveDomain_def fetchEip712DomainNameVersion_def domain_lookup_def domain_backfill_def assms(3) Let_def
        intro!: keeps_rules assms(2) split: sum.split)
  then show ?thesis
    unfolding sign_with_def by (auto intro!: keeps_rules assms split: sum.split)
qed

lemma shipped_keeps:
  assumes "signing_keeps I lib" and "views_keep I lib" and "loadGuardianSigner lib env = Inr (gp_signer p)"
  defines "sa \<equiv> shipped_of lib p"
  shows "keeps I (shipped_a1 sa ctx b1)" "keeps I (shipped_a2 sa ctx b2)" "keeps I (shipped_a3 sa ctx b3)" "keeps I (shipped_a4 sa ctx b4)"
proof -
  have signer: "keeps I (ls_signTypedData (gp_signer p) td)" for td
    by (rule loaded_signer_keeps [OF assms(1,3)])
  note view = assms(2) [unfolded views_keep_def] and rd = assms(1) [unfolded signing_keeps_def]
  note defs = sa_def shipped_of_def sign_context_def make_defs
  show "keeps I (shipped_a1 sa ctx b1)"
    unfolding shipped_a1_def defs
    by (rule sign_with_keeps) (use view rd signer in \<open>simp_all add: a1_sign_deps_def runA1_keeps\<close>)
  show "keeps I (shipped_a2 sa ctx b2)"
    unfolding shipped_a2_def defs
    by (rule sign_with_keeps) (use view rd signer in \<open>simp_all add: a2_sign_deps_def runA2_keeps\<close>)
  show "keeps I (shipped_a3 sa ctx b3)"
    unfolding shipped_a3_def defs
    by (rule sign_with_keeps) (use view rd signer in \<open>simp_all add: a3_sign_deps_def runA3_keeps\<close>)
  show "keeps I (shipped_a4 sa ctx b4)"
    unfolding shipped_a4_def defs
    by (rule sign_with_keeps) (use view rd signer in \<open>simp_all add: a4_sign_deps_def runA4_keeps\<close>)
qed

lemma candidates_keep:
  assumes "\<And>c client. map_of (np_clients opts) c = Some client \<Longrightarrow> nonce_client_keeps I client"
  shows "keeps I (makeWhitelistNonceCandidates opts body)"
proof -
  have "keeps I (candidates_at opts client a b)" if "nonce_client_keeps I client" for client a b
    using that
    by (auto simp: candidates_at_def advance_floor_def nonce_client_keeps_def Let_def intro!: keeps_rules)
  then show ?thesis
    using assms
    by (auto simp: makeWhitelistNonceCandidates_def error_def nonce_client_keeps_def intro!: keeps_rules split: option.split)
qed


section \<open>The coordinator is the only caller\<close>

definition quiet_lib :: "('w \<Rightarrow> exchange list) \<Rightarrow> ('w, 'k) assembly_lib \<Rightarrow> bool" where
  "quiet_lib sent lib \<longleftrightarrow> (\<forall>L. lib_keeps (\<lambda>w. sent w = L) lib)"

definition logged_fetcher :: "('w \<Rightarrow> exchange list) \<Rightarrow> ('w, 'k) coordinator_options \<Rightarrow> bool" where
  "logged_fetcher sent opts \<longleftrightarrow>
     (\<forall>L call. hoare (\<lambda>w. sent w = L) (co_fetcher opts call) (\<lambda>r w. sent w = L @ [(call, r)]))"

lemma assembled_records_calls:
  assumes "guardian_parts lib env = Inr p" and "co_guardian opts = guardian_of lib env p"
    and "quiet_lib sent lib" and "logged_fetcher sent opts"
  shows "records_calls sent opts"
proof -
  let ?g = "guardian_of lib env p"
  have parts: "cg_whitelistNonceCandidates ?g = Some (makeWhitelistNonceCandidates (nonce_options_of lib p))"
    "sh_probeUpstream (cg_host ?g) = None" "sh_getChainClient (cg_host ?g) = chain_client (gp_clients p)"
    "sh_randomUUID (cg_host ?g) = sh_randomUUID (al_host lib)" "sh_auth (cg_host ?g) = sh_auth (al_host lib)"
    by (simp_all add: guardian_of_def install_def Let_def)
  have lib: "signing_keeps (\<lambda>w. sent w = L) lib" "views_keep (\<lambda>w. sent w = L) lib" "process_keeps (\<lambda>w. sent w = L) (al_host lib)" for L
    using assms(3) by (simp_all add: quiet_lib_def lib_keeps_def)
  have candidates: "keeps (\<lambda>w. sent w = L) (makeWhitelistNonceCandidates (nonce_options_of lib p) b)" for L b
  proof (rule candidates_keep)
    fix c client assume "map_of (np_clients (nonce_options_of lib p)) c = Some client"
    then have "client \<in> range (al_nonceClient lib)"
      by (auto simp: nonce_options_of_def dest!: map_of_SomeD)
    then show "nonce_client_keeps (\<lambda>w. sent w = L) client" using lib(2) by (auto simp: views_keep_def)
  qed
  show ?thesis
    unfolding records_calls_def Let_def assms(2) guardian_of_sel parts option.case
    using assms(4) lib(3) shipped_keeps [OF lib(1,2) guardian_parts_signer [OF assms(1)]] candidates
    by (simp add: logged_fetcher_def process_keeps_def chain_client_def keeps_ret)
qed

end
