(* ===== verification/Release_Manifests.thy ===== *)
theory Release_Manifests
  imports Json
begin

text \<open>
  The publish step (\<open>scripts/rewrite-workspace-deps.ts\<close>): the \<open>workspace:\<close> specifiers of every
  manifest under \<open>packages/\<close> are replaced in place, dependencies on private packages dropped or
  refused, and changed manifests written back. A manifest is the document \<open>Bun.file(path).json()\<close>
  gives, with what the script reads of it; reading and printing the files is left to Bun.
\<close>

section \<open>Manifests\<close>

text \<open>A dependency table is a JavaScript object: distinct keys in order, values that need not be strings.\<close>

record package_json =
  pj_name :: string
  pj_version :: "string option"
  pj_private :: "json option"
  pj_dependencies :: "(string, json) omap option"
  pj_devDependencies :: "(string, json) omap option"
  pj_peerDependencies :: "(string, json) omap option"
  pj_optionalDependencies :: "(string, json) omap option"

datatype dep_field = Dependencies | DevDependencies | PeerDependencies | OptionalDependencies

definition DEP_FIELDS :: "dep_field list" where
  "DEP_FIELDS = [Dependencies, DevDependencies, PeerDependencies, OptionalDependencies]"

fun pkg_deps :: "dep_field \<Rightarrow> package_json \<Rightarrow> (string, json) omap option" where
  "pkg_deps Dependencies pkg = pj_dependencies pkg"
| "pkg_deps DevDependencies pkg = pj_devDependencies pkg"
| "pkg_deps PeerDependencies pkg = pj_peerDependencies pkg"
| "pkg_deps OptionalDependencies pkg = pj_optionalDependencies pkg"

fun update_deps :: "dep_field \<Rightarrow> (string, json) omap \<Rightarrow> package_json \<Rightarrow> package_json" where
  "update_deps Dependencies d pkg = pkg\<lparr>pj_dependencies := Some d\<rparr>"
| "update_deps DevDependencies d pkg = pkg\<lparr>pj_devDependencies := Some d\<rparr>"
| "update_deps PeerDependencies d pkg = pkg\<lparr>pj_peerDependencies := Some d\<rparr>"
| "update_deps OptionalDependencies d pkg = pkg\<lparr>pj_optionalDependencies := Some d\<rparr>"

text \<open>The two errors that stop the script.\<close>

datatype publish_error = UnresolvedDependency string | PrivateDependency string string dep_field


section \<open>The rewrite\<close>

definition workspace_spec :: "json \<Rightarrow> string option" where
  "workspace_spec spec = (case spec of JStr s \<Rightarrow> if startsWith s ''workspace:'' then Some s else None | _ \<Rightarrow> None)"

definition resolveSpec :: "(string, string option) omap \<Rightarrow> string \<Rightarrow> string \<Rightarrow> publish_error + string" where
  "resolveSpec versions spec depName =
     (let range = drop (length ''workspace:'') spec in
      case map_of versions depName of
        Some (Some target) \<Rightarrow>
          if target = [] then Inl (UnresolvedDependency depName)
          else if range = ''*'' \<or> range = [] then Inr target
          else if range = ''^'' then Inr (''^'' @ target)
          else if range = ''~'' then Inr (''~'' @ target)
          else Inr range
      | _ \<Rightarrow> Inl (UnresolvedDependency depName))"

text \<open>One entry of \<open>Object.entries(deps)\<close>, against the table as changed so far.\<close>

definition rewrite_entry ::
    "(string, string option) omap \<Rightarrow> string list \<Rightarrow> string \<Rightarrow> dep_field \<Rightarrow> string \<times> json \<Rightarrow> (string, json) omap \<times> bool \<Rightarrow>
     publish_error + (string, json) omap \<times> bool" where
  "rewrite_entry versions privateNames name field entry state =
     (case workspace_spec (snd entry) of
        None \<Rightarrow> Inr state
      | Some spec \<Rightarrow>
          if fst entry \<in> set privateNames then
            (if field \<noteq> DevDependencies then Inl (PrivateDependency name (fst entry) field)
             else Inr (omap_delete (fst entry) (fst state), True))
          else (case resolveSpec versions spec (fst entry) of
                  Inl e \<Rightarrow> Inl e
                | Inr resolved \<Rightarrow> Inr (omap_set (fst entry) (JStr resolved) (fst state), True)))"

fun rewrite_entries ::
    "(string, string option) omap \<Rightarrow> string list \<Rightarrow> string \<Rightarrow> dep_field \<Rightarrow> (string \<times> json) list \<Rightarrow> (string, json) omap \<times> bool \<Rightarrow>
     publish_error + (string, json) omap \<times> bool" where
  "rewrite_entries versions privateNames name field [] state = Inr state"
| "rewrite_entries versions privateNames name field (e # es) state =
     (case rewrite_entry versions privateNames name field e state of
        Inl err \<Rightarrow> Inl err
      | Inr state' \<Rightarrow> rewrite_entries versions privateNames name field es state')"

fun rewrite_fields ::
    "(string, string option) omap \<Rightarrow> string list \<Rightarrow> dep_field list \<Rightarrow> package_json \<times> bool \<Rightarrow> publish_error + package_json \<times> bool" where
  "rewrite_fields versions privateNames [] state = Inr state"
| "rewrite_fields versions privateNames (field # rest) (pkg, dirty) =
     (case pkg_deps field pkg of
        None \<Rightarrow> rewrite_fields versions privateNames rest (pkg, dirty)
      | Some deps \<Rightarrow>
          (case rewrite_entries versions privateNames (pj_name pkg) field deps (deps, dirty) of
             Inl e \<Rightarrow> Inl e
           | Inr (deps', dirty') \<Rightarrow>
               rewrite_fields versions privateNames rest (update_deps field deps' pkg, dirty')))"

text \<open>Manifests are written one by one, so an error leaves the earlier ones written.\<close>

fun rewrite_manifests ::
    "(string, string option) omap \<Rightarrow> string list \<Rightarrow> (string \<times> package_json) list \<Rightarrow> (string \<times> package_json) list \<Rightarrow>
     (string \<times> package_json) list \<times> (publish_error + unit)" where
  "rewrite_manifests versions privateNames [] written = (written, Inr ())"
| "rewrite_manifests versions privateNames ((path, pkg) # manifests) written =
     (case rewrite_fields versions privateNames DEP_FIELDS (pkg, False) of
        Inl e \<Rightarrow> (written, Inl e)
      | Inr (pkg', dirty) \<Rightarrow>
          rewrite_manifests versions privateNames manifests (if dirty then written @ [(path, pkg')] else written))"

definition package_versions :: "(string \<times> package_json) list \<Rightarrow> (string, string option) omap" where
  "package_versions manifests = fold (\<lambda>(path, pkg). omap_set (pj_name pkg) (pj_version pkg)) manifests []"

definition private_names :: "(string \<times> package_json) list \<Rightarrow> string list" where
  "private_names manifests = map (pj_name \<circ> snd) (filter (\<lambda>(path, pkg). pj_private pkg = Some (JBool True)) manifests)"

definition rewrite_workspace_deps ::
    "(string \<times> package_json) list \<Rightarrow> (string \<times> package_json) list \<times> (publish_error + unit)" where
  "rewrite_workspace_deps found =
     (let manifests = sort_key fst found in
      rewrite_manifests (package_versions manifests) (private_names manifests) manifests [])"


section \<open>What a published manifest is\<close>

text \<open>Entry by entry, without the table: dropped, replaced or kept.\<close>

definition published_entry ::
    "(string, string option) omap \<Rightarrow> string list \<Rightarrow> string \<times> json \<Rightarrow> (string \<times> json) option" where
  "published_entry versions privateNames entry =
     (case workspace_spec (snd entry) of
        None \<Rightarrow> Some entry
      | Some spec \<Rightarrow>
          if fst entry \<in> set privateNames then None
          else (case resolveSpec versions spec (fst entry) of Inl e \<Rightarrow> Some entry | Inr r \<Rightarrow> Some (fst entry, JStr r)))"

definition entry_offence ::
    "(string, string option) omap \<Rightarrow> string list \<Rightarrow> string \<Rightarrow> dep_field \<Rightarrow> string \<times> json \<Rightarrow> publish_error option" where
  "entry_offence versions privateNames name field entry =
     (case workspace_spec (snd entry) of
        None \<Rightarrow> None
      | Some spec \<Rightarrow>
          if fst entry \<in> set privateNames
          then if field = DevDependencies then None else Some (PrivateDependency name (fst entry) field)
          else (case resolveSpec versions spec (fst entry) of Inl e \<Rightarrow> Some e | Inr r \<Rightarrow> None))"

definition published_deps :: "(string, string option) omap \<Rightarrow> string list \<Rightarrow> (string, json) omap \<Rightarrow> (string, json) omap" where
  "published_deps versions privateNames deps = List.map_filter (published_entry versions privateNames) deps"

definition published :: "(string, string option) omap \<Rightarrow> string list \<Rightarrow> package_json \<Rightarrow> package_json" where
  "published versions privateNames pkg =
     (let P = map_option (published_deps versions privateNames) in
      pkg\<lparr>pj_dependencies := P (pj_dependencies pkg), pj_devDependencies := P (pj_devDependencies pkg),
        pj_peerDependencies := P (pj_peerDependencies pkg), pj_optionalDependencies := P (pj_optionalDependencies pkg)\<rparr>)"

definition field_entries :: "package_json \<Rightarrow> dep_field \<Rightarrow> (string \<times> json) list" where
  "field_entries pkg field = (case pkg_deps field pkg of None \<Rightarrow> [] | Some deps \<Rightarrow> deps)"

definition offences :: "(string, string option) omap \<Rightarrow> string list \<Rightarrow> package_json \<Rightarrow> publish_error list" where
  "offences versions privateNames pkg =
     concat (map (\<lambda>field. List.map_filter (entry_offence versions privateNames (pj_name pkg) field) (field_entries pkg field)) DEP_FIELDS)"

definition needs_rewrite :: "package_json \<Rightarrow> bool" where
  "needs_rewrite pkg \<longleftrightarrow> (\<exists>field\<in>set DEP_FIELDS. \<exists>e\<in>set (field_entries pkg field). workspace_spec (snd e) \<noteq> None)"

definition wf_package :: "package_json \<Rightarrow> bool" where
  "wf_package pkg \<longleftrightarrow> (\<forall>field\<in>set DEP_FIELDS. omap_wf (field_entries pkg field))"


section \<open>The loop is the specification\<close>

lemma omap_set_here: "d \<notin> fst ` set xs \<Longrightarrow> omap_set d v (xs @ (d, s) # es) = xs @ (d, v) # es"
  by (induction xs) auto

lemma omap_delete_absent: "d \<notin> fst ` set xs \<Longrightarrow> omap_delete d xs = xs"
  unfolding omap_delete_def by (rule filter_True) auto

lemma omap_delete_here:
  assumes "d \<notin> fst ` set xs" and "d \<notin> fst ` set es"
  shows "omap_delete d (xs @ (d, s) # es) = xs @ es"
  using omap_delete_absent [OF assms(1)] omap_delete_absent [OF assms(2)] by (simp add: omap_delete_def)

lemma map_filter_Nil [simp]: "List.map_filter f [] = []"
  by (simp add: List.map_filter_def)

lemma map_filter_Cons: "List.map_filter f (x # xs) = (case f x of None \<Rightarrow> [] | Some y \<Rightarrow> [y]) @ List.map_filter f xs"
  by (simp add: List.map_filter_def split: option.split)

lemma published_entry_key: "published_entry v p e = Some x \<Longrightarrow> fst x = fst e"
  by (auto simp: published_entry_def split: option.splits if_splits sum.splits)

lemma published_deps_simps [simp]: "published_deps v p [] = []"
  "published_deps v p (e # es) = (case published_entry v p e of None \<Rightarrow> [] | Some x \<Rightarrow> [x]) @ published_deps v p es"
  by (simp_all add: published_deps_def map_filter_Cons split: option.split)

lemma published_keys: "fst ` set (published_deps v p ds) \<subseteq> fst ` set ds"
proof (induction ds)
  case (Cons e ds)
  then show ?case using published_entry_key [of v p e] by (cases "published_entry v p e") auto
qed simp

lemma rewrite_entry_spec:
  assumes "d \<notin> fst ` set xs" and "d \<notin> fst ` set es"
  shows "rewrite_entry v p name field (d, s) (xs @ (d, s) # es, dirty) =
    (case entry_offence v p name field (d, s) of
       None \<Rightarrow> Inr ((xs @ published_deps v p [(d, s)]) @ es, dirty \<or> workspace_spec s \<noteq> None)
     | Some e \<Rightarrow> Inl e)"
  using assms
  by (simp add: rewrite_entry_def entry_offence_def published_entry_def published_deps_def map_filter_Cons
      omap_set_here omap_delete_here List.map_filter_def split: option.split sum.split)

lemma rewrite_entries_spec:
  assumes "omap_wf es" and "fst ` set xs \<inter> fst ` set es = {}"
  shows "rewrite_entries v p name field es (xs @ es, dirty) =
    (case List.map_filter (entry_offence v p name field) es of
       [] \<Rightarrow> Inr (xs @ published_deps v p es, dirty \<or> (\<exists>e\<in>set es. workspace_spec (snd e) \<noteq> None))
     | e # _ \<Rightarrow> Inl e)"
  using assms
proof (induction es arbitrary: xs dirty)
  case (Cons e es)
  obtain d s where e: "e = (d, s)" by fastforce
  from Cons.prems have d: "d \<notin> fst ` set xs" "d \<notin> fst ` set es" "omap_wf es" and disj: "fst ` set xs \<inter> fst ` set es = {}"
    by (auto simp: e omap_wf_def)
  have "fst ` set (xs @ published_deps v p [(d, s)]) \<inter> fst ` set es = {}"
    using subset_trans [OF published_keys [of v p "[(d, s)]"], of "{d}"] d(2) disj by (simp only: set_append image_Un) auto
  note IH = Cons.IH [OF d(3) this]
  show ?case
    by (simp add: e rewrite_entry_spec [OF d(1,2)] IH [simplified] map_filter_Cons disj_assoc split: option.split list.split)
qed (simp add: published_deps_def List.map_filter_def)

lemmas rewrite_table_spec = rewrite_entries_spec [where xs = "[]", simplified]

lemma pkg_deps_update [simp]: "pkg_deps f (update_deps g d pkg) = (if f = g then Some d else pkg_deps f pkg)"
  "pj_name (update_deps g d pkg) = pj_name pkg"
  by (cases f; cases g; simp)+

lemma field_entries_update [simp]: "field_entries (update_deps g d pkg) f = (if f = g then d else field_entries pkg f)"
  by (simp add: field_entries_def)

definition field_offences :: "(string, string option) omap \<Rightarrow> string list \<Rightarrow> package_json \<Rightarrow> dep_field \<Rightarrow> publish_error list" where
  "field_offences v p pkg field =
     List.map_filter (entry_offence v p (pj_name pkg) field) (field_entries pkg field)"

definition field_published :: "(string, string option) omap \<Rightarrow> string list \<Rightarrow> dep_field \<Rightarrow> package_json \<Rightarrow> package_json" where
  "field_published v p field pkg =
     (case pkg_deps field pkg of None \<Rightarrow> pkg | Some deps \<Rightarrow> update_deps field (published_deps v p deps) pkg)"

lemma field_published_other [simp]: "f \<noteq> g \<Longrightarrow> field_entries (field_published v p g pkg) f = field_entries pkg f"
  "pj_name (field_published v p g pkg) = pj_name pkg"
  by (simp_all add: field_published_def split: option.split)

lemma rewrite_fields_spec:
  assumes "distinct fs" and "\<forall>f\<in>set fs. omap_wf (field_entries pkg f)"
  shows "rewrite_fields v p fs (pkg, dirty) =
    (case concat (map (field_offences v p pkg) fs) of
       [] \<Rightarrow> Inr (fold (field_published v p) fs pkg,
              dirty \<or> (\<exists>f\<in>set fs. \<exists>e\<in>set (field_entries pkg f). workspace_spec (snd e) \<noteq> None))
     | e # _ \<Rightarrow> Inl e)"
  using assms
proof (induction fs arbitrary: pkg dirty)
  case (Cons f fs)
  let ?pkg = "field_published v p f pkg"
  have same: "\<forall>g\<in>set fs. field_entries ?pkg g = field_entries pkg g" using Cons.prems(1) by (metis distinct.simps(2) field_published_other(1))
  then have off: "map (field_offences v p ?pkg) fs = map (field_offences v p pkg) fs"
    by (simp add: field_offences_def)
  from Cons.prems same have wf: "\<forall>g\<in>set fs. omap_wf (field_entries ?pkg g)" and d: "distinct fs" by auto
  note IH = Cons.IH [OF d wf, unfolded off]
  show ?case
  proof (cases "pkg_deps f pkg")
    case None
    then have "field_published v p f pkg = pkg" "field_offences v p pkg f = []" "field_entries pkg f = []"
      by (simp_all add: field_published_def field_offences_def field_entries_def)
    with None IH show ?thesis by (simp cong: list.case_cong)
  next
    case (Some deps)
    then have "omap_wf deps" using Cons.prems(2) by (simp add: field_entries_def)
    note table = rewrite_table_spec [OF this, of v p "pj_name pkg" f dirty]
    from Some have sel: "field_published v p f pkg = update_deps f (published_deps v p deps) pkg"
      "List.map_filter (entry_offence v p (pj_name pkg) f) deps = field_offences v p pkg f" "field_entries pkg f = deps"
      by (simp_all add: field_published_def field_offences_def field_entries_def)
    show ?thesis
    proof (cases "field_offences v p pkg f")
      case Nil
      with table have "rewrite_entries v p (pj_name pkg) f deps (deps, dirty) =
          Inr (published_deps v p deps, dirty \<or> (\<exists>e\<in>set deps. workspace_spec (snd e) \<noteq> None))"
        by (simp add: sel(2))
      then have "rewrite_fields v p (f # fs) (pkg, dirty) =
          rewrite_fields v p fs (?pkg, dirty \<or> (\<exists>e\<in>set deps. workspace_spec (snd e) \<noteq> None))"
        using Some by (simp add: sel(1) del: not_None_eq)
      with IH Nil same show ?thesis by (simp add: sel(3) disj_assoc cong: list.case_cong del: not_None_eq rewrite_fields.simps)
    next
      case (Cons e es)
      with table Some show ?thesis by (simp add: sel(2))
    qed
  qed
qed simp

lemma fold_published: "fold (field_published v p) DEP_FIELDS pkg = published v p pkg"
  by (cases pkg) (simp add: DEP_FIELDS_def field_published_def published_def Let_def split: option.split)

lemma rewrite_package_spec:
  "wf_package pkg \<Longrightarrow> rewrite_fields v p DEP_FIELDS (pkg, False) =
     (case offences v p pkg of [] \<Rightarrow> Inr (published v p pkg, needs_rewrite pkg) | e # _ \<Rightarrow> Inl e)"
proof -
  assume "wf_package pkg"
  moreover have "distinct DEP_FIELDS" by (simp add: DEP_FIELDS_def)
  moreover have "offences v p pkg = concat (map (field_offences v p pkg) DEP_FIELDS)"
    by (simp add: offences_def field_offences_def [abs_def])
  ultimately show ?thesis
    using rewrite_fields_spec [of DEP_FIELDS pkg v p False]
    by (simp add: wf_package_def fold_published needs_rewrite_def del: rewrite_fields.simps cong: list.case_cong)
qed

lemma rewrite_manifests_spec:
  assumes "\<forall>m\<in>set ms. wf_package (snd m)"
  shows "rewrite_manifests v p ms written =
    (let ok = takeWhile (\<lambda>m. offences v p (snd m) = []) ms in
     (written @ map (map_prod id (published v p)) (filter (\<lambda>m. needs_rewrite (snd m)) ok),
      if ok = ms then Inr () else Inl (hd (offences v p (snd (ms ! length ok))))))"
  using assms
proof (induction ms arbitrary: written)
  case (Cons m ms)
  obtain path pkg where m: "m = (path, pkg)" by fastforce
  from Cons show ?case
    by (cases "offences v p pkg") (simp_all add: m rewrite_package_spec Let_def)
qed simp


text \<open>
  C38. The in-place rewrite is the entry-by-entry specification. With tables of distinct keys,
  the script writes, in the order of the paths and up to the first manifest with an offence, exactly
  the manifests that hold a \<open>workspace:\<close> specifier, each with every table mapped by
  \<open>published_entry\<close>; it succeeds exactly if no manifest has an offence, and otherwise throws the first
  offence of the first such manifest, with the earlier ones already written.
\<close>

theorem rewrite_publishes:
  assumes "\<forall>m\<in>set found. wf_package (snd m)"
  shows "rewrite_workspace_deps found =
    (let ms = sort_key fst found; v = package_versions ms; p = private_names ms;
         ok = takeWhile (\<lambda>m. offences v p (snd m) = []) ms in
     (map (map_prod id (published v p)) (filter (\<lambda>m. needs_rewrite (snd m)) ok),
      if ok = ms then Inr () else Inl (hd (offences v p (snd (ms ! length ok))))))"
  using rewrite_manifests_spec [of "sort_key fst found"] assms by (simp add: rewrite_workspace_deps_def Let_def)

text \<open>
  What is published can be installed: of a manifest without offence no \<open>workspace:\<close> specifier is left,
  except the explicit override whose own range was written with the prefix.
\<close>

lemma no_offence_entry:
  "offences v p pkg = [] \<Longrightarrow> field \<in> set DEP_FIELDS \<Longrightarrow> e \<in> set (field_entries pkg field) \<Longrightarrow>
   entry_offence v p (pj_name pkg) field e = None"
  by (auto simp: offences_def List.map_filter_def filter_empty_conv)

lemma resolveSpec_range:
  assumes "resolveSpec v spec d = Inr r" and "startsWith r ''workspace:''"
    and "\<And>n t. map_of v n = Some (Some t) \<Longrightarrow> \<not> startsWith t ''workspace:''"
  shows "r = drop (length ''workspace:'') spec"
  using assms
  by (auto simp: resolveSpec_def Let_def startsWith_def split: option.splits if_splits)

lemma published_installable:
  assumes "offences v p pkg = []" and "field \<in> set DEP_FIELDS"
    and "(d, JStr s) \<in> set (published_deps v p (field_entries pkg field))" and "startsWith s ''workspace:''"
    and "\<And>n t. map_of v n = Some (Some t) \<Longrightarrow> \<not> startsWith t ''workspace:''"
  shows "(d, JStr (''workspace:'' @ s)) \<in> set (field_entries pkg field)"
proof -
  from assms(3) obtain e where e: "e \<in> set (field_entries pkg field)" "published_entry v p e = Some (d, JStr s)"
    by (auto simp: published_deps_def List.map_filter_def)
  from no_offence_entry [OF assms(1,2) e(1)] e(2) assms(4) obtain spec where
    w: "workspace_spec (snd e) = Some spec" "resolveSpec v spec (fst e) = Inr s" "fst e = d"
    by (auto simp: published_entry_def entry_offence_def workspace_spec_def split: option.splits if_splits sum.splits)
  from w(1) have spec: "snd e = JStr spec" "take (length ''workspace:'') spec = ''workspace:''"
    by (auto simp: workspace_spec_def startsWith_def split: json.splits if_splits)
  have "s = drop (length ''workspace:'') spec" by (rule resolveSpec_range [OF w(2) assms(4,5)])
  with spec(2) have "spec = ''workspace:'' @ s" by (metis append_take_drop_id)
  with e(1) w(3) spec(1) show ?thesis by (metis prod.collapse)
qed

definition ex_manifests :: "(string \<times> package_json) list" where
  "ex_manifests =
     [(''b'', \<lparr>pj_name = ''core'', pj_version = Some ''1.2.0'', pj_private = None,
         pj_dependencies = Some [(''viem'', JStr ''2.0.0'')],
         pj_devDependencies = Some [(''fixtures'', JStr ''workspace:*''), (''vitest'', JStr ''1'')],
         pj_peerDependencies = None, pj_optionalDependencies = None\<rparr>),
      (''a'', \<lparr>pj_name = ''defaults'', pj_version = Some ''1.2.0'', pj_private = Some (JBool False),
         pj_dependencies = Some [(''core'', JStr ''workspace:^''), (''pino'', JStr ''9'')], pj_devDependencies = None,
         pj_peerDependencies = Some [(''core'', JStr ''workspace:>=1'')], pj_optionalDependencies = None\<rparr>),
      (''c'', \<lparr>pj_name = ''fixtures'', pj_version = None, pj_private = Some (JBool True), pj_dependencies = None,
         pj_devDependencies = None, pj_peerDependencies = None, pj_optionalDependencies = None\<rparr>)]"

theorem rewrite_publishes_witness:
  "map fst (fst (rewrite_workspace_deps ex_manifests)) = [''a'', ''b''] \<and> snd (rewrite_workspace_deps ex_manifests) = Inr () \<and>
   map (pj_dependencies \<circ> snd) (fst (rewrite_workspace_deps ex_manifests)) =
     [Some [(''core'', JStr ''^1.2.0''), (''pino'', JStr ''9'')], Some [(''viem'', JStr ''2.0.0'')]] \<and>
   map (pj_devDependencies \<circ> snd) (fst (rewrite_workspace_deps ex_manifests)) = [None, Some [(''vitest'', JStr ''1'')]]"
proof -
  have wf: "\<forall>m\<in>set ex_manifests. wf_package (snd m)" by code_simp
  show ?thesis unfolding rewrite_publishes [OF wf] by code_simp
qed

end
