(* ===== verification/Fixture_Artifacts.thy ===== *)
theory Fixture_Artifacts
  imports Gates
begin

text \<open>
  The contract fixtures (\<open>scripts/extract-contract-fixtures.ts\<close>): \<open>runExtract\<close> stamps the forge output of
  the source repositories with their commit and writes it, with an index, under \<open>artifacts/\<close>;
  \<open>runCheck\<close> validates what is bundled and, where forge output is present, compares it. The file system
  is a map from paths to texts; git, forge, \<open>JSON.parse\<close> and the path resolution are parameters.
\<close>

section \<open>Sources\<close>

datatype fixture_repo = Grunt | WhitelistRepo | Local

record fixture_source =
  fx_name :: string
  fx_artifactPath :: string
  fx_sourcePath :: string
  fx_repo :: fixture_repo

fun repo_name :: "fixture_repo \<Rightarrow> string" where
  "repo_name Grunt = ''grunt''"
| "repo_name WhitelistRepo = ''whitelist''"
| "repo_name Local = ''local''"

abbreviation fixture_source_of :: "string \<Rightarrow> string \<Rightarrow> fixture_repo \<Rightarrow> fixture_source" where
  "fixture_source_of name path repo \<equiv>
     \<lparr>fx_name = name, fx_artifactPath = ''out/'' @ name @ ''.sol/'' @ name @ ''.json'', fx_sourcePath = path, fx_repo = repo\<rparr>"

definition SOURCES :: "fixture_source list" where
  "SOURCES =
     [fixture_source_of ''Facility'' ''src/facility/Facility.sol'' Grunt,
      fixture_source_of ''IntentDescriptor'' ''src/facility/IntentDescriptor.sol'' Grunt,
      fixture_source_of ''TransferGuard'' ''src/guard/TransferGuard.sol'' Grunt,
      fixture_source_of ''PositionManagerFactory'' ''src/manager/PositionManagerFactory.sol'' Grunt,
      fixture_source_of ''RequestFactory'' ''src/request/RequestFactory.sol'' Grunt,
      fixture_source_of ''MockERC20'' ''test/mock/MockERC20.sol'' Grunt,
      fixture_source_of ''RequestWhitelist'' ''src/RequestWhitelist.sol'' WhitelistRepo,
      fixture_source_of ''ERC1967Factory'' ''lib/solady/src/utils/ERC1967Factory.sol'' WhitelistRepo,
      fixture_source_of ''OwnableMockFund'' ''OwnableMockFund.sol'' Local,
      fixture_source_of ''MockRetargetter'' ''MockRetargetter.sol'' Local,
      fixture_source_of ''Multicall3'' ''Multicall3.sol'' Local]"

type_synonym files = "string \<Rightarrow> string option"

datatype forge_run = ForgeNotFound | ForgeFailed files | ForgeBuilt files

text \<open>\<open>sl_gitHead\<close> and \<open>sl_gitStatus\<close> are the standard output of \<open>git rev-parse HEAD\<close> and \<open>git status --porcelain\<close>, if they succeed.\<close>

record script_lib =
  sl_env :: "string \<Rightarrow> string option"
  sl_resolve :: "string \<Rightarrow> string"
  sl_gitHead :: "string \<Rightarrow> string option"
  sl_gitStatus :: "string \<Rightarrow> string option"
  sl_forge :: "string \<Rightarrow> files \<Rightarrow> forge_run"
  sl_parse :: "string \<Rightarrow> json option"

text \<open>\<open>path.join\<close> of a resolved directory and a plain relative path.\<close>

definition path_join :: "string \<Rightarrow> string \<Rightarrow> string" where
  "path_join dir rel = dir @ ''/'' @ rel"

definition ARTIFACT_DIR :: "script_lib \<Rightarrow> string" where
  "ARTIFACT_DIR lib = sl_resolve lib ''packages/guardian-test-fixtures/artifacts''"

definition env_or :: "script_lib \<Rightarrow> string \<Rightarrow> string \<Rightarrow> string" where
  "env_or lib name fallback =
     (case sl_env lib name of Some v \<Rightarrow> if v = [] then sl_resolve lib fallback else v | None \<Rightarrow> sl_resolve lib fallback)"

fun REPO_ROOTS :: "script_lib \<Rightarrow> fixture_repo \<Rightarrow> string" where
  "REPO_ROOTS lib Grunt = env_or lib ''GRUNT_REPO_ROOT'' ''../grunt''"
| "REPO_ROOTS lib WhitelistRepo = env_or lib ''WHITELIST_REPO_ROOT'' ''../3f-request-whitelist''"
| "REPO_ROOTS lib Local = sl_resolve lib ''packages/guardian-test-fixtures/contracts''"

definition fixturePath :: "script_lib \<Rightarrow> string \<Rightarrow> string" where
  "fixturePath lib name = path_join (ARTIFACT_DIR lib) (name @ ''.json'')"

definition artifactAbs :: "script_lib \<Rightarrow> fixture_source \<Rightarrow> string" where
  "artifactAbs lib src = path_join (REPO_ROOTS lib (fx_repo src)) (fx_artifactPath src)"


section \<open>Stamping\<close>

definition computeGitHead :: "script_lib \<Rightarrow> bool \<Rightarrow> string \<Rightarrow> string" where
  "computeGitHead lib markDirty repoPath =
     (case sl_gitHead lib repoPath of
        None \<Rightarrow> ''no-git''
      | Some out \<Rightarrow>
          let hash = trim out in
          if \<not> markDirty then hash
          else (case sl_gitStatus lib repoPath of
                  Some status \<Rightarrow> if trim status \<noteq> [] then hash @ ''-dirty'' else hash
                | None \<Rightarrow> hash))"

text \<open>The cache of \<open>gitHead\<close>, per repository.\<close>

definition gitHead :: "script_lib \<Rightarrow> bool \<Rightarrow> string \<Rightarrow> (string, string) omap \<Rightarrow> string \<times> (string, string) omap" where
  "gitHead lib markDirty repoPath cache =
     (case map_of cache repoPath of
        Some cached \<Rightarrow> (cached, cache)
      | None \<Rightarrow> (let result = computeGitHead lib markDirty repoPath in (result, omap_set repoPath result cache)))"

text \<open>\<open>value.key\<close>: a \<open>TypeError\<close> (\<open>None\<close>) on \<open>undefined\<close> and \<open>null\<close>.\<close>

fun js_member :: "json option \<Rightarrow> string \<Rightarrow> json option option" where
  "js_member None k = None"
| "js_member (Some JNull) k = None"
| "js_member (Some j) k = Some (js_prop j k)"

record stamped_artifact =
  st_name :: string
  st_abi :: "json option"
  st_bytecode :: "json option"
  st_deployedBytecode :: "json option"
  st_sourceRepo :: string
  st_sourcePath :: string
  st_sourceCommitHash :: string

datatype fixture_error = MissingFoundryArtifact string | UnreadableArtifact | ForgeMissing | ForgeBuildFailed

text \<open>\<open>abi\<close>, \<open>bytecode.object\<close> and \<open>deployedBytecode.object\<close>; \<open>None\<close> where reading them throws.\<close>

definition loadFoundryArtifact :: "script_lib \<Rightarrow> string \<Rightarrow> (json option \<times> json option \<times> json option) option" where
  "loadFoundryArtifact lib content = do {
     raw \<leftarrow> sl_parse lib content;
     abi \<leftarrow> js_member (Some raw) ''abi'';
     bytecode \<leftarrow> js_member (Some raw) ''bytecode'';
     object \<leftarrow> js_member bytecode ''object'';
     deployedBytecode \<leftarrow> js_member (Some raw) ''deployedBytecode'';
     deployedObject \<leftarrow> js_member deployedBytecode ''object'';
     Some (abi, object, deployedObject)
   }"

definition stamp ::
    "script_lib \<Rightarrow> files \<Rightarrow> bool \<Rightarrow> fixture_source \<Rightarrow> (string, string) omap \<Rightarrow>
     fixture_error + stamped_artifact \<times> (string, string) omap" where
  "stamp lib fs markDirty src cache =
     (case fs (artifactAbs lib src) of
        None \<Rightarrow> Inl (MissingFoundryArtifact (fx_name src))
      | Some content \<Rightarrow>
          (case loadFoundryArtifact lib content of
             None \<Rightarrow> Inl UnreadableArtifact
           | Some (abi, bytecode, deployedBytecode) \<Rightarrow>
               let (hash, cache') = gitHead lib markDirty (REPO_ROOTS lib (fx_repo src)) cache in
               Inr (\<lparr>st_name = fx_name src, st_abi = abi, st_bytecode = bytecode, st_deployedBytecode = deployedBytecode,
                 st_sourceRepo = repo_name (fx_repo src), st_sourcePath = fx_sourcePath src, st_sourceCommitHash = hash\<rparr>, cache')))"


section \<open>Extraction\<close>

text \<open>\<open>JSON.stringify(value, null, 2)\<close>, from the indentation of the line on.\<close>

fun stringify_indented :: "nat \<Rightarrow> json \<Rightarrow> string" where
  "stringify_indented n (JArr js) =
     (if js = [] then ''[]''
      else ''['' @ [CHR 0x0A] @ join_with ('','' @ [CHR 0x0A]) (map (\<lambda>j. replicate (n + 2) (CHR '' '') @ stringify_indented (n + 2) j) js) @
        [CHR 0x0A] @ replicate n (CHR '' '') @ '']'')"
| "stringify_indented n (JObj kvs) =
     (if kvs = [] then ''{}''
      else ''{'' @ [CHR 0x0A] @ join_with ('','' @ [CHR 0x0A])
          (map (\<lambda>(k, v). replicate (n + 2) (CHR '' '') @ json_quote k @ '': '' @ stringify_indented (n + 2) v) kvs) @
        [CHR 0x0A] @ replicate n (CHR '' '') @ ''}'')"
| "stringify_indented n j = JSON_stringify j"

definition document_text :: "json \<Rightarrow> string" where
  "document_text j = stringify_indented 0 j @ [CHR 0x0A]"

definition stamped_json :: "stamped_artifact \<Rightarrow> json" where
  "stamped_json s = JObj
     ([(''name'', JStr (st_name s))] @ opt_field ''abi'' (st_abi s) @ opt_field ''bytecode'' (st_bytecode s) @
      opt_field ''deployedBytecode'' (st_deployedBytecode s) @
      [(''sourceRepo'', JStr (st_sourceRepo s)), (''sourcePath'', JStr (st_sourcePath s)),
       (''sourceCommitHash'', JStr (st_sourceCommitHash s))])"

definition writeArtifact :: "script_lib \<Rightarrow> stamped_artifact \<Rightarrow> files \<Rightarrow> files" where
  "writeArtifact lib s fs = fs(fixturePath lib (st_name s) \<mapsto> document_text (stamped_json s))"

definition index_entry :: "json option \<Rightarrow> json option \<Rightarrow> json option \<Rightarrow> json option \<Rightarrow> json" where
  "index_entry name sourceRepo sourcePath sourceCommitHash = JObj
     (opt_field ''name'' name @ opt_field ''sourceRepo'' sourceRepo @ opt_field ''sourcePath'' sourcePath @
      opt_field ''sourceCommitHash'' sourceCommitHash)"

definition index_path :: "script_lib \<Rightarrow> string" where
  "index_path lib = path_join (ARTIFACT_DIR lib) ''INDEX.json''"

definition writeIndex :: "script_lib \<Rightarrow> stamped_artifact list \<Rightarrow> files \<Rightarrow> files" where
  "writeIndex lib stamps fs = fs(index_path lib \<mapsto> document_text (JArr (map (\<lambda>s.
     index_entry (Some (JStr (st_name s))) (Some (JStr (st_sourceRepo s))) (Some (JStr (st_sourcePath s)))
       (Some (JStr (st_sourceCommitHash s)))) stamps)))"

fun stamp_all ::
    "script_lib \<Rightarrow> files \<Rightarrow> fixture_source list \<Rightarrow> (string, string) omap \<Rightarrow> fixture_error + stamped_artifact list" where
  "stamp_all lib fs [] cache = Inr []"
| "stamp_all lib fs (src # srcs) cache =
     (case stamp lib fs True src cache of
        Inl e \<Rightarrow> Inl e
      | Inr (s, cache') \<Rightarrow> (case stamp_all lib fs srcs cache' of Inl e \<Rightarrow> Inl e | Inr ss \<Rightarrow> Inr (s # ss)))"

definition buildLocal :: "script_lib \<Rightarrow> files \<Rightarrow> files \<times> (fixture_error + unit)" where
  "buildLocal lib fs =
     (case sl_forge lib (REPO_ROOTS lib Local) fs of
        ForgeNotFound \<Rightarrow> (fs, Inl ForgeMissing)
      | ForgeFailed fs' \<Rightarrow> (fs', Inl ForgeBuildFailed)
      | ForgeBuilt fs' \<Rightarrow> (fs', Inr ()))"

definition runExtract :: "script_lib \<Rightarrow> files \<Rightarrow> files \<times> (fixture_error + unit)" where
  "runExtract lib fs =
     (case buildLocal lib fs of
        (fs', Inl e) \<Rightarrow> (fs', Inl e)
      | (fs', Inr u) \<Rightarrow>
          (case stamp_all lib fs' SOURCES [] of
             Inl e \<Rightarrow> (fs', Inl e)
           | Inr stamped \<Rightarrow> (writeIndex lib stamped (fold (writeArtifact lib) stamped fs'), Inr ())))"


section \<open>The check\<close>

text \<open>Template literals and \<open>RegExp.test\<close> convert their operand; an object with a \<open>toString\<close> of its own cannot be converted.\<close>

fun toString_throws :: "json \<Rightarrow> bool" where
  "toString_throws (JArr js) = list_ex toString_throws js"
| "toString_throws (JObj kvs) = (map_of kvs ''toString'' \<noteq> None)"
| "toString_throws _ = False"

text \<open>
  Whether the converted value is 40 lower-case hexadecimal digits: a string of them, or an array of one
  such value. No number prints as 40 digits.
\<close>

fun full_commit_hash :: "json \<Rightarrow> bool" where
  "full_commit_hash (JStr s) = (length s = 40 \<and> list_all is_lower_hex s)"
| "full_commit_hash (JArr [j]) = full_commit_hash j"
| "full_commit_hash _ = False"

definition REQUIRED_FIELDS :: "string list" where
  "REQUIRED_FIELDS = [''name'', ''sourceRepo'', ''sourcePath'', ''abi'', ''bytecode'', ''deployedBytecode'', ''sourceCommitHash'']"

datatype bundle_check = Crash | Problem | Bundled json

definition inspect_bundled :: "script_lib \<Rightarrow> files \<Rightarrow> fixture_source \<Rightarrow> bundle_check" where
  "inspect_bundled lib fs src =
     (case Option.bind (fs (fixturePath lib (fx_name src))) (sl_parse lib) of
        None \<Rightarrow> Problem
      | Some artifact \<Rightarrow>
          let field = js_prop artifact in
          if artifact = JNull then Crash
          else if list_ex (\<lambda>k. field k = None \<or> field k = Some JNull \<or> field k = Some (JStr [])) REQUIRED_FIELDS then Problem
          else if field ''name'' \<noteq> Some (JStr (fx_name src)) \<or> field ''sourceRepo'' \<noteq> Some (JStr (repo_name (fx_repo src))) \<or>
             field ''sourcePath'' \<noteq> Some (JStr (fx_sourcePath src)) then
            (if list_ex toString_throws (map (the \<circ> field) [''name'', ''sourceRepo'', ''sourcePath'']) then Crash else Problem)
          else if toString_throws (the (field ''sourceCommitHash'')) then Crash
          else if full_commit_hash (the (field ''sourceCommitHash'')) then Bundled artifact
          else Problem)"

fun check_bundled ::
    "script_lib \<Rightarrow> files \<Rightarrow> fixture_source list \<Rightarrow> (string, json) omap \<Rightarrow> nat \<Rightarrow> ((string, json) omap \<times> nat) option" where
  "check_bundled lib fs [] bundled failures = Some (bundled, failures)"
| "check_bundled lib fs (src # srcs) bundled failures =
     (case inspect_bundled lib fs src of
        Crash \<Rightarrow> None
      | Problem \<Rightarrow> check_bundled lib fs srcs bundled (failures + 1)
      | Bundled artifact \<Rightarrow> check_bundled lib fs srcs (omap_set (fx_name src) artifact bundled) failures)"

definition bundled_index :: "json list \<Rightarrow> string" where
  "bundled_index arts = document_text (JArr (map (\<lambda>a. index_entry (js_prop a ''name'') (js_prop a ''sourceRepo'')
     (js_prop a ''sourcePath'') (js_prop a ''sourceCommitHash'')) arts))"

definition check_index :: "script_lib \<Rightarrow> files \<Rightarrow> (string, json) omap \<Rightarrow> nat" where
  "check_index lib fs bundled =
     (if length bundled = length SOURCES \<and> fs (index_path lib) \<noteq> Some (bundled_index (map snd bundled)) then 1 else 0)"

fun strict_eq :: "json option \<Rightarrow> json option \<Rightarrow> bool" where
  "strict_eq None None = True"
| "strict_eq (Some JNull) (Some JNull) = True"
| "strict_eq (Some (JStr a)) (Some (JStr b)) = (a = b)"
| "strict_eq (Some (JBool a)) (Some (JBool b)) = (a = b)"
| "strict_eq (Some (JNum a)) (Some (JNum b)) = (a = b \<and> a \<noteq> JNaN)"
| "strict_eq _ _ = False"

definition same_content :: "json \<Rightarrow> stamped_artifact \<Rightarrow> bool" where
  "same_content existing current \<longleftrightarrow>
     map_option JSON_stringify (js_prop existing ''abi'') = map_option JSON_stringify (st_abi current) \<and>
     strict_eq (js_prop existing ''bytecode'') (st_bytecode current) \<and>
     strict_eq (js_prop existing ''deployedBytecode'') (st_deployedBytecode current)"

record check_report =
  cr_failures :: nat
  cr_skippedRepos :: "(string, string) omap"
  cr_otherCommitRepos :: "(string, json option \<times> string) omap"
  cr_driftChecked :: nat

definition drift_step ::
    "script_lib \<Rightarrow> files \<Rightarrow> (string, json) omap \<Rightarrow> fixture_source \<Rightarrow> check_report \<times> (string, string) omap \<Rightarrow>
     (check_report \<times> (string, string) omap) option" where
  "drift_step lib fs bundled src state =
     (case (state, map_of bundled (fx_name src), fs (artifactAbs lib src)) of
        (_, None, _) \<Rightarrow> Some state
      | ((r, cache), Some existing, None) \<Rightarrow>
          Some (r\<lparr>cr_skippedRepos := omap_set (repo_name (fx_repo src)) (REPO_ROOTS lib (fx_repo src)) (cr_skippedRepos r)\<rparr>, cache)
      | ((r, cache), Some existing, Some _) \<Rightarrow>
          (case stamp lib fs False src cache of
             Inl e \<Rightarrow> None
           | Inr (current, cache') \<Rightarrow>
               let bundledHash = js_prop existing ''sourceCommitHash'' in
               Some (if fx_repo src \<noteq> Local \<and> bundledHash \<noteq> Some (JStr (st_sourceCommitHash current))
                 then r\<lparr>cr_otherCommitRepos := omap_set (repo_name (fx_repo src)) (bundledHash, st_sourceCommitHash current)
                        (cr_otherCommitRepos r)\<rparr>
                 else r\<lparr>cr_driftChecked := cr_driftChecked r + 1,
                        cr_failures := cr_failures r + (if same_content existing current then 0 else 1)\<rparr>, cache')))"

fun check_drift ::
    "script_lib \<Rightarrow> files \<Rightarrow> (string, json) omap \<Rightarrow> fixture_source list \<Rightarrow> check_report \<times> (string, string) omap \<Rightarrow> check_report option" where
  "check_drift lib fs bundled [] (r, cache) = Some r"
| "check_drift lib fs bundled (src # srcs) state =
     Option.bind (drift_step lib fs bundled src state) (check_drift lib fs bundled srcs)"

text \<open>\<open>None\<close>: an exception ends the process. Otherwise it exits with 1 exactly if there are failures.\<close>

definition runCheck :: "script_lib \<Rightarrow> files \<Rightarrow> check_report option" where
  "runCheck lib fs = do {
     (bundled, failures) \<leftarrow> check_bundled lib fs SOURCES [] 0;
     check_drift lib fs bundled SOURCES
       (\<lparr>cr_failures = failures + check_index lib fs bundled, cr_skippedRepos = [], cr_otherCommitRepos = [], cr_driftChecked = 0\<rparr>, [])
   }"

definition check_passes :: "script_lib \<Rightarrow> files \<Rightarrow> bool" where
  "check_passes lib fs \<longleftrightarrow> (case runCheck lib fs of None \<Rightarrow> False | Some r \<Rightarrow> cr_failures r = 0)"


section \<open>The cache of git heads is transparent\<close>

definition heads_ok :: "script_lib \<Rightarrow> bool \<Rightarrow> (string, string) omap \<Rightarrow> bool" where
  "heads_ok lib md cache \<longleftrightarrow> (\<forall>k v. map_of cache k = Some v \<longrightarrow> v = computeGitHead lib md k)"

lemma heads_ok_Nil [simp]: "heads_ok lib md []"
  by (simp add: heads_ok_def)

lemma gitHead_cached:
  "heads_ok lib md cache \<Longrightarrow> gitHead lib md k cache = (h, cache') \<Longrightarrow> h = computeGitHead lib md k \<and> heads_ok lib md cache'"
  by (auto simp: gitHead_def heads_ok_def Let_def split: option.splits if_splits)

definition stamp_of :: "script_lib \<Rightarrow> files \<Rightarrow> bool \<Rightarrow> fixture_source \<Rightarrow> fixture_error + stamped_artifact" where
  "stamp_of lib fs md src = map_sum id fst (stamp lib fs md src [])"

lemma stamp_cached:
  assumes "heads_ok lib md cache"
  shows "\<exists>cache'. heads_ok lib md cache' \<and> stamp lib fs md src cache = map_sum id (\<lambda>s. (s, cache')) (stamp_of lib fs md src)"
proof -
  obtain h c where h: "gitHead lib md (REPO_ROOTS lib (fx_repo src)) cache = (h, c)" by fastforce
  obtain h' c' where h': "gitHead lib md (REPO_ROOTS lib (fx_repo src)) [] = (h', c')" by fastforce
  from gitHead_cached [OF assms h] gitHead_cached [OF _ h'] have "h = h'" "heads_ok lib md c" by simp_all
  then show ?thesis
    by (auto simp: stamp_of_def stamp_def h h' split: option.split)
qed

lemma stamp_all_stamps:
  "heads_ok lib True cache \<Longrightarrow> stamp_all lib fs srcs cache = Inr ss \<longleftrightarrow> list_all2 (\<lambda>src s. stamp_of lib fs True src = Inr s) srcs ss"
proof (induction srcs arbitrary: cache ss)
  case (Cons src srcs)
  obtain cache' where c: "heads_ok lib True cache'" "stamp lib fs True src cache = map_sum id (\<lambda>s. (s, cache')) (stamp_of lib fs True src)"
    using stamp_cached [OF Cons.prems] by blast
  show ?case
    by (cases ss; cases "stamp_of lib fs True src") (auto simp: c(2) simp flip: Cons.IH [OF c(1)] split: sum.splits)
qed auto


section \<open>What a passed check says\<close>

text \<open>A bundled artifact that is complete, of this source, and reproducible from a commit.\<close>

definition bundled_ok :: "script_lib \<Rightarrow> files \<Rightarrow> fixture_source \<Rightarrow> json \<Rightarrow> bool" where
  "bundled_ok lib fs src a \<longleftrightarrow>
     (\<exists>content. fs (fixturePath lib (fx_name src)) = Some content \<and> sl_parse lib content = Some a) \<and> a \<noteq> JNull \<and>
     (\<forall>k\<in>set REQUIRED_FIELDS. \<exists>v. js_prop a k = Some v \<and> v \<noteq> JNull \<and> v \<noteq> JStr []) \<and>
     js_prop a ''name'' = Some (JStr (fx_name src)) \<and> js_prop a ''sourceRepo'' = Some (JStr (repo_name (fx_repo src))) \<and>
     js_prop a ''sourcePath'' = Some (JStr (fx_sourcePath src)) \<and>
     (\<exists>h. js_prop a ''sourceCommitHash'' = Some h \<and> full_commit_hash h)"

text \<open>What the source's forge output says, if it is there and of the commit of the stamp (or of this repository).\<close>

definition undrifted :: "script_lib \<Rightarrow> files \<Rightarrow> fixture_source \<Rightarrow> json \<Rightarrow> bool" where
  "undrifted lib fs src a \<longleftrightarrow>
     fs (artifactAbs lib src) = None \<or>
     (\<exists>current. stamp_of lib fs False src = Inr current \<and>
        (fx_repo src \<noteq> Local \<and> js_prop a ''sourceCommitHash'' \<noteq> Some (JStr (st_sourceCommitHash current)) \<or>
         same_content a current))"

lemma commit_hash_converts: "full_commit_hash j \<Longrightarrow> \<not> toString_throws j"
  by (induction j rule: full_commit_hash.induct) auto

lemma inspect_bundled_ok: "inspect_bundled lib fs src = Bundled a \<longleftrightarrow> bundled_ok lib fs src a"
proof (cases "Option.bind (fs (fixturePath lib (fx_name src))) (sl_parse lib)")
  case None
  then have "\<not> (\<exists>content. fs (fixturePath lib (fx_name src)) = Some content \<and> sl_parse lib content = Some a)"
    by (auto simp: bind_eq_None_conv)
  with None show ?thesis by (simp add: inspect_bundled_def bundled_ok_def)
next
  case (Some b)
  have field: "\<not> (js_prop b k = None \<or> js_prop b k = Some JNull \<or> js_prop b k = Some (JStr [])) \<longleftrightarrow>
      (\<exists>v. js_prop b k = Some v \<and> v \<noteq> JNull \<and> v \<noteq> JStr [])" for k
    by (cases "js_prop b k") auto
  have missing: "list_ex (\<lambda>k. js_prop b k = None \<or> js_prop b k = Some JNull \<or> js_prop b k = Some (JStr [])) REQUIRED_FIELDS \<longleftrightarrow>
      \<not> (\<forall>k\<in>set REQUIRED_FIELDS. \<exists>v. js_prop b k = Some v \<and> v \<noteq> JNull \<and> v \<noteq> JStr [])"
    unfolding list_ex_iff field [symmetric] by blast
  have hash: "''sourceCommitHash'' \<in> set REQUIRED_FIELDS" by (simp add: REQUIRED_FIELDS_def)
  from Some have there: "(\<exists>content. fs (fixturePath lib (fx_name src)) = Some content \<and> sl_parse lib content = Some a) \<longleftrightarrow> b = a"
    by (auto simp: bind_eq_Some_conv)
  show ?thesis
    unfolding inspect_bundled_def Some option.case Let_def missing bundled_ok_def there
    using hash commit_hash_converts by auto
qed

lemma check_bundled_grows: "check_bundled lib fs srcs bundled f = Some (b, f') \<Longrightarrow> f \<le> f'"
  by (induction lib fs srcs bundled f rule: check_bundled.induct) (auto split: bundle_check.splits)

lemma check_bundled_Some:
  assumes "distinct (map fx_name srcs)" and "fst ` set bundled \<inter> fx_name ` set srcs = {}"
  shows "check_bundled lib fs srcs bundled f = Some (b, f) \<longleftrightarrow>
    (\<exists>arts. list_all2 (bundled_ok lib fs) srcs arts \<and> b = bundled @ zip (map fx_name srcs) arts)"
  using assms
proof (induction srcs arbitrary: bundled)
  case (Cons src srcs)
  show ?case
  proof (cases "inspect_bundled lib fs src")
    case (Bundled a)
    from Cons.prems have "omap_set (fx_name src) a bundled = bundled @ [(fx_name src, a)]"
      by (intro omap_set_new) auto
    moreover have "bundled_ok lib fs src c \<longleftrightarrow> c = a" for c using Bundled inspect_bundled_ok [of lib fs src c] by auto
    moreover note Cons.IH [of "bundled @ [(fx_name src, a)]"]
    ultimately show ?thesis using Cons.prems Bundled by (auto simp: list_all2_Cons1)
  next
    case Problem
    then have "\<not> bundled_ok lib fs src c" for c using inspect_bundled_ok [of lib fs src c] by auto
    with Problem show ?thesis by (auto simp: list_all2_Cons1 dest: check_bundled_grows)
  next
    case Crash
    then have "\<not> bundled_ok lib fs src c" for c using inspect_bundled_ok [of lib fs src c] by auto
    with Crash show ?thesis by (auto simp: list_all2_Cons1)
  qed
qed auto

lemma drift_step_grows: "drift_step lib fs bundled src (r, c) = Some (r', c') \<Longrightarrow> cr_failures r \<le> cr_failures r'"
  by (auto simp: drift_step_def Let_def split: option.splits sum.splits if_splits)

lemma check_drift_grows: "check_drift lib fs bundled srcs (r, c) = Some r' \<Longrightarrow> cr_failures r \<le> cr_failures r'"
proof (induction srcs arbitrary: r c)
  case (Cons src srcs)
  then obtain r1 c1 where "drift_step lib fs bundled src (r, c) = Some (r1, c1)" "check_drift lib fs bundled srcs (r1, c1) = Some r'"
    by (auto simp: bind_eq_Some_conv)
  with Cons.IH drift_step_grows show ?case by fastforce
qed simp

lemma drift_step_clean:
  assumes "map_of bundled (fx_name src) = Some a" and "heads_ok lib False c"
  shows "(\<exists>r' c'. drift_step lib fs bundled src (r, c) = Some (r', c') \<and> cr_failures r' = cr_failures r \<and> heads_ok lib False c') \<longleftrightarrow>
    undrifted lib fs src a"
proof (cases "fs (artifactAbs lib src)")
  case None
  with assms show ?thesis by (simp add: drift_step_def undrifted_def)
next
  case (Some content)
  obtain c' where c': "heads_ok lib False c'" "stamp lib fs False src c = map_sum id (\<lambda>s. (s, c')) (stamp_of lib fs False src)"
    using stamp_cached [OF assms(2)] by blast
  show ?thesis
    by (cases "stamp_of lib fs False src") (auto simp: drift_step_def undrifted_def assms(1) Some c' Let_def)
qed

lemma drift_step_heads:
  assumes "drift_step lib fs bundled src (r, c) = Some (r', c')" and "heads_ok lib False c"
  shows "heads_ok lib False c'"
proof -
  obtain c1 where "heads_ok lib False c1" "stamp lib fs False src c = map_sum id (\<lambda>s. (s, c1)) (stamp_of lib fs False src)"
    using stamp_cached [OF assms(2)] by blast
  with assms show ?thesis
    by (cases "stamp_of lib fs False src") (auto simp: drift_step_def Let_def split: option.splits if_splits)
qed

lemma check_drift_clean:
  assumes "list_all2 (\<lambda>src a. map_of bundled (fx_name src) = Some a) srcs arts" and "heads_ok lib False c"
  shows "(\<exists>r'. check_drift lib fs bundled srcs (r, c) = Some r' \<and> cr_failures r' = cr_failures r) \<longleftrightarrow>
    list_all2 (undrifted lib fs) srcs arts"
  using assms
proof (induction srcs arts arbitrary: r c rule: list_all2_induct)
  case (Cons src srcs a arts)
  note step = drift_step_clean [OF Cons.hyps(1) Cons.prems, of fs r]
  show ?case
  proof (cases "drift_step lib fs bundled src (r, c)")
    case None
    with step show ?thesis by auto
  next
    case (Some s)
    then obtain r1 c1 where s: "drift_step lib fs bundled src (r, c) = Some (r1, c1)" by fastforce
    note h = drift_step_heads [OF s Cons.prems]
    from s have "cr_failures r \<le> cr_failures r1" by (rule drift_step_grows)
    moreover have "cr_failures r1 \<le> cr_failures r'" if "check_drift lib fs bundled srcs (r1, c1) = Some r'" for r'
      using that by (rule check_drift_grows)
    ultimately show ?thesis using step s h Cons.IH [OF h, of r1] by (auto intro: le_antisym)
  qed
qed simp

lemma map_of_zip_all2:
  "distinct (map fx_name srcs) \<Longrightarrow> length srcs = length arts \<Longrightarrow>
   list_all2 (\<lambda>src a. map_of (zip (map fx_name srcs) arts) (fx_name src) = Some a) srcs arts"
  by (auto simp: list_all2_conv_all_nth intro!: map_of_is_SomeI) (metis in_set_zip length_map nth_map fst_conv snd_conv)

lemma SOURCES_names: "distinct (map fx_name SOURCES)" and SOURCES_index: "''INDEX'' \<notin> fx_name ` set SOURCES"
  by code_simp+

lemma check_index_0:
  "length arts = length SOURCES \<Longrightarrow>
   check_index lib fs (zip (map fx_name SOURCES) arts) = 0 \<longleftrightarrow> fs (index_path lib) = Some (bundled_index arts)"
  by (simp add: check_index_def)

lemma runCheck_clean:
  assumes "length arts = length SOURCES" and "check_bundled lib fs SOURCES [] 0 = Some (zip (map fx_name SOURCES) arts, 0)"
  shows "check_passes lib fs \<longleftrightarrow> fs (index_path lib) = Some (bundled_index arts) \<and> list_all2 (undrifted lib fs) SOURCES arts"
proof -
  let ?b = "zip (map fx_name SOURCES) arts"
  let ?r = "\<lparr>cr_failures = check_index lib fs ?b, cr_skippedRepos = [], cr_otherCommitRepos = [], cr_driftChecked = 0\<rparr>"
  have run: "runCheck lib fs = check_drift lib fs ?b SOURCES (?r, [])" by (simp add: runCheck_def assms(2))
  note clean = check_drift_clean [OF map_of_zip_all2 [OF SOURCES_names] heads_ok_Nil, of arts lib fs ?r]
  have "check_passes lib fs \<longleftrightarrow> check_index lib fs ?b = 0 \<and> (\<exists>r'. check_drift lib fs ?b SOURCES (?r, []) = Some r' \<and> cr_failures r' = cr_failures ?r)"
    using check_drift_grows [of lib fs ?b SOURCES ?r "[]"] by (auto simp: check_passes_def run split: option.splits)
  then show ?thesis using clean assms(1) by (simp add: check_index_0)
qed

lemma check_passes_iff_all2:
  "check_passes lib fs \<longleftrightarrow>
     (\<exists>arts. list_all2 (bundled_ok lib fs) SOURCES arts \<and> fs (index_path lib) = Some (bundled_index arts) \<and>
        list_all2 (undrifted lib fs) SOURCES arts)"
proof -
  have bundled: "check_bundled lib fs SOURCES [] 0 = Some (b, 0) \<longleftrightarrow>
      (\<exists>arts. list_all2 (bundled_ok lib fs) SOURCES arts \<and> b = zip (map fx_name SOURCES) arts)" for b
    using check_bundled_Some [OF SOURCES_names, of "[]" lib fs 0 b] by simp
  show ?thesis
  proof
    assume passes: "check_passes lib fs"
    then obtain b f r where r: "check_bundled lib fs SOURCES [] 0 = Some (b, f)" "cr_failures r = 0"
      "check_drift lib fs b SOURCES
        (\<lparr>cr_failures = f + check_index lib fs b, cr_skippedRepos = [], cr_otherCommitRepos = [], cr_driftChecked = 0\<rparr>, []) = Some r"
      by (auto simp: check_passes_def runCheck_def bind_eq_Some_conv split: option.splits)
    from check_drift_grows [OF r(3)] r(2) have "f = 0" by simp
    with r(1) bundled obtain arts where a: "list_all2 (bundled_ok lib fs) SOURCES arts" "b = zip (map fx_name SOURCES) arts"
      by blast
    from a(1) have "length arts = length SOURCES" by (simp add: list_all2_lengthD)
    from runCheck_clean [OF this] passes a r(1) \<open>f = 0\<close>
    show "\<exists>arts. list_all2 (bundled_ok lib fs) SOURCES arts \<and> fs (index_path lib) = Some (bundled_index arts) \<and>
        list_all2 (undrifted lib fs) SOURCES arts"
      by auto
  next
    assume "\<exists>arts. list_all2 (bundled_ok lib fs) SOURCES arts \<and> fs (index_path lib) = Some (bundled_index arts) \<and>
        list_all2 (undrifted lib fs) SOURCES arts"
    then obtain arts where a: "list_all2 (bundled_ok lib fs) SOURCES arts" "fs (index_path lib) = Some (bundled_index arts)"
      "list_all2 (undrifted lib fs) SOURCES arts" by blast
    from a(1) have "length arts = length SOURCES" by (simp add: list_all2_lengthD)
    from runCheck_clean [OF this] bundled a show "check_passes lib fs" by blast
  qed
qed

text \<open>
  C39. A passed \<open>--check\<close>. The check exits with 0 exactly if every source has a bundled artifact that
  parses, is complete, names this source and carries a full commit hash; the index is, byte for byte,
  the one of these artifacts; and every source whose forge output is present is unchanged in abi and both
  bytecodes, unless its repository stands at another commit.
\<close>

theorem check_passes_iff:
  "check_passes lib fs \<longleftrightarrow>
     (\<exists>arts. list_all2 (bundled_ok lib fs) SOURCES arts \<and> fs (index_path lib) = Some (bundled_index arts) \<and>
        list_all2 (undrifted lib fs) SOURCES arts)"
  by (rule check_passes_iff_all2)


section \<open>Extraction and check agree\<close>

text \<open>Forge output with an abi and two bytecode strings.\<close>

definition usable_output :: "script_lib \<Rightarrow> string \<Rightarrow> bool" where
  "usable_output lib content \<longleftrightarrow>
     (\<exists>abi bytecode deployed. loadFoundryArtifact lib content = Some (Some abi, Some (JStr bytecode), Some (JStr deployed)) \<and>
        abi \<noteq> JNull \<and> abi \<noteq> JStr [] \<and> bytecode \<noteq> [] \<and> deployed \<noteq> [])"

text \<open>The same repository on another machine: other checkouts, or none.\<close>

definition other_machine :: "script_lib \<Rightarrow> script_lib \<Rightarrow> bool" where
  "other_machine lib lib' \<longleftrightarrow> (\<exists>head status. lib' = lib\<lparr>sl_gitHead := head, sl_gitStatus := status\<rparr>)"

definition bundle_paths :: "script_lib \<Rightarrow> string set" where
  "bundle_paths lib = insert (index_path lib) (fixturePath lib ` fx_name ` set SOURCES)"

definition same_bundle :: "script_lib \<Rightarrow> files \<Rightarrow> files \<Rightarrow> bool" where
  "same_bundle lib fs fs' \<longleftrightarrow>
     (\<forall>p\<in>bundle_paths lib. fs' p = fs p) \<and> (\<forall>src\<in>set SOURCES. fs' (artifactAbs lib src) \<in> {None, fs (artifactAbs lib src)})"

lemma stamp_of_Inr:
  "stamp_of lib fs md src = Inr s \<longleftrightarrow>
     (\<exists>content abi bytecode deployed. fs (artifactAbs lib src) = Some content \<and>
        loadFoundryArtifact lib content = Some (abi, bytecode, deployed) \<and>
        s = \<lparr>st_name = fx_name src, st_abi = abi, st_bytecode = bytecode, st_deployedBytecode = deployed,
          st_sourceRepo = repo_name (fx_repo src), st_sourcePath = fx_sourcePath src,
          st_sourceCommitHash = computeGitHead lib md (REPO_ROOTS lib (fx_repo src))\<rparr>)"
  by (auto simp: stamp_of_def stamp_def gitHead_def Let_def split: option.splits)

lemma fixturePath_inject [simp]: "fixturePath lib a = fixturePath lib b \<longleftrightarrow> a = b"
  by (simp add: fixturePath_def path_join_def)

lemma index_not_fixture: "src \<in> set SOURCES \<Longrightarrow> index_path lib \<noteq> fixturePath lib (fx_name src)"
proof -
  assume "src \<in> set SOURCES"
  then have "fx_name src \<noteq> ''INDEX''" using SOURCES_index by force
  moreover have "index_path lib = fixturePath lib ''INDEX''" by (simp add: index_path_def fixturePath_def path_join_def)
  ultimately show ?thesis by (metis fixturePath_inject)
qed

lemma fold_write_other:
  "p \<notin> fixturePath lib ` st_name ` set ss \<Longrightarrow> fold (writeArtifact lib) ss fs p = fs p"
  by (induction ss arbitrary: fs) (auto simp: writeArtifact_def)

lemma fold_write:
  "distinct (map st_name ss) \<Longrightarrow> s \<in> set ss \<Longrightarrow>
   fold (writeArtifact lib) ss fs (fixturePath lib (st_name s)) = Some (document_text (stamped_json s))"
proof (induction ss arbitrary: fs)
  case (Cons t ss)
  show ?case
  proof (cases "s \<in> set ss")
    case True
    with Cons show ?thesis by simp
  next
    case False
    with Cons.prems have s: "s = t" and "fixturePath lib (st_name t) \<notin> fixturePath lib ` st_name ` set ss"
      by auto
    from fold_write_other [OF this(2), of "writeArtifact lib t fs"] show ?thesis
      by (simp add: s) (simp add: writeArtifact_def)
  qed
qed simp

lemma runExtract_Inr:
  assumes "runExtract lib fs = (fs', Inr ())"
  obtains fs1 ss where "sl_forge lib (REPO_ROOTS lib Local) fs = ForgeBuilt fs1"
    and "list_all2 (\<lambda>src s. stamp_of lib fs1 True src = Inr s) SOURCES ss"
    and "fs' = writeIndex lib ss (fold (writeArtifact lib) ss fs1)"
  using assms stamp_all_stamps [of lib "[]"]
  by (auto simp: runExtract_def buildLocal_def split: prod.splits sum.splits forge_run.splits)

lemma stamped_names:
  "list_all2 (\<lambda>src s. stamp_of lib fs md src = Inr s) SOURCES ss \<Longrightarrow> map st_name ss = map fx_name SOURCES"
  by (auto simp: list_all2_conv_all_nth stamp_of_Inr intro!: nth_equalityI)

text \<open>The extraction leaves the forge output as the build left it.\<close>

lemma extracted_outputs:
  assumes "runExtract lib fs = (fs', Inr ())" and "\<forall>src\<in>set SOURCES. artifactAbs lib src \<notin> bundle_paths lib"
    and "sl_forge lib (REPO_ROOTS lib Local) fs = ForgeBuilt fs1"
  shows "\<forall>src\<in>set SOURCES. fs' (artifactAbs lib src) = fs1 (artifactAbs lib src)"
proof
  fix src assume src: "src \<in> set SOURCES"
  from runExtract_Inr [OF assms(1)] assms(3) obtain ss where
    ss: "list_all2 (\<lambda>src s. stamp_of lib fs1 True src = Inr s) SOURCES ss" and
    fs': "fs' = writeIndex lib ss (fold (writeArtifact lib) ss fs1)" by (metis forge_run.inject(2))
  from stamped_names [OF ss] have "st_name ` set ss = fx_name ` set SOURCES" by (metis set_map)
  with assms(2) src fold_write_other [of "artifactAbs lib src" lib ss fs1]
  show "fs' (artifactAbs lib src) = fs1 (artifactAbs lib src)"
    by (auto simp: fs' writeIndex_def bundle_paths_def)
qed

lemma stamped_provenance:
  "js_prop (stamped_json s) ''name'' = Some (JStr (st_name s))"
  "js_prop (stamped_json s) ''sourceRepo'' = Some (JStr (st_sourceRepo s))"
  "js_prop (stamped_json s) ''sourcePath'' = Some (JStr (st_sourcePath s))"
  "js_prop (stamped_json s) ''sourceCommitHash'' = Some (JStr (st_sourceCommitHash s))"
  by (auto simp: stamped_json_def opt_field_def split: option.split)

text \<open>What an extraction leaves on disk.\<close>

lemma extracted:
  assumes "runExtract lib fs = (fs', Inr ())" and "\<forall>src\<in>set SOURCES. artifactAbs lib src \<notin> bundle_paths lib"
  obtains ss where "list_all2 (\<lambda>src s. stamp_of lib fs' True src = Inr s) SOURCES ss"
    and "\<forall>s\<in>set ss. fs' (fixturePath lib (st_name s)) = Some (document_text (stamped_json s))"
    and "fs' (index_path lib) = Some (bundled_index (map stamped_json ss))"
proof -
  from runExtract_Inr [OF assms(1)] obtain fs1 ss where built: "sl_forge lib (REPO_ROOTS lib Local) fs = ForgeBuilt fs1" and
    ss: "list_all2 (\<lambda>src s. stamp_of lib fs1 True src = Inr s) SOURCES ss" and
    fs': "fs' = writeIndex lib ss (fold (writeArtifact lib) ss fs1)" .
  note names = stamped_names [OF ss]
  then have keys: "st_name ` set ss = fx_name ` set SOURCES" by (metis set_map)
  from extracted_outputs [OF assms built]
  have "\<forall>src\<in>set SOURCES. stamp_of lib fs' True src = stamp_of lib fs1 True src"
    by (simp add: stamp_of_def stamp_def)
  with ss have 1: "list_all2 (\<lambda>src s. stamp_of lib fs' True src = Inr s) SOURCES ss"
    by (simp add: list_all2_conv_all_nth)
  have 2: "\<forall>s\<in>set ss. fs' (fixturePath lib (st_name s)) = Some (document_text (stamped_json s))"
  proof
    fix s assume s: "s \<in> set ss"
    then obtain src where "src \<in> set SOURCES" "st_name s = fx_name src" using keys by force
    with index_not_fixture [of src lib] have "fixturePath lib (st_name s) \<noteq> index_path lib" by simp
    with fold_write [OF _ s, of lib fs1] names SOURCES_names
    show "fs' (fixturePath lib (st_name s)) = Some (document_text (stamped_json s))" by (simp add: fs' writeIndex_def)
  qed
  have 3: "fs' (index_path lib) = Some (bundled_index (map stamped_json ss))"
    by (simp add: fs' writeIndex_def bundled_index_def stamped_provenance o_def)
  from that [OF 1 2 3] show thesis .
qed


lemma stamped_content:
  assumes "st_abi s = Some abi" "st_bytecode s = Some (JStr b)" "st_deployedBytecode s = Some (JStr d)"
  shows "js_prop (stamped_json s) ''abi'' = Some abi" "js_prop (stamped_json s) ''bytecode'' = Some (JStr b)"
    "js_prop (stamped_json s) ''deployedBytecode'' = Some (JStr d)"
  by (simp_all add: stamped_json_def opt_field_def assms)

lemma other_machine_sel:
  assumes "other_machine lib lib'"
  shows "fixturePath lib' = fixturePath lib" "index_path lib' = index_path lib" "artifactAbs lib' = artifactAbs lib"
    "sl_parse lib' = sl_parse lib" "loadFoundryArtifact lib' = loadFoundryArtifact lib"
proof -
  from assms obtain h st where l: "lib' = lib\<lparr>sl_gitHead := h, sl_gitStatus := st\<rparr>" by (auto simp: other_machine_def)
  have d: "ARTIFACT_DIR lib' = ARTIFACT_DIR lib" by (simp add: l ARTIFACT_DIR_def)
  have r: "REPO_ROOTS lib' repo = REPO_ROOTS lib repo" for repo
    by (cases repo) (simp_all add: l env_or_def split: option.split)
  show "fixturePath lib' = fixturePath lib" "index_path lib' = index_path lib" "artifactAbs lib' = artifactAbs lib"
    "sl_parse lib' = sl_parse lib" "loadFoundryArtifact lib' = loadFoundryArtifact lib"
    by (simp_all add: fun_eq_iff fixturePath_def index_path_def artifactAbs_def d r loadFoundryArtifact_def) (simp_all add: l)
qed

lemma stamped_ok:
  assumes "stamp_of lib fs True src = Inr s" and "src \<in> set SOURCES"
    and "\<forall>content. fs (artifactAbs lib src) = Some content \<longrightarrow> usable_output lib content"
    and "fs (fixturePath lib (fx_name src)) = Some (document_text (stamped_json s))"
    and "sl_parse lib (document_text (stamped_json s)) = Some (stamped_json s)"
  shows "bundled_ok lib fs src (stamped_json s) \<longleftrightarrow> full_commit_hash (JStr (computeGitHead lib True (REPO_ROOTS lib (fx_repo src))))"
proof -
  from assms(1,3) obtain abi b d where s: "st_abi s = Some abi" "st_bytecode s = Some (JStr b)" "st_deployedBytecode s = Some (JStr d)"
    "abi \<noteq> JNull" "abi \<noteq> JStr []" "b \<noteq> []" "d \<noteq> []" and
    names: "st_name s = fx_name src" "st_sourceRepo s = repo_name (fx_repo src)" "st_sourcePath s = fx_sourcePath src"
      "st_sourceCommitHash s = computeGitHead lib True (REPO_ROOTS lib (fx_repo src))"
    by (auto simp: stamp_of_Inr usable_output_def)
  have "list_all (\<lambda>src. fx_name src \<noteq> [] \<and> fx_sourcePath src \<noteq> []) SOURCES" by code_simp
  with assms(2) have ne: "fx_name src \<noteq> []" "fx_sourcePath src \<noteq> []" "repo_name (fx_repo src) \<noteq> []"
    by (auto simp: list_all_iff) (cases "fx_repo src"; simp)
  have "stamped_json s \<noteq> JNull" by (simp add: stamped_json_def)
  then show ?thesis
    using ne s(4-) by (auto simp: bundled_ok_def assms(4,5) REQUIRED_FIELDS_def stamped_content [OF s(1,2,3)] stamped_provenance names)
qed

lemma stamped_undrifted:
  assumes "stamp_of lib fs True src = Inr s" and "src \<in> set SOURCES" and "other_machine lib lib'"
    and "fs' (artifactAbs lib src) \<in> {None, fs (artifactAbs lib src)}"
    and "\<forall>content. fs (artifactAbs lib src) = Some content \<longrightarrow> usable_output lib content"
  shows "undrifted lib' fs' src (stamped_json s)"
proof (cases "fs' (artifactAbs lib src)")
  case None
  then show ?thesis by (simp add: undrifted_def other_machine_sel [OF assms(3)])
next
  case (Some content)
  with assms(4) have c: "fs (artifactAbs lib src) = Some content" by auto
  with assms(5) obtain abi b d where l: "loadFoundryArtifact lib content = Some (Some abi, Some (JStr b), Some (JStr d))"
    by (auto simp: usable_output_def)
  with assms(1) c have s: "st_abi s = Some abi" "st_bytecode s = Some (JStr b)" "st_deployedBytecode s = Some (JStr d)"
    by (auto simp: stamp_of_Inr)
  obtain current where "stamp_of lib' fs' False src = Inr current" "st_abi current = Some abi"
    "st_bytecode current = Some (JStr b)" "st_deployedBytecode current = Some (JStr d)"
    using Some l by (auto simp: stamp_of_Inr other_machine_sel [OF assms(3)])
  then show ?thesis by (auto simp: undrifted_def same_content_def stamped_content [OF s])
qed

lemma check_passes_of_stamps:
  assumes len: "length ss = length SOURCES" and ix: "fs (index_path lib) = Some (bundled_index (map stamped_json ss))"
    and each: "\<And>i a. i < length SOURCES \<Longrightarrow>
      (bundled_ok lib fs (SOURCES ! i) a \<longleftrightarrow> a = stamped_json (ss ! i) \<and> full (SOURCES ! i)) \<and>
      undrifted lib fs (SOURCES ! i) (stamped_json (ss ! i))"
  shows "check_passes lib fs \<longleftrightarrow> (\<forall>src\<in>set SOURCES. full src)"
  unfolding check_passes_iff_all2
proof
  assume "\<exists>arts. list_all2 (bundled_ok lib fs) SOURCES arts \<and> fs (index_path lib) = Some (bundled_index arts) \<and>
      list_all2 (undrifted lib fs) SOURCES arts"
  then show "\<forall>src\<in>set SOURCES. full src" using each by (metis in_set_conv_nth list_all2_nthD)
next
  assume "\<forall>src\<in>set SOURCES. full src"
  then have "list_all2 (bundled_ok lib fs) SOURCES (map stamped_json ss)" "list_all2 (undrifted lib fs) SOURCES (map stamped_json ss)"
    using each len by (simp_all add: list_all2_conv_all_nth)
  with ix show "\<exists>arts. list_all2 (bundled_ok lib fs) SOURCES arts \<and> fs (index_path lib) = Some (bundled_index arts) \<and>
      list_all2 (undrifted lib fs) SOURCES arts" by blast
qed

text \<open>
  C40. Extraction and check agree. After a successful extraction from usable forge output, the check
  passes, on this machine or on any other with the same bundle and with the forge output either as it was
  or absent, whatever its checkouts are at, exactly if every stamp taken was a full commit hash. So a bundle from a
  dirty worktree or from outside git never passes, and a clean one is never reported as drifted.
\<close>

theorem extract_then_check:
  assumes "runExtract lib fs = (fs', Inr ())" and "\<forall>src\<in>set SOURCES. artifactAbs lib src \<notin> bundle_paths lib"
    and "\<forall>src\<in>set SOURCES. \<forall>content. fs' (artifactAbs lib src) = Some content \<longrightarrow> usable_output lib content"
    and "\<forall>src\<in>set SOURCES. \<forall>s. stamp_of lib fs' True src = Inr s \<longrightarrow>
      sl_parse lib (document_text (stamped_json s)) = Some (stamped_json s)"
    and "other_machine lib lib'" and "same_bundle lib fs' fs2"
  shows "check_passes lib' fs2 \<longleftrightarrow>
    (\<forall>src\<in>set SOURCES. full_commit_hash (JStr (computeGitHead lib True (REPO_ROOTS lib (fx_repo src)))))"
    (is "_ \<longleftrightarrow> ?clean")
proof -
  from extracted [OF assms(1,2)] obtain ss where
    ss: "list_all2 (\<lambda>src s. stamp_of lib fs' True src = Inr s) SOURCES ss" and
    written: "\<forall>s\<in>set ss. fs' (fixturePath lib (st_name s)) = Some (document_text (stamped_json s))" and
    ix: "fs' (index_path lib) = Some (bundled_index (map stamped_json ss))" .
  note lib' = other_machine_sel [OF assms(5)]
  have bd: "fs2 (index_path lib') = Some (bundled_index (map stamped_json ss))"
    using assms(6) ix by (simp add: same_bundle_def bundle_paths_def lib')
  let ?full = "\<lambda>src. full_commit_hash (JStr (computeGitHead lib True (REPO_ROOTS lib (fx_repo src))))"
  have each: "(bundled_ok lib' fs2 src a \<longleftrightarrow> a = stamped_json s \<and> ?full src) \<and> undrifted lib' fs2 src (stamped_json s)"
    if "(src, s) \<in> set (zip SOURCES ss)" for src s a
  proof -
    from that ss have s: "stamp_of lib fs' True src = Inr s" "src \<in> set SOURCES" "s \<in> set ss"
      by (auto simp: list_all2_iff dest: set_zip_leftD set_zip_rightD)
    then have "st_name s = fx_name src" by (auto simp: stamp_of_Inr)
    with written s(3) have w: "fs' (fixturePath lib (fx_name src)) = Some (document_text (stamped_json s))" by metis
    with assms(6) s(2) have w2: "fs2 (fixturePath lib' (fx_name src)) = Some (document_text (stamped_json s))"
      by (simp add: same_bundle_def bundle_paths_def lib')
    from assms(4) s(1,2) have p: "sl_parse lib (document_text (stamped_json s)) = Some (stamped_json s)" by blast
    have "bundled_ok lib fs' src (stamped_json s) \<longleftrightarrow> ?full src"
      using assms(3) s(2) by (intro stamped_ok [OF s(1,2) _ w p]) blast
    moreover have "bundled_ok lib' fs2 src a \<longleftrightarrow> a = stamped_json s \<and> bundled_ok lib fs' src (stamped_json s)"
      by (auto simp: bundled_ok_def lib' w w2 [unfolded lib'] p)
    moreover have "undrifted lib' fs2 src (stamped_json s)"
      using assms(3,6) s(2) by (intro stamped_undrifted [OF s(1,2) assms(5)]) (auto simp: same_bundle_def)
    ultimately show ?thesis by blast
  qed
  from ss have len: "length ss = length SOURCES" by (simp add: list_all2_lengthD)
  then have nth: "(SOURCES ! i, ss ! i) \<in> set (zip SOURCES ss)" if "i < length SOURCES" for i
    using that by (auto simp: in_set_zip)
  show ?thesis
    by (rule check_passes_of_stamps [where full = ?full, OF len _ each [OF nth]]) (rule bd)
qed


text \<open>A monorepo under \<open>/r\<close> with one forge output for every source, at a clean commit.\<close>

definition ex_hash :: string where
  "ex_hash = replicate 40 (CHR ''a'')"

definition ex_forge_output :: json where
  "ex_forge_output = JObj [(''abi'', JArr []), (''bytecode'', JObj [(''object'', JStr ''0x60'')]),
     (''deployedBytecode'', JObj [(''object'', JStr ''0x61'')])]"

definition ex_stamp :: "fixture_source \<Rightarrow> stamped_artifact" where
  "ex_stamp src =
     \<lparr>st_name = fx_name src, st_abi = Some (JArr []), st_bytecode = Some (JStr ''0x60''), st_deployedBytecode = Some (JStr ''0x61''),
      st_sourceRepo = repo_name (fx_repo src), st_sourcePath = fx_sourcePath src, st_sourceCommitHash = ex_hash\<rparr>"

definition ex_script :: script_lib where
  "ex_script =
     \<lparr>sl_env = \<lambda>_. None, sl_resolve = \<lambda>p. ''/r/'' @ p, sl_gitHead = \<lambda>_. Some (ex_hash @ [CHR 0x0A]), sl_gitStatus = \<lambda>_. Some [],
      sl_forge = \<lambda>_ fs. ForgeBuilt fs,
      sl_parse = \<lambda>t. if t = ''F'' then Some ex_forge_output
        else map_option (\<lambda>src. stamped_json (ex_stamp src))
          (find (\<lambda>src. fx_name src = takeWhile (\<lambda>c. c \<noteq> CHR 0x22) (drop 13 t)) SOURCES)\<rparr>"

definition ex_tree :: files where
  "ex_tree p = (if p \<in> set (map (artifactAbs ex_script) SOURCES) then Some ''F'' else None)"

lemma runExtract_succeeds:
  assumes "sl_forge lib (REPO_ROOTS lib Local) fs = ForgeBuilt fs1" and "\<forall>src\<in>set SOURCES. stamp_of lib fs1 True src = Inr (f src)"
  shows "snd (runExtract lib fs) = Inr ()"
proof -
  have "stamp_all lib fs1 SOURCES [] = Inr (map f SOURCES)"
    using assms(2) by (simp add: stamp_all_stamps list_all2_conv_all_nth)
  with assms(1) show ?thesis by (simp add: runExtract_def buildLocal_def)
qed

lemma find_name: "distinct (map fx_name srcs) \<Longrightarrow> src \<in> set srcs \<Longrightarrow> find (\<lambda>x. fx_name x = fx_name src) srcs = Some src"
  by (induction srcs) force+

lemma ex_parse:
  assumes "src \<in> set SOURCES"
  shows "sl_parse ex_script (document_text (stamped_json (ex_stamp src))) = Some (stamped_json (ex_stamp src))"
proof -
  have "list_all (\<lambda>src. concat (map json_escape (fx_name src)) = fx_name src \<and> list_all (\<lambda>c. c \<noteq> CHR 0x22) (fx_name src)) SOURCES"
    by code_simp
  with assms have n: "concat (map json_escape (fx_name src)) = fx_name src" "\<forall>c\<in>set (fx_name src). c \<noteq> CHR 0x22"
    by (auto simp: list_all_iff)
  have quote: "char_of (34::nat) = CHR 0x22" by code_simp
  have q: "json_quote ''name'' = CHR 0x22 # ''name'' @ [CHR 0x22]" by code_simp
  obtain rest where d: "document_text (stamped_json (ex_stamp src)) =
      CHR ''{'' # CHR 0x0A # ''  '' @ json_quote ''name'' @ '': '' @ json_quote (fx_name src) @ rest"
    by (simp add: document_text_def stamped_json_def ex_stamp_def opt_field_def numeral_2_eq_2)
  have "takeWhile (\<lambda>c. c \<noteq> CHR 0x22) (drop 13 (document_text (stamped_json (ex_stamp src)))) = fx_name src"
    using n(2) by (simp add: d q) (simp add: json_quote_def n(1) quote takeWhile_append2)
  with find_name [OF SOURCES_names assms] show ?thesis
    by (simp add: ex_script_def d)
qed

theorem extract_then_check_witness:
  "check_passes (ex_script\<lparr>sl_gitHead := \<lambda>_. None\<rparr>) (fst (runExtract ex_script ex_tree))"
proof -
  let ?fs = "fst (runExtract ex_script ex_tree)" and ?lib' = "ex_script\<lparr>sl_gitHead := \<lambda>_. None\<rparr>"
  have built: "sl_forge ex_script (REPO_ROOTS ex_script Local) ex_tree = ForgeBuilt ex_tree" by (simp add: ex_script_def)
  have load: "loadFoundryArtifact ex_script ''F'' = Some (Some (JArr []), Some (JStr ''0x60''), Some (JStr ''0x61''))"
    by code_simp
  have head: "computeGitHead ex_script md repo = ex_hash" for md repo
  proof -
    have "trim (ex_hash @ [CHR 0x0A]) = ex_hash" and "trim [] = []" by code_simp+
    then show ?thesis by (simp add: computeGitHead_def ex_script_def)
  qed
  have stamps: "\<forall>src\<in>set SOURCES. stamp_of ex_script ex_tree True src = Inr (ex_stamp src)"
    by (simp add: stamp_of_Inr ex_tree_def load head ex_stamp_def)
  have run: "runExtract ex_script ex_tree = (?fs, Inr ())"
    using runExtract_succeeds [OF built stamps] by (metis prod.collapse)
  have apart: "\<forall>src\<in>set SOURCES. artifactAbs ex_script src \<notin> bundle_paths ex_script" by code_simp
  note outputs = extracted_outputs [OF run apart built]
  have out: "?fs (artifactAbs ex_script src) = Some ''F''" if "src \<in> set SOURCES" for src
    using that outputs by (simp add: ex_tree_def)
  from load have "usable_output ex_script ''F''" by (simp add: usable_output_def)
  then have usable: "\<forall>src\<in>set SOURCES. \<forall>content. ?fs (artifactAbs ex_script src) = Some content \<longrightarrow> usable_output ex_script content"
    by (simp add: out)
  have "stamp_of ex_script ?fs True src = stamp_of ex_script ex_tree True src" if "src \<in> set SOURCES" for src
    using outputs that by (simp add: stamp_of_def stamp_def)
  with stamps have parse: "\<forall>src\<in>set SOURCES. \<forall>s. stamp_of ex_script ?fs True src = Inr s \<longrightarrow>
      sl_parse ex_script (document_text (stamped_json s)) = Some (stamped_json s)"
    by (simp add: ex_parse)
  have other: "other_machine ex_script ?lib'" unfolding other_machine_def by (rule exI [of _ "\<lambda>_. None"], rule exI [of _ "sl_gitStatus ex_script"]) simp
  have same: "same_bundle ex_script ?fs ?fs" by (simp add: same_bundle_def)
  have "full_commit_hash (JStr ex_hash)" by code_simp
  then show ?thesis using extract_then_check [OF run apart usable parse other same] by (simp add: head)
qed

text \<open>The stamp of an artifact may be an array of one commit hash: the pattern is tested on its text.\<close>

lemma array_stamp_passes: "full_commit_hash (JArr [JStr ex_hash])"
  by code_simp

end
