(* ===== verification/Logging.thy ===== *)
theory Logging
  imports Js_Text
begin

text \<open>
  The configuration of the default logger (\<open>logger/pino.ts\<close>): the level, with the environment
  variable, its alias and the warning that is printed once per process, and the options handed to pino.
  What pino does with them, redaction included, is pino's.
\<close>

definition VALID_LEVELS :: "string list" where
  "VALID_LEVELS = [''trace'', ''debug'', ''info'', ''warn'', ''error'', ''fatal'', ''silent'']"

definition DEFAULT_REDACT_PATHS :: "string list" where
  "DEFAULT_REDACT_PATHS =
     [''headers.authorization'', ''headers['' @ [CHR 0x27] @ ''x-guardian-signature'' @ [CHR 0x27] @ '']'',
      ''headers['' @ [CHR 0x27] @ ''x-guardian-timestamp'' @ [CHR 0x27] @ '']'', ''tokenInfo.hmacSecret'',
      ''hmacSecret'', ''secret'', ''privateKey'', ''*.hmacSecret'', ''*.secret'', ''*.privateKey'',
      ''*.tokenInfo.hmacSecret'', ''*.*.hmacSecret'', ''*.*.secret'', ''*.*.privateKey'']"

text \<open>The process: \<open>warnedInvalidLogLevel\<close> and what was written to standard error.\<close>

record log_process =
  lp_warned :: bool
  lp_stderr :: "string list"

definition level_warning :: "string \<Rightarrow> string" where
  "level_warning raw =
     ''pinoLogger: ignoring invalid LOG_LEVEL '' @ json_quote raw @
     '' (expected one of trace, debug, info, warn, error, fatal, silent); using '' @ json_quote ''info'' @ [CHR 0x0A]"

definition levelFromEnv :: "string option \<Rightarrow> log_process \<Rightarrow> string \<times> log_process" where
  "levelFromEnv raw p =
     (case raw of
        None \<Rightarrow> (''info'', p)
      | Some r \<Rightarrow>
          let normalized = toLowerCase r; mapped = (if normalized = ''warning'' then ''warn'' else normalized) in
          if mapped \<in> set VALID_LEVELS then (mapped, p)
          else (''info'', if lp_warned p then p else \<lparr>lp_warned = True, lp_stderr = lp_stderr p @ [level_warning r]\<rparr>))"

record pino_logger_options =
  lo_level :: "string option"
  lo_pretty :: "bool option"
  lo_bindings :: "json option"
  lo_redact :: "string list option"

record pino_config =
  pc_level :: string
  pc_base :: json
  pc_redactPaths :: "string list"
  pc_prettyTransport :: bool

text \<open>Defaults of a destructured parameter apply only to \<open>undefined\<close>, and the level is read from the environment only then.\<close>

definition pinoLogger :: "bool option \<Rightarrow> string option \<Rightarrow> pino_logger_options \<Rightarrow> log_process \<Rightarrow> pino_config \<times> log_process" where
  "pinoLogger isTTY logLevel options p =
     (let (level, p') = (case lo_level options of Some l \<Rightarrow> (l, p) | None \<Rightarrow> levelFromEnv logLevel p);
          pretty = (case lo_pretty options of Some b \<Rightarrow> b | None \<Rightarrow> isTTY = Some True) in
      (\<lparr>pc_level = level, pc_base = (case lo_bindings options of Some b \<Rightarrow> b | None \<Rightarrow> JNull),
        pc_redactPaths = (case lo_redact options of Some ps \<Rightarrow> ps | None \<Rightarrow> DEFAULT_REDACT_PATHS),
        pc_prettyTransport = pretty\<rparr>, p'))"

text \<open>Whatever \<open>LOG_LEVEL\<close> holds, pino gets a level it accepts, and the process warns at most once.\<close>

lemma levelFromEnv_valid: "fst (levelFromEnv raw p) \<in> set VALID_LEVELS"
  by (auto simp: levelFromEnv_def Let_def VALID_LEVELS_def split: option.split)

definition warned_once :: "log_process \<Rightarrow> bool" where
  "warned_once p \<longleftrightarrow> length (lp_stderr p) \<le> 1 \<and> (lp_warned p \<longleftrightarrow> lp_stderr p \<noteq> [])"

lemma levelFromEnv_warned_once: "warned_once p \<Longrightarrow> warned_once (snd (levelFromEnv raw p))"
  by (auto simp: levelFromEnv_def Let_def warned_once_def split: option.split)

lemma pinoLogger_warned_once:
  "warned_once p \<Longrightarrow> warned_once (fold (\<lambda>(tty, raw, options) p. snd (pinoLogger tty raw options p)) calls p)"
proof (induction calls arbitrary: p)
  case (Cons c calls)
  have "warned_once (snd (pinoLogger tty raw options p))" for tty raw options
    using Cons.prems levelFromEnv_warned_once [OF Cons.prems, of raw]
    by (auto simp: pinoLogger_def Let_def split: option.split prod.split)
  with Cons.IH show ?case by (cases c) simp
qed simp

lemma pinoLogger_level:
  "(\<forall>l. lo_level options = Some l \<longrightarrow> l \<in> set VALID_LEVELS) \<Longrightarrow> pc_level (fst (pinoLogger tty raw options p)) \<in> set VALID_LEVELS"
  using levelFromEnv_valid [of raw p] by (auto simp: pinoLogger_def Let_def split: option.split prod.split)

lemma secrets_redacted_by_default:
  "lo_redact options = None \<Longrightarrow> set DEFAULT_REDACT_PATHS \<subseteq> set (pc_redactPaths (fst (pinoLogger tty raw options p)))"
  by (auto simp: pinoLogger_def Let_def split: option.split prod.split)

end
