(* ===== verification/Test_Stack.thy ===== *)
theory Test_Stack
  imports Deadline
begin

text \<open>
  The contracts the integration tests run against (\<open>guardian-test-fixtures/src\<close>): the pool of
  development chains, the accounts, the deployment of the whole stack and the fixture that holds it.
  viem's clients and codecs, prool's server and the compiled artifacts are parameters; a call that
  rejects is a \<open>raised\<close> value.
\<close>

section \<open>Artifacts, accounts and the client\<close>

datatype artifact_name =
    AFacility | AIntentDescriptor | ATransferGuard | APositionManagerFactory | ARequestFactory | AMockERC20
  | ARequestWhitelist | AERC1967Factory | AOwnableMockFund | AMockRetargetter | AMulticall3

record artifact =
  af_bytecode :: string
  af_deployedBytecode :: string

text \<open>What the codecs are handed: the ABI of a function, and argument values.\<close>

datatype function_abi = ParseAbi string | ArtifactAbi artifact_name

datatype abi_value =
    AAddress string | ABigint int | ANumber jsnum | AString string | ABool bool | AHex string
  | AArray "abi_value list" | ATuple "(string \<times> abi_value) list"

record event_log =
  el_address :: string
  el_topics :: "string list"
  el_data :: string

record tx_receipt =
  tr_contractAddress :: "string option"
  tr_logs :: "event_log list"

text \<open>A decoded event has a value for each argument its ABI entry names.\<close>

record 'w stack_client =
  sc_account :: string
  sc_privateKeyToAddress :: "string \<Rightarrow> string"
  sc_artifact :: "artifact_name \<Rightarrow> artifact"
  sc_encodeAbiParameters :: "string \<Rightarrow> abi_value list \<Rightarrow> raised + string"
  sc_encodeFunctionData :: "function_abi \<Rightarrow> string \<Rightarrow> abi_value list \<Rightarrow> raised + string"
  sc_parseEventLogs :: "artifact_name \<Rightarrow> string \<Rightarrow> event_log list \<Rightarrow> (string \<Rightarrow> string) list"
  sc_setBalance :: "string \<Rightarrow> int \<Rightarrow> ('w, raised + unit) state"
  sc_setCode :: "string \<Rightarrow> string \<Rightarrow> ('w, raised + unit) state"
  sc_deployContract :: "string \<Rightarrow> string \<Rightarrow> ('w, raised + string) state"
  sc_sendTransaction :: "string \<Rightarrow> string \<Rightarrow> string \<Rightarrow> ('w, raised + string) state"
  sc_waitForReceipt :: "string \<Rightarrow> ('w, raised + tx_receipt) state"
  sc_blockTimestamp :: "('w, raised + int) state"

datatype test_account =
  Deployer | Owner | Facilitator | Guardian | Puller | Consumer | Validator1 | Validator2 | Validator3

fun KEYS :: "test_account \<Rightarrow> string" where
  "KEYS Deployer = ''0xac0974bec39a17e36ba4a6b4d238ff944bacb478cbed5efcae784d7bf4f2ff80''"
| "KEYS Owner = ''0x59c6995e998f97a5a0044966f0945389dc9e86dae88c7a8412f4603b6b78690d''"
| "KEYS Facilitator = ''0x5de4111afa1a4b94908f83103eb1f1706367c2e68ca870fc3fb9a804cdab365a''"
| "KEYS Guardian = ''0x7c852118294e51e653712a81e05800f419141751be58f605c371e15141b007a6''"
| "KEYS Puller = ''0x47e179ec197488593b187f80a00eb0da91f1b9d0b13f8733639f19c30a34926a''"
| "KEYS Consumer = ''0x8b3a350cf5c34c9194ca85829a2df0ec3153be0318b5e2d3348e872092edffba''"
| "KEYS Validator1 = ''0x92db14e403b83dfe3df233f83dfa3a0d7096f21ca9b0d6d6b8d88b2b4ec1564e''"
| "KEYS Validator2 = ''0x4bbbf85ce3377467afe5d46f804f221813b2bb87f24d81f60f1fcdbf7cbf4356''"
| "KEYS Validator3 = ''0xdbda1821b80551c9d65939329250298aa3472ba22feea921c0cf5d620ea67b97''"

definition testAccounts :: "'w stack_client \<Rightarrow> test_account \<Rightarrow> string" where
  "testAccounts client a = sc_privateKeyToAddress client (KEYS a)"

definition ANVIL_DEPLOYER_PK :: string where
  "ANVIL_DEPLOYER_PK = ''0xac0974bec39a17e36ba4a6b4d238ff944bacb478cbed5efcae784d7bf4f2ff80''"

definition MULTICALL3_ADDRESS :: string where
  "MULTICALL3_ADDRESS = ''0xcA11bde05977b3631167028862bE2a173976CA11''"

record address_book =
  ab_chainId :: int
  ab_facility :: string
  ab_intentDescriptor :: string
  ab_transferGuard :: string
  ab_positionManagerFactory :: string
  ab_positionManager :: string
  ab_requestFactory :: string
  ab_request :: string
  ab_whitelistBook :: string
  ab_whitelistBookImpl :: string
  ab_erc1967Factory :: string
  ab_mockFund :: string
  ab_mockRetargetter :: string
  ab_retargetterRequest :: string
  ab_collateral :: string
  ab_debt :: string
  ab_accounts :: "test_account \<Rightarrow> string"

record deploy_options =
  do_requestRepaymentDeadline :: "int option"
  do_whitelistQuorum :: "jsnum option"


section \<open>Helpers of the deployment\<close>

definition stack_error :: "string \<Rightarrow> ('w, raised + 'a) state" where
  "stack_error m = ret (Inl (RaisedError m))"

definition minimalProxyInitcode :: "string \<Rightarrow> string" where
  "minimalProxyInitcode impl =
     (let lower = toLowerCase impl; a = (if startsWith lower ''0x'' then drop 2 lower else lower) in
      ''0x3d602d80600a3d3981f3363d3d373d3d3d363d73'' @ a @ ''5af43d82803e903d91602b57fd5bf3'')"

definition sendDeploy :: "'w stack_client \<Rightarrow> string \<Rightarrow> ('w, raised + string) state" where
  "sendDeploy client bytecode =
     bindE (sc_deployContract client (sc_account client) bytecode) (\<lambda>hash.
     bindE (sc_waitForReceipt client hash) (\<lambda>receipt.
     case tr_contractAddress receipt of
       None \<Rightarrow> stack_error ''deploy: no contractAddress in receipt''
     | Some a \<Rightarrow> if a = [] then stack_error ''deploy: no contractAddress in receipt'' else ret (Inr a)))"

definition constructor_args :: "'w stack_client \<Rightarrow> abi_value list \<Rightarrow> string \<Rightarrow> raised + string" where
  "constructor_args client args ctorParamSig =
     (if args \<noteq> [] then sc_encodeAbiParameters client ctorParamSig args else Inr ''0x'')"

definition deployArtifact ::
    "'w stack_client \<Rightarrow> artifact_name \<Rightarrow> abi_value list \<Rightarrow> string \<Rightarrow> ('w, raised + string) state" where
  "deployArtifact client name args ctorParamSig =
     bindE (ret (constructor_args client args ctorParamSig)) (\<lambda>ctorArgs.
     sendDeploy client (af_bytecode (sc_artifact client name) @ drop 2 ctorArgs))"

definition sendOwnerTx :: "'w stack_client \<Rightarrow> string \<Rightarrow> string \<Rightarrow> ('w, raised + string) state" where
  "sendOwnerTx client to data =
     bindE (sc_sendTransaction client (testAccounts client Owner) to data) (\<lambda>hash.
     bindE (sc_waitForReceipt client hash) (\<lambda>_.
     ret (Inr hash)))"

text \<open>
  The calls of the owner whose result is an address in an event: the transaction, its receipt, the
  first event of the name and the address among its arguments.
\<close>

definition created_by ::
    "'w stack_client \<Rightarrow> string \<Rightarrow> string \<Rightarrow> artifact_name \<Rightarrow> string \<Rightarrow> string \<Rightarrow> string \<Rightarrow> ('w, raised + string) state" where
  "created_by client to data name eventName arg missing =
     bindE (sc_sendTransaction client (testAccounts client Owner) to data) (\<lambda>hash.
     bindE (sc_waitForReceipt client hash) (\<lambda>receipt.
     case sc_parseEventLogs client name eventName (tr_logs receipt) of
       [] \<Rightarrow> stack_error missing
     | e # _ \<Rightarrow> ret (Inr (e arg))))"

text \<open>\<open>Promise.all\<close> starts every call; it rejects if one of them does.\<close>

fun fund_all :: "'w stack_client \<Rightarrow> string list \<Rightarrow> ('w, raised + unit) state" where
  "fund_all client [] = ret (Inr ())"
| "fund_all client (a # accounts) =
     State_Monad.bind (sc_setBalance client a (10 ^ 20)) (\<lambda>r.
     State_Monad.bind (fund_all client accounts) (\<lambda>rest.
     ret (case r of Inl e \<Rightarrow> Inl e | Inr _ \<Rightarrow> rest)))"


section \<open>The deployment\<close>

definition funded_accounts :: "test_account list" where
  "funded_accounts = [Owner, Facilitator, Guardian, Puller, Consumer, Validator1, Validator2, Validator3]"

text \<open>Sections 7, 8b and 9 of the function; the others are written out in it.\<close>

definition deployWhitelistBook ::
    "'w stack_client \<Rightarrow> deploy_options \<Rightarrow> ('w, raised + string \<times> string \<times> string) state" where
  "deployWhitelistBook client opts =
     (let account = testAccounts client; owner = account Owner; encode = (\<lambda>abi fn args. ret (sc_encodeFunctionData client abi fn args)) in
      bindE (deployArtifact client ARequestWhitelist [] []) (\<lambda>whitelistBookImpl.
      bindE (deployArtifact client AERC1967Factory [] []) (\<lambda>erc1967Factory.
      bindE (encode (ParseAbi ''function initialize(address,address[],uint16,address[])'') ''initialize''
        [AAddress owner, AArray (map (AAddress \<circ> account) [Validator1, Validator2, Validator3]),
         ANumber (case do_whitelistQuorum opts of Some q \<Rightarrow> q | None \<Rightarrow> num_of_int 1), AArray []]) (\<lambda>wlInitData.
      bindE (encode (ArtifactAbi AERC1967Factory) ''deployAndCall'' [AAddress whitelistBookImpl, AAddress owner, AHex wlInitData]) (\<lambda>data.
      bindE (created_by client erc1967Factory data AERC1967Factory ''Deployed'' ''proxy'' ''ERC1967Factory.Deployed event missing'') (\<lambda>whitelistBook.
      ret (Inr (whitelistBookImpl, erc1967Factory, whitelistBook))))))))"

definition deployRetargetter ::
    "'w stack_client \<Rightarrow> string \<Rightarrow> string \<Rightarrow> ('w, raised + string \<times> string) state" where
  "deployRetargetter client requestFactory debt =
     (let encode = (\<lambda>abi fn args. ret (sc_encodeFunctionData client abi fn args)) in
      bindE (deployArtifact client AMockRetargetter [] []) (\<lambda>mockRetargetter.
      bindE (sc_blockTimestamp client) (\<lambda>retargetterTimestamp.
      let retargetterDeadline = retargetterTimestamp + 90 * 24 * 3600 in
      bindE (encode (ArtifactAbi ARequestFactory) ''createRequest''
        [AAddress mockRetargetter, AAddress mockRetargetter, AAddress mockRetargetter, AAddress debt, AString ''Retargetter Test'', AString ''RTR'',
         ABigint retargetterDeadline, ANumber (num_of_int 0)]) (\<lambda>data.
      bindE (created_by client requestFactory data ARequestFactory ''RequestCreated'' ''request'' ''RequestCreated event missing'') (\<lambda>retargetterRequest.
      bindE (encode (ArtifactAbi AMockRetargetter) ''setOperation'' [AAddress retargetterRequest, ABigint retargetterDeadline]) (\<lambda>data.
      bindE (sendOwnerTx client mockRetargetter data) (\<lambda>_.
      ret (Inr (mockRetargetter, retargetterRequest)))))))))"

definition createTestIntent ::
    "'w stack_client \<Rightarrow> string \<Rightarrow> string \<Rightarrow> string \<Rightarrow> ('w, raised + unit) state" where
  "createTestIntent client facility positionManager debt =
     (let encode = (\<lambda>abi fn args. ret (sc_encodeFunctionData client abi fn args)) in
      bindE (sc_blockTimestamp client) (\<lambda>now.
      bindE (encode (ArtifactAbi AFacility) ''createIntent''
        [ATuple [(''depositAsset'', ATuple [(''asset'', AAddress positionManager), (''isPositionManager'', ABool True)]),
          (''targetAsset'', ATuple [(''asset'', AAddress debt), (''isPositionManager'', ABool False)]),
          (''depositCap'', ABigint (1000000 * 10 ^ 18)), (''guardKey'', AAddress positionManager),
          (''resolveStart'', ANumber (num_of_int (now + 24 * 3600))), (''quorum'', ANumber (num_of_int 1)), (''transferableIntent'', ABool True)]]) (\<lambda>createIntentData.
      bindE (sendOwnerTx client facility createIntentData) (\<lambda>_.
      ret (Inr ())))))"

definition deployGuardianStack :: "'w stack_client \<Rightarrow> deploy_options \<Rightarrow> ('w, raised + address_book) state" where
  "deployGuardianStack client opts =
     (let account = testAccounts client; owner = account Owner; encode = (\<lambda>abi fn args. ret (sc_encodeFunctionData client abi fn args)) in
      bindE (fund_all client (map account funded_accounts)) (\<lambda>_.
      bindE (sc_setCode client MULTICALL3_ADDRESS (af_deployedBytecode (sc_artifact client AMulticall3))) (\<lambda>_.
      bindE (deployArtifact client AMockERC20 [AString ''Collateral'', AString ''COLL'', ANumber (num_of_int 18)] ''string,string,uint8'') (\<lambda>collateral.
      bindE (deployArtifact client AMockERC20 [AString ''Debt'', AString ''DEBT'', ANumber (num_of_int 18)] ''string,string,uint8'') (\<lambda>debt.
      bindE (deployArtifact client AIntentDescriptor [] []) (\<lambda>intentDescriptor.
      bindE (deployArtifact client ATransferGuard [] []) (\<lambda>tgImpl.
      bindE (sendDeploy client (minimalProxyInitcode tgImpl)) (\<lambda>transferGuard.
      bindE (encode (ParseAbi ''function initialize(address)'') ''initialize'' [AAddress owner]) (\<lambda>data.
      bindE (sendOwnerTx client transferGuard data) (\<lambda>_.
      bindE (deployArtifact client AFacility [] []) (\<lambda>facImpl.
      bindE (sendDeploy client (minimalProxyInitcode facImpl)) (\<lambda>facility.
      bindE (encode (ParseAbi ''function initialize(address,address,address)'') ''initialize''
        [AAddress owner, AAddress (account Facilitator), AAddress intentDescriptor]) (\<lambda>data.
      bindE (sendOwnerTx client facility data) (\<lambda>_.
      bindE (encode (ParseAbi ''function grantRoles(address,uint256)'') ''grantRoles'' [AAddress (account Guardian), ABigint 2]) (\<lambda>data.
      bindE (sendOwnerTx client facility data) (\<lambda>_.
      bindE (deployArtifact client APositionManagerFactory [AAddress owner] ''address'') (\<lambda>positionManagerFactory.
      bindE (encode (ArtifactAbi APositionManagerFactory) ''createPositionManager''
        [AAddress owner, ATuple [(''name'', AString ''PMS''), (''symbol'', AString ''PMS''), (''collateralAsset'', AAddress collateral), (''debtAsset'', AAddress debt)],
         ABigint 700000000000000000, AAddress transferGuard, ANumber (num_of_int 0), ANumber (num_of_int 0)]) (\<lambda>pmCreateData.
      bindE (created_by client positionManagerFactory pmCreateData APositionManagerFactory ''PositionManagerCreated'' ''positionManager''
        ''PositionManagerCreated event missing'') (\<lambda>positionManager.
      bindE (deployArtifact client ARequestFactory [AAddress owner] ''address'') (\<lambda>requestFactory.
      bindE (sc_blockTimestamp client) (\<lambda>timestamp.
      let repaymentDeadline = (case do_requestRepaymentDeadline opts of Some d \<Rightarrow> d | None \<Rightarrow> timestamp + 30 * 24 * 3600) in
      bindE (encode (ArtifactAbi ARequestFactory) ''createRequest''
        [AAddress owner, AAddress (account Puller), AAddress (account Consumer), AAddress debt, AString ''Test'', AString ''TR'',
         ABigint repaymentDeadline, ANumber (num_of_int 0)]) (\<lambda>reqCreateData.
      bindE (created_by client requestFactory reqCreateData ARequestFactory ''RequestCreated'' ''request'' ''RequestCreated event missing'') (\<lambda>request.
      bindE (deployWhitelistBook client opts) (\<lambda>(whitelistBookImpl, erc1967Factory, whitelistBook).
      bindE (deployArtifact client AOwnableMockFund [AAddress owner, AAddress debt, AAddress collateral] ''address,address,address'') (\<lambda>mockFund.
      bindE (deployRetargetter client requestFactory debt) (\<lambda>(mockRetargetter, retargetterRequest).
      bindE (createTestIntent client facility positionManager debt) (\<lambda>_.
      ret (Inr \<lparr>ab_chainId = 31337, ab_facility = facility, ab_intentDescriptor = intentDescriptor, ab_transferGuard = transferGuard,
        ab_positionManagerFactory = positionManagerFactory, ab_positionManager = positionManager, ab_requestFactory = requestFactory,
        ab_request = request, ab_whitelistBook = whitelistBook, ab_whitelistBookImpl = whitelistBookImpl, ab_erc1967Factory = erc1967Factory,
        ab_mockFund = mockFund, ab_mockRetargetter = mockRetargetter, ab_retargetterRequest = retargetterRequest,
        ab_collateral = collateral, ab_debt = debt, ab_accounts = account\<rparr>))))))))))))))))))))))))))))"


section \<open>What a deployed stack consists of\<close>

text \<open>
  The plan of the deployment: what is put on the chain, in which order, and which address each step
  has to yield. The events are those a chain records.
\<close>

datatype stack_step =
    Fund string
  | Place string artifact_name
  | Deploy artifact_name "abi_value list" string
  | Clone string
  | Invoke string function_abi string "abi_value list"

datatype step_yield = Yields_nothing | Creates string | Announces artifact_name string string string

datatype chain_event = Balance string int | Code string string | Tx string "string option" string tx_receipt

fun yields :: "'w stack_client \<Rightarrow> step_yield \<Rightarrow> tx_receipt \<Rightarrow> bool" where
  "yields client Yields_nothing r = True"
| "yields client (Creates a) r = (tr_contractAddress r = Some a \<and> a \<noteq> [])"
| "yields client (Announces name eventName arg a) r =
     (case sc_parseEventLogs client name eventName (tr_logs r) of [] \<Rightarrow> False | e # _ \<Rightarrow> a = e arg)"

fun performs :: "'w stack_client \<Rightarrow> stack_step \<times> step_yield \<Rightarrow> chain_event \<Rightarrow> bool" where
  "performs client (Fund a, y) (Balance b v) = (b = a \<and> v = 10 ^ 20)"
| "performs client (Place a name, y) (Code b code) = (b = a \<and> code = af_deployedBytecode (sc_artifact client name))"
| "performs client (Deploy name args sig, y) (Tx sender to data r) =
     (sender = sc_account client \<and> to = None \<and> yields client y r \<and>
      (\<exists>ctor. constructor_args client args sig = Inr ctor \<and> data = af_bytecode (sc_artifact client name) @ drop 2 ctor))"
| "performs client (Clone impl, y) (Tx sender to data r) =
     (sender = sc_account client \<and> to = None \<and> yields client y r \<and> data = minimalProxyInitcode impl)"
| "performs client (Invoke target abi fn args, y) (Tx sender to data r) =
     (sender = testAccounts client Owner \<and> to = Some target \<and> yields client y r \<and>
      sc_encodeFunctionData client abi fn args = Inr data)"
| "performs client _ _ = False"

record stack_sites =
  ss_tgImpl :: string
  ss_facImpl :: string
  ss_deadline :: int
  ss_retargetterDeadline :: int
  ss_resolveStart :: int
  ss_wlInitData :: string

definition stack_plan :: "'w stack_client \<Rightarrow> deploy_options \<Rightarrow> address_book \<Rightarrow> stack_sites \<Rightarrow> (stack_step \<times> step_yield) list" where
  "stack_plan client opts b s =
     (let account = testAccounts client; owner = AAddress (account Owner); token = (\<lambda>name symbol. [AString name, AString symbol, ANumber (num_of_int 18)]);
        request_to = (\<lambda>own pull cons name symbol d. Invoke (ab_requestFactory b) (ArtifactAbi ARequestFactory) ''createRequest''
          [AAddress own, AAddress pull, AAddress cons, AAddress (ab_debt b), AString name, AString symbol, ABigint d, ANumber (num_of_int 0)])
      in map (\<lambda>a. (Fund (account a), Yields_nothing)) funded_accounts @
     [(Place MULTICALL3_ADDRESS AMulticall3, Yields_nothing),
      (Deploy AMockERC20 (token ''Collateral'' ''COLL'') ''string,string,uint8'', Creates (ab_collateral b)),
      (Deploy AMockERC20 (token ''Debt'' ''DEBT'') ''string,string,uint8'', Creates (ab_debt b)),
      (Deploy AIntentDescriptor [] [], Creates (ab_intentDescriptor b)),
      (Deploy ATransferGuard [] [], Creates (ss_tgImpl s)),
      (Clone (ss_tgImpl s), Creates (ab_transferGuard b)),
      (Invoke (ab_transferGuard b) (ParseAbi ''function initialize(address)'') ''initialize'' [owner], Yields_nothing),
      (Deploy AFacility [] [], Creates (ss_facImpl s)),
      (Clone (ss_facImpl s), Creates (ab_facility b)),
      (Invoke (ab_facility b) (ParseAbi ''function initialize(address,address,address)'') ''initialize''
        [owner, AAddress (account Facilitator), AAddress (ab_intentDescriptor b)], Yields_nothing),
      (Invoke (ab_facility b) (ParseAbi ''function grantRoles(address,uint256)'') ''grantRoles'' [AAddress (account Guardian), ABigint 2], Yields_nothing),
      (Deploy APositionManagerFactory [owner] ''address'', Creates (ab_positionManagerFactory b)),
      (Invoke (ab_positionManagerFactory b) (ArtifactAbi APositionManagerFactory) ''createPositionManager''
        [owner, ATuple [(''name'', AString ''PMS''), (''symbol'', AString ''PMS''), (''collateralAsset'', AAddress (ab_collateral b)),
           (''debtAsset'', AAddress (ab_debt b))],
         ABigint 700000000000000000, AAddress (ab_transferGuard b), ANumber (num_of_int 0), ANumber (num_of_int 0)],
       Announces APositionManagerFactory ''PositionManagerCreated'' ''positionManager'' (ab_positionManager b)),
      (Deploy ARequestFactory [owner] ''address'', Creates (ab_requestFactory b)),
      (request_to (account Owner) (account Puller) (account Consumer) ''Test'' ''TR'' (ss_deadline s),
       Announces ARequestFactory ''RequestCreated'' ''request'' (ab_request b)),
      (Deploy ARequestWhitelist [] [], Creates (ab_whitelistBookImpl b)),
      (Deploy AERC1967Factory [] [], Creates (ab_erc1967Factory b)),
      (Invoke (ab_erc1967Factory b) (ArtifactAbi AERC1967Factory) ''deployAndCall'' [AAddress (ab_whitelistBookImpl b), owner, AHex (ss_wlInitData s)],
       Announces AERC1967Factory ''Deployed'' ''proxy'' (ab_whitelistBook b)),
      (Deploy AOwnableMockFund [owner, AAddress (ab_debt b), AAddress (ab_collateral b)] ''address,address,address'', Creates (ab_mockFund b)),
      (Deploy AMockRetargetter [] [], Creates (ab_mockRetargetter b)),
      (request_to (ab_mockRetargetter b) (ab_mockRetargetter b) (ab_mockRetargetter b) ''Retargetter Test'' ''RTR'' (ss_retargetterDeadline s),
       Announces ARequestFactory ''RequestCreated'' ''request'' (ab_retargetterRequest b)),
      (Invoke (ab_mockRetargetter b) (ArtifactAbi AMockRetargetter) ''setOperation''
        [AAddress (ab_retargetterRequest b), ABigint (ss_retargetterDeadline s)], Yields_nothing),
      (Invoke (ab_facility b) (ArtifactAbi AFacility) ''createIntent''
        [ATuple [(''depositAsset'', ATuple [(''asset'', AAddress (ab_positionManager b)), (''isPositionManager'', ABool True)]),
          (''targetAsset'', ATuple [(''asset'', AAddress (ab_debt b)), (''isPositionManager'', ABool False)]),
          (''depositCap'', ABigint (1000000 * 10 ^ 18)), (''guardKey'', AAddress (ab_positionManager b)),
          (''resolveStart'', ANumber (num_of_int (ss_resolveStart s))), (''quorum'', ANumber (num_of_int 1)),
          (''transferableIntent'', ABool True)]], Yields_nothing)])"

text \<open>The initialisation the whitelist proxy is created with, and the deadlines asked for.\<close>

definition stack_settings :: "'w stack_client \<Rightarrow> deploy_options \<Rightarrow> stack_sites \<Rightarrow> bool" where
  "stack_settings client opts s \<longleftrightarrow>
     sc_encodeFunctionData client (ParseAbi ''function initialize(address,address[],uint16,address[])'') ''initialize''
       [AAddress (testAccounts client Owner), AArray (map (AAddress \<circ> testAccounts client) [Validator1, Validator2, Validator3]),
        ANumber (case do_whitelistQuorum opts of Some q \<Rightarrow> q | None \<Rightarrow> num_of_int 1), AArray []] = Inr (ss_wlInitData s) \<and>
     (\<forall>d. do_requestRepaymentDeadline opts = Some d \<longrightarrow> ss_deadline s = d)"

text \<open>A chain that records what is done to it, and whose receipts do not change.\<close>

definition does :: "('w \<Rightarrow> chain_event list) \<Rightarrow> ('a \<Rightarrow> chain_event list) \<Rightarrow> ('w, raised + 'a) state \<Rightarrow> bool" where
  "does mined es m \<longleftrightarrow> (\<forall>L. hoare (\<lambda>w. mined w = L) m (\<lambda>r w. case r of Inl e \<Rightarrow> True | Inr a \<Rightarrow> mined w = L @ es a))"

definition records_chain :: "('w \<Rightarrow> chain_event list) \<Rightarrow> (string \<Rightarrow> tx_receipt) \<Rightarrow> 'w stack_client \<Rightarrow> bool" where
  "records_chain mined rc client \<longleftrightarrow>
     (\<forall>a v. does mined (\<lambda>_. [Balance a v]) (sc_setBalance client a v)) \<and>
     (\<forall>a c. does mined (\<lambda>_. [Code a c]) (sc_setCode client a c)) \<and>
     (\<forall>a c. does mined (\<lambda>h. [Tx a None c (rc h)]) (sc_deployContract client a c)) \<and>
     (\<forall>a t d. does mined (\<lambda>h. [Tx a (Some t) d (rc h)]) (sc_sendTransaction client a t d)) \<and>
     (\<forall>h. does mined (\<lambda>_. []) (sc_waitForReceipt client h) \<and>
       pred_state (case_sum (\<lambda>_. True) (\<lambda>r. r = rc h)) (sc_waitForReceipt client h)) \<and>
     does mined (\<lambda>_. []) (sc_blockTimestamp client)"

text \<open>\<open>builds\<close>: what a part of the deployment adds to the plan when it succeeds.\<close>

definition at_step :: "'w stack_client \<Rightarrow> ('w \<Rightarrow> chain_event list) \<Rightarrow> chain_event list \<Rightarrow> (stack_step \<times> step_yield) list \<Rightarrow> 'w \<Rightarrow> bool" where
  "at_step client mined L plan w \<longleftrightarrow> (\<exists>new. mined w = L @ new \<and> list_all2 (performs client) plan new)"

abbreviation on_success :: "('a \<Rightarrow> 'w \<Rightarrow> bool) \<Rightarrow> raised + 'a \<Rightarrow> 'w \<Rightarrow> bool" where
  "on_success Q r w \<equiv> (case r of Inl e \<Rightarrow> True | Inr a \<Rightarrow> Q a w)"

lemma then_on_success:
  assumes "hoare P m (on_success R)" and "\<And>a. hoare (R a) (f a) (on_success Q)"
  shows "hoare P (bindE m f) (on_success Q)"
  by (rule hoare_bindE [where R = R]) (use assms in \<open>simp_all cong: sum.case_cong\<close>)

lemma bindE_assoc: "bindE (bindE m f) g = bindE m (\<lambda>a. bindE (f a) g)"
  by (rule state.expand) (auto simp: fun_eq_iff split: prod.split sum.split)

lemma bindE_ret_Inr: "bindE (ret (Inr a)) f = f a"
  by (simp add: bindE_def)

lemmas stack_stages = deployGuardianStack_def deployWhitelistBook_def deployRetargetter_def createTestIntent_def

lemma with_encoding:
  assumes "\<And>d. enc = Inr d \<Longrightarrow> hoare P (f d) (on_success Q)"
  shows "hoare P (bindE (ret enc) f) (on_success Q)"
  using assms by (cases enc) (auto simp: hoare_def State_Monad.return_def)

lemma at_step_does:
  assumes "does mined es m" and "\<And>a. list_all2 (performs client) (steps a) (es a)"
  shows "hoare (at_step client mined L plan) m (on_success (\<lambda>a. at_step client mined L (plan @ steps a)))"
proof (rule hoareI)
  fix w r w' assume "at_step client mined L plan w" and run: "run_state m w = (r, w')"
  then obtain new where new: "mined w = L @ new" "list_all2 (performs client) plan new" by (auto simp: at_step_def)
  show "on_success (\<lambda>a. at_step client mined L (plan @ steps a)) r w'"
  proof (cases r)
    case (Inr a)
    have "mined w' = (L @ new) @ es a"
      using hoareD [OF assms(1) [unfolded does_def, THEN spec, of "L @ new"] new(1) run] by (simp add: Inr)
    with new(2) assms(2) show ?thesis
      by (auto simp: Inr at_step_def intro!: list_all2_appendI)
  qed simp
qed

text \<open>The steps of the deployment over such a chain.\<close>

text \<open>A transaction, its receipt and what is read from it, as one step.\<close>

lemma doesD:
  assumes "does mined es m" and "run_state m w = (Inr a, w')"
  shows "mined w' = mined w @ es a"
  using hoareD [OF assms(1) [unfolded does_def, THEN spec, of "mined w"] refl assms(2)] by simp

lemma transaction_step:
  assumes chain: "records_chain mined rc client" and sent: "does mined (\<lambda>h. [Tx sender to data (rc h)]) m"
    and k: "\<And>h r. \<exists>x. k h r = ret x \<and> (\<forall>a. x = Inr a \<longrightarrow> performs client (step a) (Tx sender to data r))"
  shows "hoare (at_step client mined L plan) (bindE m (\<lambda>h. bindE (sc_waitForReceipt client h) (k h)))
    (on_success (\<lambda>a. at_step client mined L (plan @ [step a])))"
proof (rule hoareI)
  fix w x w' assume pre: "at_step client mined L plan w"
    and run: "run_state (bindE m (\<lambda>h. bindE (sc_waitForReceipt client h) (k h))) w = (x, w')"
  show "on_success (\<lambda>a. at_step client mined L (plan @ [step a])) x w'"
  proof (cases x)
    case (Inr a)
    with run obtain h w1 r w2 where m: "run_state m w = (Inr h, w1)" and wait: "run_state (sc_waitForReceipt client h) w1 = (Inr r, w2)"
      and last: "run_state (k h r) w2 = (Inr a, w')"
      by (auto split: prod.splits sum.splits)
    have d: "does mined (\<lambda>_. []) (sc_waitForReceipt client h)"
      and known: "pred_state (case_sum (\<lambda>_. True) (\<lambda>r. r = rc h)) (sc_waitForReceipt client h)"
      using chain by (auto simp: records_chain_def)
    have "r = rc h" using pred_stateD' [OF known, of w1] by (simp add: wait)
    moreover from k [of h r] last have "performs client (step a) (Tx sender to data r)" "w' = w2"
      by (auto simp: State_Monad.return_def)
    moreover from pre obtain new where "mined w = L @ new" "list_all2 (performs client) plan new" by (auto simp: at_step_def)
    ultimately show ?thesis
      using doesD [OF sent m] doesD [OF d wait] by (auto simp: Inr at_step_def intro!: exI list_all2_appendI)
  qed simp
qed

lemma deploy_step:
  assumes chain: "records_chain mined rc client"
    and "\<And>r a. yields client (Creates a) r \<Longrightarrow> performs client (step, Creates a) (Tx (sc_account client) None code r)"
  shows "hoare (at_step client mined L plan) (sendDeploy client code) (on_success (\<lambda>a. at_step client mined L (plan @ [(step, Creates a)])))"
  unfolding sendDeploy_def
proof (rule transaction_step [OF chain])
  show "does mined (\<lambda>h. [Tx (sc_account client) None code (rc h)]) (sc_deployContract client (sc_account client) code)"
    using chain by (simp add: records_chain_def)
  show "\<exists>x. (case tr_contractAddress r of None \<Rightarrow> stack_error ''deploy: no contractAddress in receipt''
       | Some a \<Rightarrow> if a = [] then stack_error ''deploy: no contractAddress in receipt'' else ret (Inr a)) = ret x \<and>
     (\<forall>a. x = Inr a \<longrightarrow> performs client (step, Creates a) (Tx (sc_account client) None code r))" for r
    by (cases "tr_contractAddress r") (auto simp: stack_error_def assms(2))
qed

lemma clone_step:
  "records_chain mined rc client \<Longrightarrow> hoare (at_step client mined L plan) (sendDeploy client (minimalProxyInitcode impl))
     (on_success (\<lambda>a. at_step client mined L (plan @ [(Clone impl, Creates a)])))"
  by (erule deploy_step) simp

lemma artifact_step:
  "records_chain mined rc client \<Longrightarrow> hoare (at_step client mined L plan) (deployArtifact client name args sig)
     (on_success (\<lambda>a. at_step client mined L (plan @ [(Deploy name args sig, Creates a)])))"
  unfolding deployArtifact_def by (rule with_encoding, erule deploy_step) simp

lemma owner_step:
  assumes chain: "records_chain mined rc client" and "sc_encodeFunctionData client abi fn args = Inr data"
  shows "hoare (at_step client mined L plan) (sendOwnerTx client to data)
     (on_success (\<lambda>_. at_step client mined L (plan @ [(Invoke to abi fn args, Yields_nothing)])))"
  unfolding sendOwnerTx_def
  by (rule transaction_step [OF chain, where sender = "testAccounts client Owner" and to = "Some to" and data = data])
    (use assms in \<open>auto simp: records_chain_def\<close>)

lemma creation_step:
  assumes chain: "records_chain mined rc client" and "sc_encodeFunctionData client abi fn args = Inr data"
  shows "hoare (at_step client mined L plan) (created_by client to data name eventName arg missing)
     (on_success (\<lambda>a. at_step client mined L (plan @ [(Invoke to abi fn args, Announces name eventName arg a)])))"
  unfolding created_by_def
proof (rule transaction_step [OF chain, where sender = "testAccounts client Owner" and to = "Some to" and data = data])
  show "does mined (\<lambda>h. [Tx (testAccounts client Owner) (Some to) data (rc h)])
     (sc_sendTransaction client (testAccounts client Owner) to data)"
    using chain by (simp add: records_chain_def)
  show "\<exists>x. (case sc_parseEventLogs client name eventName (tr_logs r) of [] \<Rightarrow> stack_error missing | e # _ \<Rightarrow> ret (Inr (e arg))) = ret x \<and>
     (\<forall>a. x = Inr a \<longrightarrow> performs client (Invoke to abi fn args, Announces name eventName arg a) (Tx (testAccounts client Owner) (Some to) data r))" for r
    by (cases "sc_parseEventLogs client name eventName (tr_logs r)") (auto simp: stack_error_def assms(2))
qed

lemma fund_all_does:
  assumes "records_chain mined rc client"
  shows "does mined (\<lambda>_. map (\<lambda>a. Balance a (10 ^ 20)) accounts) (fund_all client accounts)"
proof (induction accounts)
  case Nil
  show ?case by (simp add: does_def hoare_def State_Monad.return_def)
next
  case (Cons a accounts)
  have one: "does mined (\<lambda>_. [Balance a (10 ^ 20)]) (sc_setBalance client a (10 ^ 20))"
    using assms by (simp add: records_chain_def)
  show ?case
    unfolding does_def
  proof (intro allI hoareI)
    fix L w r w' assume L: "mined w = L" and "run_state (fund_all client (a # accounts)) w = (r, w')"
    then show "on_success (\<lambda>_ w. mined w = L @ map (\<lambda>a. Balance a (10 ^ 20)) (a # accounts)) r w'"
      using doesD [OF one, of w] doesD [OF Cons.IH]
      by (fastforce simp: State_Monad.return_def split: prod.splits sum.splits)
  qed
qed

lemma funding_step:
  assumes "records_chain mined rc client"
  shows "hoare (at_step client mined L plan) (fund_all client accounts)
    (on_success (\<lambda>_. at_step client mined L (plan @ map (\<lambda>a. (Fund a, Yields_nothing)) accounts)))"
  by (rule at_step_does [OF fund_all_does [OF assms]]) (simp add: list_all2_conv_all_nth)

lemma code_step:
  assumes "records_chain mined rc client"
  shows "hoare (at_step client mined L plan) (sc_setCode client a (af_deployedBytecode (sc_artifact client name)))
    (on_success (\<lambda>_. at_step client mined L (plan @ [(Place a name, Yields_nothing)])))"
proof (rule at_step_does)
  show "does mined (\<lambda>_. [Code a (af_deployedBytecode (sc_artifact client name))]) (sc_setCode client a (af_deployedBytecode (sc_artifact client name)))"
    using assms by (simp add: records_chain_def)
qed simp

lemma clock_step:
  assumes "records_chain mined rc client"
  shows "hoare (at_step client mined L plan) (sc_blockTimestamp client) (on_success (\<lambda>_. at_step client mined L plan))"
proof -
  have "hoare (at_step client mined L plan) (sc_blockTimestamp client) (on_success (\<lambda>_. at_step client mined L (plan @ [])))"
    by (rule at_step_does [where es = "\<lambda>_. []"]) (use assms in \<open>auto simp: records_chain_def\<close>)
  then show ?thesis by (simp only: append_Nil2)
qed

lemmas stack_steps = funding_step code_step artifact_step clone_step clock_step
lemmas call_steps = owner_step creation_step

text \<open>
  If the deployment succeeds, what it did is its plan, step by step and nothing else, and every
  address of the book is the one the receipt of its own step gave.
\<close>

lemma deployment_follows_plan:
  assumes chain: "records_chain mined rc client"
  shows "hoare (at_step client mined L []) (deployGuardianStack client opts) (on_success (\<lambda>b w.
    ab_chainId b = 31337 \<and> ab_accounts b = testAccounts client \<and>
    (\<exists>s. stack_settings client opts s \<and> at_step client mined L (stack_plan client opts b s) w)))"
  unfolding stack_stages Let_def bindE_assoc bindE_ret_Inr case_prod_conv
  apply (rule with_encoding | (rule then_on_success, (rule call_steps [OF chain], assumption | rule stack_steps [OF chain])))+
  subgoal for _ _ collateral debt _ tgImpl _ _ _ facImpl _ _ _ _ _ _ _ _ _ now _ _ _ _ wlInitData _ _ _ _ later _ _ _ _ last _ _
    by (rule hoare_ret)
      (auto simp: stack_settings_def stack_plan_def Let_def funded_accounts_def intro!: exI [where x = "\<lparr>ss_tgImpl = tgImpl, ss_facImpl = facImpl,
        ss_deadline = (case do_requestRepaymentDeadline opts of Some d \<Rightarrow> d | None \<Rightarrow> now + 30 * 24 * 3600),
        ss_retargetterDeadline = later + 90 * 24 * 3600, ss_resolveStart = last + 24 * 3600, ss_wlInitData = wlInitData\<rparr>"])
  done

lemma stack_built:
  assumes "records_chain mined rc client" and "run_state (deployGuardianStack client opts) w = (Inr b, w')"
  shows "\<exists>s new. stack_settings client opts s \<and> mined w' = mined w @ new \<and>
    list_all2 (performs client) (stack_plan client opts b s) new"
proof -
  have "at_step client mined (mined w) [] w" by (simp add: at_step_def)
  from hoareD [OF deployment_follows_plan [OF assms(1)] this assms(2)] show ?thesis by (auto simp: at_step_def)
qed

text \<open>
  What the retargetter checks of A.1 look for is in place: the request the retargetter's operation
  names is one the book's factory announced for a request owned, pulled and consumed by the
  retargetter, with the repayment deadline of that operation.
\<close>

lemma retargetter_wired:
  assumes "records_chain mined rc client" and "run_state (deployGuardianStack client opts) w = (Inr b, w')"
  shows "\<exists>d before minted attached after. mined w' = before @ minted # attached # after \<and>
    performs client (Invoke (ab_requestFactory b) (ArtifactAbi ARequestFactory) ''createRequest''
      [AAddress (ab_mockRetargetter b), AAddress (ab_mockRetargetter b), AAddress (ab_mockRetargetter b), AAddress (ab_debt b),
       AString ''Retargetter Test'', AString ''RTR'', ABigint d, ANumber (num_of_int 0)],
      Announces ARequestFactory ''RequestCreated'' ''request'' (ab_retargetterRequest b)) minted \<and>
    performs client (Invoke (ab_mockRetargetter b) (ArtifactAbi AMockRetargetter) ''setOperation''
      [AAddress (ab_retargetterRequest b), ABigint d], Yields_nothing) attached"
proof -
  from stack_built [OF assms] obtain s new where new: "mined w' = mined w @ new" "list_all2 (performs client) (stack_plan client opts b s) new"
    by blast
  let ?plan = "stack_plan client opts b s"
  have len: "length ?plan = 31" by (simp add: stack_plan_def Let_def funded_accounts_def)
  have at: "?plan ! 28 = (Invoke (ab_requestFactory b) (ArtifactAbi ARequestFactory) ''createRequest''
      [AAddress (ab_mockRetargetter b), AAddress (ab_mockRetargetter b), AAddress (ab_mockRetargetter b), AAddress (ab_debt b),
       AString ''Retargetter Test'', AString ''RTR'', ABigint (ss_retargetterDeadline s), ANumber (num_of_int 0)],
      Announces ARequestFactory ''RequestCreated'' ''request'' (ab_retargetterRequest b))"
    "?plan ! 29 = (Invoke (ab_mockRetargetter b) (ArtifactAbi AMockRetargetter) ''setOperation''
      [AAddress (ab_retargetterRequest b), ABigint (ss_retargetterDeadline s)], Yields_nothing)"
    by (simp_all add: stack_plan_def Let_def funded_accounts_def)
  from new(2) len have "length new = 31" by (simp add: list_all2_lengthD)
  then have "drop 28 new = new ! 28 # new ! 29 # drop 30 new"
    using Cons_nth_drop_Suc [of 28 new] Cons_nth_drop_Suc [of 29 new] by simp
  then have "new = take 28 new @ new ! 28 # new ! 29 # drop 30 new" by (metis append_take_drop_id)
  with new(1) have "mined w' = (mined w @ take 28 new) @ new ! 28 # new ! 29 # drop 30 new" by simp
  moreover have "performs client (?plan ! 28) (new ! 28)" "performs client (?plan ! 29) (new ! 29)"
    using new(2) len by (simp_all add: list_all2_nthD)
  ultimately show ?thesis unfolding at by blast
qed

text \<open>A chain on which the deployment succeeds: hashes count the events, receipts are of the hash.\<close>

definition ex_receipt :: "string \<Rightarrow> tx_receipt" where
  "ex_receipt h = \<lparr>tr_contractAddress = Some (CHR ''c'' # h), tr_logs = [\<lparr>el_address = h, el_topics = [], el_data = []\<rparr>]\<rparr>"

definition ex_record :: "(string \<Rightarrow> chain_event) \<Rightarrow> (chain_event list, raised + string) state" where
  "ex_record e = State (\<lambda>w. let h = replicate (length w) CHR ''x'' in (Inr h, w @ [e h]))"

definition ex_dev_chain :: "chain_event list stack_client" where
  "ex_dev_chain = \<lparr>sc_account = ''deployer'', sc_privateKeyToAddress = id, sc_artifact = (\<lambda>_. \<lparr>af_bytecode = ''0x60'', af_deployedBytecode = ''0x61''\<rparr>),
     sc_encodeAbiParameters = (\<lambda>_ _. Inr ''0x01''), sc_encodeFunctionData = (\<lambda>_ fn _. Inr fn),
     sc_parseEventLogs = (\<lambda>_ _ logs. map (\<lambda>l _. el_address l) logs),
     sc_setBalance = (\<lambda>a v. bindE (ex_record (\<lambda>_. Balance a v)) (\<lambda>_. ret (Inr ()))),
     sc_setCode = (\<lambda>a c. bindE (ex_record (\<lambda>_. Code a c)) (\<lambda>_. ret (Inr ()))),
     sc_deployContract = (\<lambda>a c. ex_record (\<lambda>h. Tx a None c (ex_receipt h))),
     sc_sendTransaction = (\<lambda>a t d. ex_record (\<lambda>h. Tx a (Some t) d (ex_receipt h))),
     sc_waitForReceipt = (\<lambda>h. ret (Inr (ex_receipt h))), sc_blockTimestamp = ret (Inr 1700000000)\<rparr>"

lemma ex_dev_chain_records: "records_chain id ex_receipt ex_dev_chain"
  by (simp add: records_chain_def ex_dev_chain_def does_def hoare_def ex_record_def Let_def State_Monad.return_def pred_state_iff)

lemma run_ret: "run_state (ret a) w = (a, w)"
  by (simp add: State_Monad.return_def)

lemma ex_deployed:
  "isr (fst (run_state (deployGuardianStack ex_dev_chain \<lparr>do_requestRepaymentDeadline = None, do_whitelistQuorum = None\<rparr>) []))"
  by (simp add: stack_stages deployArtifact_def sendDeploy_def sendOwnerTx_def created_by_def constructor_args_def funded_accounts_def
      ex_dev_chain_def ex_record_def ex_receipt_def Let_def run_ret testAccounts_def)


section \<open>The pool of chains and the fixture\<close>

record pool_config =
  pc_limit :: int
  pc_chainId :: int
  pc_accounts :: int
  pc_codeSizeLimit :: int

text \<open>How binding the server ends: an \<open>error\<close> event, or the address it reports (a pipe has a name, not a port).\<close>

datatype bind_outcome = BindError string | NoAddress | PipeAddress string | PortAddress nat

definition startAnvilPool ::
    "(pool_config \<Rightarrow> nat \<Rightarrow> string \<Rightarrow> bind_outcome) \<Rightarrow> nat option \<Rightarrow> int option \<Rightarrow> raised + nat" where
  "startAnvilPool listen port limit =
     (case listen \<lparr>pc_limit = (case limit of Some l \<Rightarrow> l | None \<Rightarrow> 64), pc_chainId = 31337, pc_accounts = 10, pc_codeSizeLimit = 1000000\<rparr>
        (case port of Some p \<Rightarrow> p | None \<Rightarrow> 0) ''127.0.0.1'' of
        BindError e \<Rightarrow> Inl (RaisedError e)
      | PortAddress p \<Rightarrow> Inr p
      | _ \<Rightarrow> Inl (RaisedError ''prool server did not bind to a port''))"

definition getRpcUrl :: "nat \<Rightarrow> string \<Rightarrow> string" where
  "getRpcUrl port workerId = ''http://127.0.0.1:'' @ show_nat port @ ''/'' @ workerId"

definition currentWorkerId :: "string option \<Rightarrow> string" where
  "currentWorkerId VITEST_POOL_ID = (case VITEST_POOL_ID of Some i \<Rightarrow> i | None \<Rightarrow> ''1'')"

text \<open>The clients of an URL, with the deployer as account; \<open>viem\<close> builds the rest.\<close>

definition createClients :: "(string \<Rightarrow> 'w stack_client) \<Rightarrow> string \<Rightarrow> 'w stack_client" where
  "createClients viem rpcUrl = (viem rpcUrl)\<lparr>sc_account := sc_privateKeyToAddress (viem rpcUrl) ANVIL_DEPLOYER_PK\<rparr>"

record 'w integration_snapshot =
  is_book :: address_book
  is_clients :: "'w stack_client"
  is_rpcUrl :: string

definition fixture_setup ::
    "(string \<Rightarrow> 'w stack_client) \<Rightarrow> nat \<Rightarrow> string option \<Rightarrow> deploy_options \<Rightarrow> 'w integration_snapshot option \<Rightarrow>
     ('w, (raised + unit) \<times> 'w integration_snapshot option) state" where
  "fixture_setup viem anvilPort VITEST_POOL_ID opts snap =
     (let rpcUrl = getRpcUrl anvilPort (currentWorkerId VITEST_POOL_ID); clients = createClients viem rpcUrl in
      State_Monad.bind (deployGuardianStack clients opts) (\<lambda>r.
      ret (case r of
        Inl e \<Rightarrow> (Inl e, snap)
      | Inr book \<Rightarrow> (Inr (), Some \<lparr>is_book = book, is_clients = clients, is_rpcUrl = rpcUrl\<rparr>))))"

text \<open>The message has a dash where this one has a hyphen.\<close>

definition fixture_snapshot :: "'w integration_snapshot option \<Rightarrow> raised + 'w integration_snapshot" where
  "fixture_snapshot snap =
     (case snap of None \<Rightarrow> Inl (RaisedError ''Fixture not initialised - call `setup` from beforeAll first'') | Some s \<Rightarrow> Inr s)"

lemma deployer_is_first_key: "sc_account (createClients viem url) = testAccounts (viem url) Deployer"
  by (simp add: createClients_def testAccounts_def ANVIL_DEPLOYER_PK_def)

text \<open>The snapshot after a successful \<open>setup\<close> is of the stack that very run put on the worker's chain.\<close>

lemma snapshot_after_setup:
  assumes "run_state (fixture_setup viem anvilPort i opts snap) w = ((Inr (), snap'), w')"
    and "\<And>url. records_chain mined rc (createClients viem url)"
  shows "\<exists>s q new. fixture_snapshot snap' = Inr s \<and> is_rpcUrl s = getRpcUrl anvilPort (currentWorkerId i) \<and>
    mined w' = mined w @ new \<and> list_all2 (performs (is_clients s)) (stack_plan (is_clients s) opts (is_book s) q) new"
proof -
  let ?url = "getRpcUrl anvilPort (currentWorkerId i)"
  from assms(1) obtain book where run: "run_state (deployGuardianStack (createClients viem ?url) opts) w = (Inr book, w')"
    and "snap' = Some \<lparr>is_book = book, is_clients = createClients viem ?url, is_rpcUrl = ?url\<rparr>"
    by (auto simp: fixture_setup_def Let_def run_ret split: prod.splits sum.splits)
  with stack_built [OF assms(2) run] show ?thesis by (auto simp: fixture_snapshot_def)
qed

lemma no_snapshot_without_setup: "isr (fixture_snapshot snap) \<longleftrightarrow> snap \<noteq> None"
  by (simp add: fixture_snapshot_def split: option.split)

end
