(* ===== verification/Spec2Isabelle.thy ===== *)
theory Spec2Isabelle
  imports Schemas Role_Events Rate_Limit Request_Binding Fund_Binding Swap_Checks Whitelisting
    Typed_Data Eip712_Domain Deadline Sign_Runners Auth Gates Server Shipped
    Chain_Approval Coordinator_Config Coordinator Coordinator_Calls Whitelist_Nonces Key_Signers Assembly
    Assembly_Frame Release_Manifests Fixture_Artifacts Logging Test_Stack
begin

text \<open>
  The Guardian validates facility and whitelist operations against on-chain state and signs
  them as EIP-712 payloads. It has two shells: an HTTP server (\<open>packages/guardian\<close>) and a coordinator
  (\<open>packages/guardian-coordinator\<close>) that polls an API for open signing requests, signs them in
  process and submits the signatures. Both call one of four sign functions (A.1 request
  binding, A.2 fund binding, A.3 swap, A.4 whitelisting), each of which runs its check runner
  (\<open>packages/guardian-defaults\<close>), reads the EIP-712 domain of the verifying contract, builds
  the payload and asks a signer. Every \<open>src/packages\<close> file that takes a decision has a model
  here; definitions keep the names of the source.

  \<^bold>\<open>How the code is modelled.\<close> Interfaces and objects are records, unions are datatypes, zod
  schemas are functions into \<open>option\<close>. \<open>bigint\<close> is \<open>int\<close>; \<open>number\<close> is \<open>jsnum\<close> (a finite double is
  the rational it denotes, with infinities and NaN apart); strings are lists of Latin-1 code
  units; \<open>Map\<close> is an association list in insertion order. \<open>async\<close> code that awaits its calls in
  sequence is a state monad over an arbitrary world \<open>'w\<close>, so that every answer of a node, cache, signer or
  server may depend on all that happened before. An exception is \<open>Inl\<close> of \<open>raised\<close>, an \<open>Err\<close> of
  \<open>better-result\<close> is \<open>Inl\<close> of \<open>guardian_error\<close>. Where promises overlap (the deadline race, the
  rate-limit queue) the model is an inductive step relation.

  \<^bold>\<open>Theories.\<close>
  \<^item> \<open>Prelude\<close>, \<open>Json\<close>, \<open>Js_Text\<close>: strings, numbers, documents, \<open>Map\<close>, the monad with its rules
    (\<open>pred_state\<close>: what every result satisfies; \<open>hoare\<close>: from a world to a world).
  \<^item> \<open>Errors\<close> (\<open>errors/\<close>, \<open>lib/checks.ts\<close>): check entries, tagged errors, the envelope. \<open>Schemas\<close>
    (\<open>schemas/\<close>): the bodies of the four endpoints, with their round trip. \<open>Helpers\<close>
    (\<open>checks/helpers.ts\<close>): roll-up, membership, tolerance, nonce window.
  \<^item> \<open>Role_Events\<close> (\<open>checks/role-events.ts\<close>): the backward log scan; it ends, and from a truthful node
    it reconstructs the role holders. \<open>Cache\<close> (\<open>cache/\<close>): schema-validated reads and the in-memory cache, which
    meets the locale \<open>cache_contract\<close>. \<open>Rate_Limit\<close> (\<open>rate-limit/\<close>): the store refines a fixed window, and
    the per-key queue of the fallback as a step relation.
  \<^item> \<open>Request_Binding\<close>, \<open>Fund_Binding\<close>, \<open>Swap_Checks\<close>, \<open>Whitelisting\<close> (\<open>checks/intent-*.ts\<close>,
    \<open>request-whitelisting.ts\<close>): the four check runners, with what an approval says of the chain.
  \<^item> \<open>Typed_Data\<close>, \<open>Eip712_Domain\<close>, \<open>Sign_Runners\<close> (\<open>typed-data/\<close>, \<open>lib/eip712-domain.ts\<close>): payloads, the
    domain read and the sign functions; the locale \<open>check_runner\<close> is what a runner owes its caller.
  \<^item> \<open>Deadline\<close>, \<open>Auth\<close>, \<open>Gates\<close>, \<open>Server\<close> (\<open>lib/deadline.ts\<close>, \<open>plugins/\<close>, \<open>routes/\<close>, \<open>server.ts\<close>,
    \<open>lib/signing.ts\<close>): deadlines, authentication, body and header gates, the error handler and the six
    routes. \<open>Shipped\<close>: the server over the sign functions above; the locale \<open>signing_endpoint\<close> is the
    contract of a route's sign function. \<open>Chain_Approval\<close>: what an answer of any of the four means for the state of
    the chain its request names.
  \<^item> \<open>Coordinator_Config\<close>, \<open>Coordinator\<close>, \<open>Coordinator_Calls\<close> (\<open>guardian-coordinator/src/index.ts\<close>): the environment
    readers and allow-list maps; the poll loop with its counters, give-up map and heartbeat; what it puts on the wire,
    and which earlier answer each call rests on.
    \<open>Whitelist_Nonces\<close> (\<open>whitelist-nonces.ts\<close>): candidate nonces and the advance of the nonce floor. \<open>Key_Signers\<close>
    (\<open>kms-signers.ts\<close>, the remote signer of \<open>cli.ts\<close>): the signers without a key, all under the locale
    \<open>verified_signer\<close>. \<open>Assembly\<close> (\<open>cli.ts\<close>): \<open>buildGuardianFromEnv\<close> and \<open>main\<close>, what an accepted configuration
    guarantees and what the assembled guardian signs; \<open>Assembly_Frame\<close>: the parts of the world it leaves alone.
  \<^item> \<open>Release_Manifests\<close> (\<open>scripts/rewrite-workspace-deps.ts\<close>): the publish step, equal to a declarative form of
    each manifest. \<open>Fixture_Artifacts\<close> (\<open>scripts/extract-contract-fixtures.ts\<close>): extraction and drift check of the
    contract fixtures, and the one against the other. \<open>Test_Stack\<close> (\<open>guardian-test-fixtures/src\<close>): the contracts
    of the integration tests; a deployment that succeeds did its plan and nothing else. \<open>Logging\<close> (\<open>logger/pino.ts\<close>): level
    and options of the logger.
  \<^item> this theory: the two end-to-end properties, one per shell, over all four kinds of request and any number of chains.

  \<^bold>\<open>Fuel and bounds.\<close> Loops over lists are structural recursion. The log scan is a \<open>function\<close> with its
  termination proof. The page loop of the poll and the process loop of the coordinator are not bounded by the code; they
  take fuel: \<open>poll_terminates\<close> shows that \<open>T + 1\<close> rounds are enough against a server whose pages are of a list
  of at most \<open>T\<close> requests, and that more fuel changes nothing; statements about the process hold for every
  number of cycles, and those about safety for every fuel. Limits of the code (body cap, \<open>2 ^ 31 - 1\<close> ms
  timers, \<open>2 ^ 256 - 1\<close>, batch and backlog caps) are written out.

  \<^bold>\<open>Parameters.\<close> viem (hashing, recovery, reads, clients), noble, the KMS clients, Elysia's phases, \<open>fetch\<close>, the URL
  parser, \<open>JSON.parse\<close>, HMAC-SHA-256, clock, timer, random ids, git and forge are arguments of the definitions that use them. What a
  theorem needs of them is a named hypothesis: a node whose answers are of one chain state (\<open>serves\<close>, \<open>honest_node\<close>,
  \<open>serves_nonces\<close>, and \<open>serves_chains\<close> for one client per chain), a server with consistent pages (\<open>bounded_server\<close>), calls that do not touch the coordinator API
  (\<open>quiet_lib\<close>) and a \<open>fetch\<close> whose exchanges, calls with their answers, can be read off the world (\<open>logged_fetcher\<close>, \<open>records_calls\<close>),
  so that a submission can be traced back to the listing it came from; each has a witness on concrete functions.

  \<^bold>\<open>Not modelled.\<close> Log lines (\<open>lib/logger.ts\<close>, \<open>plugins/logger.ts\<close>) decide nothing and are left out; what pino does with
  its redaction paths is pino's. Text becomes a number as \<open>Number\<close> reads it, rounded to the nearest double, ties to even;
  arithmetic on numbers is exact: the schemas keep those of a body below \<open>2 ^ 53\<close>, where the sums and
  products of the code are exact too; the paging product of a server that sends larger ones would be rounded. The route table
  matches paths exactly: Elysia's own \<open>/openapi\<close> route and its reading of a trailing slash are left out. A deadline is
  the task followed by the verdict of its timer; the race itself, in any order, is the step relation of \<open>Deadline\<close>. Strings
  outside Latin-1 are not modelled; the schemas keep them out of every body field that is looked into. The OpenAPI document,
  the ABI tables, the compiled artifacts and the re-exports of the packages hold no decision of the program. Abort signals stop
  on-chain work early; their effect on a call in flight is an arbitrary answer of that call.
\<close>

section \<open>End to end\<close>

text \<open>The schema and the scope of a signing route, and the success a body of its 200 carries.\<close>

fun parse_request :: "route \<Rightarrow> json \<Rightarrow> sign_request option" where
  "parse_request RequestBindingRoute j = map_option RequestBinding (zIntentRequestBindingBody j)"
| "parse_request FundBindingRoute j = map_option FundBinding (zIntentFundBindingBody j)"
| "parse_request SwapRoute j = map_option Swap (zIntentSwapBody j)"
| "parse_request WhitelistingRoute j = map_option Whitelisting (zRequestWhitelistingBody j)"
| "parse_request _ j = None"

fun route_scope :: "route \<Rightarrow> endpoint_scope option" where
  "route_scope RequestBindingRoute = Some IntentRequestBindings"
| "route_scope FundBindingRoute = Some IntentFundBindings"
| "route_scope SwapRoute = Some IntentSwaps"
| "route_scope WhitelistingRoute = Some RequestWhitelistings"
| "route_scope _ = None"

fun body_success :: "response_body \<Rightarrow> signing_success option" where
  "body_success (SigningBody s) = Some s"
| "body_success (WhitelistingBody s) = Some (signing_success.truncate s)"
| "body_success _ = None"

lemma signing_body_success: "signing_body v = Some b \<Longrightarrow> \<exists>s. body_success b = Some s \<and> lowered v s"
  by (auto simp: signing_body_def dest: zSigningSuccess_lowered)

lemma whitelisting_body_success: "whitelisting_body v = Some b \<Longrightarrow> \<exists>s. body_success b = Some s \<and> lowered v s"
  by (auto simp: whitelisting_body_def intro!: lowered_truncate zRequestWhitelistingResponse_lowered)

text \<open>
  What the derives did with the caller in a run from \<open>w\<close> to \<open>w'\<close>: the request id; \<open>authenticate\<close>
  answered this token, in time, for the bearer of the request; where the token asks for it, the HMAC
  of these bytes held at the time the clock then showed; the token has the scope of the route; and
  the rate limiter, if there is one, then admitted it.
\<close>

definition admitted_caller ::
    "('w, 'k) server_host \<Rightarrow> endpoint_scope \<Rightarrow> http_request \<Rightarrow> 8 word list \<Rightarrow> string \<Rightarrow> 'w \<Rightarrow> token_info \<Rightarrow> 'w \<Rightarrow> bool" where
  "admitted_caller host scope req raw requestId w token w' \<longleftrightarrow>
     (let auth = sh_auth host; hs = rq_headers req in
      \<exists>w1 bearer w2 w3.
        run_state (resolveRequestId (sh_randomUUID host) (map_of hs ''x-request-id'')) w = (requestId, w1) \<and>
        bearer_of hs bearer \<and>
        run_state (withAbstractionDeadline (ah_expires auth) ''authenticate'' (rt_authenticateMs (ah_timeouts auth))
          (ah_authenticate auth bearer)) w1 = (Inr (Inr token), w2) \<and>
        (if ti_requiresHmac token
         then \<exists>ms. run_state (ah_now auth) w2 = (ms, w3) \<and> hmac_ok (ah_hmacHex auth) hs raw ms token
         else w3 = w2) \<and>
        scope \<in> set (ti_scopes token) \<and>
        (case ah_accountRateLimit auth of
           None \<Rightarrow> w' = w3
         | Some account \<Rightarrow> \<exists>window.
             run_state (withAbstractionDeadline (ah_expires auth) ''accountRateLimit'' (rt_rateLimitMs (ah_timeouts auth))
               (account token)) w3 = (Inr (Inr window), w')))"

text \<open>The context the handler then signs in: no known outage, the client of the chain, and the time the clock showed.\<close>

definition signing_context ::
    "('w, 'k) server_host \<Rightarrow> string \<Rightarrow> token_info \<Rightarrow> 'w \<Rightarrow> 'k run_context \<Rightarrow> 'w \<Rightarrow> bool" where
  "signing_context host requestId token w ctx w' \<longleftrightarrow>
     rc_requestId ctx = requestId \<and> rc_tokenId ctx = ti_tokenId token \<and>
     (\<exists>w1 w2.
        (case sh_probeUpstream host of None \<Rightarrow> w1 = w | Some probe \<Rightarrow> run_state probe w = (Inr (Inr ()), w1)) \<and>
        run_state (sh_getChainClient host (rc_chainId ctx)) w1 = (Inr (Inr (rc_client ctx)), w2) \<and>
        run_state (ah_now (sh_auth host)) w2 = (rc_now ctx, w'))"

lemma guardian_context_install [simp]: "guardian_context (install sa host) ctx = guardian_context host ctx"
  by (simp add: guardian_context_def install_def)

lemma install_sel [simp]: "sh_decoder (install sa host) = sh_decoder host" "sh_maxBodyBytes (install sa host) = sh_maxBodyBytes host"
  "sh_auth (install sa host) = sh_auth host" "sh_signIntentRequestBinding (install sa host) = shipped_a1 sa"
  "sh_signIntentFundBinding (install sa host) = shipped_a2 sa" "sh_signIntentSwap (install sa host) = shipped_a3 sa"
  "sh_signRequestWhitelisting (install sa host) = shipped_a4 sa"
  "sh_randomUUID (install sa host) = sh_randomUUID host" "sh_probeUpstream (install sa host) = sh_probeUpstream host"
  "sh_getChainClient (install sa host) = sh_getChainClient host"
  by (simp_all add: install_def)

lemma approved_signature_install [simp]:
  "approved_signature sa (install sa' host) net request s td sig = approved_signature sa host net request s td sig"
  "serves_chains sa (install sa' host) net = serves_chains sa host net"
  by (simp_all add: approved_signature_def serves_chains_def)

lemma admitted_caller_install [simp]:
  "admitted_caller (install sa host) = admitted_caller host" "signing_context (install sa host) = signing_context host"
  by (simp_all add: admitted_caller_def signing_context_def fun_eq_iff)

lemma admitted_call_caller:
  assumes "admitted_call host scope parse req w body requestId token rh w'"
  shows "\<exists>raw j. onParse (sh_decoder host) (sh_maxBodyBytes host) req = Inr (raw, JsonDocument j) \<and> parse j = Some body \<and>
    admitted_caller host scope req raw requestId w token w'"
proof -
  from assms obtain raw j w1 where
    p: "onParse (sh_decoder host) (sh_maxBodyBytes host) req = Inr (raw, JsonDocument j)" "parse j = Some body" and
    i: "run_state (resolveRequestId (sh_randomUUID host) (map_of (rq_headers req) ''x-request-id'')) w = (requestId, w1)" and
    auth: "run_state (auth_derive (sh_auth host) scope (rq_headers req) raw
      (omap_set REQUEST_ID_HEADER requestId (version_header host))) w1 = ((rh, Inr token), w')"
    unfolding admitted_call_def by blast
  from auth [unfolded auth_derive_Inr] have "admitted_caller host scope req raw requestId w token w'"
    unfolding admitted_caller_def Let_def
    by (elim exE conjE) (intro exI conjI, rule i, assumption, assumption, assumption, assumption,
      cases "ah_accountRateLimit (sh_auth host)", auto)
  with p show ?thesis by blast
qed

lemma signed_call_signing:
  assumes "signed_call host sign chainId body requestId token w s w'"
  shows "\<exists>ctx w3 w4. signing_context host requestId token w ctx w3 \<and> rc_chainId ctx = chainId \<and>
    run_state (sign ctx body) w3 = (Inr (Inr s), w4)"
proof -
  from assms obtain w1 client w2 now w3 w4 where
    "case sh_probeUpstream host of None \<Rightarrow> w1 = w | Some probe \<Rightarrow> run_state probe w = (Inr (Inr ()), w1)"
    "run_state (sh_getChainClient host chainId) w1 = (Inr (Inr client), w2)" "run_state (ah_now (sh_auth host)) w2 = (now, w3)" and
    run: "run_state (sign \<lparr>rc_chainId = chainId, rc_client = client, rc_requestId = requestId, rc_tokenId = ti_tokenId token,
      rc_now = now\<rparr> body) w3 = (Inr (Inr s), w4)"
    unfolding signed_call_def by blast
  then have "signing_context host requestId token w \<lparr>rc_chainId = chainId, rc_client = client, rc_requestId = requestId,
      rc_tokenId = ti_tokenId token, rc_now = now\<rparr> w3"
    by (auto simp: signing_context_def)
  with run show ?thesis by (intro exI conjI) (assumption, simp, assumption)
qed

lemma signing_guardian_context: "signing_context host requestId token w ctx w' \<Longrightarrow> guardian_context host ctx"
  by (auto simp: signing_context_def guardian_context_def)

text \<open>What the answer of a signing route is worth in the context it was signed in.\<close>

definition approved_in ::
    "('w, 'k) shipped \<Rightarrow> (int \<Rightarrow> chain_state) \<Rightarrow> 'k run_context \<Rightarrow> sign_request \<Rightarrow> signing_success \<Rightarrow> guardian_typed_data \<Rightarrow> string \<Rightarrow> bool" where
  "approved_in sa net ctx request s td sig \<longleftrightarrow>
     rc_chainId ctx = request_chainId request \<and>
     policy_approves sa (net (request_chainId request)) (rc_now ctx) request (ss_checks s) \<and>
     payload_signed sa request td sig \<and>
     ss_signature s = toLowerCase sig \<and> ss_payloadHash s = toLowerCase (gt_payloadHash td) \<and>
     ss_guardian s = toLowerCase (sa_guardianSigner sa)"

lemma signed_approved_in:
  assumes "serves_chains sa host net" and "plain_runners sa" and "guardian_context host ctx"
    and "rc_chainId ctx = request_chainId request" and "\<And>b. request = Swap b \<Longrightarrow> wf_swap b"
    and "signed_answer sa ctx request v" and "lowered v s"
  shows "\<exists>td sig. approved_in sa net ctx request s td sig"
proof -
  have "policy_approves sa (net (rc_chainId ctx)) (rc_now ctx) request (ss_checks v)"
    using assms by (intro checks_approved) (auto simp: serves_chains_def signed_answer_def)
  with assms(3-) show ?thesis
    unfolding approved_in_def signed_answer_def lowered_def by metis
qed

lemma key_sel [simp]: "policy_approves (with_private_key key sa) = policy_approves sa"
  "serves_chains (with_private_key key sa) = serves_chains sa" "plain_runners (with_private_key key sa) = plain_runners sa"
  "sa_hashTypedData (with_private_key key sa) = sa_hashTypedData sa" "sa_guardianSigner (with_private_key key sa) = sa_guardianSigner sa"
  "sa_signTypedData (with_private_key key sa) = privateKeyToSignTypedData key"
proof -
  show "policy_approves (with_private_key key sa) = policy_approves sa"
  proof (intro ext)
    fix ch n r cs
    show "policy_approves (with_private_key key sa) ch n r cs = policy_approves sa ch n r cs"
      by (cases r) (simp_all add: with_private_key_def)
  qed
qed (simp_all add: with_private_key_def serves_chains_def serves_chain_def clocked_def plain_runners_def fun_eq_iff)

lemma privateKeyToSignTypedData_Inr:
  "run_state (privateKeyToSignTypedData key td) w = (Inr sig, w') \<longleftrightarrow> run_state (key td) w = (Inr sig, w')"
  by (auto simp: privateKeyToSignTypedData_def split: prod.splits sum.splits)

text \<open>One protected route, over what its sign function, schema and response do.\<close>

lemma protected_route_signed:
  assumes "find_route (rq_method req) (rq_path req) = Some r"
    and "\<And>rh. run_route host r req rh = protected_route host scope parse chainId sign schema req rh"
    and "run_state (serve host req) w = (resp, w')" and "rs_status resp = 200"
    and "\<And>j. parse_request r j = map_option mk (parse j)" and "route_scope r = Some scope"
    and "\<And>ctx body w v w'. run_state (sign ctx body) w = (Inr (Inr v), w') \<Longrightarrow> signed_answer sa ctx (mk body) v"
    and "\<And>body. chainId body = request_chainId (mk body)"
    and "\<And>v b. schema v = Some b \<Longrightarrow> \<exists>s. body_success b = Some s \<and> lowered v s"
    and "\<And>j body b. parse j = Some body \<Longrightarrow> mk body = Swap b \<Longrightarrow> wf_swap b"
    and "serves_chains sa host net" and "plain_runners sa"
  shows "\<exists>raw j request scope requestId token s ctx td sig wa wb.
    onParse (sh_decoder host) (sh_maxBodyBytes host) req = Inr (raw, JsonDocument j) \<and> parse_request r j = Some request \<and>
    route_scope r = Some scope \<and> admitted_caller host scope req raw requestId w token wa \<and>
    signing_context host requestId token wa ctx wb \<and>
    body_success (rs_body resp) = Some s \<and> approved_in sa net ctx request s td sig"
proof -
  from dispatch_protected [OF assms(1,2), THEN iffD1, OF conjI [OF assms(3,4)]]
  obtain body requestId token w1 v rh b where
    adm: "admitted_call host scope parse req w body requestId token rh w1" and
    sgn: "signed_call host sign (chainId body) body requestId token w1 v w'" and
    sch: "schema v = Some b" and resp: "resp = \<lparr>rs_status = 200, rs_headers = rh, rs_body = b\<rparr>"
    by blast
  from admitted_call_caller [OF adm] obtain raw j where
    parse: "onParse (sh_decoder host) (sh_maxBodyBytes host) req = Inr (raw, JsonDocument j)" "parse j = Some body" and
    caller: "admitted_caller host scope req raw requestId w token w1" by blast
  from signed_call_signing [OF sgn] obtain ctx w2 w3 where
    ctx: "signing_context host requestId token w1 ctx w2" "rc_chainId ctx = chainId body" and
    run: "run_state (sign ctx body) w2 = (Inr (Inr v), w3)"
    by blast
  from assms(9) [OF sch] obtain s where s: "body_success b = Some s" "lowered v s" by blast
  from ctx(2) have "rc_chainId ctx = request_chainId (mk body)" by (simp add: assms(8))
  from signed_approved_in [OF assms(11,12) signing_guardian_context [OF ctx(1)] this assms(10) [OF parse(2)] assms(7) [OF run] s(2)]
  obtain td sig where "approved_in sa net ctx (mk body) s td sig" by blast
  with parse caller ctx(1) s(1) assms(5,6) resp show ?thesis by fastforce
qed

text \<open>
  C1. What a signature from the server means. Take the server with the shipped sign functions and a
  local key, over chain clients each of which serves one state of its chain (any read may fail). If
  it answers 200 on one of the four signing routes, then in this very run: \<open>authenticate\<close> answered, for
  the bearer of the request, a token with the scope of that route; where the token asks for it, the
  HMAC of these very bytes held at the time the clock then showed; the rate limiter admitted that token;
  the body parsed under the schema of the route; the policy of its kind approved the request in the
  state of the request's own chain, at the time the clock showed after all of this; and the signature in
  the answer is what the key produced for the payload of this very request, whose digest and entries
  the answer carries.
\<close>

theorem end_to_end:
  assumes "find_route (rq_method req) (rq_path req) = Some r" and "r \<notin> {HealthRoute, VersionRoute}"
    and "run_state (serve (install (with_private_key key sa) host) req) w = (resp, w')" and "rs_status resp = 200"
    and "serves_chains sa host net" and "plain_runners sa"
  shows "\<exists>raw j request scope requestId token s ctx td sig nv wa wb w2 w3.
    onParse (sh_decoder host) (sh_maxBodyBytes host) req = Inr (raw, JsonDocument j) \<and> parse_request r j = Some request \<and>
    route_scope r = Some scope \<and> admitted_caller host scope req raw requestId w token wa \<and>
    signing_context host requestId token wa ctx wb \<and> rc_chainId ctx = request_chainId request \<and>
    body_success (rs_body resp) = Some s \<and>
    policy_approves sa (net (request_chainId request)) (rc_now ctx) request (ss_checks s) \<and>
    payload (sa_hashTypedData sa) (sa_guardianSigner sa) nv request = Inr td \<and>
    run_state (key (gt_typedData td)) w2 = (Inr sig, w3) \<and>
    ss_signature s = toLowerCase sig \<and> ss_payloadHash s = toLowerCase (gt_payloadHash td) \<and>
    ss_guardian s = toLowerCase (sa_guardianSigner sa)"
proof -
  let ?sa = "with_private_key key sa"
  let ?host = "install ?sa host"
  have nets: "serves_chains ?sa (install ?sa host) net" "plain_runners ?sa"
    using assms(5,6) by simp_all
  have "\<exists>raw j request scope requestId token s ctx td sig wa wb.
      onParse (sh_decoder host) (sh_maxBodyBytes host) req = Inr (raw, JsonDocument j) \<and> parse_request r j = Some request \<and>
      route_scope r = Some scope \<and> admitted_caller host scope req raw requestId w token wa \<and>
      signing_context host requestId token wa ctx wb \<and>
      body_success (rs_body resp) = Some s \<and> approved_in ?sa net ctx request s td sig"
  proof (cases r)
    case RequestBindingRoute
    have "run_route ?host r req rh = protected_route ?host IntentRequestBindings zIntentRequestBindingBody rb_chainId (shipped_a1 ?sa) signing_body req rh" for rh
      by (simp add: RequestBindingRoute)
    from protected_route_signed [where mk = RequestBinding, OF assms(1) this assms(3,4) _ _ shipped_signs(1) _ signing_body_success _ nets]
    show ?thesis by (simp add: RequestBindingRoute)
  next
    case FundBindingRoute
    have "run_route ?host r req rh = protected_route ?host IntentFundBindings zIntentFundBindingBody fb_chainId (shipped_a2 ?sa) signing_body req rh" for rh
      by (simp add: FundBindingRoute)
    from protected_route_signed [where mk = FundBinding, OF assms(1) this assms(3,4) _ _ shipped_signs(2) _ signing_body_success _ nets]
    show ?thesis by (simp add: FundBindingRoute)
  next
    case SwapRoute
    have "run_route ?host r req rh = protected_route ?host IntentSwaps zIntentSwapBody sw_chainId (shipped_a3 ?sa) signing_body req rh" for rh
      by (simp add: SwapRoute)
    from protected_route_signed [where mk = Swap, OF assms(1) this assms(3,4) _ _ shipped_signs(3) _ signing_body_success _ nets]
    show ?thesis by (simp add: SwapRoute zIntentSwapBody_wf)
  next
    case WhitelistingRoute
    have "run_route ?host r req rh = protected_route ?host RequestWhitelistings zRequestWhitelistingBody wl_chainId (shipped_a4 ?sa) whitelisting_body req rh" for rh
      by (simp add: WhitelistingRoute)
    from protected_route_signed [where mk = Whitelisting, OF assms(1) this assms(3,4) _ _ shipped_signs(4) _ whitelisting_body_success _ nets]
    show ?thesis by (simp add: WhitelistingRoute)
  qed (use assms(2) in simp_all)
  then show ?thesis
    unfolding approved_in_def payload_signed_def key_sel privateKeyToSignTypedData_Inr by blast
qed

definition ex_contract :: string where
  "ex_contract = ex_address (CHR ''a'')"

definition ex_chain_facts :: a1_facts where
  "ex_chain_facts = ex_facts\<lparr>af_history :=
     [\<lparr>log_address = ''0xF'', log_event = RequestCreated (Some ex_contract), log_blockNumber = 5, log_logIndex = 0\<rparr>,
      \<lparr>log_address = ex_contract, log_event = RolesUpdated (Some ''0xB'') (Some 1), log_blockNumber = 5, log_logIndex = 1\<rparr>,
      \<lparr>log_address = ex_contract, log_event = RolesUpdated (Some ''0xc'') (Some 2), log_blockNumber = 8, log_logIndex = 0\<rparr>]\<rparr>"

definition ex_shipped :: "(unit, unit) shipped" where
  "ex_shipped =
     \<lparr>sa_hashTypedData = \<lambda>_. ''0x'' @ replicate 64 (CHR ''d''), sa_guardianSigner = ex_address (CHR ''9''),
      sa_domainCache = None, sa_domainCacheTtlMs = None, sa_readDomain = \<lambda>_ _. ret (Inr ex_nv),
      sa_signTypedData = \<lambda>_. ret (Inr []),
      sa_view1 = \<lambda>ctx. ctx_of ex_chain_facts (rc_now ctx),
      sa_view2 = \<lambda>ctx. (ex_a2_ctx zeroAddress)\<lparr>a2_now := rc_now ctx\<rparr>, sa_view3 = \<lambda>ctx. ex_a3_ctx\<lparr>a3_now := rc_now ctx\<rparr>,
      sa_view4 = \<lambda>ctx. a1_ctx.extend (ctx_of ex_chain_facts (rc_now ctx)) \<lparr>a4_nonce_state = \<lambda>book signer n. ret (Inr (5, n = 6))\<rparr>,
      sa_a1 = ex_deps, sa_a2 = ex_a2_policy, sa_a3 = ex_a3_policy, sa_a4 = ex_a4_deps\<rparr>"

definition ex_net :: "int \<Rightarrow> chain_state" where
  "ex_net _ =
     \<lparr>ch_request = \<lambda>_. ex_chain_facts, ch_fund = \<lambda>_ _ _. ex_reads zeroAddress, ch_isPositionManager = \<lambda>c. snd c = ''0xpm'',
      ch_positionManager = \<lambda>_. \<lparr>pv_owner = ''0xow'', pv_collateralAsset = ''0xcc'', pv_debtAsset = ''0xdd'', pv_totalAssets = 2999,
        pv_totalSupply = 900, pv_mgmtFeeShares = 50, pv_perfFeeShares = 49, pv_virtualShareOffset = 1\<rparr>,
      ch_nonce = \<lambda>_ _ n. (5, n = 6)\<rparr>"

definition ex_key :: "typed_data \<Rightarrow> (unit, thrown + string) state" where
  "ex_key td = ret (Inr (''0x'' @ replicate 130 (CHR ''E'')))"

lemma ex_chain_deployed: "deployed_first ex_policy chainId q ex_chain_facts"
proof -
  have "is_deployment_log (a1_scan_args ex_policy fs q 10) l \<longrightarrow> l = hd (af_history ex_chain_facts)"
    if "l \<in> set (af_history ex_chain_facts)" for fs l
    using that by (auto simp: ex_chain_facts_def is_deployment_log_def)
  then show ?thesis
    by (auto simp: deployed_first_def deployed_before_roles_def ex_chain_facts_def ex_facts_def)
qed

lemma ex_serves_chains: "serves_chains ex_shipped host ex_net"
proof -
  have "history (a1_scan_args ex_policy [] [] (af_latest ex_chain_facts)) (af_history ex_chain_facts)" by code_simp
  then have h: "history (a1_scan_args ex_policy [] q (af_latest ex_chain_facts)) (af_history ex_chain_facts)" for q
    by (simp add: history_def a1_scan_args_def)
  have v4: "a1_ctx.truncate (sa_view4 ex_shipped ctx) = ctx_of ex_chain_facts (rc_now ctx)" for ctx
    by (simp add: ex_shipped_def a1_ctx.defs ctx_of_def)
  have p4: "a1_policy.truncate (wd_policy (sa_a4 ex_shipped)) = ex_policy"
    by (simp add: ex_shipped_def ex_a4_deps_def ex_a4_policy_def a1_policy.defs)
  have sel: "sa_view1 ex_shipped ctx = ctx_of ex_chain_facts (rc_now ctx)" "ad_policy (sa_a1 ex_shipped) = ex_policy" for ctx
    by (simp_all add: ex_shipped_def ex_deps_def)
  show ?thesis
    unfolding serves_chains_def serves_chain_def clocked_def v4 p4 sel
    by (auto simp: ex_net_def serves_ctx_of [OF h] ex_chain_deployed serves_pm_def)
      (auto simp: ex_shipped_def ex_a2_ctx_def ex_a3_ctx_def ex_reads_def ctx_of_def a1_ctx.defs)
qed

theorem end_to_end_witness:
  "\<exists>raw request requestId token s ctx wa. request_chainId request = 1 \<and>
     admitted_caller ex_server_host IntentRequestBindings ex_server_request raw requestId () token wa \<and> ti_tokenId token = ''t1'' \<and>
     policy_approves ex_shipped (ex_net 1) (rc_now ctx) request (ss_checks (s :: signing_success)) \<and>
     rc_now (ctx :: unit run_context) = 5000 \<and> rc_tokenId ctx = ''t1''"
proof -
  let ?host = "install (with_private_key ex_key ex_shipped) ex_server_host"
  have route: "find_route (rq_method ex_server_request) (rq_path ex_server_request) = Some RequestBindingRoute"
    by code_simp
  obtain resp u where run: "run_state (serve ?host ex_server_request) () = (resp, u)"
    by (meson surj_pair)
  have "rs_status (fst (run_state (serve ?host ex_server_request) ())) = 200"
    by code_simp
  then have ok: "rs_status resp = 200" by (simp add: run)
  have plain: "plain_runners ex_shipped"
    by (simp add: plain_runners_def ex_shipped_def ex_deps_def ex_a4_deps_def ex_a3_policy_def)
  have body: "case onParse (sh_decoder ex_server_host) (sh_maxBodyBytes ex_server_host) ex_server_request of
      Inr (raw, JsonDocument j) \<Rightarrow>
        (case parse_request RequestBindingRoute j of Some r \<Rightarrow> request_chainId r = 1 | None \<Rightarrow> False)
    | _ \<Rightarrow> False"
    by code_simp
  have clock: "signing_context ex_server_host i token w ctx w' \<Longrightarrow> rc_now ctx = 5000 \<and> rc_tokenId ctx = ti_tokenId token" for i token w ctx w'
    by (auto simp: signing_context_def ex_server_host_def)
  have token: "admitted_caller ex_server_host scope req raw i w token w' \<Longrightarrow> ti_tokenId token = ''t1''" for scope req raw i w token w'
    by (auto simp: admitted_caller_def ex_server_host_def withAbstractionDeadline_def Let_def split: if_splits)
  have "\<exists>raw j request requestId token s ctx wa wb.
      onParse (sh_decoder ex_server_host) (sh_maxBodyBytes ex_server_host) ex_server_request = Inr (raw, JsonDocument j) \<and>
      parse_request RequestBindingRoute j = Some request \<and>
      admitted_caller ex_server_host IntentRequestBindings ex_server_request raw requestId () token wa \<and>
      signing_context ex_server_host requestId token wa ctx wb \<and>
      policy_approves ex_shipped (ex_net (request_chainId request)) (rc_now ctx) request (ss_checks (s :: signing_success))"
    using end_to_end [OF route _ run ok ex_serves_chains plain] by fastforce
  then obtain raw j request requestId token ctx wa wb and s :: signing_success where
    j: "onParse (sh_decoder ex_server_host) (sh_maxBodyBytes ex_server_host) ex_server_request = Inr (raw, JsonDocument j)"
      "parse_request RequestBindingRoute j = Some request" and
    ok: "admitted_caller ex_server_host IntentRequestBindings ex_server_request raw requestId () token wa"
      "signing_context ex_server_host requestId token wa ctx wb"
      "policy_approves ex_shipped (ex_net (request_chainId request)) (rc_now ctx) request (ss_checks s)"
    by blast
  from body j have "request_chainId request = 1" by auto
  with ok clock [OF ok(2)] token [OF ok(1)] show ?thesis by metis
qed


section \<open>End to end through the coordinator\<close>

lemma expected_digest:
  "vouched sent g past request parsed success \<Longrightarrow> ss_payloadHash success = toLowerCase h \<Longrightarrow>
   toLowerCase h = toLowerCase (sr_payloadHash request)"
  unfolding vouched_def by (metis toLowerCase_idem)

lemma settled_swap:
  assumes "admissible opts request parsed" and "settled sent opts L before request parsed request' (ParsedSwap b)"
  shows "wf_swap b"
proof -
  from assms(2) have "parsed = ParsedSwap b" by (auto simp: settled_def split: if_splits)
  with assms(1) show ?thesis
    by (cases "sr_kind request") (auto simp: admissible_def parseSigningBody_def bind_eq_Some_conv dest: zIntentSwapBody_wf)
qed

text \<open>
  A submission, after the exchanges \<open>L @ before\<close>, for a request listed in them, that carries the
  configured signer's answer to the payload of the body of this very item, which the policy approved.
\<close>

definition backed_submission ::
    "('w \<Rightarrow> exchange list) \<Rightarrow> ('w, 'k) assembly_lib \<Rightarrow> env \<Rightarrow> ('w, 'k) guardian_parts \<Rightarrow> ('w, 'k) coordinator_options \<Rightarrow>
     (int \<Rightarrow> chain_state) \<Rightarrow> exchange list \<Rightarrow> exchange list \<Rightarrow> api_call \<Rightarrow> bool" where
  "backed_submission sent lib env p opts net L before call \<longleftrightarrow>
     (\<exists>request parsed request' parsed' success base td sig.
        listed opts before request \<and> admissible opts request parsed \<and>
        settled sent opts L before request parsed request' parsed' \<and>
        vouched sent (co_guardian opts) (L @ before) request' parsed' success \<and>
        call = put_call opts (sr_id request) ''submission''
          (submission_body (independent_nonce request parsed) parsed' success) base \<and>
        approved_signature (shipped_of lib p) (cg_host (guardian_of lib env p)) net (request_of parsed') success td sig \<and>
        toLowerCase (gt_payloadHash td) = toLowerCase (sr_payloadHash request') \<and>
        (keyless env \<longrightarrow> recovers_to (al_signerLib lib) (gt_payloadHash td) sig (ls_guardianSigner (gp_signer p))))"

lemma submission_backed:
  assumes "guardian_parts lib env = Inr p" and "co_guardian opts = guardian_of lib env p"
    and "serves_chains (shipped_of lib p) (cg_host (guardian_of lib env p)) net"
    and "submission_justified sent opts L before call"
  shows "backed_submission sent lib env p opts net L before call"
proof -
  from assms(4) obtain request parsed request' parsed' success base where
    a: "listed opts before request" "admissible opts request parsed" "settled sent opts L before request parsed request' parsed'" and
    v: "vouched sent (co_guardian opts) (L @ before) request' parsed' success" and
    c: "call = put_call opts (sr_id request) ''submission''
        (submission_body (independent_nonce request parsed) parsed' success) base"
    unfolding submission_justified_def by blast
  from v obtain rid w1 w2 where run: "run_state (sign_parsed (guardian_of lib env p) rid parsed') w1 = (Inr success, w2)"
    unfolding vouched_def assms(2) by blast
  have "\<And>b. parsed' = ParsedSwap b \<Longrightarrow> wf_swap b" using settled_swap [OF a(2)] a(3) by blast
  from sign_parsed_approved [OF run assms(3) shipped_plain [OF assms(1)] this] obtain td sig where
    s: "approved_signature (shipped_of lib p) (cg_host (guardian_of lib env p)) net (request_of parsed') success td sig"
    by blast
  then have k: "payload_signed (shipped_of lib p) (request_of parsed') td sig" "ss_payloadHash success = toLowerCase (gt_payloadHash td)"
    by (simp_all add: approved_signature_def)
  show ?thesis
    unfolding backed_submission_def
    using a v c s expected_digest [OF v k(2)] keyless_recovers [OF assms(1) _ k(1)] by blast
qed

text \<open>
  C2. What the process submits. Let \<open>main\<close> have accepted the environment, and let each chain client
  serve one state of its chain (any read may fail). Whatever the coordinator puts on the wire over any
  number of cycles, in whatever order pages, items and failures come, is a listing, a reservation of
  nonces found for an admissible request, or a submission for an admissible request; and the request
  is an item of a listing page the process received before. A submission comes after the configured
  policy of its kind approved the body of that item in the state of its own chain, at a time the clock
  showed; it carries the lower-case form of what the configured signer answered for the payload of this
  very body, whose digest is the one the item names (for a body without a nonce: the digest the server
  reserved for it, with a nonce of those offered); and, if the guardian holds no key itself, that
  signature was seen to recover to the guardian's address for this digest.
\<close>

theorem coordinator_end_to_end:
  assumes "main lib fetch parseJson sleep env = Inr (line, opts)" and "guardian_parts lib env = Inr p"
    and "quiet_lib sent lib" and "logged_fetcher sent opts" and "\<And>ms L. keeps (\<lambda>w. sent w = L) (sleep ms)"
    and "run_state (runGuardianCoordinator fuel n opts []) w = (stats, w')"
    and "serves_chains (shipped_of lib p) (cg_host (guardian_of lib env p)) net"
  shows "\<exists>new. sent w' = sent w @ new \<and>
    (\<forall>before call answer after. new = before @ (call, answer) # after \<longrightarrow>
       listing opts call \<or> reservation_justified sent opts (sent w) before call \<or>
       backed_submission sent lib env p opts net (sent w) before call)"
proof -
  have g: "co_guardian opts = guardian_of lib env p" and s: "co_sleep opts = sleep"
    using main_Inr [OF assms(1)] assms(2) by auto
  have "records_calls sent opts" by (rule assembled_records_calls [OF assms(2) g assms(3,4)])
  from process_calls [OF this _ assms(6)] assms(5) obtain new where
    "sent w' = sent w @ new" "in_order (allowed_call sent opts (sent w)) new" by (auto simp: s)
  then show ?thesis
    using submission_backed [OF assms(2) g assms(7)] unfolding in_order_def allowed_call_def by blast
qed

text \<open>The process of \<open>ex_env\<close>, for one cycle over the two requests of \<open>ex_page\<close>.\<close>

lemma ex_quiet_lib: "quiet_lib (\<lambda>sent. sent) ex_lib"
  by (simp add: quiet_lib_def lib_keeps_def signing_keeps_def views_keep_def process_keeps_def nonce_client_keeps_def
      client_keeps_def scan_keeps_def ex_lib_def ex_coord_host_def ex_live_client_def ctx_of_def scan_io.defs a1_ctx.defs keeps_ret)

lemma ex_logged_fetcher: "logged_fetcher (\<lambda>sent. sent) ex_live_options"
  by (simp add: logged_fetcher_def ex_live_options_def ex_options_def hoare_def Let_def)

lemma ex_live_deployed: "deployed_first (gp_a1 ex_gp) chainId q ex_live_facts"
proof -
  have "is_deployment_log (a1_scan_args (gp_a1 ex_gp) fs q 10) l \<longrightarrow> l = hd (af_history ex_live_facts)"
    if "l \<in> set (af_history ex_live_facts)" for fs l
    using that by (auto simp: ex_live_facts_def is_deployment_log_def)
  then show ?thesis
    by (auto simp: deployed_first_def deployed_before_roles_def ex_live_facts_def)
qed

definition ex_live_net :: "int \<Rightarrow> chain_state" where
  "ex_live_net _ = (ex_net 1)\<lparr>ch_request := \<lambda>_. ex_live_facts, ch_nonce := \<lambda>_ _ _. (0, False)\<rparr>"

lemma ex_live_chains: "serves_chains (shipped_of ex_lib ex_gp) host ex_live_net"
proof -
  let ?sa = "shipped_of ex_lib ex_gp"
  have "history (a1_scan_args (gp_a1 ex_gp) [] [] (af_latest ex_live_facts)) (af_history ex_live_facts)" by code_simp
  then have h: "history (a1_scan_args (gp_a1 ex_gp) [] q (af_latest ex_live_facts)) (af_history ex_live_facts)" for q
    by (simp add: history_def a1_scan_args_def)
  have v4: "a1_ctx.truncate (sa_view4 ?sa ctx) = ctx_of ex_live_facts (rc_now ctx)" for ctx
    by (simp add: shipped_of_def ex_lib_def a1_ctx.defs ctx_of_def)
  have p4: "a1_policy.truncate (wd_policy (sa_a4 ?sa)) = gp_a1 ex_gp"
    by (simp add: shipped_of_def whitelistPolicy_def a1_policy.defs)
  have sel: "sa_view1 ?sa ctx = ctx_of ex_live_facts (rc_now ctx)" "ad_policy (sa_a1 ?sa) = gp_a1 ex_gp" for ctx
    by (simp_all add: shipped_of_def ex_lib_def)
  show ?thesis
    unfolding serves_chains_def serves_chain_def clocked_def v4 p4 sel
    by (auto simp: ex_live_net_def serves_ctx_of [OF h] ex_live_deployed serves_pm_def)
      (auto simp: shipped_of_def ex_lib_def ctx_of_def a1_ctx.defs)
qed

theorem coordinator_end_to_end_witness:
  "\<exists>get page put answer.
     snd (run_state (runGuardianCoordinator 5 1 ex_live_options []) []) = [(get, page), (put, answer)] \<and>
     backed_submission (\<lambda>sent. sent) ex_lib ex_env ex_gp ex_live_options ex_live_net [] [(get, page)] put"
proof -
  obtain stats sent' where run: "run_state (runGuardianCoordinator 5 1 ex_live_options []) [] = (stats, sent')"
    by (metis surj_pair)
  have "map (\<lambda>c. (ac_method (fst c), last (ac_url (fst c))))
      (snd (run_state (runGuardianCoordinator 5 1 ex_live_options []) [])) = [(''GET'', CHR ''s''), (''PUT'', CHR ''n'')]"
    by code_simp
  with run have "map (\<lambda>c. (ac_method (fst c), last (ac_url (fst c)))) sent' = [(''GET'', CHR ''s''), (''PUT'', CHR ''n'')]" by simp
  then obtain get page put answer where s: "sent' = [(get, page), (put, answer)]" "ac_method put = ''PUT''" "last (ac_url put) = CHR ''n''"
    by auto
  have sleep: "keeps (\<lambda>w. w = L) (co_sleep ex_options ms)" for L ms by (simp add: ex_options_def keeps_ret)
  from coordinator_end_to_end [OF ex_main ex_parts ex_quiet_lib ex_logged_fetcher sleep run ex_live_chains]
  have "\<forall>before call answer after. sent' = before @ (call, answer) # after \<longrightarrow>
      listing ex_live_options call \<or> reservation_justified (\<lambda>sent. sent) ex_live_options [] before call \<or>
      backed_submission (\<lambda>sent. sent) ex_lib ex_env ex_gp ex_live_options ex_live_net [] before call" by simp
  from this [rule_format, of "[(get, page)]" put answer "[]"]
  have "backed_submission (\<lambda>sent. sent) ex_lib ex_env ex_gp ex_live_options ex_live_net [] [(get, page)] put"
    using s not_reserving [OF s(3)] not_listing [OF s(2)] by (simp only: s append.simps) blast
  then show ?thesis using run s(1) by auto
qed

end
